(* ===== verification/Prelude.thy ===== *)
theory Prelude
  imports Complex_Main "HOL-Library.Word"
begin

text \<open>
  Shared vocabulary of the development: the fixed-width integer ranges of the C++ code, the
  operations of \<^verbatim>\<open>std::string\<close> and \<^verbatim>\<open>std::string_view\<close> that the sources use, the
  \<^verbatim>\<open><cctype>\<close> classification of the C locale, and the lemma collections that carry the
  component proofs.  A C++ \<open>string\<close> is a list of bytes, hence a HOL \<open>string\<close>; raw byte buffers
  (\<^verbatim>\<open>uint8_t*\<close>) are lists of \<open>8 word\<close>.
\<close>

named_theorems str_defs \<open>unfolding of the string operations\<close>
named_theorems json_defs \<open>unfolding of the document accessors\<close>

type_synonym byte = "8 word"
type_synonym headers = "(string \<times> string) list"

section \<open>Integer ranges\<close>

definition int32_max :: int where "int32_max = 2147483647"
definition int32_min :: int where "int32_min = - 2147483648"
definition int64_max :: int where "int64_max = 9223372036854775807"
definition int64_min :: int where "int64_min = - 9223372036854775808"

definition in_int32 :: "int \<Rightarrow> bool" where
  "in_int32 i \<longleftrightarrow> int32_min \<le> i \<and> i \<le> int32_max"

definition in_int64 :: "int \<Rightarrow> bool" where
  "in_int64 i \<longleftrightarrow> int64_min \<le> i \<and> i \<le> int64_max"

text \<open>\<^verbatim>\<open>static_cast<int>\<close> of a wider integer: reduction modulo \<open>2^32\<close> into the signed range.\<close>

definition to_int32 :: "int \<Rightarrow> int" where
  "to_int32 i = (i + 2147483648) mod 4294967296 - 2147483648"

definition to_int64 :: "int \<Rightarrow> int" where
  "to_int64 i = (i + 9223372036854775808) mod 18446744073709551616 - 9223372036854775808"

lemmas int_bounds = int32_max_def int32_min_def int64_max_def int64_min_def
  in_int32_def in_int64_def

lemma to_int32_id [simp]: "in_int32 i \<Longrightarrow> to_int32 i = i"
  by (simp add: to_int32_def int_bounds)

lemma to_int32_range: "in_int32 (to_int32 i)"
proof -
  have "0 \<le> (i + 2147483648) mod 4294967296" "(i + 2147483648) mod 4294967296 < 4294967296"
    by simp_all
  then show ?thesis by (simp add: to_int32_def int_bounds)
qed

lemma in_int32_imp_int64: "in_int32 i \<Longrightarrow> in_int64 i"
  by (simp add: int_bounds)

section \<open>Characters\<close>

definition byte_of :: "char \<Rightarrow> nat" where
  "byte_of c = of_char c"

definition is_digit :: "char \<Rightarrow> bool" where
  "is_digit c \<longleftrightarrow> 48 \<le> byte_of c \<and> byte_of c \<le> 57"

definition is_lower :: "char \<Rightarrow> bool" where
  "is_lower c \<longleftrightarrow> 97 \<le> byte_of c \<and> byte_of c \<le> 122"

definition is_upper :: "char \<Rightarrow> bool" where
  "is_upper c \<longleftrightarrow> 65 \<le> byte_of c \<and> byte_of c \<le> 90"

definition is_alnum :: "char \<Rightarrow> bool" where
  "is_alnum c \<longleftrightarrow> is_lower c \<or> is_upper c \<or> is_digit c"

text \<open>\<^verbatim>\<open>std::isspace\<close>: space, tab, newline, vertical tab, form feed, carriage return.\<close>

definition is_space :: "char \<Rightarrow> bool" where
  "is_space c \<longleftrightarrow> byte_of c = 32 \<or> (9 \<le> byte_of c \<and> byte_of c \<le> 13)"

definition to_lower :: "char \<Rightarrow> char" where
  "to_lower c = (if is_upper c then char_of (byte_of c + 32) else c)"

definition lower :: "string \<Rightarrow> string" where
  "lower s = map to_lower s"

lemmas char_defs = byte_of_def is_digit_def is_lower_def is_upper_def is_alnum_def
  is_space_def

lemma byte_of_less: "byte_of c < 256"
  using nat_of_char_less_256[of c] by (simp add: byte_of_def)

lemma byte_of_inject [simp]: "byte_of a = byte_of b \<longleftrightarrow> a = b"
  by (simp add: byte_of_def)

lemma byte_of_char_of [simp]: "n < 256 \<Longrightarrow> byte_of (char_of n) = n"
  by (simp add: byte_of_def)

lemma not_upper_to_lower [simp]: "\<not> is_upper (to_lower c)"
  by (auto simp: to_lower_def is_upper_def)

lemma to_lower_idem [simp]: "to_lower (to_lower c) = to_lower c"
  by (simp add: to_lower_def [of "to_lower c"])

lemma lower_idem [simp]: "lower (lower s) = lower s"
  by (simp add: lower_def)

lemma length_lower [simp]: "length (lower s) = length s"
  by (simp add: lower_def)

section \<open>Strings\<close>

definition starts_with :: "string \<Rightarrow> string \<Rightarrow> bool" where
  "starts_with s p \<longleftrightarrow> take (length p) s = p"

definition ends_with :: "string \<Rightarrow> string \<Rightarrow> bool" where
  "ends_with s p \<longleftrightarrow> length p \<le> length s \<and> drop (length s - length p) s = p"

text \<open>\<^verbatim>\<open>find\<close> from position 0; a search from position \<open>n\<close> is a search in \<open>drop n\<close>.\<close>

fun find_sub :: "string \<Rightarrow> string \<Rightarrow> nat option" where
  "find_sub pat [] = (if pat = [] then Some 0 else None)"
| "find_sub pat (c # cs) =
     (if starts_with (c # cs) pat then Some 0 else map_option Suc (find_sub pat cs))"

definition find_char :: "char \<Rightarrow> string \<Rightarrow> nat option" where
  "find_char c s = find_sub [c] s"

definition contains :: "string \<Rightarrow> string \<Rightarrow> bool" where
  "contains s pat \<longleftrightarrow> find_sub pat s \<noteq> None"

text \<open>
  A C string ends at its first NUL byte: this is what constructing a \<^verbatim>\<open>std::string\<close> from a
  \<^verbatim>\<open>const char*\<close> keeps.
\<close>

definition cstr :: "string \<Rightarrow> string" where
  "cstr s = takeWhile (\<lambda>c. c \<noteq> CHR 0x00) s"

text \<open>\<open>trim_front c\<close> and \<open>trim_back c\<close>: the \<^verbatim>\<open>remove_prefix\<close> and \<^verbatim>\<open>remove_suffix\<close> loops.\<close>

definition trim_front :: "(char \<Rightarrow> bool) \<Rightarrow> string \<Rightarrow> string" where
  "trim_front P s = dropWhile P s"

definition trim_back :: "(char \<Rightarrow> bool) \<Rightarrow> string \<Rightarrow> string" where
  "trim_back P s = rev (dropWhile P (rev s))"

text \<open>\<open>split_at_char c s\<close>: the part before the first \<open>c\<close> and, if there is one, the part after it.\<close>

definition split_at_char :: "char \<Rightarrow> string \<Rightarrow> string \<times> string option" where
  "split_at_char c s =
     (case find_char c s of None \<Rightarrow> (s, None) | Some i \<Rightarrow> (take i s, Some (drop (Suc i) s)))"

text \<open>\<^verbatim>\<open>std::to_string\<close> of a non-negative number.\<close>

fun to_string :: "nat \<Rightarrow> string" where
  "to_string n = (if n < 10 then [char_of (48 + n)] else to_string (n div 10) @ [char_of (48 + n mod 10)])"

declare to_string.simps [simp del]

text \<open>The value of a sequence of decimal digits.\<close>

definition digits_value :: "string \<Rightarrow> int" where
  "digits_value s = fold (\<lambda>c acc. acc * 10 + (int (byte_of c) - 48)) s 0"

text \<open>
  \<^verbatim>\<open>strtol(s, &end, 10)\<close> on a 64-bit platform: the value and the text from \<open>end\<close> on.  Space is
  skipped, one sign is accepted, values outside the range of \<^verbatim>\<open>long\<close> saturate, and without digits
  nothing is consumed.
\<close>

definition strtol10 :: "string \<Rightarrow> int \<times> string" where
  "strtol10 s =
     (let t = trim_front is_space s;
          signed = (t \<noteq> [] \<and> (hd t = CHR ''-'' \<or> hd t = CHR ''+''));
          u = (if signed then tl t else t);
          ds = takeWhile is_digit u;
          v = (if signed \<and> hd t = CHR ''-'' then - digits_value ds else digits_value ds)
      in if ds = [] then (0, s) else (max int64_min (min int64_max v), dropWhile is_digit u))"

lemmas [str_defs] = starts_with_def ends_with_def find_char_def contains_def

lemma starts_with_Nil [simp]: "starts_with s []"
  by (simp add: starts_with_def)

lemma starts_with_append [simp]: "starts_with (p @ s) p"
  by (simp add: starts_with_def)

lemma starts_with_iff: "starts_with s p \<longleftrightarrow> (\<exists>t. s = p @ t)"
  by (metis append_take_drop_id starts_with_append starts_with_def)

lemma ends_with_append [simp]: "ends_with (s @ p) p"
  by (simp add: ends_with_def)

lemma ends_with_iff: "ends_with s p \<longleftrightarrow> (\<exists>t. s = t @ p)"
  by (metis append_take_drop_id ends_with_append ends_with_def)

lemma cstr_Nil [simp]: "cstr [] = []"
  by (simp add: cstr_def)

lemma cstr_Cons [simp]: "cstr (c # s) = (if c = CHR 0x00 then [] else c # cstr s)"
  by (simp add: cstr_def)

lemma cstr_idem [simp]: "cstr (cstr s) = cstr s"
  by (simp add: cstr_def takeWhile_idem)

lemma cstr_id_iff: "cstr s = s \<longleftrightarrow> CHR 0x00 \<notin> set s"
  by (auto simp: cstr_def takeWhile_eq_all_conv)

lemma find_sub_Some_iff:
  "find_sub pat s = Some i \<longleftrightarrow>
     i \<le> length s \<and> starts_with (drop i s) pat \<and> (\<forall>j<i. \<not> starts_with (drop j s) pat)"
proof (induction s arbitrary: i)
  case Nil
  then show ?case by (auto simp: starts_with_def)
next
  case (Cons c cs)
  show ?case
    by (cases i) (auto simp: Cons.IH less_Suc_eq_0_disj)
qed

lemma find_sub_None_iff:
  "find_sub pat s = None \<longleftrightarrow> (\<forall>j\<le>length s. \<not> starts_with (drop j s) pat)"
proof (induction s)
  case Nil
  then show ?case by (auto simp: starts_with_def)
next
  case (Cons c cs)
  have "(\<forall>j\<le>length (c # cs). \<not> starts_with (drop j (c # cs)) pat) \<longleftrightarrow>
      \<not> starts_with (c # cs) pat \<and> (\<forall>j\<le>length cs. \<not> starts_with (drop j cs) pat)"
    (is "?l = ?r")
  proof
    assume ?l
    then show ?r by (metis Suc_le_mono drop0 drop_Suc_Cons le0 length_Cons)
  next
    assume r: ?r
    show ?l
    proof (intro allI impI)
      fix j assume "j \<le> length (c # cs)"
      with r show "\<not> starts_with (drop j (c # cs)) pat" by (cases j) auto
    qed
  qed
  with Cons.IH show ?case by simp
qed

lemma find_sub_bound:
  assumes "find_sub pat s = Some i"
  shows "i + length pat \<le> length s"
proof -
  from assms have "i \<le> length s" and "starts_with (drop i s) pat"
    by (simp_all add: find_sub_Some_iff)
  then obtain t where "drop i s = pat @ t"
    by (auto simp: starts_with_iff)
  then have "length (drop i s) = length pat + length t" by simp
  with \<open>i \<le> length s\<close> show ?thesis by simp
qed

lemma find_char_None: "find_char c s = None \<longleftrightarrow> c \<notin> set s"
proof (induction s)
  case (Cons x xs)
  then show ?case by (auto simp: find_char_def starts_with_def)
qed (simp add: find_char_def)

lemma find_char_takeWhile:
  "find_char c s = (if c \<in> set s then Some (length (takeWhile (\<lambda>x. x \<noteq> c) s)) else None)"
proof (induction s)
  case (Cons x xs)
  then show ?case by (auto simp: find_char_def starts_with_def)
qed (simp add: find_char_def)

lemma split_at_char_eq:
  "split_at_char c s =
     (takeWhile (\<lambda>x. x \<noteq> c) s,
      if c \<in> set s then Some (tl (dropWhile (\<lambda>x. x \<noteq> c) s)) else None)"
proof -
  let ?t = "takeWhile (\<lambda>x. x \<noteq> c) s" and ?d = "dropWhile (\<lambda>x. x \<noteq> c) s"
  have s: "?t @ ?d = s" by simp
  have "take (length ?t) s = ?t" and "drop (length ?t) s = ?d"
    by (metis append_eq_conv_conj s)+
  moreover have "?t = s" if "c \<notin> set s"
    using that by (induction s) auto
  ultimately show ?thesis
    by (simp add: split_at_char_def find_char_takeWhile drop_Suc drop_tl
        split: option.split del: takeWhile_eq_all_conv)
qed

lemma trim_front_idem [simp]: "trim_front P (trim_front P s) = trim_front P s"
  by (simp add: trim_front_def)

lemma set_trim_front: "set (trim_front P s) \<subseteq> set s"
  by (auto simp: trim_front_def dest: set_dropWhileD)

lemma set_trim_back: "set (trim_back P s) \<subseteq> set s"
  by (auto simp: trim_back_def dest: set_dropWhileD)

lemma to_string_digits: "c \<in> set (to_string n) \<Longrightarrow> is_digit c"
proof (induction n rule: to_string.induct)
  case (1 n)
  then show ?case by (subst (asm) to_string.simps) (auto simp: is_digit_def split: if_splits)
qed

section \<open>Results with an error value\<close>

text \<open>Sequencing of computations that may stop with an error.\<close>

definition res_bind :: "'e + 'a \<Rightarrow> ('a \<Rightarrow> 'e + 'b) \<Rightarrow> 'e + 'b" where
  "res_bind r f = (case r of Inl e \<Rightarrow> Inl e | Inr a \<Rightarrow> f a)"

lemma res_bind_simps [simp]:
  "res_bind (Inl e) f = Inl e"
  "res_bind (Inr a) f = f a"
  by (simp_all add: res_bind_def)

lemma res_bind_Inr_iff: "res_bind r f = Inr b \<longleftrightarrow> (\<exists>a. r = Inr a \<and> f a = Inr b)"
  by (auto simp: res_bind_def split: sum.splits)

text \<open>A loop over a list whose body may fail; the error stops the loop.\<close>

fun res_fold :: "('a \<Rightarrow> 's \<Rightarrow> 'e + 's) \<Rightarrow> 'a list \<Rightarrow> 's \<Rightarrow> 'e + 's" where
  "res_fold f [] s = Inr s"
| "res_fold f (x # xs) s = res_bind (f x s) (res_fold f xs)"

lemma res_fold_append:
  "res_fold f (xs @ ys) s = res_bind (res_fold f xs s) (res_fold f ys)"
  by (induction xs arbitrary: s) (auto simp: res_bind_def split: sum.splits)

lemma res_fold_total:
  assumes "\<And>x s. x \<in> set xs \<Longrightarrow> \<exists>s'. f x s = Inr s'"
  shows "\<exists>s'. res_fold f xs s = Inr s'"
  using assms
proof (induction xs arbitrary: s)
  case (Cons x xs)
  from Cons.prems [of x s] obtain s1 where "f x s = Inr s1" by auto
  with Cons show ?case by simp
qed simp

text \<open>Decimal numerals determine their number.\<close>

lemma to_string_last: "to_string n = (if n < 10 then [] else to_string (n div 10)) @ [char_of (48 + n mod 10)]"
  by (subst to_string.simps) auto

lemma char_of_digit_inj:
  fixes a b :: nat
  shows "a < 10 \<Longrightarrow> b < 10 \<Longrightarrow> (char_of (48 + a) :: char) = char_of (48 + b) \<Longrightarrow> a = b"
  by (simp add: char_of_eq_iff take_bit_eq_mod)

lemma to_string_nonempty: "to_string n \<noteq> []"
  by (subst to_string_last) simp

lemma to_string_inj: "to_string a = to_string b \<Longrightarrow> a = b"
proof (induction a arbitrary: b rule: less_induct)
  case (less a)
  have d: "(if a < 10 then [] else to_string (a div 10)) = (if b < 10 then [] else to_string (b div 10))"
    "(char_of (48 + a mod 10) :: char) = char_of (48 + b mod 10)"
    using less.prems by (simp_all only: to_string_last [of a] to_string_last [of b] append1_eq_conv)
  have m: "a mod 10 = b mod 10" using d(2) by (intro char_of_digit_inj) auto
  show ?case
  proof (cases "a < 10")
    case True
    then have "b < 10" using d(1) to_string_nonempty by metis
    with True m show ?thesis by simp
  next
    case False
    then have "\<not> b < 10" using d(1) to_string_nonempty by metis
    with False d(1) less.IH [of "a div 10" "b div 10"] have "a div 10 = b div 10" by auto
    with m show ?thesis by (metis div_mult_mod_eq)
  qed
qed

end
