(* ===== verification/Failover.thy ===== *)
theory Failover
  imports Prelude
begin

text \<open>
  The retry policy and the failover controller of the forwarder
  (\<^verbatim>\<open>forwarder/retry_policy\<close>, \<^verbatim>\<open>forwarder/failover\<close>): back-off delays in 32-bit unsigned
  arithmetic, the statuses worth a retry, and the per-request controller that decides between
  retrying the same account, switching to another and giving up.  The lemmas bound the delays and
  the number of attempts a request can make.
\<close>

section \<open>Retry policy\<close>

record RetryPolicy =
  base_delay_ms :: "32 word"
  max_delay_ms :: "32 word"
  max_elapsed_ms :: "32 word"
  max_same_account_retries :: int
  max_account_switches :: int

definition default_retry_policy :: RetryPolicy where
  "default_retry_policy =
     \<lparr>base_delay_ms = 300, max_delay_ms = 3000, max_elapsed_ms = 10000,
      max_same_account_retries = 3, max_account_switches = 10\<rparr>"

text \<open>A negative shift count is undefined in C++; the model returns \<open>None\<close> there.\<close>

definition compute_delay :: "RetryPolicy \<Rightarrow> int \<Rightarrow> 32 word option" where
  "compute_delay p attempt =
     (if attempt < 0 then None
      else let delay = base_delay_ms p * push_bit (nat (min attempt 10)) 1
           in Some (min delay (max_delay_ms p)))"

definition is_retryable_status :: "int \<Rightarrow> bool" where
  "is_retryable_status status_code \<longleftrightarrow>
     status_code = 401 \<or> status_code = 403 \<or> status_code = 429 \<or> status_code = 529
     \<or> status_code \<ge> 500"

section \<open>Failover controller\<close>

datatype Action = Continue | SwitchAccount | Exhausted | Canceled

record FailoverController =
  max_switches :: int
  max_same_retries :: int
  switch_count :: int
  failed_accounts :: "int set"
  same_account_retries :: "int \<Rightarrow> int option"

definition new_failover :: "int \<Rightarrow> int \<Rightarrow> FailoverController" where
  "new_failover switches same_retries =
     \<lparr>max_switches = switches, max_same_retries = same_retries, switch_count = 0,
      failed_accounts = {}, same_account_retries = Map.empty\<rparr>"

definition default_failover :: FailoverController where
  "default_failover = new_failover 10 3"

definition mark_failed :: "int \<Rightarrow> FailoverController \<Rightarrow> FailoverController" where
  "mark_failed account_id c = c\<lparr>failed_accounts := insert account_id (failed_accounts c)\<rparr>"

text \<open>\<^verbatim>\<open>operator[]\<close> of the retry map creates a zero entry for an unknown account.\<close>

definition retries_of :: "FailoverController \<Rightarrow> int \<Rightarrow> int" where
  "retries_of c a = (case same_account_retries c a of Some n \<Rightarrow> n | None \<Rightarrow> 0)"

definition give_up_account :: "int \<Rightarrow> FailoverController \<Rightarrow> Action \<times> FailoverController" where
  "give_up_account account_id c =
     (let c' = (mark_failed account_id c)\<lparr>switch_count := switch_count c + 1\<rparr>
      in (if switch_count c' > max_switches c' then Exhausted else SwitchAccount, c'))"

definition handle_error ::
    "int \<Rightarrow> int \<Rightarrow> FailoverController \<Rightarrow> Action \<times> FailoverController" where
  "handle_error account_id status_code c =
     (if status_code = 401 \<or> status_code = 403 \<or> status_code = 429
      then give_up_account account_id c
      else let retries = retries_of c account_id + 1;
               c' = c\<lparr>same_account_retries := (same_account_retries c)(account_id \<mapsto> retries)\<rparr>
           in if retries \<le> max_same_retries c' then (Continue, c')
              else give_up_account account_id c')"

text \<open>A sequence of errors reported to one controller, oldest first.\<close>

fun failover_run ::
    "(int \<times> int) list \<Rightarrow> FailoverController \<Rightarrow> Action list \<times> FailoverController" where
  "failover_run [] c = ([], c)"
| "failover_run ((a, st) # es) c =
     (let (act, c1) = handle_error a st c; (acts, c2) = failover_run es c1 in (act # acts, c2))"

section \<open>Delays\<close>

lemma compute_delay_bound:
  "compute_delay p n = Some d \<Longrightarrow> d \<le> max_delay_ms p"
  by (auto simp: compute_delay_def Let_def split: if_splits)

lemma unat_scaled:
  fixes b :: "32 word"
  assumes "unat b * 1024 < 2 ^ 32" and "k \<le> 10"
  shows "unat (b * push_bit k 1) = unat b * 2 ^ k"
proof -
  have k: "(2::nat) ^ k \<le> 2 ^ 10" using assms(2) by (rule power_increasing) simp
  have "unat (push_bit k (1 :: 32 word)) = 2 ^ k"
  proof -
    have "(2::nat) ^ k < 2 ^ 32" using k by simp
    moreover have "push_bit k (1 :: 32 word) = of_nat (2 ^ k)"
      by (simp add: push_bit_eq_mult)
    ultimately show ?thesis by (simp only: unat_of_nat len_num0 len_bit0) simp
  qed
  moreover have "unat b * 2 ^ k < 2 ^ 32"
  proof -
    have "unat b * 2 ^ k \<le> unat b * 1024" using k by simp
    also note assms(1)
    finally show ?thesis .
  qed
  ultimately show ?thesis by (simp add: unat_word_ariths del: power_Suc)
qed

text \<open>Where the scaled base fits 32 bits the delay is the exact exponential, capped.\<close>

lemma compute_delay_exact:
  assumes "unat (base_delay_ms p) * 1024 < 2 ^ 32" and "0 \<le> n"
  shows "\<exists>d. compute_delay p n = Some d \<and>
           unat d = min (unat (base_delay_ms p) * 2 ^ nat (min n 10)) (unat (max_delay_ms p))"
proof -
  have "nat (min n 10) \<le> 10" by simp
  from unat_scaled [OF assms(1) this]
  show ?thesis using assms(2)
    by (auto simp: compute_delay_def Let_def min_def word_le_nat_alt)
qed

section \<open>The controller\<close>

lemma retries_of_update:
  "retries_of (c\<lparr>same_account_retries := (same_account_retries c)(a \<mapsto> n)\<rparr>) x =
     (if x = a then n else retries_of c x)"
  by (simp add: retries_of_def)

text \<open>The two ways an error is handled.\<close>

lemma handle_error_cases:
  assumes "handle_error a st c = (act, c')"
  obtains (retry) "act = Continue"
      "c' = c\<lparr>same_account_retries := (same_account_retries c)(a \<mapsto> retries_of c a + 1)\<rparr>"
      "retries_of c a < max_same_retries c"
    | (give_up) "act = (if switch_count c + 1 > max_switches c then Exhausted else SwitchAccount)"
      "switch_count c' = switch_count c + 1"
      "max_switches c' = max_switches c" "max_same_retries c' = max_same_retries c"
      "failed_accounts c' = insert a (failed_accounts c)"
      "retries_of c' = retries_of c \<or> retries_of c' = (retries_of c)(a := retries_of c a + 1)"
proof (cases "st = 401 \<or> st = 403 \<or> st = 429")
  case True
  with assms show ?thesis
    by (intro give_up) (auto simp: handle_error_def give_up_account_def mark_failed_def Let_def
        retries_of_def)
next
  case False
  let ?c1 = "c\<lparr>same_account_retries := (same_account_retries c)(a \<mapsto> retries_of c a + 1)\<rparr>"
  from False have eq: "handle_error a st c =
      (if retries_of c a + 1 \<le> max_same_retries c then (Continue, ?c1) else give_up_account a ?c1)"
    by (simp add: handle_error_def Let_def)
  show ?thesis
  proof (cases "retries_of c a + 1 \<le> max_same_retries c")
    case True
    with eq assms show ?thesis by (intro retry) auto
  next
    case False
    with eq assms have g: "give_up_account a ?c1 = (act, c')" by simp
    then have "retries_of c' = (retries_of c)(a := retries_of c a + 1)"
      by (auto simp: give_up_account_def mark_failed_def Let_def retries_of_def)
    with g show ?thesis
      by (intro give_up) (auto simp: give_up_account_def mark_failed_def Let_def)
  qed
qed

lemma handle_error_failed_mono:
  "handle_error a st c = (act, c') \<Longrightarrow> failed_accounts c \<subseteq> failed_accounts c'"
  by (erule handle_error_cases) auto

lemma handle_error_marks:
  "handle_error a st c = (act, c') \<Longrightarrow> act \<noteq> Continue \<Longrightarrow> a \<in> failed_accounts c'"
  by (erule handle_error_cases) auto

text \<open>
  The budget that is left: retries of every account of \<open>A\<close> and account switches.  Every answer
  other than \<open>Exhausted\<close> spends at least one unit of it.
\<close>

definition budget :: "int set \<Rightarrow> FailoverController \<Rightarrow> nat" where
  "budget A c = (\<Sum>a\<in>A. nat (max_same_retries c - retries_of c a))
                + nat (max_switches c - switch_count c)"

lemma sum_nat_decrease:
  fixes f g :: "int \<Rightarrow> nat"
  assumes "finite A" and "a \<in> A" and "\<And>x. x \<noteq> a \<Longrightarrow> g x = f x" and "g a < f a"
  shows "sum g A < sum f A"
proof (rule sum_strict_mono_ex1 [OF assms(1)])
  show "\<forall>x\<in>A. g x \<le> f x" using assms(3,4) by (metis less_imp_le order.refl)
  show "\<exists>x\<in>A. g x < f x" using assms(2,4) by blast
qed

lemma handle_error_spends:
  assumes fin: "finite A" and a: "a \<in> A"
    and he: "handle_error a st c = (act, c')" and act: "act \<noteq> Exhausted"
  shows "budget A c' < budget A c"
  using he
proof (cases rule: handle_error_cases)
  case retry
  then have "sum (\<lambda>x. nat (max_same_retries c' - retries_of c' x)) A
      < sum (\<lambda>x. nat (max_same_retries c - retries_of c x)) A"
    by (intro sum_nat_decrease [OF fin a]) (auto simp: retries_of_update)
  with retry show ?thesis by (simp add: budget_def)
next
  case give_up
  have "sum (\<lambda>x. nat (max_same_retries c' - retries_of c' x)) A
      \<le> sum (\<lambda>x. nat (max_same_retries c - retries_of c x)) A"
    using give_up by (intro sum_mono) auto
  with give_up act show ?thesis by (auto simp: budget_def split: if_splits)
qed

lemma failover_run_spends:
  assumes "finite A" and "fst ` set es \<subseteq> A" and "failover_run es c = (acts, c')"
    and "Exhausted \<notin> set acts"
  shows "length es + budget A c' \<le> budget A c"
  using assms(2-4)
proof (induction es arbitrary: c acts)
  case (Cons e es)
  obtain a st where e: "e = (a, st)" by (cases e)
  obtain act c1 where h: "handle_error a st c = (act, c1)" by (cases "handle_error a st c")
  obtain acts' c2 where r: "failover_run es c1 = (acts', c2)" by (cases "failover_run es c1")
  from Cons.prems e h r have "act \<noteq> Exhausted" "Exhausted \<notin> set acts'" "c2 = c'" "a \<in> A"
    "fst ` set es \<subseteq> A" by auto
  with Cons.IH [of c1 acts'] r handle_error_spends [OF assms(1) _ h] show ?case by force
qed simp

lemma fresh_budget:
  assumes "0 \<le> m" and "0 \<le> r"
  shows "budget A (new_failover m r) = card A * nat r + nat m"
  by (simp add: budget_def new_failover_def retries_of_def)

lemma failover_run_failed_mono:
  "failover_run es c = (acts, c') \<Longrightarrow> failed_accounts c \<subseteq> failed_accounts c'"
proof (induction es arbitrary: c acts)
  case (Cons e es)
  then show ?case
    by (cases e) (fastforce split: prod.splits dest: handle_error_failed_mono)
qed simp

section \<open>Properties\<close>

text \<open>
  Failover is bounded: while a controller has not answered \<open>Exhausted\<close>, the number of errors it
  has absorbed is at most the retry budget of every account involved plus the account switches.
  In particular a request cannot retry forever on a finite set of accounts.
\<close>

theorem failover_attempts_bounded:
  assumes "failover_run es (new_failover switches retries) = (acts, c')"
    and "0 \<le> switches" and "0 \<le> retries" and "Exhausted \<notin> set acts"
  shows "int (length es) \<le> int (card (fst ` set es)) * retries + switches"
proof -
  from failover_run_spends [OF finite_imageI [OF finite_set] subset_refl assms(1,4)]
  have "length es \<le> card (fst ` set es) * nat retries + nat switches"
    by (simp add: fresh_budget assms(2,3))
  then have "int (length es) \<le> int (card (fst ` set es) * nat retries + nat switches)"
    by (simp only: zle_int)
  then show ?thesis using assms(2,3) by simp
qed

theorem failover_attempts_bounded_witness:
  "int (length [(7::int, 500::int), (7, 502), (7, 429), (8, 401)]) \<le>
     int (card (fst ` set [(7::int, 500::int), (7, 502), (7, 429), (8, 401)])) * 3 + 10"
  by (rule failover_attempts_bounded [OF prod.collapse [symmetric]])
     (simp_all add: new_failover_def handle_error_def give_up_account_def mark_failed_def
        retries_of_def Let_def)

text \<open>
  An account the controller gives up on is recorded as failed and stays recorded: after any
  further errors it is still among the accounts that the next selection excludes.
\<close>

theorem failover_excludes_failed:
  assumes "handle_error a st c = (act, c1)" and "act \<noteq> Continue"
    and "failover_run es c1 = (acts, c2)"
  shows "a \<in> failed_accounts c2"
  using handle_error_marks [OF assms(1,2)] failover_run_failed_mono [OF assms(3)] by blast

theorem failover_excludes_failed_witness:
  "(5::int) \<in> failed_accounts (snd (failover_run [(6, 500)] (snd (handle_error 5 429 default_failover))))"
  by (rule failover_excludes_failed
        [OF prod.collapse [symmetric] _ prod.collapse [symmetric], where st = 429])
     (simp add: default_failover_def new_failover_def handle_error_def give_up_account_def
        mark_failed_def Let_def)

text \<open>
  Back-off: for every attempt number the delay is defined, is exactly the base delay times two
  to the power of the attempt (the exponent capped at ten) cut off at the maximum, and the 32-bit
  product never wraps, as long as 1024 times the base delay fits 32 bits (as the default does).
\<close>

theorem backoff_exact:
  assumes "unat (base_delay_ms p) * 1024 < 2 ^ 32" and "0 \<le> n"
  shows "\<exists>d. compute_delay p n = Some d \<and> d \<le> max_delay_ms p \<and>
           unat d = min (unat (base_delay_ms p) * 2 ^ nat (min n 10)) (unat (max_delay_ms p))"
  using compute_delay_exact [OF assms] compute_delay_bound by blast

theorem backoff_exact_witness:
  "\<exists>d. compute_delay default_retry_policy 2 = Some d \<and> d \<le> max_delay_ms default_retry_policy \<and>
     unat d = min (unat (base_delay_ms default_retry_policy) * 2 ^ nat (min 2 10))
                  (unat (max_delay_ms default_retry_policy))"
  by (rule backoff_exact) (simp_all add: default_retry_policy_def)

end
