(* ===== verification/Json.thy ===== *)
theory Json
  imports Prelude
begin

text \<open>
  The document model the sources work on: the value type of RapidJSON (\<^verbatim>\<open>rapidjson::Value\<close>),
  as its documentation describes it.  Only the value type and its accessors are modelled.  The
  text parser (\<^verbatim>\<open>Document::Parse\<close>) and the writer (\<^verbatim>\<open>Value::Accept(Writer)\<close>) are the fields of
  the record \<open>rapidjson\<close>, a parameter of every definition that uses them; nothing is assumed
  about them except where a theorem says so.

  Members of an object keep their order and may repeat; \<^verbatim>\<open>FindMember\<close> returns the first.
  \<^verbatim>\<open>AddMember\<close> appends.  A number written without fraction and exponent and within the 64-bit
  ranges is an integer, and \<^verbatim>\<open>IsInt\<close>, \<^verbatim>\<open>IsUint\<close>, \<^verbatim>\<open>IsInt64\<close>, \<^verbatim>\<open>IsUint64\<close> tell whether it fits;
  every other number is a double.  \<^verbatim>\<open>HasMember\<close>, \<^verbatim>\<open>operator[]\<close> and the typed getters require the
  right kind of value (\<^verbatim>\<open>RAPIDJSON_ASSERT\<close>): where the code calls one unguarded, the model
  returns \<open>AssertFailed\<close>.  A signed addition that leaves the range of \<^verbatim>\<open>int\<close> is undefined in C++ and
  is the error \<open>SignedOverflow\<close>.
\<close>

datatype double = Finite rat | NonFinite

datatype json =
    JNull
  | JBool bool
  | JInt int
  | JDouble double
  | JString string
  | JArray "json list"
  | JObject "(string \<times> json) list"

record rapidjson =
  Parse :: "string \<Rightarrow> json option"
  Write :: "json \<Rightarrow> string"

datatype rj_error = AssertFailed | SignedOverflow

section \<open>Kinds of values\<close>

fun is_object :: "json \<Rightarrow> bool" where
  "is_object (JObject _) = True"
| "is_object _ = False"

fun is_array :: "json \<Rightarrow> bool" where
  "is_array (JArray _) = True"
| "is_array _ = False"

fun is_string :: "json \<Rightarrow> bool" where
  "is_string (JString _) = True"
| "is_string _ = False"

fun is_number :: "json \<Rightarrow> bool" where
  "is_number (JInt _) = True"
| "is_number (JDouble _) = True"
| "is_number _ = False"

fun is_int :: "json \<Rightarrow> bool" where
  "is_int (JInt i) = in_int32 i"
| "is_int _ = False"

fun is_uint :: "json \<Rightarrow> bool" where
  "is_uint (JInt i) = (0 \<le> i \<and> i \<le> 4294967295)"
| "is_uint _ = False"

fun is_int64 :: "json \<Rightarrow> bool" where
  "is_int64 (JInt i) = in_int64 i"
| "is_int64 _ = False"

fun is_uint64 :: "json \<Rightarrow> bool" where
  "is_uint64 (JInt i) = (0 \<le> i \<and> i \<le> 18446744073709551615)"
| "is_uint64 _ = False"

text \<open>The integer getters, meaningful under the corresponding test.\<close>

fun get_integer :: "json \<Rightarrow> int" where
  "get_integer (JInt i) = i"
| "get_integer _ = 0"

text \<open>
  \<^verbatim>\<open>GetDouble\<close>: the conversion of an integer rounds to the nearest value with 53 significant
  bits, ties to even.
\<close>

fun bit_length :: "nat \<Rightarrow> nat" where
  "bit_length n = (if n = 0 then 0 else Suc (bit_length (n div 2)))"

declare bit_length.simps [simp del]

definition int_to_double :: "int \<Rightarrow> rat" where
  "int_to_double i =
     (let a = \<bar>i\<bar>;
          q = (if a < 2 ^ 53 then 1 else 2 ^ (bit_length (nat a) - 53));
          d = a div q; r = a mod q;
          m = (if 2 * r < q then d else if q < 2 * r then d + 1 else if even d then d else d + 1)
      in of_int (sgn i * (m * q)))"

fun get_double :: "json \<Rightarrow> double" where
  "get_double (JDouble d) = d"
| "get_double (JInt i) = Finite (int_to_double i)"
| "get_double _ = NonFinite"

fun is_finite :: "double \<Rightarrow> bool" where
  "is_finite (Finite _) = True"
| "is_finite NonFinite = False"

section \<open>Members\<close>

fun member :: "json \<Rightarrow> string \<Rightarrow> json option" where
  "member (JObject ms) k = map_of ms k"
| "member _ k = None"

definition has_member :: "json \<Rightarrow> string \<Rightarrow> bool" where
  "has_member j k \<longleftrightarrow> member j k \<noteq> None"

text \<open>
  The guarded reads \<^verbatim>\<open>v.HasMember(k) && v[k].IsX()\<close> of the sources: the value of member \<open>k\<close>
  when it has the wanted kind.
\<close>

definition string_at :: "json \<Rightarrow> string \<Rightarrow> string option" where
  "string_at j k = (case member j k of Some (JString s) \<Rightarrow> Some s | _ \<Rightarrow> None)"

definition array_at :: "json \<Rightarrow> string \<Rightarrow> json list option" where
  "array_at j k = (case member j k of Some (JArray xs) \<Rightarrow> Some xs | _ \<Rightarrow> None)"

definition object_at :: "json \<Rightarrow> string \<Rightarrow> json option" where
  "object_at j k = (case member j k of Some (JObject ms) \<Rightarrow> Some (JObject ms) | _ \<Rightarrow> None)"

definition bool_at :: "json \<Rightarrow> string \<Rightarrow> bool option" where
  "bool_at j k = (case member j k of Some (JBool b) \<Rightarrow> Some b | _ \<Rightarrow> None)"

definition int_at :: "json \<Rightarrow> string \<Rightarrow> int option" where
  "int_at j k = (case member j k of Some v \<Rightarrow> if is_int v then Some (get_integer v) else None
                 | None \<Rightarrow> None)"

definition int64_at :: "json \<Rightarrow> string \<Rightarrow> int option" where
  "int64_at j k = (case member j k of Some v \<Rightarrow> if is_int64 v then Some (get_integer v) else None
                   | None \<Rightarrow> None)"

definition double_at :: "json \<Rightarrow> string \<Rightarrow> double option" where
  "double_at j k = (case member j k of Some v \<Rightarrow> if is_number v then Some (get_double v) else None
                    | None \<Rightarrow> None)"

lemmas [json_defs] = has_member_def string_at_def array_at_def object_at_def bool_at_def
  int_at_def int64_at_def double_at_def

text \<open>
  The helper \<^verbatim>\<open>get_str(obj, key)\<close> that each format file defines for itself: the member as a C
  string, empty when it is missing or not a string.
\<close>

definition get_str :: "json \<Rightarrow> string \<Rightarrow> string" where
  "get_str obj key = (case string_at obj key of Some s \<Rightarrow> cstr s | None \<Rightarrow> [])"

text \<open>A JSON string value built from a C string: \<^verbatim>\<open>rj::Value(s.c_str(), alloc)\<close>.\<close>

definition jstr :: "string \<Rightarrow> json" where
  "jstr s = JString (cstr s)"

text \<open>The text of a value as a C string: \<^verbatim>\<open>StringBuffer::GetString\<close> of a \<^verbatim>\<open>Writer\<close>'s output.\<close>

definition write_text :: "rapidjson \<Rightarrow> json \<Rightarrow> string" where
  "write_text rj j = cstr (Write rj j)"

text \<open>\<^verbatim>\<open>Parse\<close> followed by \<^verbatim>\<open>HasParseError() || !IsObject()\<close>.\<close>

definition parse_object :: "rapidjson \<Rightarrow> string \<Rightarrow> json option" where
  "parse_object rj s =
     (case Parse rj s of Some (JObject ms) \<Rightarrow> Some (JObject ms) | _ \<Rightarrow> None)"

section \<open>Facts about members\<close>

lemma member_JObject [simp]:
  "member (JObject []) k = None"
  "member (JObject ((k', v) # ms)) k = (if k = k' then Some v else member (JObject ms) k)"
  by simp_all

declare member.simps(1) [simp del]

lemma is_object_iff: "is_object j \<longleftrightarrow> (\<exists>ms. j = JObject ms)"
  by (cases j) auto

lemma is_array_iff: "is_array j \<longleftrightarrow> (\<exists>xs. j = JArray xs)"
  by (cases j) auto

lemma is_string_iff: "is_string j \<longleftrightarrow> (\<exists>s. j = JString s)"
  by (cases j) auto

lemma is_int_iff: "is_int j \<longleftrightarrow> (\<exists>i. j = JInt i \<and> in_int32 i)"
  by (cases j) auto

lemma is_int64_iff: "is_int64 j \<longleftrightarrow> (\<exists>i. j = JInt i \<and> in_int64 i)"
  by (cases j) auto

lemma is_int_is_int64: "is_int j \<Longrightarrow> is_int64 j"
  by (cases j) (auto intro: in_int32_imp_int64)

lemma is_uint_is_int64: "is_uint j \<Longrightarrow> is_int64 j"
  by (cases j) (auto simp: int_bounds)

lemma string_at_Some_iff: "string_at j k = Some s \<longleftrightarrow> member j k = Some (JString s)"
  by (auto simp: string_at_def split: option.splits json.splits)

lemma array_at_Some_iff: "array_at j k = Some xs \<longleftrightarrow> member j k = Some (JArray xs)"
  by (auto simp: array_at_def split: option.splits json.splits)

lemma object_at_Some_iff:
  "object_at j k = Some v \<longleftrightarrow> member j k = Some v \<and> is_object v"
  by (auto simp: object_at_def split: option.splits json.splits)

lemma int_at_Some_iff: "int_at j k = Some i \<longleftrightarrow> member j k = Some (JInt i) \<and> in_int32 i"
  by (auto simp: int_at_def is_int_iff split: option.splits if_splits)

lemma int64_at_Some_iff: "int64_at j k = Some i \<longleftrightarrow> member j k = Some (JInt i) \<and> in_int64 i"
  by (auto simp: int64_at_def is_int64_iff split: option.splits if_splits)

lemma parse_object_Some_iff:
  "parse_object rj s = Some d \<longleftrightarrow> Parse rj s = Some d \<and> is_object d"
  by (auto simp: parse_object_def split: option.splits json.splits)

lemma get_str_no_nul: "CHR 0x00 \<notin> set (get_str j k)"
  by (auto simp: get_str_def cstr_def split: option.splits dest: set_takeWhileD)

lemma cstr_get_str [simp]: "cstr (get_str j k) = get_str j k"
  by (simp add: get_str_def split: option.splits)

lemma cstr_write_text [simp]: "cstr (write_text rj j) = write_text rj j"
  by (simp add: write_text_def)

lemma int_to_double_exact: "\<bar>i\<bar> < 2 ^ 53 \<Longrightarrow> int_to_double i = of_int i"
  by (auto simp: int_to_double_def Let_def sgn_if abs_if)

end
