(* ===== verification/Auth.thy ===== *)
theory Auth
  imports Json "HOL-Library.AList"
begin

text \<open>
  API-key authentication state (\<^verbatim>\<open>auth/speculative_cache\<close>, \<^verbatim>\<open>auth/api_key_auth\<close>,
  \<^verbatim>\<open>auth/invalidation_subscriber\<close>): the bounded in-process cache of authentication snapshots,
  the tracker of the invalidation version kept in Garnet, and the polling loop that flushes the
  cache.  The interface \<open>lossy_cache\<close> states what a client may rely on; its lemmas about whole
  histories of operations are proved once and hold for the gateway's cache by interpretation.
\<close>

section \<open>The speculative cache\<close>

record AuthSnapshot =
  api_key_id :: int
  user_id :: int
  group_id :: int
  platform :: string
  status :: string
  quota :: double
  quota_used :: double
  rate_multiplier :: double
  concurrency :: int
  rpm_limit :: int
  version :: int
  claude_code_only :: bool

definition default_snapshot :: AuthSnapshot where
  "default_snapshot =
     \<lparr>api_key_id = 0, user_id = 0, group_id = 0, platform = [], status = [], quota = Finite 0,
      quota_used = Finite 0, rate_multiplier = Finite 1, concurrency = 1, rpm_limit = 0,
      version = 0, claude_code_only = False\<rparr>"

text \<open>
  The hash table of the implementation is an association list with distinct keys; its order
  carries no meaning.
\<close>

record SpeculativeCache =
  entries :: "(string \<times> AuthSnapshot) list"
  max_entries :: nat

definition create_cache :: "nat \<Rightarrow> SpeculativeCache" where
  "create_cache n = \<lparr>entries = [], max_entries = n\<rparr>"

definition cache_lookup :: "SpeculativeCache \<Rightarrow> string \<Rightarrow> AuthSnapshot option" where
  "cache_lookup c key_hash = map_of (entries c) key_hash"

definition cache_evict_all :: "SpeculativeCache \<Rightarrow> SpeculativeCache" where
  "cache_evict_all c = c\<lparr>entries := []\<rparr>"

definition cache_insert :: "string \<Rightarrow> AuthSnapshot \<Rightarrow> SpeculativeCache \<Rightarrow> SpeculativeCache" where
  "cache_insert key_hash snapshot c =
     (let c' = (if length (entries c) \<ge> max_entries c then c\<lparr>entries := []\<rparr> else c)
      in c'\<lparr>entries := AList.update key_hash snapshot (entries c')\<rparr>)"

definition cache_evict :: "string \<Rightarrow> SpeculativeCache \<Rightarrow> SpeculativeCache" where
  "cache_evict key_hash c = c\<lparr>entries := AList.delete key_hash (entries c)\<rparr>"

text \<open>
  The key hash is SHA-256 in lower-case hexadecimal.  The digest function belongs to OpenSSL and is
  a parameter; the formatting of its bytes is the code's.
\<close>

definition hex_digit :: "nat \<Rightarrow> char" where
  "hex_digit n = ''0123456789abcdef'' ! n"

definition hash_key :: "(string \<Rightarrow> byte list) \<Rightarrow> string \<Rightarrow> string" where
  "hash_key sha256 raw_key =
     concat (map (\<lambda>b. [hex_digit (unat b div 16), hex_digit (unat b mod 16)]) (sha256 raw_key))"

definition authenticate ::
    "(string \<Rightarrow> byte list) \<Rightarrow> SpeculativeCache \<Rightarrow> string \<Rightarrow> string \<Rightarrow> AuthSnapshot option" where
  "authenticate sha256 c raw_key client_ip = cache_lookup c (hash_key sha256 raw_key)"

section \<open>Invalidation\<close>

record InvalidationVersionTracker =
  initialized :: bool
  last_version :: string

definition new_tracker :: InvalidationVersionTracker where
  "new_tracker = \<lparr>initialized = False, last_version = []\<rparr>"

definition observe ::
    "bool \<Rightarrow> string \<Rightarrow> InvalidationVersionTracker \<Rightarrow> bool \<times> InvalidationVersionTracker" where
  "observe found ver t =
     (if \<not> found then (initialized t, \<lparr>initialized = False, last_version = []\<rparr>)
      else if \<not> initialized t then (False, \<lparr>initialized = True, last_version = ver\<rparr>)
      else if last_version t = ver then (False, t)
      else (True, t\<lparr>last_version := ver\<rparr>))"

text \<open>
  The subscriber runs beside the request handlers.  An execution is a sequence of events: the
  handlers' cache operations and the subscriber's polls, each with the answer Garnet gave.
\<close>

datatype cache_op =
    Insert string AuthSnapshot
  | Evict string
  | EvictAll

datatype sub_event =
    Handler cache_op
  | Poll bool string

fun apply_op :: "cache_op \<Rightarrow> SpeculativeCache \<Rightarrow> SpeculativeCache" where
  "apply_op (Insert k s) c = cache_insert k s c"
| "apply_op (Evict k) c = cache_evict k c"
| "apply_op EvictAll c = cache_evict_all c"

text \<open>One iteration of the polling loop: \<^verbatim>\<open>observe\<close> and, when it says so, \<^verbatim>\<open>evict_all\<close>.\<close>

fun sub_step ::
    "sub_event \<Rightarrow> InvalidationVersionTracker \<times> SpeculativeCache
      \<Rightarrow> InvalidationVersionTracker \<times> SpeculativeCache" where
  "sub_step (Handler op) (t, c) = (t, apply_op op c)"
| "sub_step (Poll found ver) (t, c) =
     (let (flush, t') = observe found ver t
      in (t', if flush then cache_evict_all c else c))"

definition run_loop ::
    "bool \<Rightarrow> string \<Rightarrow> sub_event list \<Rightarrow> SpeculativeCache
      \<Rightarrow> InvalidationVersionTracker \<times> SpeculativeCache" where
  "run_loop found ver events c = fold sub_step events (snd (observe found ver new_tracker), c)"

section \<open>The contract of a lossy cache\<close>

locale lossy_cache =
  fixes lookup :: "'c \<Rightarrow> 'k \<Rightarrow> 'v option"
    and insert_op :: "'k \<Rightarrow> 'v \<Rightarrow> 'c \<Rightarrow> 'c"
    and evict_op :: "'k \<Rightarrow> 'c \<Rightarrow> 'c"
    and clear_op :: "'c \<Rightarrow> 'c"
  assumes lookup_insert_same: "lookup (insert_op k v c) k = Some v"
    and lookup_insert_other:
      "k' \<noteq> k \<Longrightarrow> lookup (insert_op k v c) k' = lookup c k' \<or> lookup (insert_op k v c) k' = None"
    and lookup_evict_same: "lookup (evict_op k c) k = None"
    and lookup_evict_other: "k' \<noteq> k \<Longrightarrow> lookup (evict_op k c) k' = lookup c k'"
    and lookup_clear: "lookup (clear_op c) k = None"
begin

text \<open>
  A history is a list of updates, each a key and the stored value, or \<open>None\<close> for a removal;
  \<open>Inr ()\<close> empties the cache.
\<close>

fun step :: "('k \<times> 'v option) + unit \<Rightarrow> 'c \<Rightarrow> 'c" where
  "step (Inl (k, Some v)) c = insert_op k v c"
| "step (Inl (k, None)) c = evict_op k c"
| "step (Inr _) c = clear_op c"

fun latest :: "'k \<Rightarrow> (('k \<times> 'v option) + unit) list \<Rightarrow> 'v option \<Rightarrow> 'v option" where
  "latest k [] v = v"
| "latest k (Inl (k', w) # hs) v = latest k hs (if k' = k then w else v)"
| "latest k (Inr _ # hs) v = latest k hs None"

text \<open>Whatever the cache loses, a hit is the value a cache without losses would return.\<close>

lemma hit_is_latest:
  assumes "lookup c k = None \<or> lookup c k = v"
  shows "lookup (fold step hs c) k = None \<or> lookup (fold step hs c) k = latest k hs v"
  using assms
proof (induction k hs v arbitrary: c rule: latest.induct)
  case (2 k k' w hs v)
  have "lookup (step (Inl (k', w)) c) k = None \<or>
      lookup (step (Inl (k', w)) c) k = (if k' = k then w else v)"
    using "2.prems" lookup_insert_other [of k k'] lookup_evict_other [of k k']
    by (cases w) (auto simp: lookup_insert_same lookup_evict_same, metis)
  from "2.IH" [OF this] show ?case by simp
next
  case (3 k u hs v)
  then show ?case by (simp add: lookup_clear)
qed simp

lemma latest_Some_origin:
  "latest k hs v = Some x \<Longrightarrow> v = Some x \<or> Inl (k, Some x) \<in> set hs"
  by (induction k hs v rule: latest.induct) (auto split: if_splits)

lemma hit_was_inserted:
  assumes "lookup (fold step hs (clear_op c)) k = Some x"
  shows "Inl (k, Some x) \<in> set hs"
proof -
  have "latest k hs None = Some x"
    using hit_is_latest [of "clear_op c" k None hs] assms by (simp add: lookup_clear)
  then show ?thesis by (auto dest: latest_Some_origin)
qed

end

section \<open>The gateway's cache keeps the contract\<close>

definition cache_inv :: "SpeculativeCache \<Rightarrow> bool" where
  "cache_inv c \<longleftrightarrow> distinct (map fst (entries c)) \<and> length (entries c) \<le> max 1 (max_entries c)"

lemmas cache_defs = cache_lookup_def cache_insert_def cache_evict_def cache_evict_all_def

interpretation spec_cache: lossy_cache cache_lookup cache_insert cache_evict cache_evict_all
  by unfold_locales (auto simp: cache_defs Let_def update_conv' delete_conv')

lemma length_alist_update:
  "length (AList.update k v al) = (if k \<in> fst ` set al then length al else Suc (length al))"
  by (induction al) auto

lemma cache_inv_create: "cache_inv (create_cache n)"
  by (simp add: cache_inv_def create_cache_def)

lemma cache_inv_apply_op:
  assumes "cache_inv c"
  shows "cache_inv (apply_op op c) \<and> max_entries (apply_op op c) = max_entries c"
proof (cases op)
  case (Insert k s)
  with assms show ?thesis
    by (auto simp: cache_inv_def cache_defs Let_def length_alist_update distinct_update)
next
  case (Evict k)
  with assms show ?thesis
    by (auto simp: cache_inv_def cache_defs distinct_delete
        intro: order_trans [OF length_delete_le])
qed (auto simp: cache_inv_def cache_defs)

lemma cache_inv_sub_step:
  "cache_inv c \<Longrightarrow> sub_step e (t, c) = (t', c') \<Longrightarrow>
     cache_inv c' \<and> max_entries c' = max_entries c"
proof (cases e)
  case (Poll f v)
  assume "cache_inv c" "sub_step e (t, c) = (t', c')"
  with Poll show ?thesis
    by (auto simp: cache_inv_def cache_evict_all_def split: prod.splits if_splits)
qed (use cache_inv_apply_op in auto)

lemma cache_inv_run:
  "cache_inv c \<Longrightarrow> fold sub_step es (t, c) = (t', c') \<Longrightarrow>
     cache_inv c' \<and> max_entries c' = max_entries c"
proof (induction es arbitrary: t c)
  case (Cons e es)
  obtain t1 c1 where "sub_step e (t, c) = (t1, c1)" by (cases "sub_step e (t, c)")
  with Cons.prems cache_inv_sub_step have "cache_inv c1" "max_entries c1 = max_entries c"
    and "fold sub_step es (t1, c1) = (t', c')" by simp_all
  with Cons.IH show ?case by simp
qed simp

section \<open>What the tracker decides\<close>

lemma observe_flush_iff:
  "fst (observe found ver t) \<longleftrightarrow> initialized t \<and> (\<not> found \<or> ver \<noteq> last_version t)"
  by (auto simp: observe_def)

lemma observe_state:
  "initialized (snd (observe found ver t)) = found"
  "found \<Longrightarrow> last_version (snd (observe found ver t)) = ver"
  by (auto simp: observe_def)

text \<open>The cache operations of an execution as a history for the contract.\<close>

fun op_update :: "cache_op \<Rightarrow> (string \<times> AuthSnapshot option) + unit" where
  "op_update (Insert k s) = Inl (k, Some s)"
| "op_update (Evict k) = Inl (k, None)"
| "op_update EvictAll = Inr ()"

lemma apply_op_step: "apply_op op c = spec_cache.step (op_update op) c"
  by (cases op) auto

text \<open>The subscriber's own flushes join the handlers' operations in the history.\<close>

fun event_updates ::
    "sub_event list \<Rightarrow> InvalidationVersionTracker \<Rightarrow> ((string \<times> AuthSnapshot option) + unit) list"
  where
  "event_updates [] t = []"
| "event_updates (Handler op # es) t = op_update op # event_updates es t"
| "event_updates (Poll f v # es) t =
     (if fst (observe f v t) then [Inr ()] else []) @ event_updates es (snd (observe f v t))"

lemma run_as_history:
  "snd (fold sub_step es (t, c)) = fold spec_cache.step (event_updates es t) c"
  by (induction es t arbitrary: c rule: event_updates.induct)
     (auto simp: apply_op_step split: prod.splits)

lemma event_updates_insert:
  "Inl (k, Some s) \<in> set (event_updates es t) \<Longrightarrow> Handler (Insert k s) \<in> set es"
proof (induction es t rule: event_updates.induct)
  case (2 op es t)
  then show ?case by (cases op) auto
qed (auto split: if_splits)

text \<open>The latest write of a key among the handlers' operations.\<close>

fun last_write :: "string \<Rightarrow> sub_event list \<Rightarrow> AuthSnapshot option \<Rightarrow> AuthSnapshot option" where
  "last_write k [] v = v"
| "last_write k (Handler (Insert k' s) # es) v = last_write k es (if k' = k then Some s else v)"
| "last_write k (Handler (Evict k') # es) v = last_write k es (if k' = k then None else v)"
| "last_write k (Handler EvictAll # es) v = last_write k es None"
| "last_write k (Poll f ver # es) v = last_write k es v"

lemma latest_last_write:
  "spec_cache.latest k (event_updates es t) v = Some s \<Longrightarrow> v = None \<or> v = v' \<Longrightarrow>
     last_write k es v' = Some s"
proof (induction k es v' arbitrary: t v rule: last_write.induct)
  case (2 k k' s' es v')
  then show ?case by (cases "k' = k") auto
next
  case (3 k k' es v')
  then show ?case by (cases "k' = k") auto
next
  case (5 k f ver es v')
  then show ?case by (cases "fst (observe f ver t)") auto
qed auto

lemma flushed_run_origin:
  assumes "fst (observe f v t)"
    and "cache_lookup (snd (fold sub_step (Poll f v # es) (t, c))) k = Some s"
  shows "Handler (Insert k s) \<in> set es"
proof -
  let ?t = "snd (observe f v t)"
  from assms(1) have "sub_step (Poll f v) (t, c) = (?t, cache_evict_all c)"
    by (auto split: prod.splits)
  with assms(2) have
    "cache_lookup (fold spec_cache.step (event_updates es ?t) (cache_evict_all c)) k = Some s"
    by (simp flip: run_as_history)
  then show ?thesis
    by (intro event_updates_insert [of k s es ?t]) (rule spec_cache.hit_was_inserted)
qed

section \<open>Key hashes\<close>

lemma hex_digit_inj: "a < 16 \<Longrightarrow> b < 16 \<Longrightarrow> hex_digit a = hex_digit b \<Longrightarrow> a = b"
  by (simp add: hex_digit_def nth_eq_iff_index_eq)

lemma byte_hex_inj:
  fixes a b :: byte
  assumes "hex_digit (unat a div 16) = hex_digit (unat b div 16)"
    and "hex_digit (unat a mod 16) = hex_digit (unat b mod 16)"
  shows "a = b"
proof -
  have lt: "unat a < 256" "unat b < 256" using unsigned_less [of a] unsigned_less [of b] by simp_all
  then have "unat a div 16 = unat b div 16"
    using assms(1) by (intro hex_digit_inj) auto
  moreover have "unat a mod 16 = unat b mod 16"
    using assms(2) by (intro hex_digit_inj) auto
  ultimately have "unat a = unat b" by (metis div_mult_mod_eq)
  then show ?thesis by (rule word_unat_eq_iff [THEN iffD2])
qed

lemma hex_bytes_inj:
  "concat (map (\<lambda>b. [hex_digit (unat b div 16), hex_digit (unat b mod 16)]) bs) =
   concat (map (\<lambda>b. [hex_digit (unat b div 16), hex_digit (unat b mod 16)]) cs) \<Longrightarrow> bs = (cs :: byte list)"
proof (induction bs arbitrary: cs)
  case (Cons b bs)
  then show ?case by (cases cs) (auto intro: byte_hex_inj)
qed (auto simp: concat_eq_Nil_conv)

section \<open>Properties\<close>

text \<open>
  C21.  Invalidation: once a poll has seen the version change or disappear, every snapshot a later
  lookup returns was inserted by a handler after that poll; no entry of the old version survives,
  whatever the handlers did in between.
\<close>

theorem invalidation_flushes:
  assumes "initialized t" and "\<not> found \<or> ver \<noteq> last_version t"
    and "authenticate sha256 (snd (fold sub_step (Poll found ver # es) (t, c))) raw_key ip = Some s"
  shows "Handler (Insert (hash_key sha256 raw_key) s) \<in> set es"
  using assms unfolding authenticate_def
  by (intro flushed_run_origin [of found ver t es c]) (simp_all add: observe_flush_iff)

theorem invalidation_flushes_witness:
  "Handler (Insert (hash_key (\<lambda>_. [1, 171]) ''k'') default_snapshot)
     \<in> set [Handler (Insert ''01ab'' default_snapshot)]"
  by (rule invalidation_flushes
        [where t = "\<lparr>initialized = True, last_version = ''7''\<rparr>" and found = True and ver = "''8''"
           and c = "cache_insert ''old'' default_snapshot (create_cache 4)"])
     (simp_all add: observe_def authenticate_def cache_defs create_cache_def hash_key_def
        hex_digit_def)

text \<open>
  C20.  A cached answer is never older than the last write: after any interleaving of handler
  operations and polls that starts from an empty cache, a hit returns exactly the snapshot of the
  latest insertion of that key, with no eviction of it in between.
\<close>

theorem cache_hit_is_latest:
  assumes "cache_lookup (snd (run_loop found ver es (create_cache n))) k = Some s"
  shows "last_write k es None = Some s"
proof -
  let ?hs = "event_updates es (snd (observe found ver new_tracker))"
  have "cache_lookup (fold spec_cache.step ?hs (create_cache n)) k = Some s"
    using assms by (simp add: run_loop_def run_as_history)
  moreover have "cache_lookup (create_cache n) k = None"
    by (simp add: cache_lookup_def create_cache_def)
  ultimately have "spec_cache.latest k ?hs None = Some s"
    using spec_cache.hit_is_latest [of "create_cache n" k None ?hs] by simp
  then show ?thesis by (rule latest_last_write) simp
qed

theorem cache_hit_is_latest_witness:
  "last_write ''k'' [Handler (Insert ''k'' default_snapshot), Poll True ''1''] None
     = Some default_snapshot"
  by (rule cache_hit_is_latest [where n = 2 and found = True and ver = "''1''"])
     (simp add: run_loop_def observe_def new_tracker_def cache_defs create_cache_def)

text \<open>
  The cache stays within its bound: in every execution from an empty cache the keys are
  distinct and there are never more entries than the configured maximum (one when that is zero).
\<close>

theorem cache_bounded:
  "cache_inv (snd (run_loop found ver es (create_cache n)))
   \<and> max_entries (snd (run_loop found ver es (create_cache n))) = n"
proof -
  obtain t' c' where r: "run_loop found ver es (create_cache n) = (t', c')"
    by (cases "run_loop found ver es (create_cache n)")
  then show ?thesis
    using cache_inv_run [OF cache_inv_create, of es _ n t' c']
    by (simp add: run_loop_def) (simp add: create_cache_def)
qed

text \<open>
  The hexadecimal form of a key hash loses nothing: two keys share a cache entry exactly when
  their SHA-256 digests agree.
\<close>

theorem hash_key_faithful:
  "hash_key sha256 a = hash_key sha256 b \<longleftrightarrow> sha256 a = sha256 b"
  by (auto simp: hash_key_def dest: hex_bytes_inj)

end
