(* ===== verification/Websocket.thy ===== *)
theory Websocket
  imports Prelude
begin

text \<open>
  The WebSocket primitives of the server (\<^verbatim>\<open>server/websocket\<close>): detection of an upgrade request,
  SHA-1 and Base64 for the handshake, and the frame parser and encoder, over lists of bytes and at
  the widths of the code (32-bit words in SHA-1, a 64-bit payload length in the parser).  The
  lemmas relate SHA-1 to the padding of the standard, Base64 to a decoder, and the two frame
  functions to each other; the parser never reads past its input.
\<close>

unbundle bit_operations_syntax

section \<open>Upgrade detection\<close>

definition has_token :: "string \<Rightarrow> string \<Rightarrow> bool" where
  "has_token tok hdr \<longleftrightarrow>
     list_ex (\<lambda>i. lower (take (length tok) (drop i hdr)) = tok)
       [0..<Suc (length hdr) - length tok]"

definition is_websocket_upgrade :: "string \<Rightarrow> string \<Rightarrow> bool" where
  "is_websocket_upgrade upgrade_hdr connection_hdr \<longleftrightarrow>
     upgrade_hdr \<noteq> [] \<and> has_token ''websocket'' upgrade_hdr \<and> has_token ''upgrade'' connection_hdr"

section \<open>SHA-1\<close>

type_synonym sha1_state = "32 word \<times> 32 word \<times> 32 word \<times> 32 word \<times> 32 word"

definition rol :: "32 word \<Rightarrow> nat \<Rightarrow> 32 word" where
  "rol v bits = push_bit bits v OR drop_bit (32 - bits) v"

definition word_at :: "byte list \<Rightarrow> nat \<Rightarrow> 32 word" where
  "word_at buf i =
     push_bit 24 (ucast (buf ! (i * 4))) OR push_bit 16 (ucast (buf ! (i * 4 + 1))) OR
     push_bit 8 (ucast (buf ! (i * 4 + 2))) OR ucast (buf ! (i * 4 + 3))"

text \<open>The array \<^verbatim>\<open>w\<close>, newest element first: \<open>expand n ws\<close> appends \<open>n\<close> further words.\<close>

fun expand :: "nat \<Rightarrow> 32 word list \<Rightarrow> 32 word list" where
  "expand 0 ws = ws"
| "expand (Suc n) ws = expand n (rol (ws ! 2 XOR ws ! 7 XOR ws ! 13 XOR ws ! 15) 1 # ws)"

definition schedule :: "byte list \<Rightarrow> 32 word list" where
  "schedule buf = rev (expand 64 (rev (map (word_at buf) [0..<16])))"

definition sha1_f :: "nat \<Rightarrow> 32 word \<Rightarrow> 32 word \<Rightarrow> 32 word \<Rightarrow> 32 word" where
  "sha1_f i b c d =
     (if i < 20 then (b AND c) OR (NOT b AND d)
      else if i < 40 then b XOR c XOR d
      else if i < 60 then (b AND c) OR (b AND d) OR (c AND d)
      else b XOR c XOR d)"

definition sha1_k :: "nat \<Rightarrow> 32 word" where
  "sha1_k i = (if i < 20 then 0x5A827999 else if i < 40 then 0x6ED9EBA1
               else if i < 60 then 0x8F1BBCDC else 0xCA62C1D6)"

fun sha1_rounds :: "nat \<Rightarrow> 32 word list \<Rightarrow> sha1_state \<Rightarrow> sha1_state" where
  "sha1_rounds i [] st = st"
| "sha1_rounds i (w # ws) (a, b, c, d, e) =
     (let temp = rol a 5 + sha1_f i b c d + e + sha1_k i + w
      in sha1_rounds (Suc i) ws (temp, a, rol b 30, c, d))"

fun sha1_add :: "sha1_state \<Rightarrow> sha1_state \<Rightarrow> sha1_state" where
  "sha1_add (s0, s1, s2, s3, s4) (a, b, c, d, e) = (s0 + a, s1 + b, s2 + c, s3 + d, s4 + e)"

definition sha1_transform :: "byte list \<Rightarrow> sha1_state \<Rightarrow> sha1_state" where
  "sha1_transform buf st = sha1_add st (sha1_rounds 0 (schedule buf) st)"

definition sha1_init :: sha1_state where
  "sha1_init = (0x67452301, 0xEFCDAB89, 0x98BADCFE, 0x10325476, 0xC3D2E1F0)"

text \<open>The loop over whole blocks; it returns the remaining bytes too.\<close>

fun sha1_blocks :: "byte list \<Rightarrow> sha1_state \<Rightarrow> sha1_state \<times> byte list" where
  "sha1_blocks data st =
     (if 64 \<le> length data then sha1_blocks (drop 64 data) (sha1_transform (take 64 data) st)
      else (st, data))"

declare sha1_blocks.simps [simp del]

text \<open>The big-endian bytes of a 64-bit value.\<close>

definition be64 :: "64 word \<Rightarrow> byte list" where
  "be64 n = map (\<lambda>j. ucast (drop_bit ((7 - j) * 8) n)) [0..<8]"

definition sha1_final :: "byte list \<Rightarrow> nat \<Rightarrow> byte list" where
  "sha1_final rest len =
     (let final_len = (if length rest < 56 then 64 else 128)
      in rest @ [0x80] @ replicate (final_len - 8 - length rest - 1) 0 @ be64 (of_nat len * 8))"

definition word_bytes :: "32 word \<Rightarrow> byte list" where
  "word_bytes s = [ucast (drop_bit 24 s), ucast (drop_bit 16 s), ucast (drop_bit 8 s), ucast s]"

fun digest_of :: "sha1_state \<Rightarrow> byte list" where
  "digest_of (s0, s1, s2, s3, s4) =
     word_bytes s0 @ word_bytes s1 @ word_bytes s2 @ word_bytes s3 @ word_bytes s4"

definition sha1 :: "byte list \<Rightarrow> byte list" where
  "sha1 data =
     (let (st, rest) = sha1_blocks data sha1_init
      in digest_of (fst (sha1_blocks (sha1_final rest (length data)) st)))"

section \<open>Base64\<close>

definition B64 :: string where
  "B64 = ''ABCDEFGHIJKLMNOPQRSTUVWXYZabcdefghijklmnopqrstuvwxyz0123456789+/''"

definition b64_char :: "32 word \<Rightarrow> char" where
  "b64_char n = B64 ! unat (n AND 63)"

fun base64_encode :: "byte list \<Rightarrow> string" where
  "base64_encode [] = []"
| "base64_encode [a] =
     (let n = push_bit 16 (ucast a)
      in [b64_char (drop_bit 18 n), b64_char (drop_bit 12 n), CHR ''='', CHR ''=''])"
| "base64_encode [a, b] =
     (let n = push_bit 16 (ucast a) OR push_bit 8 (ucast b)
      in [b64_char (drop_bit 18 n), b64_char (drop_bit 12 n), b64_char (drop_bit 6 n), CHR ''=''])"
| "base64_encode (a # b # c # rest) =
     (let n = push_bit 16 (ucast a) OR push_bit 8 (ucast b) OR ucast c
      in [b64_char (drop_bit 18 n), b64_char (drop_bit 12 n), b64_char (drop_bit 6 n), b64_char n]
         @ base64_encode rest)"

definition bytes_of :: "string \<Rightarrow> byte list" where
  "bytes_of s = map (\<lambda>c. of_nat (byte_of c)) s"

definition ws_magic :: string where
  "ws_magic = ''258EAFA5-E914-47DA-95CA-C5AB0DC85B11''"

definition compute_websocket_accept :: "string \<Rightarrow> string" where
  "compute_websocket_accept key = base64_encode (sha1 (bytes_of (key @ ws_magic)))"

section \<open>Frames\<close>

record WsFrame =
  fin :: bool
  opcode :: byte
  payload :: "byte list"

text \<open>
  The outcomes of the parser: more input is needed (\<^verbatim>\<open>return false\<close>), a frame with the number of
  bytes consumed, or \<^verbatim>\<open>std::length_error\<close> from \<^verbatim>\<open>std::string::assign\<close>, whose argument exceeds
  \<^verbatim>\<open>max_size()\<close>.
\<close>

datatype ws_parse = Incomplete | Parsed WsFrame "64 word" | LengthError

definition string_max_size :: nat where
  "string_max_size = 9223372036854775807"

definition be_value :: "byte list \<Rightarrow> 64 word" where
  "be_value bs = foldl (\<lambda>n b. push_bit 8 n OR ucast b) 0 bs"

text \<open>The declared payload length and the offset behind it, if the header is complete.\<close>

definition ws_length :: "byte list \<Rightarrow> (64 word \<times> nat) option" where
  "ws_length data =
     (let n = data ! 1 AND 0x7F
      in if n = 126
         then if length data < 4 then None
              else Some (push_bit 8 (ucast (data ! 2)) OR ucast (data ! 3), 4)
         else if n = 127
         then if length data < 10 then None else Some (be_value (take 8 (drop 2 data)), 10)
         else Some (ucast n, 2))"

definition unmask :: "byte list \<Rightarrow> byte list \<Rightarrow> byte list" where
  "unmask key p = map (\<lambda>i. p ! i XOR key ! (i mod 4)) [0..<length p]"

text \<open>
  The last part of the parser, from the 64-bit comparison of the buffer length with
  \<^verbatim>\<open>offset + payload_len\<close> on.
\<close>

definition ws_payload ::
    "byte list \<Rightarrow> byte list option \<Rightarrow> nat \<Rightarrow> 64 word \<Rightarrow> ws_parse" where
  "ws_payload data mask_key offset payload_len =
     (if of_nat (length data) < of_nat offset + payload_len then Incomplete
      else if string_max_size < unat payload_len then LengthError
      else let raw = take (unat payload_len) (drop offset data);
               body = (case mask_key of Some key \<Rightarrow> unmask key raw | None \<Rightarrow> raw)
           in Parsed \<lparr>fin = data ! 0 AND 0x80 \<noteq> 0, opcode = data ! 0 AND 0x0F, payload = body\<rparr>
                (of_nat offset + payload_len))"

definition parse_ws_frame :: "byte list \<Rightarrow> ws_parse" where
  "parse_ws_frame data =
     (if length data < 2 then Incomplete
      else case ws_length data of
             None \<Rightarrow> Incomplete
           | Some (payload_len, offset) \<Rightarrow>
               if data ! 1 AND 0x80 \<noteq> 0
               then if length data < offset + 4 then Incomplete
                    else ws_payload data (Some (take 4 (drop offset data))) (offset + 4) payload_len
               else ws_payload data None offset payload_len)"

definition encode_ws_frame :: "byte \<Rightarrow> byte list \<Rightarrow> bool \<Rightarrow> byte list" where
  "encode_ws_frame opc p masked =
     (let mask_bit = (if masked then 0x80 else 0x00);
          n = (of_nat (length p) :: 64 word)
      in (0x80 OR opc) #
         (if length p < 126 then [mask_bit OR of_nat (length p)]
          else if length p < 65536 then [mask_bit OR 126, ucast (drop_bit 8 n), ucast n]
          else (mask_bit OR 127) # be64 n) @ p)"

section \<open>Reference definitions\<close>

text \<open>The padding and block-wise processing of FIPS 180-4.\<close>

fun chunks :: "nat \<Rightarrow> byte list \<Rightarrow> byte list list" where
  "chunks n xs = (if n = 0 \<or> length xs < n then [] else take n xs # chunks n (drop n xs))"

declare chunks.simps [simp del]

definition sha1_pad :: "byte list \<Rightarrow> byte list" where
  "sha1_pad msg =
     msg @ [0x80] @ replicate ((119 - length msg mod 64) mod 64) 0 @ be64 (of_nat (8 * length msg))"

definition sha1_standard :: "byte list \<Rightarrow> byte list" where
  "sha1_standard msg = digest_of (fold sha1_transform (chunks 64 (sha1_pad msg)) sha1_init)"

text \<open>The decoder of RFC 4648 for padded input; \<open>None\<close> for a character outside the alphabet.\<close>

definition b64_value :: "char \<Rightarrow> nat option" where
  "b64_value c = find_char c B64"

fun base64_decode :: "string \<Rightarrow> nat list option" where
  "base64_decode [] = Some []"
| "base64_decode (p # q # r # s # rest) =
     (case (b64_value p, b64_value q, b64_value r, b64_value s) of
        (Some a, Some b, None, None) \<Rightarrow>
          if r = CHR ''='' \<and> s = CHR ''='' \<and> rest = [] then Some [a * 4 + b div 16] else None
      | (Some a, Some b, Some c, None) \<Rightarrow>
          if s = CHR ''='' \<and> rest = [] then Some [a * 4 + b div 16, (b mod 16) * 16 + c div 4] else None
      | (Some a, Some b, Some c, Some d) \<Rightarrow>
          map_option (\<lambda>xs. [a * 4 + b div 16, (b mod 16) * 16 + c div 4, (c mod 4) * 64 + d] @ xs)
            (base64_decode rest)
      | _ \<Rightarrow> None)"
| "base64_decode _ = None"

text \<open>The header length the encoder chooses.\<close>

definition ws_header_size :: "byte list \<Rightarrow> nat" where
  "ws_header_size p = (if length p < 126 then 2 else if length p < 65536 then 4 else 10)"

section \<open>Upgrade tokens\<close>

lemma lower_take_drop [simp]:
  "lower (take n s) = take n (lower s)" "lower (drop n s) = drop n (lower s)"
  by (simp_all add: lower_def take_map drop_map)

lemma has_token_iff: "tok \<noteq> [] \<Longrightarrow> has_token tok hdr \<longleftrightarrow> contains (lower hdr) tok"
proof -
  assume tok: "tok \<noteq> []"
  have "has_token tok hdr \<longleftrightarrow> (\<exists>i. i < Suc (length hdr) - length tok \<and> starts_with (drop i (lower hdr)) tok)"
    by (auto simp: has_token_def list_ex_iff starts_with_def)
  also have "\<dots> \<longleftrightarrow> (\<exists>i\<le>length (lower hdr). starts_with (drop i (lower hdr)) tok)"
  proof safe
    fix i assume i: "i \<le> length (lower hdr)" "starts_with (drop i (lower hdr)) tok"
    then obtain t where "drop i (lower hdr) = tok @ t" by (auto simp: starts_with_iff)
    then have "length (drop i (lower hdr)) = length tok + length t" by simp
    with i have "i < Suc (length hdr) - length tok" by simp
    with i show "\<exists>i<Suc (length hdr) - length tok. starts_with (drop i (lower hdr)) tok" by blast
  next
    fix i assume "i < Suc (length hdr) - length tok" "starts_with (drop i (lower hdr)) tok"
    then show "\<exists>i\<le>length (lower hdr). starts_with (drop i (lower hdr)) tok"
      by (intro exI [of _ i]) auto
  qed
  also have "\<dots> \<longleftrightarrow> contains (lower hdr) tok"
    using find_sub_None_iff [of tok "lower hdr"] by (auto simp: contains_def)
  finally show ?thesis .
qed

section \<open>SHA-1 against its standard\<close>

lemma length_be64 [simp]: "length (be64 n) = 8"
  by (simp add: be64_def)

lemma pad_zeros: "r < 64 \<Longrightarrow> (119 - r) mod 64 = (if r < 56 then 55 - r else 119 - r)" for r :: nat
  by (simp add: mod_if)

lemma sha1_pad_length: "64 dvd length (sha1_pad msg)"
proof -
  have "length (sha1_pad msg) = length msg + 9 + (119 - length msg mod 64) mod 64"
    by (simp add: sha1_pad_def)
  also have "\<dots> = 64 * (length msg div 64) + (if length msg mod 64 < 56 then 64 else 128)"
    using div_mult_mod_eq [of "length msg" 64] mod_less_divisor [of 64 "length msg"]
    by (simp only: pad_zeros split: if_splits) linarith
  finally show ?thesis by (auto simp: dvd_add_right_iff)
qed

lemma sha1_blocks_append:
  "sha1_blocks (xs @ ys) st =
     (let (st', rest) = sha1_blocks xs st in sha1_blocks (rest @ ys) st')"
proof (induction xs st rule: sha1_blocks.induct)
  case (1 xs st)
  then show ?case
    by (cases "64 \<le> length xs") (simp_all add: sha1_blocks.simps [of "xs @ ys"] sha1_blocks.simps [of xs])
qed

lemma fst_sha1_blocks: "fst (sha1_blocks xs st) = fold sha1_transform (chunks 64 xs) st"
proof (induction xs st rule: sha1_blocks.induct)
  case (1 xs st)
  then show ?case by (simp add: sha1_blocks.simps [of xs] chunks.simps [of 64 xs])
qed

lemma sha1_blocks_rest: "snd (sha1_blocks xs st) = drop (length xs - length xs mod 64) xs"
proof (induction xs st rule: sha1_blocks.induct)
  case (1 xs st)
  show ?case
  proof (cases "64 \<le> length xs")
    case True
    with 1 have "snd (sha1_blocks xs st) = drop (length xs - 64 - (length xs - 64) mod 64 + 64) xs"
      by (simp add: sha1_blocks.simps [of xs])
    also have "length xs - 64 - (length xs - 64) mod 64 + 64 = length xs - length xs mod 64"
      using True mod_less_divisor [of 64 "length xs"] by (simp add: le_mod_geq [of 64 "length xs"])
    finally show ?thesis .
  qed (simp add: sha1_blocks.simps [of xs])
qed

lemma sha1_eq_standard: "sha1 data = sha1_standard data"
proof -
  obtain st rest where b: "sha1_blocks data sha1_init = (st, rest)"
    by (cases "sha1_blocks data sha1_init")
  define z where "z = [0x80] @ replicate ((119 - length data mod 64) mod 64) 0 @ be64 (of_nat (8 * length data))"
  have "rest = drop (length data - length data mod 64) data"
    using sha1_blocks_rest [of data sha1_init] b by simp
  then have r: "length rest = length data mod 64" by simp
  have "(if length rest < 56 then 64 else 128) - 8 - length rest - 1 = (119 - length data mod 64) mod 64"
    unfolding r by (auto simp: pad_zeros)
  then have "sha1_final rest (length data) = rest @ z"
    by (simp add: sha1_final_def z_def Let_def mult.commute)
  moreover have "sha1_pad data = data @ z" by (simp add: sha1_pad_def z_def)
  ultimately show ?thesis
    using sha1_blocks_append [of data z sha1_init]
    by (simp add: sha1_def sha1_standard_def b flip: fst_sha1_blocks)
qed

section \<open>Words and octets\<close>

text \<open>Shifting a word left makes room for the bits below.\<close>

lemma or_low_bits:
  fixes a b :: "'a::len word"
  assumes "b AND mask n = b"
  shows "push_bit n a OR b = push_bit n a + b"
proof (rule disjunctive_add_eq_or [symmetric])
  have "push_bit n a AND b = push_bit n a AND (b AND mask n)" using assms by simp
  also have "\<dots> = 0" by (rule bit_word_eqI) (auto simp: bit_simps)
  finally show "push_bit n a AND b = 0" .
qed

lemma byte_low_bits: "(ucast (b :: byte) :: 'a::len word) AND mask 8 = ucast b"
  by (rule bit_word_eqI) (auto simp: bit_simps dest: bit_imp_le_length)

lemma or_byte:
  "push_bit 8 (a :: 'a::len word) OR ucast (b :: byte) = push_bit 8 a + ucast b"
  by (rule or_low_bits [OF byte_low_bits])

lemma unat_byte_less: "unat (b :: byte) < 256"
  using unsigned_less [of b] by simp

lemma unat_ucast_byte:
  "unat (ucast (b :: byte) :: 32 word) = unat b"
  "unat (ucast (b :: byte) :: 64 word) = unat b"
  using unat_byte_less [of b] by (simp_all add: unsigned_ucast_eq take_bit_nat_eq_self)

lemma be_value_step:
  "unat (push_bit 8 (n :: 64 word) OR ucast (b :: byte)) = (unat n * 256 + unat b) mod 2 ^ 64"
  unfolding or_byte
  by (simp add: push_bit_eq_mult unat_word_ariths unat_ucast_byte mod_simps)

lemma be_value_append:
  "unat (be_value (bs @ [b])) = (unat (be_value bs) * 256 + unat b) mod 2 ^ 64"
  unfolding be_value_def foldl_append by (simp only: foldl.simps be_value_step)

lemma be_byte_step:
  assumes "k = m + 8"
  shows "push_bit 8 (drop_bit k n) OR ucast (ucast (drop_bit m n) :: byte) = drop_bit m (n :: 64 word)"
proof (rule bit_word_eqI)
  fix i assume "i < LENGTH(64)"
  show "bit (push_bit 8 (drop_bit k n) OR ucast (ucast (drop_bit m n) :: byte)) i =
      bit (drop_bit m n) i"
  proof (cases "i < 8")
    case False
    then have "k + (i - 8) = m + i" using assms by simp
    with False \<open>i < LENGTH(64)\<close> show ?thesis by (auto simp: bit_simps dest: bit_imp_le_length)
  qed (auto simp: bit_simps)
qed

lemma be64_value: "be_value (be64 n) = n"
proof -
  have "drop_bit 64 n = 0" by (rule bit_word_eqI) (auto simp: bit_simps dest: bit_imp_le_length)
  moreover have "be64 n = map (\<lambda>k. ucast (drop_bit k n)) [56, 48, 40, 32, 24, 16, 8, 0]"
    by (simp add: be64_def upt_rec)
  ultimately have "be_value (be64 n) = foldl (\<lambda>m b. push_bit 8 m OR ucast b) (drop_bit 64 n)
      (map (\<lambda>k. ucast (drop_bit k n) :: byte) [56, 48, 40, 32, 24, 16, 8, 0])"
    by (simp only: be_value_def)
  also have "\<dots> = n"
    unfolding list.map foldl.simps
    by (subst be_byte_step, simp)+ simp
  finally show ?thesis .
qed

text \<open>Bits of an octet that is less than 128.\<close>

lemma small_octet:
  assumes "n < 128"
  shows "(of_nat n :: byte) AND 0x7F = of_nat n" and "(of_nat n :: byte) AND 0x80 = 0"
    and "(0x80 OR of_nat n :: byte) AND 0x7F = of_nat n" and "(0x80 OR of_nat n :: byte) AND 0x80 \<noteq> 0"
proof -
  have hi: "\<not> bit (of_nat n :: byte) 7" using assms
    by (simp add: bit_simps bit_iff_odd [of n])
  have lo: "bit (0x7F :: byte) i \<longleftrightarrow> i < 7" and top: "bit (0x80 :: byte) i \<longleftrightarrow> i = 7" if "i < 8" for i
    using that by (auto simp: less_Suc_eq numeral_eq_Suc)
  show "(of_nat n :: byte) AND 0x7F = of_nat n"
    by (rule bit_word_eqI) (use hi in \<open>auto simp: bit_and_iff lo less_Suc_eq numeral_eq_Suc\<close>)
  show "(of_nat n :: byte) AND 0x80 = 0"
  proof (rule bit_word_eqI)
    fix i assume "i < LENGTH(8)"
    then have "bit (0x80 :: byte) i \<longleftrightarrow> i = 7" by (intro top) simp
    with hi show "bit ((of_nat n :: byte) AND 0x80) i = bit 0 i" by (auto simp only: bit_and_iff bit_0_eq bot_apply bot_bool_def)
  qed
  show "(0x80 OR of_nat n :: byte) AND 0x7F = of_nat n"
    by (rule bit_word_eqI) (use hi in \<open>auto simp: bit_and_iff bit_or_iff lo less_Suc_eq numeral_eq_Suc\<close>)
  have "bit ((0x80 OR of_nat n :: byte) AND 0x80) 7"
    by (simp add: bit_and_iff bit_or_iff top)
  then show "(0x80 OR of_nat n :: byte) AND 0x80 \<noteq> 0" by auto
qed

section \<open>The parser reads inside its input\<close>

lemma ws_length_offset: "ws_length data = Some (n, off) \<Longrightarrow> 2 \<le> length data \<Longrightarrow> off \<le> length data \<and> off \<le> 10"
  by (auto simp: ws_length_def Let_def split: if_splits)

text \<open>
  The 64-bit comparison does not wrap for a length that passes the check of \<^verbatim>\<open>assign\<close>; a length
  for which it wraps is refused there.
\<close>

lemma no_wrap:
  assumes "off \<le> 14" and "unat (n :: 64 word) \<le> string_max_size"
  shows "unat (of_nat off + n) = off + unat n"
  using assms by (simp add: unat_word_ariths string_max_size_def unat_of_nat)

lemma ws_payload_inside:
  assumes "ws_payload data key off n = Parsed f used" and "off \<le> length data" and "off \<le> 14"
    and "length data < 2 ^ 64"
  shows "unat used = off + unat n \<and> off + unat n \<le> length data \<and> length (payload f) = unat n"
proof -
  from assms(1) have le: "\<not> of_nat (length data) < of_nat off + n" and mx: "unat n \<le> string_max_size"
    and used: "used = of_nat off + n"
    and f: "payload f = (case key of Some k \<Rightarrow> unmask k (take (unat n) (drop off data))
                       | None \<Rightarrow> take (unat n) (drop off data))"
    by (auto simp: ws_payload_def Let_def split: if_splits)
  note nw = no_wrap [OF assms(3) mx]
  have "unat (of_nat (length data) :: 64 word) = length data"
    using assms(4) by (simp add: unat_of_nat)
  with le nw have in_data: "off + unat n \<le> length data"
    by (simp add: word_less_nat_alt)
  then have "length (payload f) = unat n"
    by (simp add: f unmask_def split: option.splits)
  with nw used in_data show ?thesis by simp
qed

section \<open>Encoding and parsing\<close>

lemma small_bits:
  fixes w :: "'a::len word"
  assumes "unat w < 2 ^ k" and "bit w i"
  shows "i < k"
proof (rule ccontr)
  assume "\<not> i < k"
  then have "(2::nat) ^ k \<le> 2 ^ i" by (simp add: power_increasing)
  with assms(1) have "unat w < 2 ^ i" by (rule order.strict_trans2)
  then have "unat w div 2 ^ i = 0" by (rule div_less)
  moreover from assms(2) have "bit (unat w) i" by (simp add: bit_simps)
  ultimately show False by (simp add: bit_iff_odd)
qed

lemma nibble_octet:
  assumes "opc < (16 :: byte)"
  shows "(0x80 OR opc) AND 0x0F = opc" and "(0x80 OR opc) AND 0x80 \<noteq> 0"
proof -
  have lo: "bit (0x0F :: byte) i \<longleftrightarrow> i < 4" and top: "bit (0x80 :: byte) i \<longleftrightarrow> i = 7" if "i < 8" for i
    using that by (auto simp: less_Suc_eq numeral_eq_Suc)
  have b: "bit opc i \<Longrightarrow> i < 4" for i
    by (rule small_bits [of opc]) (use assms in \<open>simp_all add: word_less_nat_alt\<close>)
  show "(0x80 OR opc) AND 0x0F = opc"
  proof (rule bit_word_eqI)
    fix i assume "i < LENGTH(8)"
    then have i: "i < 8" by simp
    show "bit ((0x80 OR opc) AND 0x0F) i = bit opc i"
      unfolding bit_and_iff bit_or_iff lo [OF i] top [OF i] using b [of i] by auto
  qed
  have "bit ((0x80 OR opc) AND 0x80) 7" by (simp add: bit_and_iff bit_or_iff top)
  then show "(0x80 OR opc) AND 0x80 \<noteq> 0" by auto
qed

lemma two_bytes:
  assumes "n < 65536"
  shows "push_bit 8 (ucast (ucast (drop_bit 8 n) :: byte)) OR ucast (ucast n :: byte) = (n :: 64 word)"
proof -
  have b: "bit n i \<Longrightarrow> i < 16" for i
    by (rule small_bits [of n]) (use assms in \<open>simp_all add: word_less_nat_alt\<close>)
  have "ucast (ucast (drop_bit 8 n) :: byte) = drop_bit 8 n"
  proof (rule bit_word_eqI)
    fix i
    show "bit (ucast (ucast (drop_bit 8 n) :: byte) :: 64 word) i = bit (drop_bit 8 n) i"
      using b [of "8 + i"] by (auto simp: bit_simps)
  qed
  moreover have "push_bit 8 (drop_bit 8 n) OR ucast (ucast (drop_bit 0 n) :: byte) = drop_bit 0 n"
    by (rule be_byte_step) simp
  ultimately show ?thesis by (simp only: drop_bit_0 id_apply)
qed

lemma encode_shape:
  obtains hdr where "encode_ws_frame opc p m = (0x80 OR opc) # hdr @ p"
    and "Suc (length hdr) = ws_header_size p"
    and "length p < 2 ^ 64 \<longrightarrow>
           (\<forall>rest. ws_length ((0x80 OR opc) # hdr @ rest) = Some (of_nat (length p), ws_header_size p))"
    and "hdr ! 0 AND 0x80 \<noteq> 0 \<longleftrightarrow> m" "hdr \<noteq> []"
proof -
  let ?n = "of_nat (length p) :: 64 word"
  consider "length p < 126" | "126 \<le> length p" "length p < 65536" | "65536 \<le> length p" by linarith
  then show ?thesis
  proof cases
    case 1
    then have "length p < 128" by simp
    note oct = small_octet [OF this]
    have "(of_nat (length p) :: byte) \<noteq> 126" "(of_nat (length p) :: byte) \<noteq> 127"
      using 1 by (auto simp: word_unat_eq_iff unat_of_nat)
    moreover have "(ucast (of_nat (length p) :: byte) :: 64 word) = of_nat (length p)"
      using 1 by (simp add: word_unat_eq_iff unat_ucast_byte unat_of_nat)
    ultimately show ?thesis using 1 oct
      by (intro that [of "[(if m then 0x80 else 0) OR of_nat (length p)]"])
         (auto simp: encode_ws_frame_def ws_header_size_def ws_length_def Let_def)
  next
    case 2
    then have "?n < 65536" by (simp add: word_less_nat_alt unat_of_nat)
    from two_bytes [OF this] show ?thesis using 2
      by (intro that [of "[(if m then 0x80 else 0) OR 126, ucast (drop_bit 8 ?n), ucast ?n]"])
         (auto simp: encode_ws_frame_def ws_header_size_def ws_length_def Let_def)
  next
    case 3
    have "length (be64 ?n) = 8" by (simp add: be64_def)
    then show ?thesis using 3 
      by (intro that [of "((if m then 0x80 else 0) OR 127) # be64 ?n"])
         (auto simp: encode_ws_frame_def ws_header_size_def ws_length_def Let_def be64_value)
  qed
qed

lemma of_nat_less64:
  "a < 2 ^ 64 \<Longrightarrow> b < 2 ^ 64 \<Longrightarrow> (of_nat a :: 64 word) < of_nat b \<longleftrightarrow> a < b"
  by (simp add: word_less_nat_alt unat_of_nat)

lemma encode_length: "length (encode_ws_frame opc p m) = ws_header_size p + length p"
  by (rule encode_shape [of opc p m]) auto

lemma parse_encoded:
  assumes "opc < 16" and "length (encode_ws_frame opc p False @ rest) < 2 ^ 63"
  shows "parse_ws_frame (encode_ws_frame opc p False @ rest) =
           Parsed \<lparr>fin = True, opcode = opc, payload = p\<rparr> (of_nat (length (encode_ws_frame opc p False)))"
proof -
  obtain hdr where e: "encode_ws_frame opc p False = (0x80 OR opc) # hdr @ p"
    and h: "Suc (length hdr) = ws_header_size p"
    and w: "length p < 2 ^ 64 \<longrightarrow>
           (\<forall>rest. ws_length ((0x80 OR opc) # hdr @ rest) = Some (of_nat (length p), ws_header_size p))"
    and m: "hdr ! 0 AND 0x80 \<noteq> 0 \<longleftrightarrow> False" "hdr \<noteq> []"
    using encode_shape [of opc p False] by metis
  let ?d = "(0x80 OR opc) # hdr @ p @ rest"
  have len: "length ?d < 2 ^ 63" "length p < 2 ^ 63" "length p + ws_header_size p \<le> length ?d"
    using assms(2) e h by simp_all
  have u: "unat (of_nat (length p) :: 64 word) = length p" using len by (simp add: unat_of_nat)
  have cmp: "\<not> (of_nat (length ?d) :: 64 word) < of_nat (ws_header_size p) + of_nat (length p)"
    using len unfolding of_nat_add [symmetric] by (subst of_nat_less64) simp_all
  have dr: "drop (ws_header_size p) ?d = p @ rest" by (simp flip: h)
  have "parse_ws_frame ?d = ws_payload ?d None (ws_header_size p) (of_nat (length p))"
    using w len m by (auto simp: parse_ws_frame_def nth_append)
  also have "\<dots> = Parsed \<lparr>fin = True, opcode = opc, payload = p\<rparr>
      (of_nat (ws_header_size p) + of_nat (length p))"
    using len cmp dr nibble_octet [OF assms(1)] unfolding ws_payload_def u
    by (simp add: string_max_size_def Let_def)
  finally show ?thesis using e by (simp flip: h)
qed

lemma parse_masked_encoded:
  assumes "length (encode_ws_frame opc p True) < 2 ^ 63"
  shows "parse_ws_frame (encode_ws_frame opc p True) = Incomplete"
proof -
  obtain hdr where e: "encode_ws_frame opc p True = (0x80 OR opc) # hdr @ p"
    and h: "Suc (length hdr) = ws_header_size p"
    and w: "length p < 2 ^ 64 \<longrightarrow>
           (\<forall>rest. ws_length ((0x80 OR opc) # hdr @ rest) = Some (of_nat (length p), ws_header_size p))"
    and m: "hdr ! 0 AND 0x80 \<noteq> 0 \<longleftrightarrow> True" "hdr \<noteq> []"
    using encode_shape [of opc p True] by metis
  let ?d = "(0x80 OR opc) # hdr @ p"
  have len: "length ?d < 2 ^ 63" "length p < 2 ^ 63" "length p + ws_header_size p = length ?d"
    using assms e h by simp_all
  have cmp: "(of_nat (length ?d) :: 64 word) < of_nat (ws_header_size p + 4) + of_nat (length p)"
    using len unfolding of_nat_add [symmetric] by (subst of_nat_less64) simp_all
  then have "ws_payload ?d k (ws_header_size p + 4) (of_nat (length p)) = Incomplete" for k
    by (simp add: ws_payload_def)
  then show ?thesis unfolding e
    using w len m by (auto simp: parse_ws_frame_def nth_append)
qed

lemma parse_inside:
  assumes "parse_ws_frame data = Parsed f used" and "length data < 2 ^ 64"
  shows "2 \<le> unat used \<and> unat used \<le> length data \<and> length (payload f) + 2 \<le> unat used"
proof -
  from assms(1) obtain n off where two: "2 \<le> length data" and w: "ws_length data = Some (n, off)"
    by (auto simp: parse_ws_frame_def split: if_splits option.splits)
  have off: "off \<le> length data" "off \<le> 10" "2 \<le> off"
    using w two by (auto simp: ws_length_def Let_def split: if_splits)
  consider "ws_payload data None off n = Parsed f used"
    | k where "ws_payload data k (off + 4) n = Parsed f used" "off + 4 \<le> length data"
    using assms(1) w two by (auto simp: parse_ws_frame_def split: if_splits)
  then show ?thesis
  proof cases
    case 1
    from ws_payload_inside [OF this off(1) _ assms(2)] off show ?thesis by simp
  next
    case 2
    from ws_payload_inside [OF this(1,2) _ assms(2)] off show ?thesis by simp
  qed
qed

section \<open>Base64 against a decoder\<close>

lemma b64_value_nth: "k < 64 \<Longrightarrow> b64_value (B64 ! k) = Some k"
proof -
  have "list_all (\<lambda>k. b64_value (B64 ! k) = Some k) [0..<64]" by code_simp
  then show "k < 64 \<Longrightarrow> ?thesis" by (simp add: list_all_iff)
qed

lemma b64_value_pad: "b64_value (CHR ''='') = None"
  by code_simp

lemma b64_char_value: "b64_value (b64_char n) = Some (unat n mod 64)"
proof -
  have "n AND 63 = take_bit 6 n" by (simp add: take_bit_eq_mask mask_eq_exp_minus_1)
  then have "unat (n AND 63) = take_bit 6 (unat n)" by (simp only: unsigned_take_bit_eq)
  then show ?thesis by (simp add: b64_char_def b64_value_nth take_bit_eq_mod)
qed

lemma or_octets:
  "push_bit 16 (ucast (a :: byte)) OR push_bit 8 (ucast (b :: byte)) OR (ucast (c :: byte) :: 32 word)
     = push_bit 8 (push_bit 8 (ucast a) OR ucast b) OR ucast c"
  by (simp add: or.assoc)

lemma unat_shift_add:
  "unat (x :: 32 word) < 2 ^ 24 \<Longrightarrow> unat (push_bit 8 x + ucast (c :: byte)) = unat x * 256 + unat c"
  using unat_byte_less [of c] by (simp add: push_bit_eq_mult unat_word_ariths unat_ucast_byte)

lemma unat_octets:
  "unat (push_bit 16 (ucast (a :: byte)) OR push_bit 8 (ucast (b :: byte)) OR (ucast (c :: byte) :: 32 word))
     = unat a * 65536 + unat b * 256 + unat c"
proof -
  have lt: "unat a < 256" "unat b < 256" "unat c < 256" by (rule unat_byte_less)+
  then have ab: "unat (push_bit 8 (ucast a :: 32 word) + ucast b) = unat a * 256 + unat b"
    by (subst unat_shift_add) (simp_all add: unat_ucast_byte)
  with lt show ?thesis
    unfolding or_octets unfolding or_byte by (subst unat_shift_add) (simp_all only: ab, simp_all)
qed

lemma unat_drop: "unat (drop_bit k (n :: 32 word)) = unat n div 2 ^ k"
  by (simp only: unat_drop_bit_eq) (simp only: drop_bit_eq_div)

text \<open>Three octets as four six-bit values.\<close>

lemma base64_digits:
  fixes s1 s2 s3 s4 :: nat
  assumes "s1 < 64" "s2 < 64" "s3 < 64" "s4 < 64"
  shows "(((s1 * 64 + s2) * 64 + s3) * 64 + s4) div 2 ^ 18 mod 64 = s1"
    and "(((s1 * 64 + s2) * 64 + s3) * 64 + s4) div 2 ^ 12 mod 64 = s2"
    and "(((s1 * 64 + s2) * 64 + s3) * 64 + s4) div 2 ^ 6 mod 64 = s3"
    and "(((s1 * 64 + s2) * 64 + s3) * 64 + s4) mod 64 = s4"
proof -
  have step: "(x * 64 + s) div 64 = x" "(x * 64 + s) mod 64 = s" if "s < 64" for x s :: nat
    using that by simp_all
  have d: "m div 2 ^ 18 = m div 64 div 64 div 64" "m div 2 ^ 12 = m div 64 div 64"
    "m div 2 ^ 6 = m div 64" for m :: nat
    by (simp_all flip: div_mult2_eq)
  show "(((s1 * 64 + s2) * 64 + s3) * 64 + s4) div 2 ^ 18 mod 64 = s1"
    "(((s1 * 64 + s2) * 64 + s3) * 64 + s4) div 2 ^ 12 mod 64 = s2"
    "(((s1 * 64 + s2) * 64 + s3) * 64 + s4) div 2 ^ 6 mod 64 = s3"
    "(((s1 * 64 + s2) * 64 + s3) * 64 + s4) mod 64 = s4"
    unfolding d by (simp_all only: step assms mod_less)
qed

lemma sextets:
  fixes a b c :: nat
  assumes "a < 256" "b < 256" "c < 256"
  defines "n \<equiv> a * 65536 + b * 256 + c"
  shows "n div 2 ^ 18 mod 64 = a div 4" and "n div 2 ^ 12 mod 64 = a mod 4 * 16 + b div 16"
    and "n div 2 ^ 6 mod 64 = b mod 16 * 4 + c div 64" and "n mod 64 = c mod 64"
proof -
  define s2 s3 where "s2 = a mod 4 * 16 + b div 16" and "s3 = b mod 16 * 4 + c div 64"
  have "a mod 4 < 4" "b div 16 < 16" "b mod 16 < 16" "c div 64 < 4"
    using assms by (simp_all add: div_less_iff_less_mult)
  then have lt: "s2 < 64" "s3 < 64" unfolding s2_def s3_def by linarith+
  have n: "n = ((a div 4 * 64 + s2) * 64 + s3) * 64 + c mod 64"
  proof -
    have "x * 65536 + y * 256 + z = ((q * 64 + (r * 16 + q')) * 64 + (r' * 4 + q'')) * 64 + r''"
      if "q * 4 + r = x" "q' * 16 + r' = y" "q'' * 64 + r'' = z" for x y z q q' q'' r r' r'' :: nat
      using that by (simp add: algebra_simps flip: that)
    from this [OF div_mult_mod_eq div_mult_mod_eq div_mult_mod_eq]
    show ?thesis unfolding n_def s2_def s3_def .
  qed
  have "a div 4 < 64" "c mod 64 < 64" using assms by (simp_all add: div_less_iff_less_mult)
  with lt show "n div 2 ^ 18 mod 64 = a div 4" "n div 2 ^ 12 mod 64 = s2" "n div 2 ^ 6 mod 64 = s3"
    "n mod 64 = c mod 64"
    unfolding n by (simp_all only: base64_digits)
qed

lemma octets:
  fixes a b c :: nat
  assumes "b < 256" "c < 256"
  shows "a div 4 * 4 + (a mod 4 * 16 + b div 16) div 16 = a"
    and "(a mod 4 * 16 + b div 16) mod 16 * 16 + (b mod 16 * 4 + c div 64) div 4 = b"
    and "(b mod 16 * 4 + c div 64) mod 4 * 64 + c mod 64 = c"
proof -
  have "b div 16 < 16" "c div 64 < 4" using assms by (simp_all add: div_less_iff_less_mult)
  then show "a div 4 * 4 + (a mod 4 * 16 + b div 16) div 16 = a"
    "(a mod 4 * 16 + b div 16) mod 16 * 16 + (b mod 16 * 4 + c div 64) div 4 = b"
    "(b mod 16 * 4 + c div 64) mod 4 * 64 + c mod 64 = c"
    by (simp_all add: mod_add_eq)
qed

lemma base64_round: "base64_decode (base64_encode bs) = Some (map unat bs)"
proof (induction bs rule: base64_encode.induct)
  case (2 a)
  note lt = unat_byte_less [of a]
  have n: "unat (push_bit 16 (ucast a) :: 32 word) = unat a * 65536 + 0 * 256 + 0" using unat_octets [of a 0 0] by simp
  show ?case using octets(1) [where b = 0 and c = 0 and a = "unat a"]
    by (simp add: Let_def b64_char_value b64_value_pad unat_drop n sextets [OF lt, of 0 0, simplified])
next
  case (3 a b)
  note lt = unat_byte_less [of a] unat_byte_less [of b]
  have n: "unat (push_bit 16 (ucast a) OR push_bit 8 (ucast b) :: 32 word) =
      unat a * 65536 + unat b * 256 + 0"
    using unat_octets [of a b 0] by simp
  show ?case
    by (simp only: Let_def b64_char_value b64_value_pad unat_drop n sextets [OF lt zero_less_numeral]
        octets(1,2) [OF lt(2) zero_less_numeral] base64_encode.simps base64_decode.simps prod.case
        option.case list.map simp_thms if_True)
next
  case (4 a b c rest)
  note lt = unat_byte_less [of a] unat_byte_less [of b] unat_byte_less [of c]
  show ?case using 4
    by (simp only: Let_def b64_char_value unat_drop unat_octets sextets [OF lt] octets [OF lt(2,3)]
        base64_encode.simps append.simps base64_decode.simps prod.case option.case option.map list.map)
qed simp

lemma ws_length_stable:
  "ws_length data = Some r \<Longrightarrow> 2 \<le> length data \<Longrightarrow> ws_length (data @ later) = Some r"
  by (auto simp: ws_length_def Let_def nth_append split: if_splits)

lemma ws_payload_stable:
  assumes "ws_payload data k off n = Parsed f used" and "off \<le> 14" and "off \<le> length data" 
    and "2 \<le> length data" and "length (data @ later) < 2 ^ 64"
  shows "ws_payload (data @ later) k off n = Parsed f used"
proof -
  have len: "length data < 2 ^ 64" using assms(5) by simp
  have "off + unat n \<le> length data" "unat used = off + unat n"
    using ws_payload_inside [OF assms(1,3,2) len] by simp_all
  moreover have "used = of_nat off + n" "unat n \<le> string_max_size"
    using assms(1) by (auto simp: ws_payload_def Let_def split: if_splits)
  ultimately have "\<not> (of_nat (length (data @ later)) :: 64 word) < of_nat off + n"
    using assms(5) by (simp add: word_less_nat_alt unat_of_nat del: of_nat_add length_append)
      (simp add: length_append)
  moreover have "take (unat n) (drop off (data @ later)) = take (unat n) (drop off data)"
    using \<open>off + unat n \<le> length data\<close> by simp
  moreover have "(data @ later) ! 0 = data ! 0" using assms(4) by (cases data) simp_all
  moreover have "\<not> (of_nat (length data) :: 64 word) < of_nat off + n"
    using assms(1) by (auto simp: ws_payload_def)
  ultimately show ?thesis
    using assms(1) \<open>unat n \<le> string_max_size\<close> unfolding ws_payload_def
    by (simp only: Let_def if_False if_not_P not_less)
qed

lemma parse_stable:
  assumes "parse_ws_frame data = Parsed f used" and "length (data @ later) < 2 ^ 64"
  shows "parse_ws_frame (data @ later) = Parsed f used"
proof -
  from assms(1) obtain n off where two: "2 \<le> length data" and w: "ws_length data = Some (n, off)"
    by (auto simp: parse_ws_frame_def split: if_splits option.splits)
  have off: "off \<le> length data" "off \<le> 10" using ws_length_offset [OF w two] by simp_all
  have "(data @ later) ! 1 = data ! 1" using two by (simp add: nth_append)
  then show ?thesis
    using assms w two off ws_length_stable [OF w two] ws_payload_stable [of data _ off]
      ws_payload_stable [of data _ "off + 4"]
    by (auto simp: parse_ws_frame_def split: if_splits)
qed

section \<open>Properties\<close>

text \<open>
  C30.  Frame round trip: what the encoder writes for an unmasked frame, followed by any further
  bytes, is parsed back as exactly that frame (final, same opcode, same payload), for each of the
  three length encodings, and the parser consumes exactly the encoded bytes.
\<close>

theorem ws_frame_roundtrip:
  assumes "opc < 16" and "length (encode_ws_frame opc p False @ rest) < 2 ^ 63"
  shows "parse_ws_frame (encode_ws_frame opc p False @ rest) =
           Parsed \<lparr>fin = True, opcode = opc, payload = p\<rparr>
             (of_nat (length (encode_ws_frame opc p False)))"
  using assms by (rule parse_encoded)

theorem ws_frame_roundtrip_witness:
  "parse_ws_frame (encode_ws_frame 2 [7, 8] False @ [9]) =
     Parsed \<lparr>fin = True, opcode = 2, payload = [7, 8]\<rparr>
       (of_nat (length (encode_ws_frame 2 [7, 8] False)))"
  by (rule ws_frame_roundtrip) (simp_all add: encode_length ws_header_size_def)

text \<open>
  The parser stays inside its buffer and makes progress: an accepted frame uses at least two
  and at most all of the bytes given, its payload lies within them, and the answer does not change
  when more bytes arrive behind it, so frame boundaries do not depend on how the stream is cut.
\<close>

theorem ws_parse_safe:
  assumes "parse_ws_frame data = Parsed f used" and "length (data @ later) < 2 ^ 64"
  shows "2 \<le> unat used \<and> unat used \<le> length data \<and> length (payload f) + 2 \<le> unat used
         \<and> parse_ws_frame (data @ later) = Parsed f used"
  using parse_inside [OF assms(1)] parse_stable [OF assms] assms(2) by simp

theorem ws_parse_safe_witness:
  "2 \<le> unat (4 :: 64 word) \<and> unat (4 :: 64 word) \<le> length [0x81 :: byte, 2, 104, 105]
   \<and> length (payload \<lparr>fin = True, opcode = 1, payload = [104, 105]\<rparr>) + 2 \<le> unat (4 :: 64 word)
   \<and> parse_ws_frame ([0x81, 2, 104, 105] @ [0x88])
       = Parsed \<lparr>fin = True, opcode = 1, payload = [104, 105]\<rparr> 4"
  by (rule ws_parse_safe)
     (simp_all add: parse_ws_frame_def ws_length_def ws_payload_def string_max_size_def Let_def)

text \<open>
  A frame encoded with the mask flag cannot be read back: the mask bit is set but no masking
  key is written, so the parser always waits for four bytes that never come.
\<close>

theorem masked_frames_incomplete:
  assumes "length (encode_ws_frame opc p True) < 2 ^ 63"
  shows "parse_ws_frame (encode_ws_frame opc p True) = Incomplete"
  using assms by (rule parse_masked_encoded)

theorem masked_frames_incomplete_witness:
  "parse_ws_frame (encode_ws_frame 1 [104, 105] True) = Incomplete"
  by (rule masked_frames_incomplete) (simp add: encode_length ws_header_size_def)

text \<open>
  C31.  The two-phase SHA-1 of the code (whole blocks first, then a padded tail of one or two blocks)
  computes the digest of the standard's padded message, for every input.
\<close>

theorem sha1_refines_standard: "sha1 data = sha1_standard data"
  by (rule sha1_eq_standard)

text \<open>
  Base64 loses nothing: decoding the encoded text with the decoder of RFC 4648 gives back
  exactly the bytes, with one or two padding characters where the input length requires them.
\<close>

theorem base64_roundtrip: "base64_decode (base64_encode bs) = Some (map unat bs)"
  by (rule base64_round)

text \<open>
  Upgrade detection ignores case and accepts exactly the requests whose Upgrade header contains
  \<^verbatim>\<open>websocket\<close> and whose Connection header contains \<^verbatim>\<open>upgrade\<close>.
\<close>

theorem websocket_upgrade_iff:
  "is_websocket_upgrade u c \<longleftrightarrow> contains (lower u) ''websocket'' \<and> contains (lower c) ''upgrade''"
  by (cases u) (auto simp: is_websocket_upgrade_def has_token_iff contains_def lower_def)

end
