(* ===== verification/Dispatch_Types.thy ===== *)
theory Dispatch_Types
  imports Json
begin

text \<open>
  The data exchanged with the platform service (\<^verbatim>\<open>dispatch/capnp_dispatch_client.h\<close>) and the small
  decision functions declared with it: the fail-closed reading of a content-policy answer, the
  dispatch answers worth a retry and the delay before the next try.
\<close>

datatype EndpointKind =
    Messages | ChatCompletions | Responses | Embeddings | Images | Gemini | Videos | CountTokens
  | Models | AlphaSearch | Realtime | Antigravity | AudioTts | AudioStt

fun endpoint_code :: "EndpointKind \<Rightarrow> int" where
  "endpoint_code Messages = 0"
| "endpoint_code ChatCompletions = 1"
| "endpoint_code Responses = 2"
| "endpoint_code Embeddings = 3"
| "endpoint_code Images = 4"
| "endpoint_code Gemini = 5"
| "endpoint_code Videos = 6"
| "endpoint_code CountTokens = 7"
| "endpoint_code Models = 8"
| "endpoint_code AlphaSearch = 9"
| "endpoint_code Realtime = 10"
| "endpoint_code Antigravity = 11"
| "endpoint_code AudioTts = 12"
| "endpoint_code AudioStt = 13"

datatype Outcome = Ok | Wait | Rejected | Reauth

record RpcAck =
  accepted :: bool
  duplicate :: bool
  retryable :: bool
  error_code :: string

definition acknowledged :: "RpcAck \<Rightarrow> bool" where
  "acknowledged a \<longleftrightarrow> accepted a \<or> duplicate a"

record ContentPolicyResult =
  evaluated :: bool
  allowed :: bool
  cp_retryable :: bool
  cp_error_code :: string
  cp_matched_rule_id :: int
  cp_message :: string

datatype ContentPolicyDisposition = Allow | Block | FailClosed

definition content_policy_disposition :: "ContentPolicyResult \<Rightarrow> ContentPolicyDisposition" where
  "content_policy_disposition r =
     (if \<not> evaluated r \<or> cp_retryable r then FailClosed
      else if allowed r then Allow else Block)"

datatype LeaseEvidenceStage = Forwarded | OutputStarted

datatype LeaseAbortDisposition = NoCharge | UnknownCharge | Safe

section \<open>Requests and answers\<close>

record DispatchRequest =
  dq_api_key_hash :: string
  dq_requested_model :: string
  dq_session_hash :: string
  dq_client_ip :: string
  dq_request_id :: string
  dq_excluded_accounts :: "int list"
  dq_cached_auth_version :: int
  dq_endpoint :: int
  dq_metadata_user_id :: string
  dq_stream :: bool
  dq_operation :: string
  dq_inbound_format :: string
  dq_http_method :: string
  dq_request_path :: string
  dq_content_type :: string
  dq_capability :: string
  dq_idempotency_key :: string
  dq_realtime_session :: bool
  dq_force_platform :: string
  dq_request_fingerprint :: string
  dq_request_query :: string
  dq_request_body :: string
  dq_request_body_ref :: string
  dq_request_body_digest :: string
  dq_request_body_size :: nat
  dq_request_body_truncated :: bool

record UpstreamTarget =
  tgt_account_id :: int
  tgt_platform :: string
  tgt_base_url :: string
  tgt_upstream_path :: string
  tgt_auth_headers :: headers
  tgt_mapped_model :: string
  tgt_proxy_url :: string
  tgt_proxy_username :: string
  tgt_proxy_password :: string
  tgt_user_id :: int
  tgt_group_id :: int
  tgt_rate_multiplier :: double
  tgt_hold_handle :: string
  tgt_tls_fingerprint :: bool
  tgt_http_method :: string
  tgt_upstream_format :: string
  tgt_request_headers :: headers
  tgt_allowed_response_headers :: "string list"
  tgt_websocket_url :: string
  tgt_websocket_protocol :: string
  tgt_tls_fingerprint_profile_id :: string
  tgt_capability_flags :: "string list"
  tgt_media_operation_id :: string
  tgt_upstream_task_id :: string
  tgt_polling_supported :: bool
  tgt_content_download_supported :: bool

definition new_target :: UpstreamTarget where
  "new_target = \<lparr>tgt_account_id = 0, tgt_platform = [], tgt_base_url = [], tgt_upstream_path = [],
     tgt_auth_headers = [], tgt_mapped_model = [], tgt_proxy_url = [], tgt_proxy_username = [],
     tgt_proxy_password = [], tgt_user_id = 0, tgt_group_id = 0, tgt_rate_multiplier = Finite 1,
     tgt_hold_handle = [], tgt_tls_fingerprint = False, tgt_http_method = [], tgt_upstream_format = [],
     tgt_request_headers = [], tgt_allowed_response_headers = [], tgt_websocket_url = [],
     tgt_websocket_protocol = [], tgt_tls_fingerprint_profile_id = [], tgt_capability_flags = [],
     tgt_media_operation_id = [], tgt_upstream_task_id = [], tgt_polling_supported = False,
     tgt_content_download_supported = False\<rparr>"

record DispatchResult =
  dr_outcome :: Outcome
  dr_auth_version :: int
  dr_api_key_id :: int
  dr_lease_token :: string
  dr_upstream :: UpstreamTarget
  dr_reject_message :: string
  dr_reject_code :: int
  dr_wait_timeout_ms :: int
  dr_replay_status_code :: int
  dr_replay_content_type :: string
  dr_replay_body :: string

definition new_dispatch_result :: DispatchResult where
  "new_dispatch_result = \<lparr>dr_outcome = Rejected, dr_auth_version = 0, dr_api_key_id = 0,
     dr_lease_token = [], dr_upstream = new_target, dr_reject_message = [], dr_reject_code = 0,
     dr_wait_timeout_ms = 0, dr_replay_status_code = 0, dr_replay_content_type = [], dr_replay_body = []\<rparr>"

record MediaOperationRequest =
  mq_api_key_hash :: string
  mq_operation_id :: string
  mq_action :: string
  mq_request_id :: string
  mq_client_ip :: string
  mq_idempotency_key :: string
  mq_request_fingerprint :: string
  mq_status :: string
  mq_upstream_task_id :: string
  mq_output_metadata :: string
  mq_output_url :: string
  mq_content_type :: string
  mq_progress :: int

record MediaOperationResult =
  mr_accepted :: bool
  mr_status_code :: int
  mr_operation_id :: string
  mr_operation_type :: string
  mr_status :: string
  mr_progress :: int
  mr_upstream_task_id :: string
  mr_output_metadata :: string
  mr_output_url :: string
  mr_content_type :: string
  mr_error_code :: string
  mr_error_message :: string

record ErrorReportData =
  er_account_id :: int
  er_status_code :: int
  er_retry_after_ms :: int
  er_request_id :: string
  er_error_message :: string

record BlobUploadResult =
  bu_accepted :: bool
  bu_error_code :: string
  bu_blob_id :: string
  bu_digest :: string
  bu_total_bytes :: nat

section \<open>Decisions\<close>

definition kPlatformUnavailableRejectCode :: int where
  "kPlatformUnavailableRejectCode = 12"

definition is_retryable_platform_dispatch :: "DispatchResult \<Rightarrow> bool" where
  "is_retryable_platform_dispatch r \<longleftrightarrow>
     dr_outcome r = Rejected \<and> dr_reject_code r = kPlatformUnavailableRejectCode"

definition platform_dispatch_retry_delay_ms :: "int \<Rightarrow> int" where
  "platform_dispatch_retry_delay_ms retry_number =
     (if retry_number \<le> 0 then 50
      else min 1000 (50 * 2 ^ nat (min (retry_number - 1) 5)))"

lemma retry_delay_step:
  "1 \<le> n \<Longrightarrow> platform_dispatch_retry_delay_ms (n + 1) =
     min 1000 (2 * platform_dispatch_retry_delay_ms n)"
proof -
  assume n: "1 \<le> n"
  show ?thesis
  proof (cases "n \<le> 5")
    case True
    then have "nat n = Suc (nat (n - 1))" using n by simp
    with n True show ?thesis by (auto simp: platform_dispatch_retry_delay_ms_def min_def)
  next
    case False
    then show ?thesis by (simp add: platform_dispatch_retry_delay_ms_def)
  qed
qed

end
