(* ===== verification/Chat_Ir.thy ===== *)
theory Chat_Ir
  imports Json
begin

text \<open>
  The intermediate representation of chat traffic (\<^verbatim>\<open>protocol/chat_ir.h\<close>) and the wire formats it
  stands between (\<^verbatim>\<open>Format\<close> of \<^verbatim>\<open>protocol/converter.h\<close>).  The field names carry the structure's
  name where the C++ names repeat.
\<close>

datatype Format = Anthropic | OpenAIChatCompletions | OpenAIResponses | Gemini

datatype FinishReason = Stop | Length | ToolCalls | ContentFilter | Safety | Recitation | Unknown

record ToolCall =
  call_id :: string
  call_name :: string
  call_arguments :: string

datatype block_kind = Text | Image | ToolUse | ToolResult

record ContentBlock =
  block_type :: block_kind
  block_text :: string
  block_tool_call_id :: string
  block_tool_name :: string
  block_tool_arguments :: string

record Message =
  role :: string
  content :: "ContentBlock list"
  tool_calls :: "ToolCall list"
  msg_tool_call_id :: string

record ToolDef =
  def_name :: string
  def_description :: string
  parameters_json :: string

record ChatRequest =
  req_model :: string
  system :: string
  messages :: "Message list"
  tools :: "ToolDef list"
  req_stream :: bool
  max_tokens :: int
  temperature :: "double option"
  top_p :: "double option"
  stop :: "string list"
  metadata_user_id :: string
  unsupported_content :: bool

datatype delta_kind =
  MessageStart | ContentStart | TextDelta | ContentEnd | MessageEnd | ToolCallDelta | Done

record StreamDelta =
  delta_type :: delta_kind
  delta_id :: string
  delta_text :: string
  delta_tool_call_id :: string
  delta_tool_name :: string
  tool_arguments_delta :: string
  delta_index :: int
  delta_model :: string
  delta_finish_reason :: string
  delta_input_tokens :: int
  delta_output_tokens :: int

section \<open>Default values and members\<close>

definition new_tool_call :: ToolCall where
  "new_tool_call = \<lparr>call_id = [], call_name = [], call_arguments = []\<rparr>"

definition new_block :: ContentBlock where
  "new_block = \<lparr>block_type = Text, block_text = [], block_tool_call_id = [], block_tool_name = [],
                block_tool_arguments = []\<rparr>"

definition new_message :: Message where
  "new_message = \<lparr>role = [], content = [], tool_calls = [], msg_tool_call_id = []\<rparr>"

definition new_tool_def :: ToolDef where
  "new_tool_def = \<lparr>def_name = [], def_description = [], parameters_json = []\<rparr>"

definition new_request :: ChatRequest where
  "new_request = \<lparr>req_model = [], system = [], messages = [], tools = [], req_stream = False,
                  max_tokens = 4096, temperature = None, top_p = None, stop = [],
                  metadata_user_id = [], unsupported_content = False\<rparr>"

definition new_delta :: StreamDelta where
  "new_delta = \<lparr>delta_type = TextDelta, delta_id = [], delta_text = [], delta_tool_call_id = [],
                delta_tool_name = [], tool_arguments_delta = [], delta_index = 0, delta_model = [],
                delta_finish_reason = [], delta_input_tokens = 0, delta_output_tokens = 0\<rparr>"

definition text_block :: "string \<Rightarrow> ContentBlock" where
  "text_block t = new_block\<lparr>block_text := t\<rparr>"

definition add_text :: "string \<Rightarrow> Message \<Rightarrow> Message" where
  "add_text t m = m\<lparr>content := content m @ [text_block t]\<rparr>"

definition text_content :: "Message \<Rightarrow> string" where
  "text_content m =
     foldl (\<lambda>out b. if block_type b = Text
                    then (if out \<noteq> [] then out @ [CHR 0x0A] else out) @ block_text b else out)
       [] (content m)"

lemmas new_defs = new_tool_call_def new_block_def new_message_def new_tool_def_def new_request_def
  new_delta_def text_block_def

lemma text_content_add_text:
  "text_content (add_text t m) =
     (if text_content m = [] then t else text_content m @ [CHR 0x0A] @ t)"
  by (simp add: text_content_def add_text_def text_block_def new_block_def)

lemma text_content_single: "content m = [text_block t] \<Longrightarrow> text_content m = t"
  by (simp add: text_content_def text_block_def new_block_def)

end
