(* ===== verification/Capability_Registry.thy ===== *)
theory Capability_Registry
  imports Chat_Ir Dispatch_Types
begin

text \<open>
  The public route table of the gateway (\<^verbatim>\<open>server/capability_registry\<close>): the capability of every
  endpoint, the validation of the user-controlled path and query components, and
  \<^verbatim>\<open>match_capability\<close> with its helpers.  A \<^verbatim>\<open>MatchedCapability\<close> without a spec is \<open>None\<close>.  The
  lemmas show that only well-formed paths and the documented methods are ever routed.
\<close>

section \<open>Capabilities\<close>

datatype Capability =
    Messages | ChatCompletions | Responses | ResponsesSubpath | CountTokens | Models | Search
  | Embeddings | ImagesSync | ImagesAsync | ImagesBatch | Videos | Realtime | GeminiModels
  | GeminiGenerate | Antigravity | AudioTts | AudioStt

record CapabilitySpec =
  capability :: Capability
  spec_name :: string
  endpoint :: EndpointKind
  inbound_format :: Format
  can_stream :: bool
  can_failover :: bool
  requires_persistent_task :: bool
  realtime :: bool

record MatchedCapability =
  spec :: CapabilitySpec
  operation :: string
  force_platform :: string

definition mk_spec ::
    "Capability \<Rightarrow> string \<Rightarrow> EndpointKind \<Rightarrow> Format \<Rightarrow> bool \<Rightarrow> bool \<Rightarrow> bool \<Rightarrow> bool \<Rightarrow> CapabilitySpec"
  where
  "mk_spec c n e f st fo per rt =
     \<lparr>capability = c, spec_name = n, endpoint = e, inbound_format = f, can_stream = st,
      can_failover = fo, requires_persistent_task = per, realtime = rt\<rparr>"

definition kMessages :: CapabilitySpec where
  "kMessages = mk_spec Capability.Messages ''messages'' EndpointKind.Messages Format.Anthropic True True False False"

definition kChat :: CapabilitySpec where
  "kChat = mk_spec Capability.ChatCompletions ''chat_completions'' EndpointKind.ChatCompletions Format.OpenAIChatCompletions True True False False"

definition kResponses :: CapabilitySpec where
  "kResponses = mk_spec Capability.Responses ''responses'' EndpointKind.Responses Format.OpenAIResponses True True False False"

definition kResponsesSubpath :: CapabilitySpec where
  "kResponsesSubpath = mk_spec Capability.ResponsesSubpath ''responses_subpath'' EndpointKind.Responses Format.OpenAIResponses True True False False"

definition kCountTokens :: CapabilitySpec where
  "kCountTokens = mk_spec Capability.CountTokens ''count_tokens'' EndpointKind.CountTokens Format.Anthropic False True False False"

definition kModels :: CapabilitySpec where
  "kModels = mk_spec Capability.Models ''models'' EndpointKind.Models Format.OpenAIChatCompletions False False False False"

definition kSearch :: CapabilitySpec where
  "kSearch = mk_spec Capability.Search ''search'' EndpointKind.AlphaSearch Format.OpenAIResponses True True False False"

definition kEmbeddings :: CapabilitySpec where
  "kEmbeddings = mk_spec Capability.Embeddings ''embeddings'' EndpointKind.Embeddings Format.OpenAIChatCompletions False True False False"

definition kImagesSync :: CapabilitySpec where
  "kImagesSync = mk_spec Capability.ImagesSync ''images_sync'' EndpointKind.Images Format.OpenAIChatCompletions False True False False"

definition kImagesAsync :: CapabilitySpec where
  "kImagesAsync = mk_spec Capability.ImagesAsync ''images_async'' EndpointKind.Images Format.OpenAIChatCompletions False False True False"

definition kImagesBatch :: CapabilitySpec where
  "kImagesBatch = mk_spec Capability.ImagesBatch ''images_batch'' EndpointKind.Images Format.OpenAIChatCompletions False False True False"

definition kVideos :: CapabilitySpec where
  "kVideos = mk_spec Capability.Videos ''videos'' EndpointKind.Videos Format.OpenAIChatCompletions False False True False"

definition kRealtime :: CapabilitySpec where
  "kRealtime = mk_spec Capability.Realtime ''realtime'' EndpointKind.Realtime Format.OpenAIResponses True False False True"

definition kGeminiModels :: CapabilitySpec where
  "kGeminiModels = mk_spec Capability.GeminiModels ''gemini_models'' EndpointKind.Models Format.Gemini False False False False"

definition kGeminiGenerate :: CapabilitySpec where
  "kGeminiGenerate = mk_spec Capability.GeminiGenerate ''gemini_generate'' EndpointKind.Gemini Format.Gemini True True False False"

definition kAntigravity :: CapabilitySpec where
  "kAntigravity = mk_spec Capability.Antigravity ''antigravity'' EndpointKind.Antigravity Format.Anthropic True True False False"

definition kAudioTts :: CapabilitySpec where
  "kAudioTts = mk_spec Capability.AudioTts ''audio_tts'' EndpointKind.AudioTts Format.OpenAIChatCompletions False True False False"

definition kAudioStt :: CapabilitySpec where
  "kAudioStt = mk_spec Capability.AudioStt ''audio_stt'' EndpointKind.AudioStt Format.OpenAIChatCompletions False True False False"

lemmas spec_defs = mk_spec_def kMessages_def kChat_def kResponses_def kResponsesSubpath_def kCountTokens_def kModels_def kSearch_def kEmbeddings_def kImagesSync_def kImagesAsync_def kImagesBatch_def kVideos_def kRealtime_def kGeminiModels_def kGeminiGenerate_def kAntigravity_def kAudioTts_def kAudioStt_def

section \<open>Path and query validation\<close>

definition seg_char :: "char \<Rightarrow> bool" where
  "seg_char c \<longleftrightarrow> is_alnum c \<or> c = CHR ''_'' \<or> c = CHR ''-'' \<or> c = CHR ''.''"

definition safe_segment :: "string \<Rightarrow> bool" where
  "safe_segment segment \<longleftrightarrow>
     segment \<noteq> [] \<and> length segment \<le> 128 \<and> list_all seg_char segment
     \<and> \<not> list_all (\<lambda>c. c = CHR ''.'') segment"

text \<open>The loop of \<^verbatim>\<open>is_safe_path_suffix\<close>; the second argument counts the segments seen.\<close>

function safe_segments :: "string \<Rightarrow> nat \<Rightarrow> bool" where
  "safe_segments suffix n =
     (if suffix = [] then True
      else case split_at_char (CHR ''/'') suffix of
             (segment, rest) \<Rightarrow>
               if \<not> safe_segment segment \<or> Suc n > 8 then False
               else case rest of None \<Rightarrow> True | Some r \<Rightarrow> safe_segments r (Suc n))"
  by pat_completeness auto
termination
  by (relation "measure (\<lambda>(s, n). length s)")
     (auto simp: split_at_char_def split: option.splits)

definition is_safe_path_suffix :: "string \<Rightarrow> bool" where
  "is_safe_path_suffix suffix \<longleftrightarrow>
     suffix \<noteq> [] \<and> hd suffix = CHR ''/'' \<and> tl suffix \<noteq> [] \<and> safe_segments (tl suffix) 0"

definition is_safe_gemini_model :: "string \<Rightarrow> bool" where
  "is_safe_gemini_model model = safe_segment model"

definition hex_char :: "char \<Rightarrow> bool" where
  "hex_char c \<longleftrightarrow> is_digit c \<or> (97 \<le> byte_of c \<and> byte_of c \<le> 102) \<or> (65 \<le> byte_of c \<and> byte_of c \<le> 70)"

fun safe_query_chars :: "string \<Rightarrow> bool" where
  "safe_query_chars [] = True"
| "safe_query_chars (c # cs) =
     (if byte_of c < 33 \<or> byte_of c > 126 \<or> c = CHR ''#'' then False
      else if c \<noteq> CHR ''%'' then safe_query_chars cs
      else case cs of
             h1 # h2 # rest \<Rightarrow> if hex_char h1 \<and> hex_char h2 then safe_query_chars rest else False
           | _ \<Rightarrow> False)"

definition is_safe_query_string :: "string \<Rightarrow> bool" where
  "is_safe_query_string query \<longleftrightarrow>
     query = [] \<or> (length query \<le> 4096 \<and> hd query = CHR ''?'' \<and> safe_query_chars (tl query))"

section \<open>Routes\<close>

text \<open>\<^verbatim>\<open>if (auto r = ...; r.spec) return r;\<close>\<close>

definition or_else :: "'a option \<Rightarrow> 'a option \<Rightarrow> 'a option" where
  "or_else a b = (case a of Some r \<Rightarrow> Some r | None \<Rightarrow> b)"

definition matched :: "CapabilitySpec \<Rightarrow> string \<Rightarrow> string \<Rightarrow> MatchedCapability option" where
  "matched s op fp = Some \<lparr>spec = s, operation = op, force_platform = fp\<rparr>"

text \<open>
  \<^verbatim>\<open>substr(pos, n)\<close> with a 64-bit count: a count that wrapped below zero means the whole rest.
\<close>

definition substr :: "string \<Rightarrow> nat \<Rightarrow> 64 word \<Rightarrow> string" where
  "substr s pos n = take (unat n) (drop pos s)"

definition match_batch_path :: "string \<Rightarrow> string \<Rightarrow> string \<Rightarrow> MatchedCapability option" where
  "match_batch_path mth relative fp =
     (if \<not> starts_with relative ''/images/batches/'' then None
      else let suffix = drop 16 relative; (batch_id, rest) = split_at_char (CHR ''/'') suffix
      in if \<not> safe_segment batch_id then None
      else case rest of
        None \<Rightarrow>
          if mth = ''GET'' \<or> mth = ''DELETE''
          then matched kImagesBatch
                 (if mth = ''GET'' then ''images_batch_get'' else ''images_batch_delete'') fp
          else None
      | Some tail \<Rightarrow>
          if tail = ''items'' \<and> mth = ''GET'' then matched kImagesBatch ''images_batch_items'' fp
          else if tail = ''download'' \<and> mth = ''GET''
          then matched kImagesBatch ''images_batch_download'' fp
          else if tail = ''cancel'' \<and> mth = ''POST'' then matched kImagesBatch ''images_batch_cancel'' fp
          else if tail = ''outputs'' \<and> mth = ''DELETE''
          then matched kImagesBatch ''images_batch_delete_outputs'' fp
          else if starts_with tail ''items/'' \<and> ends_with tail ''/content'' \<and> mth = ''GET''
               \<and> safe_segment (substr tail 6 (of_nat (length tail) - 6 - 8))
          then matched kImagesBatch ''images_batch_item_content'' fp
          else None)"

definition match_video_path :: "string \<Rightarrow> string \<Rightarrow> string \<Rightarrow> MatchedCapability option" where
  "match_video_path mth relative fp =
     (if \<not> starts_with relative ''/videos/'' then None
      else let suffix = drop 8 relative; (request_id, rest) = split_at_char (CHR ''/'') suffix
      in if \<not> safe_segment request_id then None
      else case rest of
        None \<Rightarrow> if mth = ''GET'' then matched kVideos ''videos_get'' fp
                else if mth = ''DELETE'' then matched kVideos ''videos_delete'' fp
                else None
      | Some tail \<Rightarrow>
          if tail = ''content'' \<and> mth = ''GET'' then matched kVideos ''videos_content'' fp
          else if tail = ''cancel'' \<and> mth = ''POST'' then matched kVideos ''videos_cancel'' fp
          else if tail = ''outputs'' \<and> mth = ''DELETE''
          then matched kVideos ''videos_delete_outputs'' fp
          else None)"

text \<open>The lambda \<^verbatim>\<open>match\<close> of \<^verbatim>\<open>route_openai\<close>.\<close>

definition match_exact ::
    "string \<Rightarrow> string \<Rightarrow> string \<Rightarrow> string \<Rightarrow> string \<Rightarrow> CapabilitySpec \<Rightarrow> string \<Rightarrow> MatchedCapability option"
  where
  "match_exact mth relative fp suffix verb s op =
     (if mth = verb \<and> relative = suffix then matched s op fp else None)"

text \<open>\<^verbatim>\<open>route_openai\<close> in the order of the code, in four consecutive parts.\<close>

definition route_responses_item :: "string \<Rightarrow> string \<Rightarrow> string \<Rightarrow> MatchedCapability option" where
  "route_responses_item mth relative fp =
     (let sub = drop 11 relative; is_item = starts_with relative ''/responses/''
      in if is_item \<and> mth = ''POST'' \<and> ends_with sub ''/cancel''
            \<and> safe_segment (take (length sub - 7) sub)
         then matched kResponsesSubpath ''responses_cancel'' fp
         else if is_item \<and> mth = ''GET'' \<and> ends_with sub ''/input_items''
                 \<and> safe_segment (take (length sub - 12) sub)
         then matched kResponsesSubpath ''responses_input_items'' fp
         else if is_item \<and> mth = ''GET'' \<and> safe_segment sub
         then matched kResponsesSubpath ''responses_get'' fp
         else if is_item \<and> mth = ''DELETE'' \<and> safe_segment sub
         then matched kResponsesSubpath ''responses_delete'' fp
         else None)"

definition route_media :: "string \<Rightarrow> string \<Rightarrow> string \<Rightarrow> MatchedCapability option" where
  "route_media mth relative fp =
     (if relative = ''/images/generations/async'' \<and> mth = ''POST''
      then matched kImagesAsync ''images_generations_async'' fp
      else if relative = ''/images/edits/async'' \<and> mth = ''POST''
      then matched kImagesAsync ''images_edits_async'' fp
      else if starts_with relative ''/images/tasks/'' \<and> mth = ''GET'' \<and> safe_segment (drop 14 relative)
      then matched kImagesAsync ''images_task_get'' fp
      else if relative = ''/images/batches'' \<and> (mth = ''POST'' \<or> mth = ''GET'')
      then matched kImagesBatch
             (if mth = ''POST'' then ''images_batch_create'' else ''images_batch_list'') fp
      else if relative = ''/images/batches/models'' \<and> mth = ''GET''
      then matched kImagesBatch ''images_batch_models'' fp
      else or_else (match_batch_path mth relative fp)
     (if relative = ''/videos/generations'' \<and> mth = ''POST''
      then matched kVideos ''videos_generations'' fp
      else if relative = ''/videos/edits'' \<and> mth = ''POST'' then matched kVideos ''videos_edits'' fp
      else if relative = ''/videos/extensions'' \<and> mth = ''POST''
      then matched kVideos ''videos_extensions'' fp
      else match_video_path mth relative fp))"

definition route_live :: "string \<Rightarrow> string \<Rightarrow> string \<Rightarrow> MatchedCapability option" where
  "route_live mth relative fp =
     or_else (match_exact mth relative fp ''/responses'' ''GET'' kRealtime ''responses_websocket'')
    (or_else (match_exact mth relative fp ''/live'' ''POST'' kRealtime ''live_create'')
    (if starts_with relative ''/live/'' \<and> mth = ''GET'' \<and> safe_segment (drop 6 relative)
     then matched kRealtime ''live_sideband'' fp
     else or_else (match_exact mth relative fp ''/alpha/search'' ''POST'' kSearch ''alpha_search'')
    (or_else (match_exact mth relative fp ''/audio/speech'' ''POST'' kAudioTts ''audio_speech'')
    (or_else (match_exact mth relative fp ''/audio/transcriptions'' ''POST'' kAudioStt
                ''audio_transcriptions'')
    (or_else (match_exact mth relative fp ''/embeddings'' ''POST'' kEmbeddings ''embeddings'')
    (or_else (match_exact mth relative fp ''/images/generations'' ''POST'' kImagesSync
                ''images_generations'')
     (match_exact mth relative fp ''/images/edits'' ''POST'' kImagesSync ''images_edits'')))))))"

definition route_tail :: "string \<Rightarrow> string \<Rightarrow> string \<Rightarrow> MatchedCapability option" where
  "route_tail mth relative fp =
     or_else (match_exact mth relative fp ''/models'' ''GET'' (if fp = [] then kModels else kAntigravity)
                (if fp = [] then ''models'' else ''antigravity_models''))
     (if fp \<noteq> [] then match_exact mth relative fp ''/usage'' ''GET'' kAntigravity ''antigravity_usage''
      else None)"

definition route_openai :: "string \<Rightarrow> string \<Rightarrow> string \<Rightarrow> string \<Rightarrow> MatchedCapability option" where
  "route_openai mth path prefix fp =
     (let relative = drop (length prefix) path
      in or_else (match_exact mth relative fp ''/messages'' ''POST''
                    (if fp = [] then kMessages else kAntigravity) ''messages'')
        (or_else (match_exact mth relative fp ''/messages/count_tokens'' ''POST'' kCountTokens
                    ''count_tokens'')
        (or_else (match_exact mth relative fp ''/chat/completions'' ''POST'' kChat ''chat_completions'')
        (or_else (match_exact mth relative fp ''/responses/compact'' ''POST'' kResponses
                    ''responses_compact'')
        (or_else (match_exact mth relative fp ''/responses'' ''POST'' kResponses ''responses'')
        (if relative = ''/responses/compact'' then None
         else or_else (route_responses_item mth relative fp)
             (or_else (route_live mth relative fp)
             (or_else (route_media mth relative fp)
              (route_tail mth relative fp)))))))))"

definition route_gemini :: "string \<Rightarrow> string \<Rightarrow> string \<Rightarrow> string \<Rightarrow> MatchedCapability option" where
  "route_gemini mth path prefix fp =
     (let relative = drop (length prefix) path
      in if relative = ''/models'' \<and> mth = ''GET'' then matched kGeminiModels ''gemini_models_list'' fp
      else if \<not> starts_with relative ''/models/'' then None
      else let (model, rest) = split_at_char (CHR '':'') (drop 8 relative)
      in if \<not> is_safe_gemini_model model then None
      else case rest of
        None \<Rightarrow> if mth = ''GET'' then matched kGeminiModels ''gemini_models_get'' fp else None
      | Some action \<Rightarrow>
          if mth = ''POST'' \<and> (action = ''generateContent'' \<or> action = ''streamGenerateContent'')
          then matched kGeminiGenerate action fp else None)"

definition match_capability :: "string \<Rightarrow> string \<Rightarrow> MatchedCapability option" where
  "match_capability mth path =
     (if path = ''/live'' \<or> path = ''/ready'' \<or> path = ''/metrics'' then None
      else if starts_with path ''/antigravity/v1beta''
      then route_gemini mth path ''/antigravity/v1beta'' ''antigravity''
      else if starts_with path ''/antigravity/v1''
      then route_openai mth path ''/antigravity/v1'' ''antigravity''
      else if path = ''/antigravity/models'' \<and> mth = ''GET''
      then matched kAntigravity ''antigravity_models'' ''antigravity''
      else if starts_with path ''/v1beta'' then route_gemini mth path ''/v1beta'' []
      else if starts_with path ''/backend-api/codex''
      then (if path = ''/backend-api/codex/realtime/calls'' \<and> mth = ''POST''
            then matched kRealtime ''codex_realtime_calls'' []
            else if starts_with path ''/backend-api/codex/'' \<and> mth = ''GET''
                 \<and> is_safe_gemini_model (drop 19 path)
                 \<and> drop 19 path \<noteq> ''models'' \<and> drop 19 path \<noteq> ''responses''
            then matched kRealtime ''codex_live_sideband'' []
            else route_openai mth path ''/backend-api/codex'' [])
      else if starts_with path ''/v1'' then route_openai mth path ''/v1'' []
      else route_openai mth path [] [])"

definition path_matches_any :: "string \<Rightarrow> bool" where
  "path_matches_any path \<longleftrightarrow>
     list_ex (\<lambda>m. match_capability m path \<noteq> None) [''GET'', ''POST'', ''PUT'', ''DELETE'', ''PATCH'']"

declare safe_segments.simps [simp del]

section \<open>What a well-formed request is\<close>

text \<open>The segments of a path between the slashes.\<close>

fun segments :: "string \<Rightarrow> string list" where
  "segments [] = [[]]"
| "segments (c # cs) =
     (if c = CHR ''/'' then [] # segments cs
      else case segments cs of s # ss \<Rightarrow> (c # s) # ss | [] \<Rightarrow> [[c]])"

text \<open>A path all of whose segments, identifiers and route names alike, are safe.\<close>

definition plain_path :: "string \<Rightarrow> bool" where
  "plain_path p \<longleftrightarrow> (\<exists>ss. segments p = [] # ss \<and> ss \<noteq> [] \<and> list_all safe_segment ss)"

text \<open>The one other form of a path: a Gemini model followed by a colon and one of two actions.\<close>

definition gemini_actions :: "string list" where
  "gemini_actions = [''generateContent'', ''streamGenerateContent'']"

definition wf_path :: "string \<Rightarrow> bool" where
  "wf_path p \<longleftrightarrow> plain_path p \<or>
     (\<exists>q model action. p = q @ ''/models/'' @ model @ '':'' @ action \<and> plain_path q \<and> safe_segment model \<and>
        action \<in> set gemini_actions)"

definition capability_table :: "CapabilitySpec list" where
  "capability_table =
     [kMessages, kChat, kResponses, kResponsesSubpath, kCountTokens, kModels, kSearch, kEmbeddings, kImagesSync, kImagesAsync, kImagesBatch, kVideos, kRealtime, kGeminiModels, kGeminiGenerate, kAntigravity, kAudioTts, kAudioStt]"

text \<open>All that holds of a routed request.\<close>

definition routes :: "('a \<Rightarrow> bool) \<Rightarrow> 'a option \<Rightarrow> bool" where
  "routes P r \<longleftrightarrow> (\<forall>x. r = Some x \<longrightarrow> P x)"

definition query_char :: "char \<Rightarrow> bool" where
  "query_char c \<longleftrightarrow> 33 \<le> byte_of c \<and> byte_of c \<le> 126 \<and> c \<noteq> CHR ''#''"

definition percent_ok :: "string \<Rightarrow> bool" where
  "percent_ok s \<longleftrightarrow>
     (\<forall>i<length s. s ! i = CHR ''%'' \<longrightarrow>
        i + 2 < length s \<and> hex_char (s ! (i + 1)) \<and> hex_char (s ! (i + 2)))"

section \<open>Paths\<close>

lemma segments_ne: "segments s \<noteq> []"
  by (induction s) (auto split: list.splits)

lemma segments_slash: "segments (a @ CHR ''/'' # b) = segments a @ segments b"
proof (induction a)
  case (Cons c a)
  then show ?case using segments_ne [of a] by (auto split: list.splits)
qed simp

lemma segments_plain: "CHR ''/'' \<notin> set s \<Longrightarrow> segments s = [s]"
  by (induction s) auto

lemma safe_segment_plain:
  assumes "safe_segment s"
  shows "CHR ''/'' \<notin> set s" and "CHR '':'' \<notin> set s" and "segments s = [s]"
proof -
  have "\<not> seg_char (CHR ''/'')" "\<not> seg_char (CHR '':'')" by (simp_all add: seg_char_def char_defs)
  then show "CHR ''/'' \<notin> set s" "CHR '':'' \<notin> set s"
    using assms by (auto simp: safe_segment_def list_all_iff)
  then show "segments s = [s]" by (intro segments_plain)
qed

lemma split_at_char_Some:
  assumes "split_at_char c s = (a, Some b)"
  shows "s = a @ c # b"
proof -
  from assms obtain i where i: "find_char c s = Some i" and ab: "a = take i s" "b = drop (Suc i) s"
    by (auto simp: split_at_char_def split: option.splits)
  from i obtain t where t: "drop i s = c # t"
    by (auto simp: find_char_def find_sub_Some_iff starts_with_iff)
  then have "b = t" using ab(2) by (metis drop_Suc drop_tl list.sel(3))
  with t ab(1) show ?thesis by (metis append_take_drop_id)
qed

lemma split_at_char_None: "split_at_char c s = (a, None) \<Longrightarrow> s = a"
  by (auto simp: split_at_char_def split: option.splits)

lemma starts_with_drop: "starts_with s p \<Longrightarrow> s = p @ drop (length p) s"
  by (auto simp: starts_with_iff)

lemma starts_with_drop_n: "starts_with s p \<Longrightarrow> n = length p \<Longrightarrow> s = p @ drop n s"
  using starts_with_drop by blast

lemma plain_path_append:
  assumes "plain_path p" and "plain_path q"
  shows "plain_path (p @ q)"
proof -
  from assms(2) obtain b where q: "q = CHR ''/'' # b"
    by (cases q) (auto simp: plain_path_def split: if_splits list.splits)
  with assms show ?thesis by (auto simp: plain_path_def segments_slash)
qed

lemma plain_path_sub: "plain_path p \<Longrightarrow> safe_segment s \<Longrightarrow> plain_path (p @ CHR ''/'' # s)"
  by (auto simp: plain_path_def segments_slash safe_segment_plain(3))

section \<open>Routing results\<close>

lemma routes_None [intro!]: "routes P None"
  by (simp add: routes_def)

lemma routes_matched [intro!]: "P \<lparr>spec = s, operation = op, force_platform = fp\<rparr> \<Longrightarrow> routes P (matched s op fp)"
  by (simp add: routes_def matched_def)

lemma routes_or_else [intro!]: "routes P a \<Longrightarrow> routes P b \<Longrightarrow> routes P (or_else a b)"
  by (auto simp: routes_def or_else_def split: option.splits)

lemma routes_if [intro!]: "(c \<Longrightarrow> routes P a) \<Longrightarrow> (\<not> c \<Longrightarrow> routes P b) \<Longrightarrow> routes P (if c then a else b)"
  by simp

lemma routes_exact [intro!]:
  "(mth = verb \<Longrightarrow> rel = suffix \<Longrightarrow> P \<lparr>spec = s, operation = op, force_platform = fp\<rparr>) \<Longrightarrow>
     routes P (match_exact mth rel fp suffix verb s op)"
  by (auto simp: match_exact_def matched_def routes_def)

lemma routes_case [intro!]:
  "(r = None \<Longrightarrow> routes P a) \<Longrightarrow> (\<And>x. r = Some x \<Longrightarrow> routes P (f x)) \<Longrightarrow>
     routes P (case r of None \<Rightarrow> a | Some x \<Rightarrow> f x)"
  by (cases r) auto

lemmas routes_rules = routes_case routes_None routes_matched routes_or_else routes_if routes_exact

text \<open>What every route guarantees of the request and of its answer.\<close>

abbreviation route_with :: "(string \<Rightarrow> bool) \<Rightarrow> string \<Rightarrow> string \<Rightarrow> string \<Rightarrow> MatchedCapability \<Rightarrow> bool" where
  "route_with ok mth path fp \<equiv> (\<lambda>r. ok path \<and> mth \<in> {''GET'', ''POST'', ''DELETE''}
     \<and> spec r \<in> set capability_table \<and> force_platform r = fp)"

abbreviation good_route :: "string \<Rightarrow> string \<Rightarrow> string \<Rightarrow> MatchedCapability \<Rightarrow> bool" where
  "good_route \<equiv> route_with plain_path"

declare capability_table_def [simp]

lemmas eval_path = plain_path_def safe_segment_def seg_char_def char_defs

lemma routable_seg:
  "starts_with rel (p @ ''/'') \<Longrightarrow> safe_segment (drop (Suc (length p)) rel) \<Longrightarrow> plain_path p \<Longrightarrow> plain_path rel"
proof -
  assume a: "starts_with rel (p @ ''/'')" "safe_segment (drop (Suc (length p)) rel)" "plain_path p"
  have "rel = p @ CHR ''/'' # drop (Suc (length p)) rel" using starts_with_drop [OF a(1)] by simp
  then show ?thesis
    using plain_path_sub [OF a(3) a(2)] by metis
qed

lemma wf_literals [simp]:
  "plain_path ''/messages''"
  "plain_path ''/messages/count_tokens''"
  "plain_path ''/chat/completions''"
  "plain_path ''/responses/compact''"
  "plain_path ''/responses''"
  "plain_path ''/live''"
  "plain_path ''/alpha/search''"
  "plain_path ''/audio/speech''"
  "plain_path ''/audio/transcriptions''"
  "plain_path ''/embeddings''"
  "plain_path ''/images/generations''"
  "plain_path ''/images/edits''"
  "plain_path ''/images/generations/async''"
  "plain_path ''/images/edits/async''"
  "plain_path ''/images/batches''"
  "plain_path ''/images/tasks''"
  "plain_path ''/images/batches/models''"
  "plain_path ''/videos''"
  "plain_path ''/videos/generations''"
  "plain_path ''/videos/edits''"
  "plain_path ''/videos/extensions''"
  "plain_path ''/models''"
  "plain_path ''/usage''"
  "plain_path ''/antigravity/v1beta''"
  "plain_path ''/antigravity/v1''"
  "plain_path ''/antigravity/models''"
  "plain_path ''/v1beta''"
  "plain_path ''/backend-api/codex''"
  "plain_path ''/backend-api/codex/realtime/calls''"
  "plain_path ''/v1''"
  by (simp_all add: eval_path)

lemma seg_paths:
  "starts_with rel ''/live/'' \<Longrightarrow> safe_segment (drop 6 rel) \<Longrightarrow> plain_path rel"
  "starts_with rel ''/images/tasks/'' \<Longrightarrow> safe_segment (drop 14 rel) \<Longrightarrow> plain_path rel"
  "starts_with rel ''/responses/'' \<Longrightarrow> safe_segment (drop 11 rel) \<Longrightarrow> plain_path rel"
  "starts_with rel ''/models/'' \<Longrightarrow> safe_segment (drop 8 rel) \<Longrightarrow> plain_path rel"
  "starts_with rel ''/backend-api/codex/'' \<Longrightarrow> safe_segment (drop 19 rel) \<Longrightarrow> plain_path rel"
  using routable_seg [of rel "''/live''"] routable_seg [of rel "''/images/tasks''"]
    routable_seg [of rel "''/responses''"] routable_seg [of rel "''/models''"]
    routable_seg [of rel "''/backend-api/codex''"] by (simp_all add: eval_nat_numeral)

lemma route_tail_ok: "routes (good_route mth rel fp) (route_tail mth rel fp)"
  unfolding route_tail_def by (intro routes_rules) simp_all

lemma route_live_ok: "routes (good_route mth rel fp) (route_live mth rel fp)"
  unfolding route_live_def by (intro routes_rules) (auto intro: seg_paths)

text \<open>A path of two safe segments behind a literal prefix.\<close>

lemma two_segments:
  assumes "starts_with rel (p @ ''/'')" and n: "n = Suc (length p)"
    and "split_at_char (CHR ''/'') (drop n rel) = (a, Some b)"
    and "safe_segment a" and "plain_path p" and "plain_path (CHR ''/'' # b)"
  shows "plain_path rel"
proof -
  have "rel = (p @ CHR ''/'' # a) @ CHR ''/'' # b"
    using starts_with_drop_n [OF assms(1), of n] n split_at_char_Some [OF assms(3)] by simp
  moreover have "plain_path (p @ CHR ''/'' # a)"
    using assms(4,5) by (intro plain_path_sub)
  ultimately show ?thesis using plain_path_append assms(6) by metis
qed

lemma one_segment:
  assumes "starts_with rel (p @ ''/'')" and "n = Suc (length p)"
    and "split_at_char (CHR ''/'') (drop n rel) = (a, None)"
    and "safe_segment a" and "plain_path p"
  shows "plain_path rel"
  using routable_seg [OF assms(1) _ assms(5)] split_at_char_None [OF assms(3)] assms(2,4) by simp

lemma tail_paths [simp]:
  "plain_path ''/items''" "plain_path ''/download''" "plain_path ''/cancel''" "plain_path ''/outputs''" "plain_path ''/content''"
  "plain_path ''/input_items''"
  by (simp_all add: eval_path)

lemma item_content_path:
  assumes "starts_with t ''items/''" and "ends_with t ''/content''" and "length t < 2 ^ 64"
    and "safe_segment (substr t 6 (of_nat (length t) - 6 - 8))"
  shows "plain_path (CHR ''/'' # t)"
proof -
  obtain u where u: "t = ''items/'' @ u" using assms(1) by (auto simp: starts_with_iff)
  let ?n = "of_nat (length t) - 6 - 8 :: 64 word"
  show ?thesis
  proof (cases "14 \<le> length t")
    case True
    obtain w where w: "t = w @ ''/content''" using assms(2) by (auto simp: ends_with_iff)
    have "?n = of_nat (length t - 14)" using True by (simp add: of_nat_diff)
    then have "unat ?n = length t - 14" using assms(3) by (simp add: unat_of_nat)
    then have "substr t 6 ?n = take (length t - 14) u" by (simp add: substr_def u)
    moreover have "u = take (length t - 14) u @ ''/content''"
    proof -
      have "u = drop 6 (w @ ''/content'')" using u w by simp
      moreover have "6 \<le> length w" using w True by simp
      ultimately have "u = drop 6 w @ ''/content''" by simp
      moreover have "length t - 14 = length (drop 6 w)" using w by simp
      ultimately show ?thesis by simp
    qed
    ultimately obtain s where "u = s @ ''/content''" "safe_segment s" using assms(4) by metis
    then have t: "CHR ''/'' # t = (''/items'' @ CHR ''/'' # s) @ ''/content''" using u by simp
    have "plain_path (''/items'' @ CHR ''/'' # s)"
      using \<open>safe_segment s\<close> by (intro plain_path_sub) simp_all
    then show ?thesis unfolding t by (rule plain_path_append) simp
  next
    case False
    then have "length t < 14" by simp
    with u have "length u < 8" by simp
    then have "unat (of_nat (length u) :: 64 word) = length u" by (simp add: unat_of_nat)
    then have "length u \<le> unat ?n"
      using u \<open>length u < 8\<close> by (simp add: unat_sub_if' unat_word_ariths)
    then have "substr t 6 ?n = u" by (simp add: substr_def u)
    then have "safe_segment u" using assms(4) by simp
    then have "plain_path (''/items'' @ CHR ''/'' # u)"
      by (intro plain_path_sub) simp_all
    then show ?thesis using u by simp
  qed
qed

lemma length_split_at_char: "split_at_char c s = (a, Some b) \<Longrightarrow> length b < length s"
  by (drule split_at_char_Some) simp

lemma match_batch_ok:
  assumes "length rel < 2 ^ 64"
  shows "routes (good_route mth rel fp) (match_batch_path mth rel fp)"
proof (cases "starts_with rel ''/images/batches/''")
  case True
  obtain a r where sp: "split_at_char (CHR ''/'') (drop 16 rel) = (a, r)" by (cases "split_at_char (CHR ''/'') (drop 16 rel)")
  have one: "plain_path rel" if "safe_segment a" "r = None"
    using one_segment [of rel "''/images/batches''" 16 a] True sp that by simp
  have two: "plain_path rel" if "safe_segment a" "r = Some t" "plain_path (CHR ''/'' # t)" for t
    using two_segments [of rel "''/images/batches''" 16 a t] True sp that by simp
  have "length t < 2 ^ 64" if "r = Some t" for t
    using length_split_at_char [OF sp [unfolded that]] assms by simp
  note len = this
  show ?thesis
  proof (cases r)
    case None
    with one show ?thesis
      by (simp add: match_batch_path_def True sp del: capability_table_def) (intro impI conjI routes_rules; simp)
  next
    case (Some t)
    with two len item_content_path [of t] show ?thesis
      by (simp add: match_batch_path_def True sp del: capability_table_def) (intro impI conjI routes_rules; simp)
  qed
qed (simp add: match_batch_path_def routes_None)

lemma match_video_ok: "routes (good_route mth rel fp) (match_video_path mth rel fp)"
proof (cases "starts_with rel ''/videos/''")
  case True
  obtain a r where sp: "split_at_char (CHR ''/'') (drop 8 rel) = (a, r)" by (cases "split_at_char (CHR ''/'') (drop 8 rel)")
  have one: "plain_path rel" if "safe_segment a" "r = None"
    using one_segment [of rel "''/videos''" 8 a] True sp that by simp
  have two: "plain_path rel" if "safe_segment a" "r = Some t" "plain_path (CHR ''/'' # t)" for t
    using two_segments [of rel "''/videos''" 8 a t] True sp that by simp
  show ?thesis
  proof (cases r)
    case None
    with one show ?thesis
      by (simp add: match_video_path_def True sp del: capability_table_def) (intro impI conjI routes_rules; simp)
  next
    case (Some t)
    with two show ?thesis
      by (simp add: match_video_path_def True sp del: capability_table_def) (intro impI conjI routes_rules; simp)
  qed
qed (simp add: match_video_path_def routes_None)

lemma route_media_ok:
  "length rel < 2 ^ 64 \<Longrightarrow> routes (good_route mth rel fp) (route_media mth rel fp)"
  unfolding route_media_def
  by (intro routes_rules match_batch_ok match_video_ok) (auto intro: seg_paths)

lemma item_suffix_path:
  assumes "starts_with rel ''/responses/''" and "ends_with (drop 11 rel) e"
    and "safe_segment (take (length (drop 11 rel) - length e) (drop 11 rel))" and "plain_path e"
  shows "plain_path rel"
proof -
  obtain s where s: "drop 11 rel = s @ e" using assms(2) by (auto simp: ends_with_iff)
  then have "rel = (''/responses'' @ CHR ''/'' # s) @ e"
    using starts_with_drop_n [OF assms(1), of 11] by simp
  moreover have "safe_segment s" using assms(3) s by simp
  then have "plain_path (''/responses'' @ CHR ''/'' # s)" by (intro plain_path_sub) simp_all
  ultimately show ?thesis using plain_path_append assms(4) by metis
qed

lemma route_responses_item_ok: "routes (good_route mth rel fp) (route_responses_item mth rel fp)"
  using item_suffix_path [of rel "''/cancel''"] item_suffix_path [of rel "''/input_items''"]
  unfolding route_responses_item_def Let_def
  by (intro routes_rules) (auto intro: seg_paths)

lemma route_openai_ok:
  assumes "length path < 2 ^ 64" and "starts_with path p" and "p = [] \<or> plain_path p"
  shows "routes (good_route mth path fp) (route_openai mth path p fp)"
proof -
  let ?rel = "drop (length p) path"
  have "length ?rel < 2 ^ 64" using assms(1) by simp
  then have "routes (good_route mth ?rel fp) (route_openai mth path p fp)"
    unfolding route_openai_def Let_def
    by (intro routes_rules route_responses_item_ok route_live_ok route_media_ok route_tail_ok) auto
  moreover have "plain_path path" if "plain_path ?rel"
    using assms(3) plain_path_append [of p ?rel] that starts_with_drop [OF assms(2)] by auto
  ultimately show ?thesis by (auto simp: routes_def)
qed

lemma route_gemini_ok:
  assumes "starts_with path p" and "plain_path p"
  shows "routes (route_with wf_path mth path fp) (route_gemini mth path p fp)"
proof -
  let ?rel = "drop (length p) path"
  have path: "path = p @ ?rel" using starts_with_drop [OF assms(1)] .
  obtain m r where sp: "split_at_char (CHR '':'') (drop 8 ?rel) = (m, r)" by (cases "split_at_char (CHR '':'') (drop 8 ?rel)")
  have plain: "wf_path path" if "plain_path ?rel"
    using plain_path_append [OF assms(2) that] path by (simp add: wf_path_def)
  have "wf_path path" if "starts_with ?rel ''/models/''" "safe_segment m" "r = None"
    using that sp split_at_char_None [of "CHR '':''" "drop 8 ?rel" m] seg_paths(4) [of ?rel] plain by simp
  moreover have "wf_path path" if "starts_with ?rel ''/models/''" "safe_segment m" "r = Some a" "a \<in> set gemini_actions" for a
  proof -
    have "?rel = ''/models/'' @ m @ '':'' @ a"
      using starts_with_drop_n [OF that(1), of 8] split_at_char_Some [OF sp [unfolded that(3)]] by simp
    then show ?thesis unfolding wf_path_def using path assms(2) that(2,4) by metis
  qed
  moreover have "wf_path path" if "?rel = ''/models''" using plain that by simp
  ultimately show ?thesis
    unfolding route_gemini_def Let_def sp prod.case is_safe_gemini_model_def
    by (intro routes_rules) (auto simp: gemini_actions_def)
qed

lemma plain_wf: "plain_path p \<Longrightarrow> wf_path p"
  by (simp add: wf_path_def)

lemma routes_mono: "routes P r \<Longrightarrow> (\<And>x. P x \<Longrightarrow> Q x) \<Longrightarrow> routes Q r"
  by (auto simp: routes_def)

lemma match_capability_ok:
  assumes "length path < 2 ^ 64"
  shows "routes (\<lambda>r. \<exists>fp. route_with wf_path mth path fp r \<and>
           (fp = [] \<or> fp = ''antigravity'' \<and> starts_with path ''/antigravity''))
         (match_capability mth path)"
proof -
  have "starts_with path ''/antigravity''" if "starts_with path (''/antigravity'' @ t)" for t
    using that by (auto simp: starts_with_iff)
  from this [of "''/v1beta''"] this [of "''/v1''"]
  have "starts_with path ''/antigravity''"
    if "starts_with path ''/antigravity/v1beta'' \<or> starts_with path ''/antigravity/v1''"
    using that by auto
  moreover have "starts_with ''/antigravity/models'' ''/antigravity''" by (simp add: starts_with_def)
  ultimately show ?thesis
    unfolding match_capability_def
    by (intro routes_rules routes_mono [OF route_openai_ok] routes_mono [OF route_gemini_ok] assms)
       (auto simp: is_safe_gemini_model_def plain_wf seg_paths(5))
qed

lemma table_facts:
  assumes "s \<in> set capability_table"
  shows "requires_persistent_task s \<or> realtime s \<Longrightarrow> \<not> can_failover s"
    and "requires_persistent_task s \<Longrightarrow> \<not> can_stream s"
proof -
  have "list_all (\<lambda>s. (requires_persistent_task s \<or> realtime s \<longrightarrow> \<not> can_failover s)
      \<and> (requires_persistent_task s \<longrightarrow> \<not> can_stream s)) capability_table"
    by (simp add: spec_defs)
  with assms show "requires_persistent_task s \<or> realtime s \<Longrightarrow> \<not> can_failover s"
    "requires_persistent_task s \<Longrightarrow> \<not> can_stream s"
    by (auto simp: list_all_iff simp del: capability_table_def)
qed

section \<open>Query strings\<close>

lemma hex_char_query: "hex_char c \<Longrightarrow> query_char c \<and> c \<noteq> CHR ''%''"
  by (auto simp: hex_char_def query_char_def char_defs)

lemma percent_ok_Cons:
  "percent_ok (c # cs) \<longleftrightarrow>
     (c = CHR ''%'' \<longrightarrow> 2 \<le> length cs \<and> hex_char (cs ! 0) \<and> hex_char (cs ! 1)) \<and> percent_ok cs"
  by (auto simp: percent_ok_def All_less_Suc2 Suc_le_eq numeral_2_eq_2)

lemma safe_query_step:
  "safe_query_chars (c # cs) =
     (query_char c \<and>
      (if c \<noteq> CHR ''%'' then safe_query_chars cs
       else case cs of h1 # h2 # rest \<Rightarrow> hex_char h1 \<and> hex_char h2 \<and> safe_query_chars rest
            | _ \<Rightarrow> False))"
  by (auto simp: query_char_def split: list.splits)

declare safe_query_chars.simps(2) [simp del]

lemma safe_query_chars_iff: "safe_query_chars s \<longleftrightarrow> list_all query_char s \<and> percent_ok s"
proof (induction s rule: measure_induct_rule [of length])
  case (less s)
  consider "s = []" | c cs where "s = c # cs" "c \<noteq> CHR ''%''"
    | h1 h2 rest where "s = CHR ''%'' # h1 # h2 # rest" | "s = ''%''" | h where "s = [CHR ''%'', h]"
    by (cases s; cases "tl s"; cases "tl (tl s)") auto
  then show ?case
  proof cases
    case (2 c cs)
    with less [of cs] show ?thesis by (auto simp: safe_query_step percent_ok_Cons)
  next
    case (3 h1 h2 rest)
    then have "safe_query_chars rest \<longleftrightarrow> list_all query_char rest \<and> percent_ok rest"
      by (intro less) simp
    moreover have "query_char (CHR ''%'')" by (simp add: query_char_def byte_of_def)
    ultimately show ?thesis using 3 hex_char_query [of h1] hex_char_query [of h2]
      by (auto simp: percent_ok_Cons safe_query_step)
  qed (auto simp: percent_ok_Cons safe_query_step, simp add: percent_ok_def)
qed

lemma unat_minus_one_64: "unat (- 1 :: 64 word) = 18446744073709551615"
  by (simp add: unsigned_minus_1_eq_mask mask_eq_exp_minus_1)

lemmas route_defs = match_capability_def route_openai_def route_responses_item_def route_live_def
  route_media_def route_tail_def match_batch_path_def match_video_path_def match_exact_def
  or_else_def matched_def

lemmas segment_defs = starts_with_def ends_with_def split_at_char_eq safe_segment_def seg_char_def
  substr_def char_defs unat_minus_one_64

section \<open>Properties\<close>

text \<open>
  C25.  Only well-formed requests are routed: a path that reaches dispatch starts with a slash, and
  every segment of it, so every identifier that a route takes from it, is non-empty, has at most 128
  bytes, consists of letters, digits, dot, dash and underscore, and is not just dots.  The one
  exception is the last segment of a Gemini call, a safe model name followed by a colon and one of the
  two known actions.  So no traversal, empty segment, control character, percent escape or separator
  gets through, and the method is GET, POST or DELETE.
\<close>

theorem routed_requests_safe:
  assumes "match_capability mth path = Some r" and "length path < 2 ^ 64"
  shows "wf_path path \<and> mth \<in> {''GET'', ''POST'', ''DELETE''}"
  using match_capability_ok [OF assms(2), of mth] assms(1) unfolding routes_def by blast

theorem routed_requests_safe_witness:
  "wf_path ''/v1/videos/vid-7/content'' \<and> ''GET'' \<in> {''GET'', ''POST'', ''DELETE''}"
  by (rule routed_requests_safe [where r = "\<lparr>spec = kVideos, operation = ''videos_content'', force_platform = []\<rparr>"])
     (simp_all add: route_defs segment_defs)

text \<open>
  What a route promises the rest of the gateway: its capability is one of the eighteen of the
  table, a capability with a persistent task or a realtime session is never failed over to another
  account, one with a persistent task never streams, and a forced platform occurs only under the
  \<^verbatim>\<open>/antigravity\<close> prefix.
\<close>

theorem routed_capability_consistent:
  assumes "match_capability mth path = Some r" and "length path < 2 ^ 64"
  shows "spec r \<in> set capability_table
    \<and> (requires_persistent_task (spec r) \<or> realtime (spec r) \<longrightarrow> \<not> can_failover (spec r))
    \<and> (requires_persistent_task (spec r) \<longrightarrow> \<not> can_stream (spec r))
    \<and> (force_platform r = [] \<or> force_platform r = ''antigravity'' \<and> starts_with path ''/antigravity'')"
proof -
  from match_capability_ok [OF assms(2), of mth] assms(1)
  have "spec r \<in> set capability_table"
    and "force_platform r = [] \<or> force_platform r = ''antigravity'' \<and> starts_with path ''/antigravity''"
    unfolding routes_def by blast+
  with table_facts show ?thesis by blast
qed

theorem routed_capability_consistent_witness:
  "let r = \<lparr>spec = kVideos, operation = ''videos_get'', force_platform = ''antigravity''\<rparr>;
       path = ''/antigravity/v1/videos/x''
   in spec r \<in> set capability_table
    \<and> (requires_persistent_task (spec r) \<or> realtime (spec r) \<longrightarrow> \<not> can_failover (spec r))
    \<and> (requires_persistent_task (spec r) \<longrightarrow> \<not> can_stream (spec r))
    \<and> (force_platform r = [] \<or> force_platform r = ''antigravity'' \<and> starts_with path ''/antigravity'')"
  unfolding Let_def
  by (rule routed_capability_consistent [where mth = "''GET''"]) (simp_all add: route_defs segment_defs)

text \<open>
  Query strings: a non-empty query is accepted exactly when it has at most 4096 bytes, starts with
  a question mark, consists of visible ASCII characters other than the hash sign, and every percent
  sign is followed by two hexadecimal digits.  In particular no CR, LF or space is forwarded.
\<close>

theorem safe_query_iff:
  "is_safe_query_string q \<longleftrightarrow>
     q = [] \<or> (length q \<le> 4096 \<and> hd q = CHR ''?'' \<and> list_all query_char (tl q) \<and> percent_ok (tl q))"
  by (simp add: is_safe_query_string_def safe_query_chars_iff)

text \<open>
  The item-content route of an image batch accepts a path without an item id: the length of the id
  wraps below zero, the rest of the path is taken instead, and the request is routed.
\<close>

theorem item_content_without_id:
  "match_capability ''GET'' ''/v1/images/batches/b1/items/content'' =
     Some \<lparr>spec = kImagesBatch, operation = ''images_batch_item_content'', force_platform = []\<rparr>"
  by (simp add: route_defs segment_defs)

end
