(* ===== verification/Format_Common.thy ===== *)
theory Format_Common
  imports Chat_Ir
begin

text \<open>
  What the four format files share: reading arrays of strings and the text of a nested object,
  building optional members, and the reading of a tool result (each file has its own copy of this
  code).  The interface \<open>chat_codec\<close> states the contract of a format's request parser and
  serializer; the theorems about converting requests between formats are proved in it once.
\<close>

section \<open>Reading\<close>

text \<open>The strings of an array; other elements are skipped.\<close>

definition strings_in :: "json list \<Rightarrow> string list" where
  "strings_in xs = concat (map (\<lambda>v. case v of JString s \<Rightarrow> [cstr s] | _ \<Rightarrow> []) xs)"

text \<open>The members named \<open>text\<close> of the objects of an array.\<close>

definition texts_in :: "json list \<Rightarrow> string list" where
  "texts_in xs =
     concat (map (\<lambda>v. case string_at v ''text'' of Some s \<Rightarrow> [cstr s] | None \<Rightarrow> []) xs)"

text \<open>\<^verbatim>\<open>if (!acc.empty()) acc += "\n"; acc += s;\<close>\<close>

definition append_line :: "string \<Rightarrow> string \<Rightarrow> string" where
  "append_line acc s = (if acc \<noteq> [] then acc @ [CHR 0x0A] else acc) @ s"

text \<open>The serialized text of member \<open>k\<close>, if that is an object.\<close>

definition object_text :: "rapidjson \<Rightarrow> json \<Rightarrow> string \<Rightarrow> string" where
  "object_text rj j k = (case object_at j k of Some v \<Rightarrow> write_text rj v | None \<Rightarrow> [])"

text \<open>
  The content array of a tool result: the texts of its text blocks are concatenated, any other
  object marks the request unsupported.  \<^verbatim>\<open>sub["text"].GetString()\<close> is not guarded.
\<close>

definition sub_text :: "json \<Rightarrow> string \<times> bool \<Rightarrow> rj_error + string \<times> bool" where
  "sub_text sub st =
     (case st of (txt, unsupported) \<Rightarrow>
        if \<not> is_object sub then Inr st
        else if get_str sub ''type'' = ''text'' \<and> has_member sub ''text''
        then case string_at sub ''text'' of
               Some s \<Rightarrow> Inr (txt @ cstr s, unsupported)
             | None \<Rightarrow> Inl AssertFailed
        else Inr (txt, True))"

definition tool_result_text :: "json \<Rightarrow> bool \<Rightarrow> rj_error + string \<times> bool" where
  "tool_result_text block unsupported =
     (case member block ''content'' of
        Some (JString s) \<Rightarrow> Inr (cstr s, unsupported)
      | Some (JArray subs) \<Rightarrow> res_fold sub_text subs ([], unsupported)
      | _ \<Rightarrow> Inr ([], unsupported))"

section \<open>Building\<close>

definition opt_member :: "bool \<Rightarrow> string \<Rightarrow> json \<Rightarrow> (string \<times> json) list" where
  "opt_member c k v = (if c then [(k, v)] else [])"

text \<open>A member for a value that may be absent.\<close>

definition opt_value :: "string \<Rightarrow> json option \<Rightarrow> (string \<times> json) list" where
  "opt_value k v = (case v of Some x \<Rightarrow> [(k, x)] | None \<Rightarrow> [])"

definition opt_double :: "string \<Rightarrow> double option \<Rightarrow> (string \<times> json) list" where
  "opt_double k d = (case d of Some x \<Rightarrow> [(k, JDouble x)] | None \<Rightarrow> [])"

text \<open>
  \<^verbatim>\<open>Document d; if (!s.empty()) d.Parse(s.c_str()); if (error || !object) d.SetObject();\<close>
\<close>

definition object_or_empty :: "rapidjson \<Rightarrow> string \<Rightarrow> json" where
  "object_or_empty rj s =
     (if s = [] then JObject []
      else case parse_object rj (cstr s) of Some d \<Rightarrow> d | None \<Rightarrow> JObject [])"

text \<open>The frame of a server-sent event.\<close>

definition sse_data :: "string \<Rightarrow> string" where
  "sse_data s = ''data: '' @ s @ [CHR 0x0A, CHR 0x0A]"

definition sse_event :: "string \<Rightarrow> string \<Rightarrow> string" where
  "sse_event event_type s = ''event: '' @ event_type @ [CHR 0x0A] @ sse_data s"

lemma member_opt_member [simp]:
  "member (JObject (opt_member c k v @ ms)) x =
     (if c \<and> x = k then Some v else member (JObject ms) x)"
  "member (JObject (opt_member c k v)) x = (if c \<and> x = k then Some v else None)"
  by (simp_all add: opt_member_def)

lemma member_opt_value [simp]:
  "member (JObject (opt_value k v @ ms)) x =
     (if x = k \<and> v \<noteq> None then v else member (JObject ms) x)"
  "member (JObject (opt_value k v)) x = (if x = k \<and> v \<noteq> None then v else None)"
  by (simp_all add: opt_value_def split: option.split)

lemma member_opt_double [simp]:
  "member (JObject (opt_double k d @ ms)) x =
     (if x = k \<and> d \<noteq> None then Some (JDouble (the d)) else member (JObject ms) x)"
  "member (JObject (opt_double k d)) x =
     (if x = k \<and> d \<noteq> None then Some (JDouble (the d)) else None)"
  by (simp_all add: opt_double_def split: option.split)

lemma opt_double_value:
  "(if d \<noteq> None then Some (JDouble (the d)) else None) = map_option JDouble d"
  by (cases d) simp_all

lemma strings_in_jstr [simp]: "strings_in (map jstr ss) = map cstr ss"
  by (induction ss) (auto simp: strings_in_def jstr_def)

section \<open>Strings without NUL\<close>

definition nul_free :: "string \<Rightarrow> bool" where
  "nul_free s \<longleftrightarrow> cstr s = s"

lemma nul_free_cstr [simp]: "nul_free s \<Longrightarrow> cstr s = s"
  by (simp add: nul_free_def)

lemma nul_free_Nil [simp]: "nul_free []"
  by (simp add: nul_free_def)

lemma map_cstr_id: "list_all nul_free ss \<Longrightarrow> map cstr ss = ss"
  by (induction ss) auto

section \<open>Well-formed parts of a request\<close>

definition call_wf :: "ToolCall \<Rightarrow> bool" where
  "call_wf tc \<longleftrightarrow> nul_free (call_id tc) \<and> nul_free (call_name tc) \<and> nul_free (call_arguments tc)"

definition text_block_wf :: "ContentBlock \<Rightarrow> bool" where
  "text_block_wf b \<longleftrightarrow> nul_free (block_text b) \<and> b = text_block (block_text b)"

definition result_block_wf :: "ContentBlock \<Rightarrow> bool" where
  "result_block_wf b \<longleftrightarrow>
     nul_free (block_text b) \<and> nul_free (block_tool_call_id b) \<and>
     b = new_block\<lparr>block_type := ToolResult, block_tool_call_id := block_tool_call_id b,
                   block_text := block_text b\<rparr>"

text \<open>A tool whose parameter text is what the library writes for the object it reads from it.\<close>

definition tool_wf :: "rapidjson \<Rightarrow> ToolDef \<Rightarrow> bool" where
  "tool_wf rj t \<longleftrightarrow>
     nul_free (def_name t) \<and> nul_free (def_description t) \<and>
     (parameters_json t = [] \<or>
      (case parse_object rj (parameters_json t) of
         Some p \<Rightarrow> write_text rj p = parameters_json t | None \<Rightarrow> False))"

definition scalars_wf :: "ChatRequest \<Rightarrow> bool" where
  "scalars_wf req \<longleftrightarrow>
     nul_free (req_model req) \<and> nul_free (system req) \<and> nul_free (metadata_user_id req) \<and>
     list_all nul_free (stop req) \<and> 0 < max_tokens req \<and> max_tokens req \<le> int32_max \<and>
     \<not> unsupported_content req"

lemma tool_text_roundtrip:
  assumes "tool_wf rj t" and "parameters_json t \<noteq> []"
  shows "\<exists>p. Parse rj (parameters_json t) = Some p \<and> is_object p \<and> write_text rj p = parameters_json t
           \<and> cstr (parameters_json t) = parameters_json t"
  using assms unfolding tool_wf_def
  by (auto simp: parse_object_Some_iff split: option.splits) (metis cstr_write_text)+

lemma double_at_opt: "(case if d \<noteq> None then Some (JDouble (the d)) else None of
    Some v \<Rightarrow> if is_number v then Some (get_double v) else None | None \<Rightarrow> None) = d"
  by (cases d) simp_all

text \<open>A request and a JSON library for concrete instances.\<close>

definition example_request :: ChatRequest where
  "example_request = new_request\<lparr>req_model := ''m'', system := ''be brief'',
     messages := [new_message\<lparr>role := ''user'', content := [text_block ''hi'']\<rparr>,
       new_message\<lparr>role := ''assistant'',
         tool_calls := [\<lparr>call_id = ''c1'', call_name = ''f'', call_arguments = ''{}''\<rparr>]\<rparr>]\<rparr>"

definition no_json :: rapidjson where
  "no_json = \<lparr>Parse = (\<lambda>_. None), Write = (\<lambda>_. [])\<rparr>"

text \<open>Argument text that is what the library writes for the object it reads from it.\<close>

definition args_wf :: "rapidjson \<Rightarrow> string \<Rightarrow> bool" where
  "args_wf rj s \<longleftrightarrow>
     s \<noteq> [] \<and> (case parse_object rj s of Some p \<Rightarrow> write_text rj p = s | None \<Rightarrow> False)"

lemma args_wf_cases:
  assumes "args_wf rj s"
  obtains p where "parse_object rj s = Some p" "is_object p" "write_text rj p = s" "cstr s = s"
    "object_or_empty rj s = p"
proof -
  from assms obtain p where p: "parse_object rj s = Some p" "write_text rj p = s" "s \<noteq> []"
    by (auto simp: args_wf_def split: option.splits)
  then have c: "cstr s = s" by (metis cstr_write_text)
  have "object_or_empty rj s = p" using p c by (simp add: object_or_empty_def)
  moreover have "is_object p" using p(1) by (simp add: parse_object_Some_iff)
  ultimately show thesis using p c by (intro that [of p])
qed

definition use_block_wf :: "rapidjson \<Rightarrow> ContentBlock \<Rightarrow> bool" where
  "use_block_wf rj b \<longleftrightarrow>
     nul_free (block_tool_call_id b) \<and> nul_free (block_tool_name b) \<and>
     args_wf rj (block_tool_arguments b) \<and>
     b = new_block\<lparr>block_type := ToolUse, block_tool_call_id := block_tool_call_id b,
                   block_tool_name := block_tool_name b,
                   block_tool_arguments := block_tool_arguments b\<rparr>"

text \<open>The tool calls and the tool-result id that the parser derives from the blocks.\<close>

definition calls_of :: "ContentBlock list \<Rightarrow> ToolCall list" where
  "calls_of bs =
     concat (map (\<lambda>b. if block_type b = ToolUse
                      then [\<lparr>call_id = block_tool_call_id b, call_name = block_tool_name b,
                             call_arguments = block_tool_arguments b\<rparr>] else []) bs)"

definition result_id_of :: "ContentBlock list \<Rightarrow> string \<Rightarrow> string" where
  "result_id_of bs i = fold (\<lambda>b acc. if block_type b = ToolResult then block_tool_call_id b else acc) bs i"

lemma block_kinds:
  "text_block_wf b \<Longrightarrow> block_type b = Text" "result_block_wf b \<Longrightarrow> block_type b = ToolResult"
  "use_block_wf rj b \<Longrightarrow> block_type b = ToolUse"
proof -
  show "block_type b = Text" if "text_block_wf b"
  proof -
    from that obtain t where "b = text_block t" by (auto simp: text_block_wf_def)
    then show ?thesis by (simp add: text_block_def new_block_def)
  qed
  show "block_type b = ToolResult" if "result_block_wf b"
  proof -
    from that obtain i t where "b = new_block\<lparr>block_type := ToolResult, block_tool_call_id := i, block_text := t\<rparr>"
      by (metis result_block_wf_def)
    then show ?thesis by simp
  qed
  show "block_type b = ToolUse" if "use_block_wf rj b"
  proof -
    from that obtain i n a where "b = new_block\<lparr>block_type := ToolUse, block_tool_call_id := i,
      block_tool_name := n, block_tool_arguments := a\<rparr>" by (metis use_block_wf_def)
    then show ?thesis by simp
  qed
qed

text \<open>A JSON library that knows the empty object and one other document.\<close>

definition two_doc_json :: "json \<Rightarrow> rapidjson" where
  "two_doc_json d = \<lparr>Parse = (\<lambda>s. Some (if s = ''{}'' then JObject [] else d)),
                     Write = (\<lambda>j. if j = JObject [] then ''{}'' else ''x'')\<rparr>"

section \<open>The contract of a format\<close>

text \<open>
  \<open>wf\<close> describes the requests a format can carry: those that its serializer and parser preserve.
\<close>

locale chat_codec =
  fixes parse_doc :: "rapidjson \<Rightarrow> json \<Rightarrow> rj_error + ChatRequest"
    and request_doc :: "rapidjson \<Rightarrow> ChatRequest \<Rightarrow> json"
    and wf :: "rapidjson \<Rightarrow> ChatRequest \<Rightarrow> bool"
  assumes doc_object: "is_object (request_doc rj req)"
    and parse_request_doc: "wf rj req \<Longrightarrow> parse_doc rj (request_doc rj req) = Inr req"
begin

definition parse_text :: "rapidjson \<Rightarrow> string \<Rightarrow> rj_error + ChatRequest" where
  "parse_text rj body =
     (case parse_object rj body of Some doc \<Rightarrow> parse_doc rj doc | None \<Rightarrow> Inr new_request)"

definition request_text :: "rapidjson \<Rightarrow> ChatRequest \<Rightarrow> string" where
  "request_text rj req = write_text rj (request_doc rj req)"

text \<open>
  The round trip through text needs of the JSON library only that it reads back the one document
  that was written.
\<close>

lemma text_roundtrip:
  assumes "wf rj req"
    and "Parse rj (write_text rj (request_doc rj req)) = Some (request_doc rj req)"
  shows "parse_text rj (request_text rj req) = Inr req"
proof -
  have "parse_object rj (request_text rj req) = Some (request_doc rj req)"
    using assms(2) doc_object by (simp add: parse_object_Some_iff request_text_def)
  then show ?thesis using parse_request_doc [OF assms(1)] by (simp add: parse_text_def)
qed

text \<open>Two requests a format can carry are the same request when their documents agree.\<close>

lemma request_doc_inj:
  assumes "wf rj r1" and "wf rj r2" and "request_doc rj r1 = request_doc rj r2"
  shows "r1 = r2"
proof -
  have "Inr r1 = parse_doc rj (request_doc rj r1)" using parse_request_doc [OF assms(1)] by (rule sym)
  also have "\<dots> = Inr r2" unfolding assms(3) by (rule parse_request_doc [OF assms(2)])
  finally show ?thesis by simp
qed

end

end
