(* ===== verification/Openai_Format.thy ===== *)
theory Openai_Format
  imports Format_Common
begin

text \<open>
  The OpenAI Chat Completions format (\<^verbatim>\<open>protocol/openai_format.cpp\<close>): requests and stream events
  between the wire document and the intermediate representation.  The request parser and serializer
  are an instance of \<open>chat_codec\<close>; stream events have a round trip of their own.
\<close>

section \<open>Requests\<close>

definition openai_block ::
    "rapidjson \<Rightarrow> json \<Rightarrow> Message \<times> bool \<Rightarrow> rj_error + Message \<times> bool" where
  "openai_block rj part st =
     (case st of (msg, unsupported) \<Rightarrow>
        if \<not> is_object part then Inr st
        else let ty = get_str part ''type''
        in if ty = ''text'' then Inr (add_text (get_str part ''text'') msg, unsupported)
        else if ty = ''tool_use''
        then Inr (msg\<lparr>content := content msg @
               [new_block\<lparr>block_type := ToolUse,
                          block_tool_call_id := get_str part ''id'',
                          block_tool_name := get_str part ''name'',
                          block_tool_arguments := object_text rj part ''input''\<rparr>]\<rparr>, unsupported)
        else if ty = ''tool_result''
        then res_bind (tool_result_text part unsupported) (\<lambda>(txt, uns).
               Inr (msg\<lparr>content := content msg @
                 [new_block\<lparr>block_type := ToolResult,
                            block_tool_call_id := get_str part ''tool_use_id'',
                            block_text := txt\<rparr>]\<rparr>, uns))
        else Inr (msg, True))"

definition extract_content_blocks ::
    "rapidjson \<Rightarrow> json \<Rightarrow> Message \<times> bool \<Rightarrow> rj_error + Message \<times> bool" where
  "extract_content_blocks rj content_val st =
     (case content_val of
        JString s \<Rightarrow> Inr (add_text (cstr s) (fst st), snd st)
      | JArray parts \<Rightarrow> res_fold (openai_block rj) parts st
      | _ \<Rightarrow> Inr st)"

text \<open>The text of a system or developer message; \<open>None\<close> when it has no content member.\<close>

definition openai_system_text :: "json \<Rightarrow> string option" where
  "openai_system_text m =
     (case member m ''content'' of
        None \<Rightarrow> None
      | Some (JString s) \<Rightarrow> Some (cstr s)
      | Some (JArray parts) \<Rightarrow> Some (concat (texts_in parts))
      | Some _ \<Rightarrow> Some [])"

definition openai_tool_call :: "json \<Rightarrow> ToolCall list" where
  "openai_tool_call tc =
     (if \<not> is_object tc then []
      else case object_at tc ''function'' of
             None \<Rightarrow> [\<lparr>call_id = get_str tc ''id'', call_name = [], call_arguments = []\<rparr>]
           | Some fn \<Rightarrow> [\<lparr>call_id = get_str tc ''id'', call_name = get_str fn ''name'',
                          call_arguments = get_str fn ''arguments''\<rparr>])"

definition openai_message :: "rapidjson \<Rightarrow> json \<Rightarrow> ChatRequest \<Rightarrow> rj_error + ChatRequest" where
  "openai_message rj m req =
     (if \<not> is_object m then Inr req
      else let r = get_str m ''role''
      in if r = ''system'' \<or> r = ''developer''
      then Inr (case openai_system_text m of
                  None \<Rightarrow> req
                | Some t \<Rightarrow> req\<lparr>system := append_line (system req) t\<rparr>)
      else res_bind
             (case member m ''content'' of
                None \<Rightarrow> Inr (new_message\<lparr>role := r\<rparr>, unsupported_content req)
              | Some c \<Rightarrow> extract_content_blocks rj c (new_message\<lparr>role := r\<rparr>, unsupported_content req))
             (\<lambda>(msg, uns). Inr (req\<lparr>messages := messages req @
                [msg\<lparr>tool_calls := (case array_at m ''tool_calls'' of
                                     Some tcs \<Rightarrow> concat (map openai_tool_call tcs) | None \<Rightarrow> []),
                     msg_tool_call_id := get_str m ''tool_call_id''\<rparr>],
                unsupported_content := uns\<rparr>)))"

definition openai_tool :: "rapidjson \<Rightarrow> json \<Rightarrow> ToolDef list" where
  "openai_tool rj t =
     (if \<not> is_object t \<or> get_str t ''type'' \<noteq> ''function'' then []
      else case object_at t ''function'' of
             None \<Rightarrow> [new_tool_def]
           | Some fn \<Rightarrow> [\<lparr>def_name = get_str fn ''name'', def_description = get_str fn ''description'',
                          parameters_json = object_text rj fn ''parameters''\<rparr>])"

definition openai_stop :: "json \<Rightarrow> string list" where
  "openai_stop doc =
     (case member doc ''stop'' of
        Some (JString s) \<Rightarrow> [cstr s] | Some (JArray vs) \<Rightarrow> strings_in vs | _ \<Rightarrow> [])"

definition openai_parse_doc :: "rapidjson \<Rightarrow> json \<Rightarrow> rj_error + ChatRequest" where
  "openai_parse_doc rj doc =
     res_bind
       (res_fold (openai_message rj)
          (case array_at doc ''messages'' of Some ms \<Rightarrow> ms | None \<Rightarrow> [])
          (new_request\<lparr>
             req_model := get_str doc ''model'',
             req_stream := (case bool_at doc ''stream'' of Some b \<Rightarrow> b | None \<Rightarrow> False),
             max_tokens := (case int_at doc ''max_tokens'' of Some n \<Rightarrow> n
                            | None \<Rightarrow> (case int_at doc ''max_completion_tokens'' of
                                         Some n \<Rightarrow> n | None \<Rightarrow> 4096)),
             temperature := double_at doc ''temperature'',
             top_p := double_at doc ''top_p'',
             metadata_user_id := get_str doc ''user'',
             stop := openai_stop doc\<rparr>))
       (\<lambda>req. Inr (req\<lparr>tools := (case array_at doc ''tools'' of
                               Some ts \<Rightarrow> concat (map (openai_tool rj) ts) | None \<Rightarrow> [])\<rparr>))"

definition openai_parse_request :: "rapidjson \<Rightarrow> string \<Rightarrow> rj_error + ChatRequest" where
  "openai_parse_request rj body =
     (case parse_object rj body of None \<Rightarrow> Inr new_request | Some doc \<Rightarrow> openai_parse_doc rj doc)"

definition openai_block_doc :: "ContentBlock \<Rightarrow> json" where
  "openai_block_doc b =
     (case block_type b of
        Text \<Rightarrow> JObject [(''type'', JString ''text''), (''text'', jstr (block_text b))]
      | ToolResult \<Rightarrow> JObject [(''type'', JString ''tool_result''),
                               (''tool_use_id'', jstr (block_tool_call_id b)),
                               (''content'', jstr (block_text b))]
      | _ \<Rightarrow> JObject [])"

definition openai_call_doc :: "ToolCall \<Rightarrow> json" where
  "openai_call_doc tc =
     JObject [(''id'', jstr (call_id tc)), (''type'', JString ''function''),
              (''function'', JObject [(''name'', jstr (call_name tc)),
                                      (''arguments'', jstr (call_arguments tc))])]"

definition has_tool_blocks :: "Message \<Rightarrow> bool" where
  "has_tool_blocks msg \<longleftrightarrow>
     list_ex (\<lambda>b. block_type b = ToolUse \<or> block_type b = ToolResult) (content msg)"

definition openai_message_doc :: "Message \<Rightarrow> json" where
  "openai_message_doc msg =
     JObject ([(''role'', jstr (role msg))] @
       opt_member (msg_tool_call_id msg \<noteq> []) ''tool_call_id'' (jstr (msg_tool_call_id msg)) @
       [(''content'',
         if \<not> has_tool_blocks msg \<and> tool_calls msg = [] then jstr (text_content msg)
         else JArray (map openai_block_doc (content msg)))] @
       opt_member (tool_calls msg \<noteq> []) ''tool_calls''
         (JArray (map openai_call_doc (tool_calls msg))))"

text \<open>
  A tool's parameters are added when their text parses; an object is not required here.
\<close>

definition openai_tool_doc :: "rapidjson \<Rightarrow> ToolDef \<Rightarrow> json" where
  "openai_tool_doc rj t =
     JObject [(''type'', JString ''function''),
       (''function'', JObject ([(''name'', jstr (def_name t))] @
          opt_member (def_description t \<noteq> []) ''description'' (jstr (def_description t)) @
          opt_value ''parameters''
            (if parameters_json t \<noteq> [] then Parse rj (cstr (parameters_json t)) else None)))]"

definition openai_request_doc :: "rapidjson \<Rightarrow> ChatRequest \<Rightarrow> json" where
  "openai_request_doc rj req =
     JObject ([(''model'', jstr (req_model req)),
       (''messages'', JArray
          ((if system req \<noteq> []
            then [JObject [(''role'', JString ''system''), (''content'', jstr (system req))]]
            else []) @ map openai_message_doc (messages req)))] @
       opt_member (req_stream req) ''stream'' (JBool True) @
       opt_member (max_tokens req > 0) ''max_tokens'' (JInt (max_tokens req)) @
       opt_double ''temperature'' (temperature req) @
       opt_double ''top_p'' (top_p req) @
       opt_member (stop req \<noteq> []) ''stop'' (JArray (map jstr (stop req))) @
       opt_member (metadata_user_id req \<noteq> []) ''user'' (jstr (metadata_user_id req)) @
       opt_member (tools req \<noteq> []) ''tools'' (JArray (map (openai_tool_doc rj) (tools req))))"

definition openai_serialize_request :: "rapidjson \<Rightarrow> ChatRequest \<Rightarrow> string" where
  "openai_serialize_request rj req = write_text rj (openai_request_doc rj req)"

section \<open>Stream events\<close>

definition openai_delta_members :: "StreamDelta \<Rightarrow> (string \<times> json) list" where
  "openai_delta_members delta =
     (case delta_type delta of
        MessageStart \<Rightarrow> [(''role'', JString ''assistant''), (''content'', JString [])]
      | TextDelta \<Rightarrow> [(''content'', jstr (delta_text delta))]
      | ToolCallDelta \<Rightarrow>
          [(''tool_calls'', JArray [JObject ([(''index'', JInt (delta_index delta))] @
             opt_member (delta_tool_call_id delta \<noteq> []) ''id'' (jstr (delta_tool_call_id delta)) @
             (if delta_tool_name delta \<noteq> []
              then [(''type'', JString ''function''),
                    (''function'', JObject [(''name'', jstr (delta_tool_name delta)),
                                            (''arguments'', JString [])])]
              else if tool_arguments_delta delta \<noteq> []
              then [(''function'', JObject [(''name'', JString []),
                      (''arguments'', jstr (tool_arguments_delta delta))])]
              else []))])]
      | _ \<Rightarrow> [])"

definition openai_stream_doc :: "StreamDelta \<Rightarrow> json" where
  "openai_stream_doc delta =
     JObject ([(''object'', JString ''chat.completion.chunk'')] @
       opt_member (delta_id delta \<noteq> []) ''id'' (jstr (delta_id delta)) @
       opt_member (delta_model delta \<noteq> []) ''model'' (jstr (delta_model delta)) @
       [(''choices'', JArray [JObject
          [(''index'', JInt (delta_index delta)),
           (''delta'', JObject (openai_delta_members delta)),
           (''finish_reason'', if delta_finish_reason delta \<noteq> []
                               then jstr (delta_finish_reason delta) else JNull)]])])"

definition openai_serialize_stream_event :: "rapidjson \<Rightarrow> StreamDelta \<Rightarrow> string" where
  "openai_serialize_stream_event rj delta =
     (if delta_type delta = Done then sse_data ''[DONE]''
      else sse_data (write_text rj (openai_stream_doc delta)))"

text \<open>The part of the parser that reads the \<^verbatim>\<open>delta\<close> object of the first choice.\<close>

definition openai_read_delta :: "json \<Rightarrow> StreamDelta \<Rightarrow> rj_error + StreamDelta" where
  "openai_read_delta d delta =
     (if has_member d ''role'' \<and> has_member d ''content''
      then Inr (delta\<lparr>delta_type := MessageStart\<rparr>)
      else case string_at d ''content'' of
        Some s \<Rightarrow> Inr (delta\<lparr>delta_type := TextDelta, delta_text := cstr s\<rparr>)
      | None \<Rightarrow>
          (case array_at d ''tool_calls'' of
             Some (tc # _) \<Rightarrow>
               if \<not> is_object tc then Inl AssertFailed
               else Inr (delta\<lparr>delta_type := ToolCallDelta,
                  delta_index := (case int_at tc ''index'' of Some i \<Rightarrow> i | None \<Rightarrow> delta_index delta),
                  delta_tool_call_id := get_str tc ''id'',
                  delta_tool_name :=
                    (case object_at tc ''function'' of Some fn \<Rightarrow> get_str fn ''name'' | None \<Rightarrow> []),
                  tool_arguments_delta :=
                    (case object_at tc ''function'' of Some fn \<Rightarrow> get_str fn ''arguments'' | None \<Rightarrow> [])\<rparr>)
           | _ \<Rightarrow> Inr (if delta_finish_reason delta \<noteq> []
                      then delta\<lparr>delta_type := MessageEnd\<rparr> else delta)))"

definition openai_parse_event_doc :: "json \<Rightarrow> rj_error + StreamDelta" where
  "openai_parse_event_doc doc =
     (let delta = new_delta\<lparr>delta_model := get_str doc ''model'', delta_id := get_str doc ''id''\<rparr>
      in case array_at doc ''choices'' of
           Some (choice # _) \<Rightarrow>
             if \<not> is_object choice then Inl AssertFailed
             else let delta1 = delta\<lparr>delta_finish_reason := get_str choice ''finish_reason''\<rparr>
             in (case object_at choice ''delta'' of
                   None \<Rightarrow> Inr delta1
                 | Some d \<Rightarrow> openai_read_delta d delta1)
         | _ \<Rightarrow> Inr delta)"

definition openai_parse_stream_event :: "rapidjson \<Rightarrow> string \<Rightarrow> rj_error + StreamDelta" where
  "openai_parse_stream_event rj data =
     (if data = ''[DONE]'' then Inr (new_delta\<lparr>delta_type := Done\<rparr>)
      else case parse_object rj data of
             None \<Rightarrow> Inr new_delta
           | Some doc \<Rightarrow> openai_parse_event_doc doc)"

section \<open>The requests the format can carry\<close>

definition openai_message_wf :: "Message \<Rightarrow> bool" where
  "openai_message_wf m \<longleftrightarrow>
     nul_free (role m) \<and> role m \<noteq> ''system'' \<and> role m \<noteq> ''developer'' \<and>
     nul_free (msg_tool_call_id m) \<and> list_all call_wf (tool_calls m) \<and>
     (if \<not> has_tool_blocks m \<and> tool_calls m = []
      then length (content m) = 1 \<and> list_all text_block_wf (content m)
      else list_all (\<lambda>b. text_block_wf b \<or> result_block_wf b) (content m))"

definition openai_wf :: "rapidjson \<Rightarrow> ChatRequest \<Rightarrow> bool" where
  "openai_wf rj req \<longleftrightarrow>
     scalars_wf req \<and> list_all openai_message_wf (messages req) \<and> list_all (tool_wf rj) (tools req)"

text \<open>The stream events the format can carry.\<close>

definition openai_delta_wf :: "StreamDelta \<Rightarrow> bool" where
  "openai_delta_wf d \<longleftrightarrow>
     nul_free (delta_id d) \<and> nul_free (delta_model d) \<and> nul_free (delta_finish_reason d) \<and>
     nul_free (delta_text d) \<and> nul_free (delta_tool_call_id d) \<and> nul_free (delta_tool_name d) \<and>
     nul_free (tool_arguments_delta d) \<and> delta_input_tokens d = 0 \<and> delta_output_tokens d = 0 \<and>
     (case delta_type d of
        ToolCallDelta \<Rightarrow> in_int32 (delta_index d) \<and> delta_text d = []
          \<and> (delta_tool_name d = [] \<or> tool_arguments_delta d = [])
      | TextDelta \<Rightarrow> delta_index d = 0 \<and> delta_tool_call_id d = [] \<and> delta_tool_name d = []
          \<and> tool_arguments_delta d = []
      | MessageStart \<Rightarrow> delta_index d = 0 \<and> delta_text d = [] \<and> delta_tool_call_id d = []
          \<and> delta_tool_name d = [] \<and> tool_arguments_delta d = []
      | MessageEnd \<Rightarrow> delta_index d = 0 \<and> delta_text d = [] \<and> delta_tool_call_id d = []
          \<and> delta_tool_name d = [] \<and> tool_arguments_delta d = [] \<and> delta_finish_reason d \<noteq> []
      | _ \<Rightarrow> False)"

section \<open>Requests survive\<close>

lemma openai_call_roundtrip: "call_wf tc \<Longrightarrow> openai_tool_call (openai_call_doc tc) = [tc]"
  by (cases tc) (simp add: call_wf_def openai_tool_call_def openai_call_doc_def json_defs get_str_def jstr_def)

lemma openai_calls_roundtrip:
  "list_all call_wf tcs \<Longrightarrow> concat (map openai_tool_call (map openai_call_doc tcs)) = tcs"
  by (induction tcs) (simp_all add: openai_call_roundtrip)

lemma openai_text_block:
  assumes "text_block_wf b"
  shows "openai_block rj (openai_block_doc b) (msg, u) = Inr (msg\<lparr>content := content msg @ [b]\<rparr>, u)"
proof -
  from assms obtain t where b: "b = text_block t" and t: "nul_free t" by (auto simp: text_block_wf_def)
  then show ?thesis
    by (simp add: openai_block_def openai_block_doc_def text_block_def new_block_def add_text_def
        json_defs get_str_def jstr_def)
qed

lemma openai_result_block:
  assumes "result_block_wf b"
  shows "openai_block rj (openai_block_doc b) (msg, u) = Inr (msg\<lparr>content := content msg @ [b]\<rparr>, u)"
proof -
  from assms obtain i t where b: "b = new_block\<lparr>block_type := ToolResult, block_tool_call_id := i, block_text := t\<rparr>"
    and n: "nul_free t" "nul_free i" by (metis result_block_wf_def)
  then show ?thesis
    by (simp add: openai_block_def openai_block_doc_def new_block_def tool_result_text_def
        json_defs get_str_def jstr_def)
qed

lemma openai_blocks_roundtrip:
  "list_all (\<lambda>b. text_block_wf b \<or> result_block_wf b) bs \<Longrightarrow>
     res_fold (openai_block rj) (map openai_block_doc bs) (msg, u) =
       Inr (msg\<lparr>content := content msg @ bs\<rparr>, u)"
proof (induction bs arbitrary: msg)
  case (Cons b bs)
  then have "openai_block rj (openai_block_doc b) (msg, u) = Inr (msg\<lparr>content := content msg @ [b]\<rparr>, u)"
    using openai_text_block openai_result_block by auto
  with Cons show ?case by simp
qed simp

lemma openai_message_roundtrip:
  assumes "openai_message_wf m"
  shows "openai_message rj (openai_message_doc m) req = Inr (req\<lparr>messages := messages req @ [m]\<rparr>)"
proof -
  let ?d = "openai_message_doc m" and ?m0 = "new_message\<lparr>role := role m\<rparr>"
  have n: "nul_free (role m)" "nul_free (msg_tool_call_id m)"
    "role m \<noteq> ''system''" "role m \<noteq> ''developer''" "list_all call_wf (tool_calls m)"
    using assms by (simp_all add: openai_message_wf_def)
  have fields: "get_str ?d ''role'' = role m" "get_str ?d ''tool_call_id'' = msg_tool_call_id m"
    "is_object ?d"
    "array_at ?d ''tool_calls'' =
       (if tool_calls m = [] then None else Some (map openai_call_doc (tool_calls m)))"
    "member ?d ''content'' =
       Some (if \<not> has_tool_blocks m \<and> tool_calls m = [] then jstr (text_content m)
             else JArray (map openai_block_doc (content m)))"
    using n by (simp_all add: openai_message_doc_def json_defs get_str_def jstr_def)
  have "extract_content_blocks rj (the (member ?d ''content'')) (?m0, unsupported_content req)
      = Inr (?m0\<lparr>content := content m\<rparr>, unsupported_content req)"
  proof (cases "\<not> has_tool_blocks m \<and> tool_calls m = []")
    case True
    with assms obtain b where b: "content m = [b]" "text_block_wf b"
      by (auto simp: openai_message_wf_def length_Suc_conv)
    then obtain t where t: "content m = [text_block t]" "nul_free t" by (auto simp: text_block_wf_def)
    then show ?thesis
      using True by (simp add: fields extract_content_blocks_def jstr_def text_content_single add_text_def
          new_message_def)
  next
    case False
    with assms have "list_all (\<lambda>b. text_block_wf b \<or> result_block_wf b) (content m)"
      by (auto simp: openai_message_wf_def split: if_splits)
    from openai_blocks_roundtrip [OF this] False show ?thesis
      by (auto simp: fields extract_content_blocks_def new_message_def)
  qed
  moreover have "(case array_at ?d ''tool_calls'' of Some tcs \<Rightarrow> concat (map openai_tool_call tcs) | None \<Rightarrow> [])
      = tool_calls m"
    using openai_calls_roundtrip [OF n(5)] by (simp add: fields)
  ultimately show ?thesis
    using n by (simp add: openai_message_def fields new_message_def)
qed

lemma openai_messages_roundtrip:
  "list_all openai_message_wf ms \<Longrightarrow>
     res_fold (openai_message rj) (map openai_message_doc ms) req =
       Inr (req\<lparr>messages := messages req @ ms\<rparr>)"
  by (induction ms arbitrary: req) (simp_all add: openai_message_roundtrip)

lemma openai_tool_roundtrip:
  assumes "tool_wf rj t"
  shows "openai_tool rj (openai_tool_doc rj t) = [t]"
proof -
  have n: "nul_free (def_name t)" "nul_free (def_description t)" using assms by (simp_all add: tool_wf_def)
  show ?thesis
  proof (cases "parameters_json t = []")
    case True
    with n show ?thesis
      by (cases t) (simp add: openai_tool_def openai_tool_doc_def json_defs get_str_def jstr_def object_text_def)
  next
    case False
    from tool_text_roundtrip [OF assms this] obtain p where
      "Parse rj (parameters_json t) = Some p" "is_object p" "write_text rj p = parameters_json t"
      "cstr (parameters_json t) = parameters_json t" by blast
    with n False show ?thesis
      by (cases t; cases p) (simp_all add: openai_tool_def openai_tool_doc_def json_defs get_str_def jstr_def object_text_def)
  qed
qed

lemma openai_tools_roundtrip:
  "list_all (tool_wf rj) ts \<Longrightarrow> concat (map (openai_tool rj) (map (openai_tool_doc rj) ts)) = ts"
  by (induction ts) (simp_all add: openai_tool_roundtrip)

lemma openai_request_roundtrip:
  assumes "openai_wf rj req"
  shows "openai_parse_doc rj (openai_request_doc rj req) = Inr req"
proof -
  let ?d = "openai_request_doc rj req"
  have n: "nul_free (req_model req)" "nul_free (system req)" "nul_free (metadata_user_id req)"
    "list_all nul_free (stop req)" "0 < max_tokens req" "max_tokens req \<le> int32_max" "\<not> unsupported_content req"
    "list_all openai_message_wf (messages req)" "list_all (tool_wf rj) (tools req)"
    using assms by (simp_all add: openai_wf_def scalars_wf_def)
  have fields: "get_str ?d ''model'' = req_model req" "get_str ?d ''user'' = metadata_user_id req"
    "bool_at ?d ''stream'' = (if req_stream req then Some True else None)"
    "int_at ?d ''max_tokens'' = Some (max_tokens req)"
    "double_at ?d ''temperature'' = temperature req" "double_at ?d ''top_p'' = top_p req"
    "openai_stop ?d = stop req"
    "array_at ?d ''tools'' = (if tools req = [] then None else Some (map (openai_tool_doc rj) (tools req)))"
    using n by (simp_all add: openai_request_doc_def json_defs get_str_def jstr_def openai_stop_def
        double_at_opt map_cstr_id int_bounds del: not_None_eq)
  have msgs: "array_at ?d ''messages'' = Some ((if system req \<noteq> []
            then [JObject [(''role'', JString ''system''), (''content'', jstr (system req))]]
            else []) @ map openai_message_doc (messages req))"
    by (simp add: openai_request_doc_def json_defs)
  have sys: "openai_message rj (JObject [(''role'', JString ''system''), (''content'', jstr (system req))]) r
      = Inr (r\<lparr>system := append_line (system r) (system req)\<rparr>)" for r
    using n by (simp add: openai_message_def json_defs get_str_def openai_system_text_def jstr_def)
  have "(case array_at ?d ''tools'' of Some ts \<Rightarrow> concat (map (openai_tool rj) ts) | None \<Rightarrow> []) = tools req"
    using openai_tools_roundtrip [OF n(9)] by (simp add: fields)
  then show ?thesis
    using n openai_messages_roundtrip [OF n(8), of rj] unfolding openai_parse_doc_def
    by (simp add: fields msgs sys res_fold_append new_request_def append_line_def)
qed

interpretation openai: chat_codec openai_parse_doc openai_request_doc openai_wf
  by unfold_locales (simp add: openai_request_doc_def, rule openai_request_roundtrip)

section \<open>Stream events survive\<close>

lemma openai_stream_roundtrip:
  assumes "openai_delta_wf d"
  shows "openai_parse_event_doc (openai_stream_doc d) = Inr d"
proof -
  let ?d = "openai_stream_doc d"
  have n: "nul_free (delta_id d)" "nul_free (delta_model d)" "nul_free (delta_finish_reason d)"
    using assms by (simp_all add: openai_delta_wf_def)
  have fields: "get_str ?d ''model'' = delta_model d" "get_str ?d ''id'' = delta_id d"
    "array_at ?d ''choices'' = Some [JObject
          [(''index'', JInt (delta_index d)), (''delta'', JObject (openai_delta_members d)),
           (''finish_reason'', if delta_finish_reason d \<noteq> [] then jstr (delta_finish_reason d) else JNull)]]"
    using n by (simp_all add: openai_stream_doc_def json_defs get_str_def jstr_def)
  have read: "openai_read_delta (JObject (openai_delta_members d)) 
      (new_delta\<lparr>delta_model := delta_model d, delta_id := delta_id d, delta_finish_reason := delta_finish_reason d\<rparr>) = Inr d"
    using assms
    by (cases d; cases "delta_type d")
       (auto simp: openai_read_delta_def openai_delta_members_def openai_delta_wf_def json_defs get_str_def jstr_def
         new_delta_def)
  show ?thesis
    using n read
    by (cases "delta_finish_reason d = []")
       (simp_all add: openai_parse_event_doc_def fields, simp_all add: json_defs get_str_def jstr_def)
qed

section \<open>Properties\<close>

text \<open>
  A Chat Completions request survives serialization and parsing: for every request the format
  can carry (plain text turns, tool results, tool calls, tools with object parameters), parsing the
  serialized text gives back exactly that request, given only that the JSON library reads back the
  document it wrote.
\<close>

theorem openai_text_roundtrip:
  assumes "openai_wf rj req"
    and "Parse rj (openai_serialize_request rj req) = Some (openai_request_doc rj req)"
  shows "openai_parse_request rj (openai_serialize_request rj req) = Inr req"
  using openai.text_roundtrip [of rj req] assms
  by (simp add: openai_serialize_request_def openai_parse_request_def openai.parse_text_def
      openai.request_text_def option.case_eq_if)

theorem openai_text_roundtrip_witness:
  "let rj = \<lparr>Parse = (\<lambda>_. Some (openai_request_doc no_json example_request)), Write = (\<lambda>_. ''x'')\<rparr>
   in openai_parse_request rj (openai_serialize_request rj example_request) = Inr example_request"
  unfolding Let_def
  by (rule openai_text_roundtrip)
     (simp_all add: openai_wf_def scalars_wf_def openai_message_wf_def example_request_def new_defs
        text_block_wf_def call_wf_def has_tool_blocks_def nul_free_def openai_request_doc_def
        int_bounds)

text \<open>
  A Chat Completions stream chunk survives: for every event the format can carry, reading the
  serialized document gives back the same event, tool-call index and finish reason included.
\<close>

theorem openai_event_roundtrip:
  assumes "openai_delta_wf d"
  shows "openai_parse_event_doc (openai_stream_doc d) = Inr d"
  using assms by (rule openai_stream_roundtrip)

theorem openai_event_roundtrip_witness:
  "openai_parse_event_doc (openai_stream_doc (new_delta\<lparr>delta_type := ToolCallDelta,
      delta_index := 2, tool_arguments_delta := ''{}''\<rparr>)) =
    Inr (new_delta\<lparr>delta_type := ToolCallDelta, delta_index := 2, tool_arguments_delta := ''{}''\<rparr>)"
  by (rule openai_event_roundtrip)
     (simp add: openai_delta_wf_def new_defs nul_free_def int_bounds)

end
