(* ===== verification/Anthropic_Format.thy ===== *)
theory Anthropic_Format
  imports Format_Common
begin

text \<open>
  The Anthropic Messages format (\<^verbatim>\<open>protocol/anthropic_format.cpp\<close>): requests and stream events between
  the wire document and the intermediate representation, with the instance of \<open>chat_codec\<close> and the
  round trip of stream events.
\<close>

section \<open>Requests\<close>

text \<open>One block of a content array, read into the message and the unsupported flag.\<close>

definition anthropic_block ::
    "rapidjson \<Rightarrow> json \<Rightarrow> Message \<times> bool \<Rightarrow> rj_error + Message \<times> bool" where
  "anthropic_block rj block st =
     (case st of (msg, unsupported) \<Rightarrow>
        if \<not> is_object block then Inr st
        else let ty = get_str block ''type''
        in if ty = ''text'' then Inr (add_text (get_str block ''text'') msg, unsupported)
        else if ty = ''tool_use''
        then let i = get_str block ''id''; n = get_str block ''name''; a = object_text rj block ''input''
             in Inr (msg\<lparr>content := content msg @
                  [new_block\<lparr>block_type := ToolUse, block_tool_call_id := i, block_tool_name := n,
                             block_tool_arguments := a\<rparr>],
                  tool_calls := tool_calls msg @ [\<lparr>call_id = i, call_name = n, call_arguments = a\<rparr>]\<rparr>,
                  unsupported)
        else if ty = ''tool_result''
        then res_bind (tool_result_text block unsupported) (\<lambda>(txt, uns).
               let i = get_str block ''tool_use_id''
               in Inr (msg\<lparr>content := content msg @
                    [new_block\<lparr>block_type := ToolResult, block_tool_call_id := i, block_text := txt\<rparr>],
                    msg_tool_call_id := i\<rparr>, uns))
        else Inr (msg, True))"

definition anthropic_message :: "rapidjson \<Rightarrow> json \<Rightarrow> ChatRequest \<Rightarrow> rj_error + ChatRequest" where
  "anthropic_message rj m req =
     (if \<not> is_object m then Inr req
      else let msg0 = new_message\<lparr>role := get_str m ''role''\<rparr>
      in res_bind
           (case member m ''content'' of
              Some (JString s) \<Rightarrow> Inr (add_text (cstr s) msg0, unsupported_content req)
            | Some (JArray blocks) \<Rightarrow>
                res_fold (anthropic_block rj) blocks (msg0, unsupported_content req)
            | _ \<Rightarrow> Inr (msg0, unsupported_content req))
           (\<lambda>(msg, uns). Inr (req\<lparr>messages := messages req @ [msg], unsupported_content := uns\<rparr>)))"

definition anthropic_system :: "json \<Rightarrow> string" where
  "anthropic_system doc =
     (case member doc ''system'' of
        Some (JString s) \<Rightarrow> cstr s
      | Some (JArray blocks) \<Rightarrow> foldl append_line [] (texts_in blocks)
      | _ \<Rightarrow> [])"

definition anthropic_tool :: "rapidjson \<Rightarrow> json \<Rightarrow> ToolDef list" where
  "anthropic_tool rj t =
     (if \<not> is_object t then []
      else [\<lparr>def_name = get_str t ''name'', def_description = get_str t ''description'',
             parameters_json = object_text rj t ''input_schema''\<rparr>])"

definition anthropic_parse_doc :: "rapidjson \<Rightarrow> json \<Rightarrow> rj_error + ChatRequest" where
  "anthropic_parse_doc rj doc =
     res_bind
       (res_fold (anthropic_message rj)
          (case array_at doc ''messages'' of Some ms \<Rightarrow> ms | None \<Rightarrow> [])
          (new_request\<lparr>
             req_model := get_str doc ''model'',
             req_stream := (case bool_at doc ''stream'' of Some b \<Rightarrow> b | None \<Rightarrow> False),
             max_tokens := (case int_at doc ''max_tokens'' of Some n \<Rightarrow> n | None \<Rightarrow> 4096),
             temperature := double_at doc ''temperature'',
             top_p := double_at doc ''top_p'',
             system := anthropic_system doc,
             stop := (case array_at doc ''stop_sequences'' of Some vs \<Rightarrow> strings_in vs | None \<Rightarrow> []),
             metadata_user_id := (case object_at doc ''metadata'' of
                                    Some meta \<Rightarrow> get_str meta ''user_id'' | None \<Rightarrow> [])\<rparr>))
       (\<lambda>req. Inr (req\<lparr>tools := (case array_at doc ''tools'' of
                               Some ts \<Rightarrow> concat (map (anthropic_tool rj) ts) | None \<Rightarrow> [])\<rparr>))"

definition anthropic_parse_request :: "rapidjson \<Rightarrow> string \<Rightarrow> rj_error + ChatRequest" where
  "anthropic_parse_request rj body =
     (case parse_object rj body of None \<Rightarrow> Inr new_request | Some doc \<Rightarrow> anthropic_parse_doc rj doc)"

definition anthropic_block_doc :: "rapidjson \<Rightarrow> ContentBlock \<Rightarrow> json" where
  "anthropic_block_doc rj b =
     (case block_type b of
        Text \<Rightarrow> JObject [(''type'', JString ''text''), (''text'', jstr (block_text b))]
      | ToolUse \<Rightarrow> JObject [(''type'', JString ''tool_use''), (''id'', jstr (block_tool_call_id b)),
                            (''name'', jstr (block_tool_name b)),
                            (''input'', object_or_empty rj (block_tool_arguments b))]
      | ToolResult \<Rightarrow> JObject [(''type'', JString ''tool_result''),
                               (''tool_use_id'', jstr (block_tool_call_id b)),
                               (''content'', jstr (block_text b))]
      | Image \<Rightarrow> JObject [])"

definition needs_blocks :: "Message \<Rightarrow> bool" where
  "needs_blocks msg \<longleftrightarrow> list_ex (\<lambda>b. block_type b \<noteq> Text) (content msg) \<or> tool_calls msg \<noteq> []"

definition anthropic_message_doc :: "rapidjson \<Rightarrow> Message \<Rightarrow> json" where
  "anthropic_message_doc rj msg =
     JObject [(''role'', jstr (role msg)),
       (''content'', if \<not> needs_blocks msg then jstr (text_content msg)
                     else JArray (map (anthropic_block_doc rj) (content msg)))]"

definition anthropic_tool_doc :: "rapidjson \<Rightarrow> ToolDef \<Rightarrow> json" where
  "anthropic_tool_doc rj t =
     JObject ([(''name'', jstr (def_name t))] @
       opt_member (def_description t \<noteq> []) ''description'' (jstr (def_description t)) @
       [(''input_schema'', object_or_empty rj (parameters_json t))])"

definition anthropic_request_doc :: "rapidjson \<Rightarrow> ChatRequest \<Rightarrow> json" where
  "anthropic_request_doc rj req =
     JObject ([(''model'', jstr (req_model req)),
       (''max_tokens'', JInt (if max_tokens req > 0 then max_tokens req else 4096))] @
       opt_member (system req \<noteq> []) ''system'' (jstr (system req)) @
       opt_member (req_stream req) ''stream'' (JBool True) @
       opt_double ''temperature'' (temperature req) @
       opt_double ''top_p'' (top_p req) @
       opt_member (stop req \<noteq> []) ''stop_sequences'' (JArray (map jstr (stop req))) @
       opt_member (metadata_user_id req \<noteq> []) ''metadata''
         (JObject [(''user_id'', jstr (metadata_user_id req))]) @
       [(''messages'', JArray (map (anthropic_message_doc rj) (messages req)))] @
       opt_member (tools req \<noteq> []) ''tools'' (JArray (map (anthropic_tool_doc rj) (tools req))))"

definition anthropic_serialize_request :: "rapidjson \<Rightarrow> ChatRequest \<Rightarrow> string" where
  "anthropic_serialize_request rj req = write_text rj (anthropic_request_doc rj req)"

section \<open>Stream events\<close>

definition anthropic_event_type :: "delta_kind \<Rightarrow> string" where
  "anthropic_event_type k =
     (case k of
        MessageStart \<Rightarrow> ''message_start'' | ContentStart \<Rightarrow> ''content_block_start''
      | TextDelta \<Rightarrow> ''content_block_delta'' | ToolCallDelta \<Rightarrow> ''content_block_delta''
      | ContentEnd \<Rightarrow> ''content_block_stop'' | MessageEnd \<Rightarrow> ''message_delta''
      | Done \<Rightarrow> ''message_stop'')"

text \<open>The mapping of the finish reason in \<^verbatim>\<open>serialize_stream_event\<close>.\<close>

definition anthropic_stop_reason :: "string \<Rightarrow> string" where
  "anthropic_stop_reason r =
     (let reason = (if r = [] then ''end_turn'' else r)
      in if reason = ''stop'' then ''end_turn''
         else if reason = ''tool_calls'' then ''tool_use'' else reason)"

definition anthropic_stream_doc :: "StreamDelta \<Rightarrow> json" where
  "anthropic_stream_doc delta =
     JObject ((''type'', JString (anthropic_event_type (delta_type delta))) #
      (case delta_type delta of
         MessageStart \<Rightarrow>
           [(''message'', JObject [(''id'', if delta_id delta = [] then JString ''msg_gateway''
                                            else jstr (delta_id delta)),
              (''type'', JString ''message''), (''role'', JString ''assistant''),
              (''model'', jstr (delta_model delta)),
              (''usage'', JObject [(''input_tokens'', JInt (delta_input_tokens delta)),
                                   (''output_tokens'', JInt 0)])])]
       | ContentStart \<Rightarrow>
           [(''index'', JInt (delta_index delta)),
            (''content_block'',
             if delta_tool_name delta \<noteq> []
             then JObject [(''type'', JString ''tool_use''), (''id'', jstr (delta_tool_call_id delta)),
                           (''name'', jstr (delta_tool_name delta)), (''input'', JObject [])]
             else JObject [(''type'', JString ''text''), (''text'', JString [])])]
       | TextDelta \<Rightarrow>
           [(''index'', JInt (delta_index delta)),
            (''delta'', JObject [(''type'', JString ''text_delta''), (''text'', jstr (delta_text delta))])]
       | ToolCallDelta \<Rightarrow>
           [(''index'', JInt (delta_index delta)),
            (''delta'', JObject [(''type'', JString ''input_json_delta''),
                                 (''partial_json'', jstr (tool_arguments_delta delta))])]
       | ContentEnd \<Rightarrow> [(''index'', JInt (delta_index delta))]
       | MessageEnd \<Rightarrow>
           [(''delta'', JObject [(''stop_reason'', jstr (anthropic_stop_reason (delta_finish_reason delta)))]),
            (''usage'', JObject [(''output_tokens'', JInt (delta_output_tokens delta))])]
       | Done \<Rightarrow> []))"

definition anthropic_serialize_stream_event :: "rapidjson \<Rightarrow> StreamDelta \<Rightarrow> string" where
  "anthropic_serialize_stream_event rj delta =
     sse_event (anthropic_event_type (delta_type delta)) (write_text rj (anthropic_stream_doc delta))"

definition index_of :: "json \<Rightarrow> int" where
  "index_of doc = (case int_at doc ''index'' of Some i \<Rightarrow> i | None \<Rightarrow> 0)"

definition anthropic_parse_event_doc :: "string \<Rightarrow> json \<Rightarrow> StreamDelta" where
  "anthropic_parse_event_doc event_type doc =
     (if event_type = ''message_start''
      then let d0 = new_delta\<lparr>delta_type := MessageStart\<rparr>
           in (case object_at doc ''message'' of
                 None \<Rightarrow> d0
               | Some msg \<Rightarrow> d0\<lparr>delta_id := get_str msg ''id'', delta_model := get_str msg ''model'',
                   delta_input_tokens :=
                     (case object_at msg ''usage'' of
                        None \<Rightarrow> 0
                      | Some u \<Rightarrow> (case int_at u ''input_tokens'' of Some n \<Rightarrow> n | None \<Rightarrow> 0))\<rparr>)
      else if event_type = ''content_block_start''
      then let d0 = new_delta\<lparr>delta_type := ContentStart, delta_index := index_of doc\<rparr>
           in (case object_at doc ''content_block'' of
                 None \<Rightarrow> d0
               | Some block \<Rightarrow>
                   if get_str block ''type'' = ''tool_use''
                   then d0\<lparr>delta_tool_call_id := get_str block ''id'',
                           delta_tool_name := get_str block ''name''\<rparr>
                   else d0)
      else if event_type = ''content_block_delta''
      then let d0 = new_delta\<lparr>delta_index := index_of doc\<rparr>
           in (case object_at doc ''delta'' of
                 None \<Rightarrow> d0
               | Some d \<Rightarrow>
                   if get_str d ''type'' = ''text_delta''
                   then d0\<lparr>delta_type := TextDelta, delta_text := get_str d ''text''\<rparr>
                   else if get_str d ''type'' = ''input_json_delta''
                   then d0\<lparr>delta_type := ToolCallDelta,
                           tool_arguments_delta := get_str d ''partial_json''\<rparr>
                   else d0)
      else if event_type = ''content_block_stop''
      then new_delta\<lparr>delta_type := ContentEnd, delta_index := index_of doc\<rparr>
      else if event_type = ''message_delta''
      then new_delta\<lparr>delta_type := MessageEnd,
             delta_finish_reason :=
               (case object_at doc ''delta'' of
                  None \<Rightarrow> []
                | Some d \<Rightarrow> let r = get_str d ''stop_reason''
                           in if r = ''end_turn'' then ''stop''
                              else if r = ''tool_use'' then ''tool_calls'' else r),
             delta_output_tokens :=
               (case object_at doc ''usage'' of
                  None \<Rightarrow> 0
                | Some u \<Rightarrow> (case int_at u ''output_tokens'' of Some n \<Rightarrow> n | None \<Rightarrow> 0))\<rparr>
      else if event_type = ''message_stop'' then new_delta\<lparr>delta_type := Done\<rparr>
      else new_delta)"

definition anthropic_parse_stream_event :: "rapidjson \<Rightarrow> string \<Rightarrow> string \<Rightarrow> StreamDelta" where
  "anthropic_parse_stream_event rj event_type data =
     (case parse_object rj data of
        None \<Rightarrow> new_delta
      | Some doc \<Rightarrow> anthropic_parse_event_doc event_type doc)"

section \<open>What the format can carry\<close>

definition anthropic_message_wf :: "rapidjson \<Rightarrow> Message \<Rightarrow> bool" where
  "anthropic_message_wf rj m \<longleftrightarrow>
     nul_free (role m) \<and> tool_calls m = calls_of (content m) \<and>
     msg_tool_call_id m = result_id_of (content m) [] \<and>
     (if needs_blocks m
      then list_all (\<lambda>b. text_block_wf b \<or> use_block_wf rj b \<or> result_block_wf b) (content m)
      else length (content m) = 1 \<and> list_all text_block_wf (content m))"

definition anthropic_wf :: "rapidjson \<Rightarrow> ChatRequest \<Rightarrow> bool" where
  "anthropic_wf rj req \<longleftrightarrow>
     scalars_wf req \<and> list_all (anthropic_message_wf rj) (messages req) \<and>
     list_all (\<lambda>t. nul_free (def_name t) \<and> nul_free (def_description t) \<and> args_wf rj (parameters_json t))
       (tools req)"

definition anthropic_delta_wf :: "StreamDelta \<Rightarrow> bool" where
  "anthropic_delta_wf d \<longleftrightarrow>
     nul_free (delta_id d) \<and> nul_free (delta_model d) \<and> nul_free (delta_finish_reason d) \<and>
     nul_free (delta_text d) \<and> nul_free (delta_tool_call_id d) \<and> nul_free (delta_tool_name d) \<and>
     nul_free (tool_arguments_delta d) \<and> in_int32 (delta_index d) \<and>
     in_int32 (delta_input_tokens d) \<and> in_int32 (delta_output_tokens d) \<and>
     (delta_type d \<noteq> TextDelta \<longrightarrow> delta_text d = []) \<and>
     (delta_type d \<noteq> ContentStart \<longrightarrow> delta_tool_name d = []) \<and>
     (delta_tool_name d = [] \<longrightarrow> delta_tool_call_id d = []) \<and>
     (delta_type d \<noteq> ToolCallDelta \<longrightarrow> tool_arguments_delta d = []) \<and>
     (delta_type d \<noteq> MessageStart \<longrightarrow>
        delta_id d = [] \<and> delta_model d = [] \<and> delta_input_tokens d = 0) \<and>
     (delta_type d = MessageStart \<longrightarrow> delta_id d \<noteq> []) \<and>
     (delta_type d \<noteq> MessageEnd \<longrightarrow> delta_finish_reason d = [] \<and> delta_output_tokens d = 0) \<and>
     (delta_type d = MessageEnd \<longrightarrow>
        delta_finish_reason d \<notin> {[], ''end_turn'', ''tool_use''}) \<and>
     (delta_type d \<in> {MessageStart, MessageEnd, Done} \<longrightarrow> delta_index d = 0)"

section \<open>Requests and events survive\<close>

lemma anthropic_text_block:
  assumes "text_block_wf b"
  shows "anthropic_block rj (anthropic_block_doc rj b) (msg, u) = Inr (msg\<lparr>content := content msg @ [b]\<rparr>, u)"
proof -
  from assms obtain t where b: "b = text_block t" and t: "nul_free t" by (auto simp: text_block_wf_def)
  then show ?thesis
    by (simp add: anthropic_block_def anthropic_block_doc_def text_block_def new_block_def add_text_def
        json_defs get_str_def jstr_def)
qed

lemma anthropic_result_block:
  assumes "result_block_wf b"
  shows "anthropic_block rj (anthropic_block_doc rj b) (msg, u) =
    Inr (msg\<lparr>content := content msg @ [b], msg_tool_call_id := block_tool_call_id b\<rparr>, u)"
proof -
  from assms obtain i t where b: "b = new_block\<lparr>block_type := ToolResult, block_tool_call_id := i, block_text := t\<rparr>"
    and n: "nul_free t" "nul_free i" by (metis result_block_wf_def)
  then show ?thesis
    by (simp add: anthropic_block_def anthropic_block_doc_def new_block_def tool_result_text_def
        json_defs get_str_def jstr_def)
qed

lemma anthropic_use_block:
  assumes "use_block_wf rj b"
  shows "anthropic_block rj (anthropic_block_doc rj b) (msg, u) =
    Inr (msg\<lparr>content := content msg @ [b], tool_calls := tool_calls msg @ calls_of [b]\<rparr>, u)"
proof -
  from assms obtain i n a where b: "b = new_block\<lparr>block_type := ToolUse, block_tool_call_id := i,
      block_tool_name := n, block_tool_arguments := a\<rparr>" and nf: "nul_free i" "nul_free n" and a: "args_wf rj a"
    by (metis use_block_wf_def)
  from a obtain p where p: "is_object p" "write_text rj p = a" "object_or_empty rj a = p"
    by (rule args_wf_cases)
  then show ?thesis using b nf
    by (cases p) (simp_all add: anthropic_block_def anthropic_block_doc_def new_block_def calls_of_def
        json_defs get_str_def jstr_def object_text_def)
qed

lemma anthropic_blocks_roundtrip:
  "list_all (\<lambda>b. text_block_wf b \<or> use_block_wf rj b \<or> result_block_wf b) bs \<Longrightarrow>
     res_fold (anthropic_block rj) (map (anthropic_block_doc rj) bs) (msg, u) =
       Inr (msg\<lparr>content := content msg @ bs, tool_calls := tool_calls msg @ calls_of bs,
                msg_tool_call_id := result_id_of bs (msg_tool_call_id msg)\<rparr>, u)"
proof (induction bs arbitrary: msg)
  case Nil
  then show ?case by (simp add: calls_of_def result_id_of_def)
next
  case (Cons b bs)
  then consider "text_block_wf b" | "use_block_wf rj b" | "result_block_wf b" by auto
  then show ?case
  proof cases
    case 1
    with Cons show ?thesis
      by (simp add: anthropic_text_block block_kinds calls_of_def result_id_of_def)
  next
    case 2
    with Cons show ?thesis
      by (simp add: anthropic_use_block block_kinds calls_of_def result_id_of_def)
  next
    case 3
    with Cons show ?thesis
      by (simp add: anthropic_result_block block_kinds calls_of_def result_id_of_def)
  qed
qed

lemma anthropic_message_roundtrip:
  assumes "anthropic_message_wf rj m"
  shows "anthropic_message rj (anthropic_message_doc rj m) req = Inr (req\<lparr>messages := messages req @ [m]\<rparr>)"
proof -
  let ?d = "anthropic_message_doc rj m"
  have fields: "get_str ?d ''role'' = role m" "is_object ?d"
    "member ?d ''content'' = Some (if \<not> needs_blocks m then jstr (text_content m)
                     else JArray (map (anthropic_block_doc rj) (content m)))"
    using assms by (simp_all add: anthropic_message_doc_def anthropic_message_wf_def json_defs get_str_def jstr_def)
  show ?thesis
  proof (cases "needs_blocks m")
    case True
    with assms have "list_all (\<lambda>b. text_block_wf b \<or> use_block_wf rj b \<or> result_block_wf b) (content m)"
      "tool_calls m = calls_of (content m)" "msg_tool_call_id m = result_id_of (content m) []"
      by (simp_all add: anthropic_message_wf_def)
    with True show ?thesis
      by (simp add: anthropic_message_def fields anthropic_blocks_roundtrip new_message_def)
  next
    case False
    with assms obtain b where b: "content m = [b]" "text_block_wf b"
      by (auto simp: anthropic_message_wf_def length_Suc_conv)
    then obtain t where t: "content m = [text_block t]" "nul_free t" by (auto simp: text_block_wf_def)
    with False assms show ?thesis
      by (simp add: anthropic_message_def fields text_content_single jstr_def add_text_def new_message_def
          anthropic_message_wf_def calls_of_def result_id_of_def text_block_def new_block_def)
  qed
qed

lemma anthropic_messages_roundtrip:
  "list_all (anthropic_message_wf rj) ms \<Longrightarrow>
     res_fold (anthropic_message rj) (map (anthropic_message_doc rj) ms) req =
       Inr (req\<lparr>messages := messages req @ ms\<rparr>)"
  by (induction ms arbitrary: req) (simp_all add: anthropic_message_roundtrip)

lemma anthropic_tool_roundtrip:
  assumes "nul_free (def_name t)" "nul_free (def_description t)" "args_wf rj (parameters_json t)"
  shows "anthropic_tool rj (anthropic_tool_doc rj t) = [t]"
proof -
  from assms(3) obtain p where "is_object p" "write_text rj p = parameters_json t"
      "object_or_empty rj (parameters_json t) = p" by (rule args_wf_cases)
  with assms(1,2) show ?thesis
    by (cases t; cases p) (simp_all add: anthropic_tool_def anthropic_tool_doc_def json_defs get_str_def jstr_def object_text_def)
qed

lemma anthropic_tools_roundtrip:
  "list_all (\<lambda>t. nul_free (def_name t) \<and> nul_free (def_description t) \<and> args_wf rj (parameters_json t)) ts \<Longrightarrow>
    concat (map (anthropic_tool rj) (map (anthropic_tool_doc rj) ts)) = ts"
  by (induction ts) (simp_all add: anthropic_tool_roundtrip)

lemma anthropic_request_roundtrip:
  assumes "anthropic_wf rj req"
  shows "anthropic_parse_doc rj (anthropic_request_doc rj req) = Inr req"
proof -
  let ?d = "anthropic_request_doc rj req"
  have n: "nul_free (req_model req)" "nul_free (system req)" "nul_free (metadata_user_id req)"
    "list_all nul_free (stop req)" "0 < max_tokens req" "max_tokens req \<le> int32_max" "\<not> unsupported_content req"
    and ms: "list_all (anthropic_message_wf rj) (messages req)"
    and ts: "list_all (\<lambda>t. nul_free (def_name t) \<and> nul_free (def_description t) \<and> args_wf rj (parameters_json t)) (tools req)"
    using assms by (simp_all add: anthropic_wf_def scalars_wf_def)
  have fields: "get_str ?d ''model'' = req_model req"
    "(case object_at ?d ''metadata'' of Some meta \<Rightarrow> get_str meta ''user_id'' | None \<Rightarrow> []) = metadata_user_id req"
    "bool_at ?d ''stream'' = (if req_stream req then Some True else None)"
    "int_at ?d ''max_tokens'' = Some (max_tokens req)"
    "double_at ?d ''temperature'' = temperature req" "double_at ?d ''top_p'' = top_p req"
    "(case array_at ?d ''stop_sequences'' of Some vs \<Rightarrow> strings_in vs | None \<Rightarrow> []) = stop req"
    "anthropic_system ?d = system req"
    "array_at ?d ''tools'' = (if tools req = [] then None else Some (map (anthropic_tool_doc rj) (tools req)))"
    "array_at ?d ''messages'' = Some (map (anthropic_message_doc rj) (messages req))"
    using n by (simp_all add: anthropic_request_doc_def json_defs get_str_def jstr_def anthropic_system_def
        double_at_opt map_cstr_id int_bounds del: not_None_eq)
  have "(case array_at ?d ''tools'' of Some ts \<Rightarrow> concat (map (anthropic_tool rj) ts) | None \<Rightarrow> []) = tools req"
    using anthropic_tools_roundtrip [OF ts] by (simp add: fields)
  then show ?thesis
    using n anthropic_messages_roundtrip [OF ms] unfolding anthropic_parse_doc_def
    by (simp add: fields new_request_def)
qed

interpretation anthropic: chat_codec anthropic_parse_doc anthropic_request_doc anthropic_wf
  by unfold_locales (simp add: anthropic_request_doc_def, rule anthropic_request_roundtrip)

lemma anthropic_stream_roundtrip:
  assumes "anthropic_delta_wf d"
  shows "anthropic_parse_event_doc (anthropic_event_type (delta_type d)) (anthropic_stream_doc d) = d"
  using assms
  by (cases d; cases "delta_type d")
     (auto simp: anthropic_parse_event_doc_def anthropic_stream_doc_def anthropic_event_type_def anthropic_delta_wf_def
       json_defs get_str_def jstr_def index_of_def new_delta_def anthropic_stop_reason_def Let_def)

section \<open>Properties\<close>

text \<open>
  An Anthropic Messages request survives serialization and parsing: text turns, tool uses with
  their arguments, tool results, tools with their schemas and all parameters come back exactly, given
  only that the JSON library reads back the document it wrote.
\<close>

theorem anthropic_text_roundtrip:
  assumes "anthropic_wf rj req"
    and "Parse rj (anthropic_serialize_request rj req) = Some (anthropic_request_doc rj req)"
  shows "anthropic_parse_request rj (anthropic_serialize_request rj req) = Inr req"
  using anthropic.text_roundtrip [of rj req] assms
  by (simp add: anthropic_serialize_request_def anthropic_parse_request_def anthropic.parse_text_def
      anthropic.request_text_def option.case_eq_if)

text \<open>A tool-use turn.\<close>

definition tool_use_request :: ChatRequest where
  "tool_use_request = new_request\<lparr>req_model := ''m'',
     messages := [new_message\<lparr>role := ''assistant'',
       content := [text_block ''ok'', new_block\<lparr>block_type := ToolUse, block_tool_call_id := ''t1'',
                     block_tool_name := ''f'', block_tool_arguments := ''{}''\<rparr>],
       tool_calls := [\<lparr>call_id = ''t1'', call_name = ''f'', call_arguments = ''{}''\<rparr>]\<rparr>]\<rparr>"

theorem anthropic_text_roundtrip_witness:
  "let rj = two_doc_json (anthropic_request_doc (two_doc_json JNull) tool_use_request)
   in anthropic_parse_request rj (anthropic_serialize_request rj tool_use_request)
        = Inr tool_use_request"
  unfolding Let_def
  by (rule anthropic_text_roundtrip)
     (simp_all add: anthropic_wf_def scalars_wf_def anthropic_message_wf_def tool_use_request_def
        new_defs text_block_wf_def use_block_wf_def args_wf_def calls_of_def result_id_of_def
        needs_blocks_def nul_free_def anthropic_serialize_request_def anthropic_request_doc_def
        anthropic_message_doc_def anthropic_block_doc_def object_or_empty_def two_doc_json_def
        parse_object_def write_text_def int_bounds jstr_def)

text \<open>
  An Anthropic stream event survives: message start with id, model and input tokens, block start
  with tool id and name, text and argument deltas with their index, message end with stop reason and
  output tokens are read back as the same event from the document written for them.
\<close>

theorem anthropic_event_roundtrip:
  assumes "anthropic_delta_wf d"
  shows "anthropic_parse_event_doc (anthropic_event_type (delta_type d)) (anthropic_stream_doc d) = d"
  using assms by (rule anthropic_stream_roundtrip)

theorem anthropic_event_roundtrip_witness:
  "let d = new_delta\<lparr>delta_type := MessageEnd, delta_finish_reason := ''tool_calls'',
                     delta_output_tokens := 9\<rparr>
   in anthropic_parse_event_doc (anthropic_event_type (delta_type d)) (anthropic_stream_doc d) = d"
  unfolding Let_def
  by (rule anthropic_event_roundtrip)
     (simp add: anthropic_delta_wf_def new_defs nul_free_def int_bounds)

end
