(* ===== verification/Gemini_Format.thy ===== *)
theory Gemini_Format
  imports Format_Common
begin

text \<open>
  The Gemini generateContent format (\<^verbatim>\<open>protocol/gemini_format.cpp\<close>): requests and stream events between
  the wire document and the intermediate representation, with the instance of \<open>chat_codec\<close> and the
  round trip of stream events.  The model name and the stream flag travel in the URL and are not part
  of the document.
\<close>

section \<open>Requests\<close>

text \<open>
  One part of a content; the state is the message, the tool-call counter and the unsupported flag.
\<close>

definition gemini_part ::
    "rapidjson \<Rightarrow> json \<Rightarrow> Message \<times> nat \<times> bool \<Rightarrow> Message \<times> nat \<times> bool" where
  "gemini_part rj p st =
     (case st of (msg, counter, unsupported) \<Rightarrow>
        if \<not> is_object p then st
        else case string_at p ''text'' of
          Some s \<Rightarrow> (add_text (cstr s) msg, counter, unsupported)
        | None \<Rightarrow>
          (case object_at p ''functionCall'' of
             Some fc \<Rightarrow>
               let n = get_str fc ''name''; i = n @ ''_'' @ to_string (Suc counter);
                   a = object_text rj fc ''args''
               in (msg\<lparr>content := content msg @
                     [new_block\<lparr>block_type := ToolUse, block_tool_name := n, block_tool_call_id := i,
                                block_tool_arguments := a\<rparr>],
                     tool_calls := tool_calls msg @ [\<lparr>call_id = i, call_name = n, call_arguments = a\<rparr>]\<rparr>,
                   Suc counter, unsupported)
           | None \<Rightarrow>
             (case object_at p ''functionResponse'' of
                Some fr \<Rightarrow>
                  let n = get_str fr ''name''
                  in (msg\<lparr>content := content msg @
                        [new_block\<lparr>block_type := ToolResult, block_tool_name := n,
                                   block_tool_call_id := n,
                                   block_text := object_text rj fr ''response''\<rparr>],
                        msg_tool_call_id := n\<rparr>, counter, unsupported)
              | None \<Rightarrow> (msg, counter, True))))"

definition gemini_message :: "rapidjson \<Rightarrow> json \<Rightarrow> ChatRequest \<Rightarrow> ChatRequest" where
  "gemini_message rj c req =
     (if \<not> is_object c then req
      else let r = get_str c ''role'';
               msg0 = new_message\<lparr>role := (if r = ''model'' then ''assistant'' else r)\<rparr>;
               (msg, _, uns) = fold (gemini_part rj)
                                 (case array_at c ''parts'' of Some ps \<Rightarrow> ps | None \<Rightarrow> [])
                                 (msg0, 0, unsupported_content req)
           in req\<lparr>messages := messages req @ [msg], unsupported_content := uns\<rparr>)"

definition gemini_declaration :: "rapidjson \<Rightarrow> json \<Rightarrow> ToolDef list" where
  "gemini_declaration rj fd =
     (if \<not> is_object fd then []
      else [\<lparr>def_name = get_str fd ''name'', def_description = get_str fd ''description'',
             parameters_json = object_text rj fd ''parameters''\<rparr>])"

definition gemini_tool :: "rapidjson \<Rightarrow> json \<Rightarrow> ToolDef list" where
  "gemini_tool rj t =
     (case array_at t ''functionDeclarations'' of
        Some fds \<Rightarrow> concat (map (gemini_declaration rj) fds) | None \<Rightarrow> [])"

definition gemini_system :: "json \<Rightarrow> string" where
  "gemini_system doc =
     (case object_at doc ''systemInstruction'' of
        None \<Rightarrow> []
      | Some si \<Rightarrow> (case array_at si ''parts'' of
                     Some ps \<Rightarrow> foldl append_line [] (texts_in ps) | None \<Rightarrow> []))"

definition gemini_config :: "json \<Rightarrow> ChatRequest \<Rightarrow> ChatRequest" where
  "gemini_config doc req =
     (case object_at doc ''generationConfig'' of
        None \<Rightarrow> req
      | Some gc \<Rightarrow> req\<lparr>
          max_tokens := (case int_at gc ''maxOutputTokens'' of Some n \<Rightarrow> n | None \<Rightarrow> max_tokens req),
          temperature := double_at gc ''temperature'',
          top_p := double_at gc ''topP'',
          stop := (case array_at gc ''stopSequences'' of Some vs \<Rightarrow> strings_in vs | None \<Rightarrow> [])\<rparr>)"

definition gemini_parse_doc :: "rapidjson \<Rightarrow> json \<Rightarrow> ChatRequest" where
  "gemini_parse_doc rj doc =
     (fold (gemini_message rj)
        (case array_at doc ''contents'' of Some cs \<Rightarrow> cs | None \<Rightarrow> [])
        (gemini_config doc
          (new_request\<lparr>req_model := get_str doc ''model'', system := gemini_system doc\<rparr>)))
     \<lparr>tools := (case array_at doc ''tools'' of
                 Some ts \<Rightarrow> concat (map (gemini_tool rj) ts) | None \<Rightarrow> [])\<rparr>"

definition gemini_parse_request :: "rapidjson \<Rightarrow> string \<Rightarrow> ChatRequest" where
  "gemini_parse_request rj body =
     (case parse_object rj body of None \<Rightarrow> new_request | Some doc \<Rightarrow> gemini_parse_doc rj doc)"

text \<open>A tool result whose text is not an object is wrapped as \<^verbatim>\<open>{"result": text}\<close>.\<close>

definition gemini_response_value :: "rapidjson \<Rightarrow> string \<Rightarrow> json" where
  "gemini_response_value rj txt =
     (case parse_object rj (cstr txt) of
        Some d \<Rightarrow> d | None \<Rightarrow> JObject [(''result'', jstr txt)])"

definition gemini_part_doc :: "rapidjson \<Rightarrow> ContentBlock \<Rightarrow> json" where
  "gemini_part_doc rj b =
     (case block_type b of
        Text \<Rightarrow> JObject [(''text'', jstr (block_text b))]
      | ToolUse \<Rightarrow> JObject [(''functionCall'', JObject [(''name'', jstr (block_tool_name b)),
                              (''args'', object_or_empty rj (block_tool_arguments b))])]
      | ToolResult \<Rightarrow> JObject [(''functionResponse'', JObject [(''name'', jstr (block_tool_name b)),
                                 (''response'', gemini_response_value rj (block_text b))])]
      | Image \<Rightarrow> JObject [])"

definition gemini_message_doc :: "rapidjson \<Rightarrow> Message \<Rightarrow> json" where
  "gemini_message_doc rj msg =
     JObject [(''role'', if role msg = ''assistant'' then JString ''model'' else jstr (role msg)),
              (''parts'', JArray (map (gemini_part_doc rj) (content msg)))]"

definition gemini_declaration_doc :: "rapidjson \<Rightarrow> ToolDef \<Rightarrow> json" where
  "gemini_declaration_doc rj t =
     JObject ([(''name'', jstr (def_name t))] @
       opt_member (def_description t \<noteq> []) ''description'' (jstr (def_description t)) @
       opt_value ''parameters''
         (if parameters_json t \<noteq> [] then parse_object rj (cstr (parameters_json t)) else None))"

definition gemini_config_members :: "ChatRequest \<Rightarrow> (string \<times> json) list" where
  "gemini_config_members req =
     opt_member (max_tokens req > 0) ''maxOutputTokens'' (JInt (max_tokens req)) @
     opt_double ''temperature'' (temperature req) @
     opt_double ''topP'' (top_p req) @
     opt_member (stop req \<noteq> []) ''stopSequences'' (JArray (map jstr (stop req)))"

definition gemini_request_doc :: "rapidjson \<Rightarrow> ChatRequest \<Rightarrow> json" where
  "gemini_request_doc rj req =
     JObject (opt_member (system req \<noteq> []) ''systemInstruction''
         (JObject [(''parts'', JArray [JObject [(''text'', jstr (system req))]])]) @
       [(''contents'', JArray (map (gemini_message_doc rj) (messages req)))] @
       opt_member (gemini_config_members req \<noteq> []) ''generationConfig''
         (JObject (gemini_config_members req)) @
       opt_member (tools req \<noteq> []) ''tools''
         (JArray [JObject [(''functionDeclarations'',
                            JArray (map (gemini_declaration_doc rj) (tools req)))]]))"

definition gemini_serialize_request :: "rapidjson \<Rightarrow> ChatRequest \<Rightarrow> string" where
  "gemini_serialize_request rj req = write_text rj (gemini_request_doc rj req)"

section \<open>Stream events\<close>

definition gemini_finish_reason :: "string \<Rightarrow> string" where
  "gemini_finish_reason r =
     (if r = ''length'' \<or> r = ''max_tokens'' then ''MAX_TOKENS''
      else if r = ''content_filter'' then ''SAFETY''
      else if r = ''recitation'' then ''RECITATION''
      else ''STOP'')"

definition gemini_stream_parts :: "StreamDelta \<Rightarrow> json list" where
  "gemini_stream_parts delta =
     (case delta_type delta of
        TextDelta \<Rightarrow> [JObject [(''text'', jstr (delta_text delta))]]
      | ToolCallDelta \<Rightarrow> [JObject [(''functionCall'',
            JObject [(''name'', jstr (delta_tool_name delta)), (''args'', JObject [])])]]
      | _ \<Rightarrow> [JObject [(''text'', JString [])]])"

definition gemini_stream_doc :: "StreamDelta \<Rightarrow> json" where
  "gemini_stream_doc delta =
     JObject [(''candidates'', JArray [JObject
       (opt_member (delta_type delta = MessageEnd) ''finishReason''
          (JString (gemini_finish_reason (delta_finish_reason delta))) @
        [(''content'', JObject [(''role'', JString ''model''),
                               (''parts'', JArray (gemini_stream_parts delta))]),
         (''index'', JInt 0)])])]"

definition gemini_serialize_stream_event :: "rapidjson \<Rightarrow> StreamDelta \<Rightarrow> string" where
  "gemini_serialize_stream_event rj delta =
     (if delta_type delta = Done then sse_data ''[DONE]''
      else sse_data (write_text rj (gemini_stream_doc delta)))"

definition gemini_read_finish :: "string \<Rightarrow> string" where
  "gemini_read_finish reason =
     (if reason = ''MAX_TOKENS'' then ''length''
      else if reason = ''SAFETY'' then ''content_filter''
      else if reason = ''RECITATION'' then ''recitation''
      else ''stop'')"

text \<open>The loop over the parts stops at the first non-empty text or function call.\<close>

fun gemini_read_parts :: "rapidjson \<Rightarrow> json list \<Rightarrow> StreamDelta \<Rightarrow> StreamDelta" where
  "gemini_read_parts rj [] delta = delta"
| "gemini_read_parts rj (p # ps) delta =
     (if \<not> is_object p then gemini_read_parts rj ps delta
      else case string_at p ''text'' of
        Some s \<Rightarrow> if cstr s \<noteq> [] then delta\<lparr>delta_type := TextDelta, delta_text := cstr s\<rparr>
                  else gemini_read_parts rj ps delta
      | None \<Rightarrow>
        (case object_at p ''functionCall'' of
           Some fc \<Rightarrow> delta\<lparr>delta_type := ToolCallDelta, delta_tool_name := get_str fc ''name'',
                            tool_arguments_delta := object_text rj fc ''args''\<rparr>
         | None \<Rightarrow> gemini_read_parts rj ps delta))"

definition gemini_parse_event_doc :: "rapidjson \<Rightarrow> json \<Rightarrow> rj_error + StreamDelta" where
  "gemini_parse_event_doc rj doc =
     (case array_at doc ''candidates'' of
        Some (cand # _) \<Rightarrow>
          if \<not> is_object cand then Inl AssertFailed
          else let delta = (case string_at cand ''finishReason'' of
                              Some s \<Rightarrow> new_delta\<lparr>delta_finish_reason := gemini_read_finish (cstr s),
                                                  delta_type := MessageEnd\<rparr>
                            | None \<Rightarrow> new_delta)
          in (case object_at cand ''content'' of
                None \<Rightarrow> Inr delta
              | Some c \<Rightarrow> (case array_at c ''parts'' of
                            None \<Rightarrow> Inr delta
                          | Some ps \<Rightarrow> Inr (gemini_read_parts rj ps delta)))
      | _ \<Rightarrow> Inr new_delta)"

definition gemini_parse_stream_event :: "rapidjson \<Rightarrow> string \<Rightarrow> rj_error + StreamDelta" where
  "gemini_parse_stream_event rj data =
     (if data = ''[DONE]'' then Inr (new_delta\<lparr>delta_type := Done\<rparr>)
      else case parse_object rj data of
             None \<Rightarrow> Inr new_delta
           | Some doc \<Rightarrow> gemini_parse_event_doc rj doc)"

section \<open>What the format can carry\<close>

definition gemini_use_wf :: "rapidjson \<Rightarrow> nat \<Rightarrow> ContentBlock \<Rightarrow> bool" where
  "gemini_use_wf rj k b \<longleftrightarrow>
     use_block_wf rj b \<and> block_tool_call_id b = block_tool_name b @ ''_'' @ to_string (Suc k)"

definition gemini_result_wf :: "rapidjson \<Rightarrow> ContentBlock \<Rightarrow> bool" where
  "gemini_result_wf rj b \<longleftrightarrow>
     nul_free (block_tool_name b) \<and> args_wf rj (block_text b) \<and>
     b = new_block\<lparr>block_type := ToolResult, block_tool_name := block_tool_name b,
                   block_tool_call_id := block_tool_name b, block_text := block_text b\<rparr>"

text \<open>The blocks of a message from the \<open>k\<close>-th tool call on.\<close>

fun gemini_blocks_wf :: "rapidjson \<Rightarrow> nat \<Rightarrow> ContentBlock list \<Rightarrow> bool" where
  "gemini_blocks_wf rj k [] = True"
| "gemini_blocks_wf rj k (b # bs) =
     (text_block_wf b \<and> gemini_blocks_wf rj k bs \<or>
      gemini_use_wf rj k b \<and> gemini_blocks_wf rj (Suc k) bs \<or>
      gemini_result_wf rj b \<and> gemini_blocks_wf rj k bs)"

definition gemini_message_wf :: "rapidjson \<Rightarrow> Message \<Rightarrow> bool" where
  "gemini_message_wf rj m \<longleftrightarrow>
     nul_free (role m) \<and> role m \<noteq> ''model'' \<and> gemini_blocks_wf rj 0 (content m) \<and>
     tool_calls m = calls_of (content m) \<and> msg_tool_call_id m = result_id_of (content m) []"

definition gemini_wf :: "rapidjson \<Rightarrow> ChatRequest \<Rightarrow> bool" where
  "gemini_wf rj req \<longleftrightarrow>
     scalars_wf req \<and> req_model req = [] \<and> \<not> req_stream req \<and> metadata_user_id req = [] \<and>
     list_all (gemini_message_wf rj) (messages req) \<and> list_all (tool_wf rj) (tools req)"

definition gemini_delta_wf :: "StreamDelta \<Rightarrow> bool" where
  "gemini_delta_wf d \<longleftrightarrow>
     nul_free (delta_text d) \<and>
     (d = new_delta\<lparr>delta_text := delta_text d\<rparr> \<and> delta_text d \<noteq> [] \<or>
      d = new_delta\<lparr>delta_type := MessageEnd, delta_finish_reason := delta_finish_reason d\<rparr> \<and>
        delta_finish_reason d \<in> {''stop'', ''length'', ''content_filter'', ''recitation''})"

section \<open>Requests and events survive\<close>

lemma gemini_text_part:
  assumes "text_block_wf b"
  shows "gemini_part rj (gemini_part_doc rj b) (msg, k, u) = (msg\<lparr>content := content msg @ [b]\<rparr>, k, u)"
proof -
  from assms obtain t where b: "b = text_block t" and t: "nul_free t" by (auto simp: text_block_wf_def)
  then show ?thesis
    by (simp add: gemini_part_def gemini_part_doc_def text_block_def new_block_def add_text_def
        json_defs jstr_def)
qed

lemma gemini_use_part:
  assumes "gemini_use_wf rj k b"
  shows "gemini_part rj (gemini_part_doc rj b) (msg, k, u) =
    (msg\<lparr>content := content msg @ [b], tool_calls := tool_calls msg @ calls_of [b]\<rparr>, Suc k, u)"
proof -
  from assms obtain i n a where b: "b = new_block\<lparr>block_type := ToolUse, block_tool_call_id := i,
      block_tool_name := n, block_tool_arguments := a\<rparr>" and nf: "nul_free n" and a: "args_wf rj a"
      and i: "i = n @ ''_'' @ to_string (Suc k)"
    by (metis gemini_use_wf_def use_block_wf_def)
  from a obtain p where p: "is_object p" "write_text rj p = a" "object_or_empty rj a = p"
    by (rule args_wf_cases)
  then show ?thesis using b nf i
    by (cases p) (simp_all add: gemini_part_def gemini_part_doc_def new_block_def calls_of_def
        json_defs get_str_def jstr_def object_text_def Let_def)
qed

lemma gemini_result_part:
  assumes "gemini_result_wf rj b"
  shows "gemini_part rj (gemini_part_doc rj b) (msg, k, u) =
    (msg\<lparr>content := content msg @ [b], msg_tool_call_id := block_tool_call_id b\<rparr>, k, u)"
    and "block_type b = ToolResult"
proof -
  from assms obtain n t where b: "b = new_block\<lparr>block_type := ToolResult, block_tool_name := n,
      block_tool_call_id := n, block_text := t\<rparr>" and nf: "nul_free n" and t: "args_wf rj t"
    by (metis gemini_result_wf_def)
  from t obtain p where "parse_object rj t = Some p" and p: "is_object p" "write_text rj p = t" "cstr t = t"
    by (rule args_wf_cases)
  then have "gemini_response_value rj t = p" by (simp add: gemini_response_value_def)
  then show "gemini_part rj (gemini_part_doc rj b) (msg, k, u) =
    (msg\<lparr>content := content msg @ [b], msg_tool_call_id := block_tool_call_id b\<rparr>, k, u)" using b nf p
    by (cases p) (simp_all add: gemini_part_def gemini_part_doc_def new_block_def
        json_defs get_str_def jstr_def object_text_def)
  show "block_type b = ToolResult" using b by simp
qed

lemma gemini_parts_roundtrip:
  "gemini_blocks_wf rj k bs \<Longrightarrow>
     \<exists>k'. fold (gemini_part rj) (map (gemini_part_doc rj) bs) (msg, k, u) =
       (msg\<lparr>content := content msg @ bs, tool_calls := tool_calls msg @ calls_of bs,
            msg_tool_call_id := result_id_of bs (msg_tool_call_id msg)\<rparr>, k', u)"
proof (induction bs arbitrary: msg k)
  case Nil
  then show ?case by (simp add: calls_of_def result_id_of_def)
next
  case (Cons b bs)
  then consider "text_block_wf b" "gemini_blocks_wf rj k bs"
    | "gemini_use_wf rj k b" "gemini_blocks_wf rj (Suc k) bs"
    | "gemini_result_wf rj b" "gemini_blocks_wf rj k bs" by auto
  then show ?case
  proof cases
    case 1
    with Cons.IH [of k "msg\<lparr>content := content msg @ [b]\<rparr>"] show ?thesis
      by (simp add: gemini_text_part block_kinds calls_of_def result_id_of_def)
  next
    case 2
    then have "block_type b = ToolUse" using block_kinds(3) [of rj b] by (simp add: gemini_use_wf_def)
    with 2 Cons.IH [of "Suc k" "msg\<lparr>content := content msg @ [b], tool_calls := tool_calls msg @ calls_of [b]\<rparr>"]
    show ?thesis by (simp add: gemini_use_part calls_of_def result_id_of_def)
  next
    case 3
    with Cons.IH [of k "msg\<lparr>content := content msg @ [b], msg_tool_call_id := block_tool_call_id b\<rparr>"]
    show ?thesis by (simp add: gemini_result_part calls_of_def result_id_of_def)
  qed
qed

lemma gemini_message_roundtrip:
  assumes "gemini_message_wf rj m"
  shows "gemini_message rj (gemini_message_doc rj m) req = req\<lparr>messages := messages req @ [m]\<rparr>"
proof -
  let ?m0 = "new_message\<lparr>role := role m\<rparr>"
  from assms obtain k where "fold (gemini_part rj) (map (gemini_part_doc rj) (content m)) (?m0, 0, unsupported_content req) =
       (?m0\<lparr>content := content ?m0 @ content m, tool_calls := tool_calls ?m0 @ calls_of (content m),
            msg_tool_call_id := result_id_of (content m) (msg_tool_call_id ?m0)\<rparr>, k, unsupported_content req)"
    using gemini_parts_roundtrip by (metis gemini_message_wf_def)
  then show ?thesis using assms
    by (auto simp: gemini_message_def gemini_message_doc_def gemini_message_wf_def json_defs get_str_def jstr_def
        new_message_def)
qed

lemma gemini_messages_roundtrip:
  "list_all (gemini_message_wf rj) ms \<Longrightarrow>
     fold (gemini_message rj) (map (gemini_message_doc rj) ms) req = req\<lparr>messages := messages req @ ms\<rparr>"
  by (induction ms arbitrary: req) (simp_all add: gemini_message_roundtrip)

lemma gemini_tool_roundtrip:
  assumes "tool_wf rj t"
  shows "gemini_declaration rj (gemini_declaration_doc rj t) = [t]"
proof -
  have n: "nul_free (def_name t)" "nul_free (def_description t)" using assms by (simp_all add: tool_wf_def)
  show ?thesis
  proof (cases "parameters_json t = []")
    case True
    with n show ?thesis
      by (cases t) (simp add: gemini_declaration_def gemini_declaration_doc_def json_defs get_str_def jstr_def object_text_def)
  next
    case False
    from tool_text_roundtrip [OF assms this] obtain p where p:
      "Parse rj (parameters_json t) = Some p" "is_object p" "write_text rj p = parameters_json t"
      "cstr (parameters_json t) = parameters_json t" by blast
    then have "parse_object rj (parameters_json t) = Some p" by (simp add: parse_object_Some_iff)
    with n False p show ?thesis
      by (cases t; cases p) (simp_all add: gemini_declaration_def gemini_declaration_doc_def json_defs get_str_def jstr_def object_text_def)
  qed
qed

lemma gemini_tools_roundtrip:
  "list_all (tool_wf rj) ts \<Longrightarrow> concat (map (gemini_declaration rj) (map (gemini_declaration_doc rj) ts)) = ts"
  by (induction ts) (simp_all add: gemini_tool_roundtrip)

lemma gemini_request_roundtrip:
  assumes "gemini_wf rj req"
  shows "gemini_parse_doc rj (gemini_request_doc rj req) = req"
proof -
  let ?d = "gemini_request_doc rj req"
  have n: "req_model req = []" "nul_free (system req)" "metadata_user_id req = []" "\<not> req_stream req"
    "list_all nul_free (stop req)" "0 < max_tokens req" "max_tokens req \<le> int32_max" "\<not> unsupported_content req"
    and ms: "list_all (gemini_message_wf rj) (messages req)"
    and ts: "list_all (tool_wf rj) (tools req)"
    using assms by (simp_all add: gemini_wf_def scalars_wf_def)
  have gc: "gemini_config_members req \<noteq> []" using n by (simp add: gemini_config_members_def opt_member_def)
  have obj: "object_at ?d ''generationConfig'' = Some (JObject (gemini_config_members req))"
    using gc by (simp add: gemini_request_doc_def json_defs)
  have cfg: "gemini_config ?d r = r\<lparr>max_tokens := max_tokens req, temperature := temperature req,
      top_p := top_p req, stop := stop req\<rparr>" for r
    using n unfolding gemini_config_def obj
    by (simp add: gemini_config_members_def json_defs double_at_opt map_cstr_id int_bounds del: not_None_eq)
  have fields: "get_str ?d ''model'' = []" "gemini_system ?d = system req"
    "array_at ?d ''contents'' = Some (map (gemini_message_doc rj) (messages req))"
    using n by (simp_all add: gemini_request_doc_def json_defs get_str_def jstr_def gemini_system_def texts_in_def append_line_def)
  have "(case array_at ?d ''tools'' of Some ts \<Rightarrow> concat (map (gemini_tool rj) ts) | None \<Rightarrow> []) = tools req"
    using gemini_tools_roundtrip [OF ts] by (simp add: gemini_request_doc_def json_defs gemini_tool_def)
  then show ?thesis
    using n gemini_messages_roundtrip [OF ms] unfolding gemini_parse_doc_def
    by (simp add: fields cfg new_request_def)
qed

interpretation gemini: chat_codec "\<lambda>rj d. Inr (gemini_parse_doc rj d)" gemini_request_doc gemini_wf
  by unfold_locales (simp add: gemini_request_doc_def, simp add: gemini_request_roundtrip)

lemma gemini_stream_roundtrip:
  assumes "gemini_delta_wf d"
  shows "gemini_parse_event_doc rj (gemini_stream_doc d) = Inr d"
proof -
  from assms consider t where "d = new_delta\<lparr>delta_text := t\<rparr>" "t \<noteq> []" "nul_free t"
    | r where "d = new_delta\<lparr>delta_type := MessageEnd, delta_finish_reason := r\<rparr>"
        "r \<in> {''stop'', ''length'', ''content_filter'', ''recitation''}"
    by (auto simp: gemini_delta_wf_def)
  then show ?thesis
    by cases (auto simp: gemini_parse_event_doc_def gemini_stream_doc_def gemini_stream_parts_def json_defs jstr_def
       new_delta_def gemini_read_finish_def gemini_finish_reason_def)
qed

section \<open>Properties\<close>

text \<open>
  A Gemini request survives serialization and parsing: system instruction, contents with text,
  function calls (with the ids the gateway numbers itself) and object-valued function responses,
  generation config and function declarations come back exactly, given only that the JSON library
  reads back the document it wrote.
\<close>

theorem gemini_text_roundtrip:
  assumes "gemini_wf rj req"
    and "Parse rj (gemini_serialize_request rj req) = Some (gemini_request_doc rj req)"
  shows "gemini_parse_request rj (gemini_serialize_request rj req) = req"
  using gemini.text_roundtrip [of rj req] assms
  by (auto simp: gemini_serialize_request_def gemini_parse_request_def gemini.parse_text_def
      gemini.request_text_def split: option.splits)

definition function_call_request :: ChatRequest where
  "function_call_request = new_request\<lparr>system := ''s'', stop := [''X''],
     messages := [new_message\<lparr>role := ''assistant'',
       content := [text_block ''ok'', new_block\<lparr>block_type := ToolUse, block_tool_call_id := ''f_1'',
                     block_tool_name := ''f'', block_tool_arguments := ''{}''\<rparr>],
       tool_calls := [\<lparr>call_id = ''f_1'', call_name = ''f'', call_arguments = ''{}''\<rparr>]\<rparr>]\<rparr>"

theorem gemini_text_roundtrip_witness:
  "let rj = two_doc_json (gemini_request_doc (two_doc_json JNull) function_call_request)
   in gemini_parse_request rj (gemini_serialize_request rj function_call_request)
        = function_call_request"
  unfolding Let_def
  by (rule gemini_text_roundtrip)
     (simp_all add: gemini_wf_def scalars_wf_def gemini_message_wf_def function_call_request_def
        new_defs text_block_wf_def gemini_use_wf_def use_block_wf_def args_wf_def calls_of_def
        result_id_of_def nul_free_def gemini_serialize_request_def gemini_request_doc_def
        gemini_message_doc_def gemini_part_doc_def object_or_empty_def two_doc_json_def
        parse_object_def write_text_def int_bounds jstr_def to_string.simps opt_member_def
        gemini_config_members_def char_of_def bit_0)

text \<open>
  A Gemini stream chunk survives for non-empty text and for the finish reasons stop, length,
  content filter and recitation.
\<close>

theorem gemini_event_roundtrip:
  assumes "gemini_delta_wf d"
  shows "gemini_parse_event_doc rj (gemini_stream_doc d) = Inr d"
  using assms by (rule gemini_stream_roundtrip)

theorem gemini_event_roundtrip_witness:
  "gemini_parse_event_doc no_json (gemini_stream_doc (new_delta\<lparr>delta_type := MessageEnd,
      delta_finish_reason := ''length''\<rparr>))
   = Inr (new_delta\<lparr>delta_type := MessageEnd, delta_finish_reason := ''length''\<rparr>)"
  by (rule gemini_event_roundtrip) (simp add: gemini_delta_wf_def new_defs nul_free_def)

end
