(* ===== verification/Responses_Format.thy ===== *)
theory Responses_Format
  imports Format_Common
begin

text \<open>
  The OpenAI Responses format (\<^verbatim>\<open>protocol/openai_responses_format.cpp\<close>): requests and stream events
  between the wire document and the intermediate representation, with the instance of \<open>chat_codec\<close>
  and the round trip of stream events.
\<close>

section \<open>Requests\<close>

text \<open>One part of a message item; the state is the message and the unsupported flag.\<close>

definition responses_part :: "json \<Rightarrow> Message \<times> bool \<Rightarrow> Message \<times> bool" where
  "responses_part part st =
     (case st of (msg, unsupported) \<Rightarrow>
        if \<not> is_object part then st
        else if get_str part ''type'' \<in> {''input_text'', ''text'', ''output_text''}
        then (add_text (get_str part ''text'') msg, unsupported)
        else (msg, True))"

definition responses_item :: "json \<Rightarrow> ChatRequest \<Rightarrow> ChatRequest" where
  "responses_item item req =
     (if \<not> is_object item then req
      else let ty = get_str item ''type''
      in if ty = ''message'' \<or> has_member item ''role''
      then let r0 = get_str item ''role''; r = (if r0 = [] then ''user'' else r0)
           in if r = ''system'' \<or> r = ''developer''
           then (case string_at item ''content'' of
                   Some s \<Rightarrow> req\<lparr>system := append_line (system req) (cstr s)\<rparr> | None \<Rightarrow> req)
           else let msg0 = new_message\<lparr>role := r\<rparr>;
                    (msg, uns) = (case member item ''content'' of
                                    Some (JString s) \<Rightarrow> (add_text (cstr s) msg0, unsupported_content req)
                                  | Some (JArray ps) \<Rightarrow>
                                      fold responses_part ps (msg0, unsupported_content req)
                                  | _ \<Rightarrow> (msg0, unsupported_content req))
                in req\<lparr>messages := messages req @ [msg], unsupported_content := uns\<rparr>
      else if ty = ''function_call''
      then req\<lparr>messages := messages req @
             [new_message\<lparr>role := ''assistant'',
                tool_calls := [\<lparr>call_id = get_str item ''call_id'', call_name = get_str item ''name'',
                                call_arguments = get_str item ''arguments''\<rparr>]\<rparr>]\<rparr>
      else if ty = ''function_call_output''
      then req\<lparr>messages := messages req @
             [add_text (get_str item ''output'')
                (new_message\<lparr>role := ''tool'', msg_tool_call_id := get_str item ''call_id''\<rparr>)]\<rparr>
      else req)"

definition responses_tool :: "rapidjson \<Rightarrow> json \<Rightarrow> ToolDef list" where
  "responses_tool rj t =
     (if \<not> is_object t \<or> get_str t ''type'' \<noteq> ''function'' then []
      else [\<lparr>def_name = get_str t ''name'', def_description = get_str t ''description'',
             parameters_json = object_text rj t ''parameters''\<rparr>])"

definition responses_parse_doc :: "rapidjson \<Rightarrow> json \<Rightarrow> ChatRequest" where
  "responses_parse_doc rj doc =
     (let req = new_request\<lparr>
            req_model := get_str doc ''model'',
            req_stream := (case bool_at doc ''stream'' of Some b \<Rightarrow> b | None \<Rightarrow> False),
            max_tokens := (case int_at doc ''max_output_tokens'' of Some n \<Rightarrow> n
                           | None \<Rightarrow> (case int_at doc ''max_tokens'' of Some n \<Rightarrow> n | None \<Rightarrow> 4096)),
            temperature := double_at doc ''temperature'',
            top_p := double_at doc ''top_p'',
            metadata_user_id := (case object_at doc ''metadata'' of
                                   Some meta \<Rightarrow> get_str meta ''user_id'' | None \<Rightarrow> []),
            system := get_str doc ''instructions''\<rparr>;
          req1 = (case member doc ''input'' of
                    Some (JString s) \<Rightarrow>
                      req\<lparr>messages := [add_text (cstr s) (new_message\<lparr>role := ''user''\<rparr>)]\<rparr>
                  | Some (JArray items) \<Rightarrow> fold responses_item items req
                  | _ \<Rightarrow> req)
      in req1\<lparr>tools := (case array_at doc ''tools'' of
                         Some ts \<Rightarrow> concat (map (responses_tool rj) ts) | None \<Rightarrow> [])\<rparr>)"

definition responses_parse_request :: "rapidjson \<Rightarrow> string \<Rightarrow> ChatRequest" where
  "responses_parse_request rj body =
     (case parse_object rj body of None \<Rightarrow> new_request | Some doc \<Rightarrow> responses_parse_doc rj doc)"

definition responses_call_doc :: "ToolCall \<Rightarrow> json" where
  "responses_call_doc tc =
     JObject [(''type'', JString ''function_call''), (''call_id'', jstr (call_id tc)),
              (''name'', jstr (call_name tc)), (''arguments'', jstr (call_arguments tc))]"

definition responses_items_doc :: "Message \<Rightarrow> json list" where
  "responses_items_doc msg =
     (if tool_calls msg \<noteq> [] then map responses_call_doc (tool_calls msg)
      else if role msg = ''tool'' \<and> msg_tool_call_id msg \<noteq> []
      then [JObject [(''type'', JString ''function_call_output''),
                     (''call_id'', jstr (msg_tool_call_id msg)),
                     (''output'', jstr (text_content msg))]]
      else [JObject [(''type'', JString ''message''), (''role'', jstr (role msg)),
              (''content'', JArray [JObject [(''type'', JString ''input_text''),
                                             (''text'', jstr (text_content msg))]])]])"

definition responses_tool_doc :: "rapidjson \<Rightarrow> ToolDef \<Rightarrow> json" where
  "responses_tool_doc rj t =
     JObject ([(''type'', JString ''function''), (''name'', jstr (def_name t))] @
       opt_member (def_description t \<noteq> []) ''description'' (jstr (def_description t)) @
       opt_value ''parameters''
         (if parameters_json t \<noteq> [] then Parse rj (cstr (parameters_json t)) else None))"

definition responses_request_doc :: "rapidjson \<Rightarrow> ChatRequest \<Rightarrow> json" where
  "responses_request_doc rj req =
     JObject ([(''model'', jstr (req_model req))] @
       opt_member (system req \<noteq> []) ''instructions'' (jstr (system req)) @
       [(''input'', JArray (concat (map responses_items_doc (messages req))))] @
       opt_member (req_stream req) ''stream'' (JBool True) @
       opt_member (max_tokens req > 0) ''max_output_tokens'' (JInt (max_tokens req)) @
       opt_double ''temperature'' (temperature req) @
       opt_double ''top_p'' (top_p req) @
       opt_member (tools req \<noteq> []) ''tools'' (JArray (map (responses_tool_doc rj) (tools req))) @
       opt_member (metadata_user_id req \<noteq> []) ''metadata''
         (JObject [(''user_id'', jstr (metadata_user_id req))]))"

definition responses_serialize_request :: "rapidjson \<Rightarrow> ChatRequest \<Rightarrow> string" where
  "responses_serialize_request rj req = write_text rj (responses_request_doc rj req)"

section \<open>Stream events\<close>

definition responses_event_type :: "delta_kind \<Rightarrow> string" where
  "responses_event_type k =
     (case k of
        MessageStart \<Rightarrow> ''response.created''
      | ContentStart \<Rightarrow> ''response.output_item.added''
      | ToolCallDelta \<Rightarrow> ''response.function_call_arguments.delta''
      | MessageEnd \<Rightarrow> ''response.completed''
      | _ \<Rightarrow> ''response.output_text.delta'')"

definition responses_stream_doc :: "StreamDelta \<Rightarrow> json" where
  "responses_stream_doc delta =
     JObject ((''type'', jstr (responses_event_type (delta_type delta))) #
       (case delta_type delta of
          TextDelta \<Rightarrow> [(''delta'', jstr (delta_text delta))]
        | ToolCallDelta \<Rightarrow>
            [(''delta'', jstr (tool_arguments_delta delta))] @
            opt_member (delta_tool_call_id delta \<noteq> []) ''call_id'' (jstr (delta_tool_call_id delta)) @
            opt_member (delta_tool_name delta \<noteq> []) ''name'' (jstr (delta_tool_name delta))
        | _ \<Rightarrow> []))"

definition responses_serialize_stream_event :: "rapidjson \<Rightarrow> StreamDelta \<Rightarrow> string" where
  \<open>responses_serialize_stream_event rj delta =
     (if delta_type delta = Done
      then sse_event ''response.completed'' ''{"type":"response.completed"}''
      else sse_event (responses_event_type (delta_type delta))
             (write_text rj (responses_stream_doc delta)))\<close>

definition responses_parse_event_doc :: "json \<Rightarrow> StreamDelta" where
  "responses_parse_event_doc doc =
     (let ty = get_str doc ''type''
      in if ty = ''response.created'' then new_delta\<lparr>delta_type := MessageStart\<rparr>
      else if ty = ''response.output_item.added'' then new_delta\<lparr>delta_type := ContentStart\<rparr>
      else if ty = ''response.output_text.delta''
      then new_delta\<lparr>delta_type := TextDelta, delta_text := get_str doc ''delta''\<rparr>
      else if ty = ''response.function_call_arguments.delta''
      then new_delta\<lparr>delta_type := ToolCallDelta, tool_arguments_delta := get_str doc ''delta'',
                     delta_tool_call_id := get_str doc ''call_id'',
                     delta_tool_name := get_str doc ''name''\<rparr>
      else if ty = ''response.completed'' then new_delta\<lparr>delta_type := Done\<rparr>
      else if ty \<in> {''response.output_text.done'', ''response.output_item.done'',
                     ''response.content_part.done'', ''response.content_part.added''}
      then new_delta\<lparr>delta_type := ContentEnd\<rparr>
      else new_delta)"

definition responses_parse_stream_event :: "rapidjson \<Rightarrow> string \<Rightarrow> StreamDelta" where
  "responses_parse_stream_event rj data =
     (case parse_object rj data of None \<Rightarrow> new_delta | Some doc \<Rightarrow> responses_parse_event_doc doc)"

section \<open>What the format can carry\<close>

definition responses_message_wf :: "Message \<Rightarrow> bool" where
  "responses_message_wf m \<longleftrightarrow>
     (m = new_message\<lparr>role := ''assistant'', tool_calls := tool_calls m\<rparr> \<and>
        length (tool_calls m) = 1 \<and> list_all call_wf (tool_calls m)) \<or>
     (tool_calls m = [] \<and> length (content m) = 1 \<and> list_all text_block_wf (content m) \<and>
        nul_free (role m) \<and> nul_free (msg_tool_call_id m) \<and>
        role m \<notin> {[], ''system'', ''developer''} \<and>
        (role m \<noteq> ''tool'' \<longrightarrow> msg_tool_call_id m = []))"

definition responses_wf :: "rapidjson \<Rightarrow> ChatRequest \<Rightarrow> bool" where
  "responses_wf rj req \<longleftrightarrow>
     scalars_wf req \<and> stop req = [] \<and> list_all responses_message_wf (messages req) \<and>
     list_all (tool_wf rj) (tools req)"

definition responses_delta_wf :: "StreamDelta \<Rightarrow> bool" where
  "responses_delta_wf d \<longleftrightarrow>
     nul_free (delta_text d) \<and> nul_free (tool_arguments_delta d) \<and>
     nul_free (delta_tool_call_id d) \<and> nul_free (delta_tool_name d) \<and>
     (d = new_delta\<lparr>delta_type := MessageStart\<rparr> \<or> d = new_delta\<lparr>delta_type := ContentStart\<rparr> \<or>
      d = new_delta\<lparr>delta_text := delta_text d\<rparr> \<or>
      d = new_delta\<lparr>delta_type := ToolCallDelta, tool_arguments_delta := tool_arguments_delta d,
                    delta_tool_call_id := delta_tool_call_id d,
                    delta_tool_name := delta_tool_name d\<rparr>)"

section \<open>Requests and events survive\<close>

lemma responses_call_item:
  assumes "call_wf c"
  shows "responses_item (responses_call_doc c) req =
    req\<lparr>messages := messages req @ [new_message\<lparr>role := ''assistant'', tool_calls := [c]\<rparr>]\<rparr>"
  using assms
  by (cases c) (simp add: responses_item_def responses_call_doc_def call_wf_def json_defs get_str_def
      jstr_def Let_def)

lemma responses_message_roundtrip:
  assumes "responses_message_wf m"
  shows "fold responses_item (responses_items_doc m) req = req\<lparr>messages := messages req @ [m]\<rparr>"
proof (cases "tool_calls m = []")
  case True
  then have w: "length (content m) = 1" "list_all text_block_wf (content m)" "nul_free (role m)"
    "nul_free (msg_tool_call_id m)" "role m \<notin> {[], ''system'', ''developer''}"
    "role m \<noteq> ''tool'' \<longrightarrow> msg_tool_call_id m = []"
    using assms by (auto simp: responses_message_wf_def)
  then obtain t where t: "content m = [text_block t]" "nul_free t"
    by (auto simp: length_Suc_conv text_block_wf_def)
  then show ?thesis using True w
    by (cases m) (auto simp: responses_items_doc_def responses_item_def json_defs get_str_def jstr_def
        Let_def text_content_single add_text_def new_message_def responses_part_def)
next
  case False
  with assms obtain c where "m = new_message\<lparr>role := ''assistant'', tool_calls := [c]\<rparr>" "call_wf c"
    by (auto simp: responses_message_wf_def length_Suc_conv)
  then show ?thesis by (simp add: responses_items_doc_def responses_call_item)
qed

lemma responses_messages_roundtrip:
  "list_all responses_message_wf ms \<Longrightarrow>
     fold responses_item (concat (map responses_items_doc ms)) req =
       req\<lparr>messages := messages req @ ms\<rparr>"
  by (induction ms arbitrary: req) (simp_all add: responses_message_roundtrip)

lemma responses_tool_roundtrip:
  assumes "tool_wf rj t"
  shows "responses_tool rj (responses_tool_doc rj t) = [t]"
proof -
  have n: "nul_free (def_name t)" "nul_free (def_description t)" using assms by (simp_all add: tool_wf_def)
  show ?thesis
  proof (cases "parameters_json t = []")
    case True
    with n show ?thesis
      by (cases t) (simp add: responses_tool_def responses_tool_doc_def json_defs get_str_def jstr_def
          object_text_def)
  next
    case False
    from tool_text_roundtrip [OF assms this] obtain p where
      "Parse rj (parameters_json t) = Some p" "is_object p" "write_text rj p = parameters_json t"
      "cstr (parameters_json t) = parameters_json t" by blast
    with n False show ?thesis
      by (cases t; cases p) (simp_all add: responses_tool_def responses_tool_doc_def json_defs
          get_str_def jstr_def object_text_def)
  qed
qed

lemma responses_tools_roundtrip:
  "list_all (tool_wf rj) ts \<Longrightarrow>
     concat (map (responses_tool rj) (map (responses_tool_doc rj) ts)) = ts"
  by (induction ts) (simp_all add: responses_tool_roundtrip)

lemma responses_request_roundtrip:
  assumes "responses_wf rj req"
  shows "responses_parse_doc rj (responses_request_doc rj req) = req"
proof -
  let ?d = "responses_request_doc rj req"
  have n: "nul_free (req_model req)" "nul_free (system req)" "nul_free (metadata_user_id req)"
    "stop req = []" "0 < max_tokens req" "max_tokens req \<le> int32_max" "\<not> unsupported_content req"
    and ms: "list_all responses_message_wf (messages req)" and ts: "list_all (tool_wf rj) (tools req)"
    using assms by (simp_all add: responses_wf_def scalars_wf_def)
  have fields: "get_str ?d ''model'' = req_model req" "get_str ?d ''instructions'' = system req"
    "(case object_at ?d ''metadata'' of Some meta \<Rightarrow> get_str meta ''user_id'' | None \<Rightarrow> []) =
       metadata_user_id req"
    "bool_at ?d ''stream'' = (if req_stream req then Some True else None)"
    "int_at ?d ''max_output_tokens'' = Some (max_tokens req)"
    "double_at ?d ''temperature'' = temperature req" "double_at ?d ''top_p'' = top_p req"
    "array_at ?d ''tools'' =
       (if tools req = [] then None else Some (map (responses_tool_doc rj) (tools req)))"
    "member ?d ''input'' = Some (JArray (concat (map responses_items_doc (messages req))))"
    using n by (simp_all add: responses_request_doc_def json_defs get_str_def jstr_def
        double_at_opt int_bounds del: not_None_eq)
  have "(case array_at ?d ''tools'' of Some ts \<Rightarrow> concat (map (responses_tool rj) ts) | None \<Rightarrow> []) =
      tools req"
    using responses_tools_roundtrip [OF ts] by (simp add: fields)
  then show ?thesis
    using n responses_messages_roundtrip [OF ms] unfolding responses_parse_doc_def
    by (simp add: fields new_request_def)
qed

interpretation responses:
  chat_codec "\<lambda>rj d. Inr (responses_parse_doc rj d)" responses_request_doc responses_wf
  by unfold_locales (simp add: responses_request_doc_def, simp add: responses_request_roundtrip)

lemma responses_stream_roundtrip:
  assumes "responses_delta_wf d"
  shows "responses_parse_event_doc (responses_stream_doc d) = d"
proof -
  from assms consider "d = new_delta\<lparr>delta_type := MessageStart\<rparr>"
    | "d = new_delta\<lparr>delta_type := ContentStart\<rparr>" | t where "d = new_delta\<lparr>delta_text := t\<rparr>" "nul_free t"
    | a i n where "d = new_delta\<lparr>delta_type := ToolCallDelta, tool_arguments_delta := a,
        delta_tool_call_id := i, delta_tool_name := n\<rparr>" "nul_free a" "nul_free i" "nul_free n"
    unfolding responses_delta_wf_def by metis
  then show ?thesis
    by cases (auto simp: responses_parse_event_doc_def responses_stream_doc_def
        responses_event_type_def json_defs get_str_def jstr_def new_delta_def Let_def)
qed

section \<open>Properties\<close>

text \<open>
  A Responses request survives serialization and parsing: instructions, message items, function
  calls and function-call outputs, tools and all parameters (stop sequences apart, which the format
  does not have) come back exactly, given only that the JSON library reads back the document it wrote.
\<close>

theorem responses_text_roundtrip:
  assumes "responses_wf rj req"
    and "Parse rj (responses_serialize_request rj req) = Some (responses_request_doc rj req)"
  shows "responses_parse_request rj (responses_serialize_request rj req) = req"
  using responses.text_roundtrip [of rj req] assms
  by (auto simp: responses_serialize_request_def responses_parse_request_def responses.parse_text_def
      responses.request_text_def split: option.splits)

theorem responses_text_roundtrip_witness:
  "let rj = \<lparr>Parse = (\<lambda>_. Some (responses_request_doc no_json example_request)), Write = (\<lambda>_. ''x'')\<rparr>
   in responses_parse_request rj (responses_serialize_request rj example_request) = example_request"
  unfolding Let_def
  by (rule responses_text_roundtrip)
     (simp_all add: responses_wf_def scalars_wf_def responses_message_wf_def example_request_def new_defs
        text_block_wf_def call_wf_def nul_free_def responses_request_doc_def int_bounds)

text \<open>
  A Responses stream event survives: created, item added, text deltas and argument deltas with
  call id and name are read back as the same event.
\<close>

theorem responses_event_roundtrip:
  assumes "responses_delta_wf d"
  shows "responses_parse_event_doc (responses_stream_doc d) = d"
  using assms by (rule responses_stream_roundtrip)

theorem responses_event_roundtrip_witness:
  "responses_parse_event_doc (responses_stream_doc (new_delta\<lparr>delta_text := ''hi''\<rparr>))
     = new_delta\<lparr>delta_text := ''hi''\<rparr>"
  by (rule responses_event_roundtrip) (simp add: responses_delta_wf_def new_defs nul_free_def)

end
