(* ===== verification/Converter.thy ===== *)
theory Converter
  imports Openai_Format Anthropic_Format Gemini_Format Responses_Format
begin

text \<open>
  The conversion of requests, stream events, responses and errors between the four wire formats
  (\<^verbatim>\<open>protocol/converter.cpp\<close>).  The lemmas show what a conversion preserves: a request keeps its
  meaning, a response its text, tool calls, finish reason and token counts, an error its class.
\<close>

section \<open>Requests and stream events\<close>

record ParsedRequest =
  parsed_format :: Format
  parsed_model :: string
  parsed_stream :: bool
  parsed_user_id :: string
  parsed_max_tokens :: int
  thinking_enabled :: bool

record ConversionResult =
  success :: bool
  body :: string
  error :: string

definition parse_ir :: "rapidjson \<Rightarrow> string \<Rightarrow> Format \<Rightarrow> rj_error + ChatRequest" where
  "parse_ir rj b hint =
     (case hint of
        Anthropic \<Rightarrow> anthropic_parse_request rj b
      | OpenAIChatCompletions \<Rightarrow> openai_parse_request rj b
      | OpenAIResponses \<Rightarrow> Inr (responses_parse_request rj b)
      | Gemini \<Rightarrow> Inr (gemini_parse_request rj b))"

definition parse :: "rapidjson \<Rightarrow> string \<Rightarrow> Format \<Rightarrow> rj_error + ParsedRequest" where
  "parse rj b hint =
     res_bind (parse_ir rj b hint) (\<lambda>ir.
       Inr \<lparr>parsed_format = hint, parsed_model = req_model ir, parsed_stream = req_stream ir,
            parsed_user_id = metadata_user_id ir, parsed_max_tokens = max_tokens ir,
            thinking_enabled = False\<rparr>)"

definition serialize_ir :: "rapidjson \<Rightarrow> Format \<Rightarrow> ChatRequest \<Rightarrow> string" where
  "serialize_ir rj to ir =
     (case to of
        Anthropic \<Rightarrow> anthropic_serialize_request rj ir
      | OpenAIChatCompletions \<Rightarrow> openai_serialize_request rj ir
      | OpenAIResponses \<Rightarrow> responses_serialize_request rj ir
      | Gemini \<Rightarrow> gemini_serialize_request rj ir)"

definition convert_request ::
    "rapidjson \<Rightarrow> string \<Rightarrow> Format \<Rightarrow> Format \<Rightarrow> string \<Rightarrow> rj_error + ConversionResult" where
  "convert_request rj b from to mapped_model =
     (if from = to \<and> mapped_model = [] then Inr \<lparr>success = True, body = b, error = []\<rparr>
      else res_bind (parse_ir rj b from) (\<lambda>ir.
        if unsupported_content ir
        then Inr \<lparr>success = False, body = [],
                  error = ''Request contains unsupported multimodal content (images, audio, or video)''\<rparr>
        else let ir' = (if mapped_model \<noteq> [] then ir\<lparr>req_model := mapped_model\<rparr> else ir)
             in Inr \<lparr>success = True, body = serialize_ir rj to ir', error = []\<rparr>))"

definition parse_event :: "rapidjson \<Rightarrow> string \<Rightarrow> Format \<Rightarrow> rj_error + StreamDelta" where
  "parse_event rj data from =
     (case from of
        OpenAIChatCompletions \<Rightarrow> openai_parse_stream_event rj data
      | OpenAIResponses \<Rightarrow> Inr (responses_parse_stream_event rj data)
      | Gemini \<Rightarrow> gemini_parse_stream_event rj data
      | Anthropic \<Rightarrow>
          Inr (anthropic_parse_stream_event rj
                 (case parse_object rj data of
                    Some doc \<Rightarrow> (case string_at doc ''type'' of Some t \<Rightarrow> t | None \<Rightarrow> [])
                  | None \<Rightarrow> []) data))"

definition serialize_event :: "rapidjson \<Rightarrow> Format \<Rightarrow> StreamDelta \<Rightarrow> string" where
  "serialize_event rj to delta =
     (case to of
        OpenAIChatCompletions \<Rightarrow> openai_serialize_stream_event rj delta
      | OpenAIResponses \<Rightarrow> responses_serialize_stream_event rj delta
      | Anthropic \<Rightarrow> anthropic_serialize_stream_event rj delta
      | Gemini \<Rightarrow> gemini_serialize_stream_event rj delta)"

definition convert_stream_event ::
    "rapidjson \<Rightarrow> string \<Rightarrow> Format \<Rightarrow> Format \<Rightarrow> rj_error + string" where
  "convert_stream_event rj sse from to =
     (if from = to then Inr sse
      else res_bind (parse_event rj sse from) (\<lambda>delta. Inr (serialize_event rj to delta)))"

section \<open>Reading a response\<close>

text \<open>The first element of an array member.\<close>

definition first_of :: "json \<Rightarrow> string \<Rightarrow> json option" where
  "first_of doc k = (case array_at doc k of Some (c # _) \<Rightarrow> Some c | _ \<Rightarrow> None)"

definition candidate_parts :: "json \<Rightarrow> json list option" where
  "candidate_parts cand =
     (case object_at cand ''content'' of Some c \<Rightarrow> array_at c ''parts'' | None \<Rightarrow> None)"

definition parse_finish_reason :: "Format \<Rightarrow> json \<Rightarrow> FinishReason" where
  "parse_finish_reason from doc =
     (case from of
        OpenAIChatCompletions \<Rightarrow>
          (case first_of doc ''choices'' of
             None \<Rightarrow> Unknown
           | Some choice \<Rightarrow>
             (case string_at choice ''finish_reason'' of
                None \<Rightarrow> Unknown
              | Some r \<Rightarrow> if r = ''stop'' then Stop else if r = ''length'' then Length
                         else if r = ''tool_calls'' then ToolCalls
                         else if r = ''content_filter'' then ContentFilter else Unknown))
      | Anthropic \<Rightarrow>
          (case string_at doc ''stop_reason'' of
             None \<Rightarrow> Unknown
           | Some r \<Rightarrow> if r = ''end_turn'' then Stop else if r = ''max_tokens'' then Length
                      else if r = ''tool_use'' then ToolCalls else Unknown)
      | Gemini \<Rightarrow>
          (case first_of doc ''candidates'' of
             None \<Rightarrow> Unknown
           | Some cand \<Rightarrow>
             (case string_at cand ''finishReason'' of
                None \<Rightarrow> Unknown
              | Some r \<Rightarrow>
                  if r = ''STOP''
                  then (case candidate_parts cand of
                          Some ps \<Rightarrow> if list_ex (\<lambda>p. has_member p ''functionCall'') ps
                                     then ToolCalls else Stop
                        | None \<Rightarrow> Stop)
                  else if r = ''MAX_TOKENS'' then Length else if r = ''SAFETY'' then Safety
                  else if r = ''RECITATION'' then Recitation else Unknown))
      | OpenAIResponses \<Rightarrow>
          (case string_at doc ''status'' of
             None \<Rightarrow> Unknown
           | Some s \<Rightarrow>
               if s = ''completed''
               then (case array_at doc ''output'' of
                       Some items \<Rightarrow>
                         if list_ex (\<lambda>i. string_at i ''type'' = Some ''function_call'') items
                         then ToolCalls else Stop
                     | None \<Rightarrow> Stop)
               else if s = ''incomplete'' then Length
               else if s = ''failed'' then ContentFilter else Unknown))"

definition serialize_finish_reason :: "FinishReason \<Rightarrow> Format \<Rightarrow> string" where
  "serialize_finish_reason reason to =
     (case to of
        OpenAIChatCompletions \<Rightarrow>
          (case reason of Stop \<Rightarrow> ''stop'' | Length \<Rightarrow> ''length'' | ToolCalls \<Rightarrow> ''tool_calls''
           | ContentFilter \<Rightarrow> ''content_filter'' | Safety \<Rightarrow> ''content_filter''
           | Recitation \<Rightarrow> ''content_filter'' | Unknown \<Rightarrow> ''stop'')
      | Anthropic \<Rightarrow>
          (case reason of Length \<Rightarrow> ''max_tokens'' | ToolCalls \<Rightarrow> ''tool_use'' | _ \<Rightarrow> ''end_turn'')
      | Gemini \<Rightarrow>
          (case reason of Length \<Rightarrow> ''MAX_TOKENS'' | ContentFilter \<Rightarrow> ''SAFETY'' | Safety \<Rightarrow> ''SAFETY''
           | Recitation \<Rightarrow> ''RECITATION'' | _ \<Rightarrow> ''STOP'')
      | OpenAIResponses \<Rightarrow>
          (case reason of Length \<Rightarrow> ''incomplete'' | ContentFilter \<Rightarrow> ''failed'' | Safety \<Rightarrow> ''failed''
           | Recitation \<Rightarrow> ''failed'' | _ \<Rightarrow> ''completed''))"

text \<open>The calls of a Gemini candidate are numbered; the second argument is the counter.\<close>

fun gemini_calls :: "rapidjson \<Rightarrow> json list \<Rightarrow> nat \<Rightarrow> ToolCall list" where
  "gemini_calls rj [] k = []"
| "gemini_calls rj (p # ps) k =
     (case object_at p ''functionCall'' of
        None \<Rightarrow> gemini_calls rj ps k
      | Some fc \<Rightarrow> \<lparr>call_id = get_str fc ''name'' @ ''_'' @ to_string (Suc k),
                   call_name = get_str fc ''name'', call_arguments = object_text rj fc ''args''\<rparr>
                  # gemini_calls rj ps (Suc k))"

definition anthropic_call :: "rapidjson \<Rightarrow> json \<Rightarrow> ToolCall list" where
  "anthropic_call rj block =
     (if string_at block ''type'' \<noteq> Some ''tool_use'' then []
      else [\<lparr>call_id = get_str block ''id'', call_name = get_str block ''name'',
             call_arguments = object_text rj block ''input''\<rparr>])"

definition responses_call :: "json \<Rightarrow> ToolCall list" where
  "responses_call item =
     (if string_at item ''type'' \<noteq> Some ''function_call'' then []
      else [\<lparr>call_id = get_str item ''call_id'', call_name = get_str item ''name'',
             call_arguments = get_str item ''arguments''\<rparr>])"

definition extract_tool_calls :: "rapidjson \<Rightarrow> Format \<Rightarrow> json \<Rightarrow> ToolCall list" where
  "extract_tool_calls rj from doc =
     (case from of
        OpenAIChatCompletions \<Rightarrow>
          (case first_of doc ''choices'' of
             None \<Rightarrow> []
           | Some choice \<Rightarrow>
             (case object_at choice ''message'' of
                None \<Rightarrow> []
              | Some message \<Rightarrow>
                (case array_at message ''tool_calls'' of
                   Some tcs \<Rightarrow> concat (map openai_tool_call tcs) | None \<Rightarrow> [])))
      | Anthropic \<Rightarrow>
          (case array_at doc ''content'' of
             Some bs \<Rightarrow> concat (map (anthropic_call rj) bs) | None \<Rightarrow> [])
      | Gemini \<Rightarrow>
          (case first_of doc ''candidates'' of
             None \<Rightarrow> []
           | Some cand \<Rightarrow> (case candidate_parts cand of
                            Some ps \<Rightarrow> gemini_calls rj ps 0 | None \<Rightarrow> []))
      | OpenAIResponses \<Rightarrow>
          (case array_at doc ''output'' of
             Some items \<Rightarrow> concat (map responses_call items) | None \<Rightarrow> []))"

definition concat_texts :: "json list \<Rightarrow> string" where
  "concat_texts blocks = concat (texts_in blocks)"

definition output_texts :: "json list \<Rightarrow> string" where
  "output_texts items =
     concat (map (\<lambda>i. case array_at i ''content'' of Some bs \<Rightarrow> concat_texts bs | None \<Rightarrow> []) items)"

definition choice_text :: "json \<Rightarrow> string option" where
  "choice_text doc =
     (case first_of doc ''choices'' of
        None \<Rightarrow> None
      | Some choice \<Rightarrow>
          (case (case object_at choice ''message'' of
                   Some message \<Rightarrow> string_at message ''content'' | None \<Rightarrow> None) of
             Some s \<Rightarrow> Some (cstr s)
           | None \<Rightarrow> map_option cstr (string_at choice ''text'')))"

definition response_text :: "json \<Rightarrow> string" where
  "response_text doc =
     (case choice_text doc of
        Some s \<Rightarrow> s
      | None \<Rightarrow>
        (case string_at doc ''output_text'' of
           Some s \<Rightarrow> cstr s
         | None \<Rightarrow>
           let t1 = (case array_at doc ''content'' of Some bs \<Rightarrow> concat_texts bs | None \<Rightarrow> []);
               t2 = (case array_at doc ''output'' of Some items \<Rightarrow> output_texts items | None \<Rightarrow> [])
           in if t1 \<noteq> [] then t1
              else if t2 \<noteq> [] then t2
              else case first_of doc ''candidates'' of
                     None \<Rightarrow> []
                   | Some cand \<Rightarrow> (case candidate_parts cand of
                                    Some ps \<Rightarrow> concat_texts ps | None \<Rightarrow> [])))"

text \<open>The shapes a conversion refuses.\<close>

definition typed_block :: "string list \<Rightarrow> json \<Rightarrow> bool" where
  "typed_block allowed b \<longleftrightarrow> (case string_at b ''type'' of Some t \<Rightarrow> t \<in> set allowed | None \<Rightarrow> False)"

definition output_item_ok :: "json \<Rightarrow> bool" where
  "output_item_ok item \<longleftrightarrow>
     typed_block [''message'', ''function_call''] item \<and>
     (string_at item ''type'' = Some ''message'' \<longrightarrow>
        (case array_at item ''content'' of
           Some bs \<Rightarrow> list_all (typed_block [''output_text'']) bs | None \<Rightarrow> True))"

definition part_ok :: "json \<Rightarrow> bool" where
  "part_ok p \<longleftrightarrow> is_object p \<and> (has_member p ''text'' \<or> has_member p ''functionCall'')"

definition has_unsupported_response_shape :: "json \<Rightarrow> Format \<Rightarrow> bool" where
  "has_unsupported_response_shape doc from =
     (case from of
        OpenAIChatCompletions \<Rightarrow>
          (case array_at doc ''choices'' of
             Some (choice # others) \<Rightarrow>
               others \<noteq> [] \<or>
               (case object_at choice ''message'' of
                  None \<Rightarrow> False
                | Some message \<Rightarrow>
                    has_member message ''refusal'' \<or>
                    (case member message ''content'' of
                       None \<Rightarrow> False | Some c \<Rightarrow> \<not> is_string c \<and> c \<noteq> JNull))
           | _ \<Rightarrow> False)
      | Anthropic \<Rightarrow>
          (case array_at doc ''content'' of
             Some bs \<Rightarrow> \<not> list_all (typed_block [''text'', ''tool_use'']) bs | None \<Rightarrow> False)
      | OpenAIResponses \<Rightarrow>
          (case array_at doc ''output'' of
             Some items \<Rightarrow> \<not> list_all output_item_ok items | None \<Rightarrow> False)
      | Gemini \<Rightarrow>
          (case array_at doc ''candidates'' of
             Some cs \<Rightarrow> length cs > 1 \<or>
               list_ex (\<lambda>c. case candidate_parts c of
                              Some ps \<Rightarrow> \<not> list_all part_ok ps | None \<Rightarrow> False) cs
           | None \<Rightarrow> False))"

definition response_model :: "json \<Rightarrow> string \<Rightarrow> string" where
  "response_model doc fallback =
     (if get_str doc ''model'' \<noteq> [] then get_str doc ''model''
      else if get_str doc ''id'' = [] then fallback else get_str doc ''id'')"

definition response_id :: "json \<Rightarrow> Format \<Rightarrow> string" where
  "response_id doc target =
     (if get_str doc ''id'' \<noteq> [] then get_str doc ''id''
      else case target of
             OpenAIChatCompletions \<Rightarrow> ''chatcmpl-gateway''
           | Anthropic \<Rightarrow> ''msg_gateway''
           | OpenAIResponses \<Rightarrow> ''resp_gateway''
           | Gemini \<Rightarrow> [])"

section \<open>Token usage\<close>

text \<open>
  The first of the keys that holds an integer wins; \<^verbatim>\<open>IsInt\<close> and \<^verbatim>\<open>IsInt64\<close> cover \<^verbatim>\<open>IsUint\<close>, whose
  branch is never reached.
\<close>

fun usage_integer :: "json \<Rightarrow> string list \<Rightarrow> int" where
  "usage_integer usage [] = 0"
| "usage_integer usage (key # keys) =
     (case member usage key of
        None \<Rightarrow> usage_integer usage keys
      | Some v \<Rightarrow>
          if is_int v then max 0 (get_integer v)
          else if is_int64 v then min int32_max (max 0 (get_integer v))
          else if is_uint v then min int32_max (get_integer v)
          else usage_integer usage keys)"

definition cached_tokens_at :: "json \<Rightarrow> string \<Rightarrow> int \<Rightarrow> int" where
  "cached_tokens_at usage key acc =
     (case object_at usage key of
        Some details \<Rightarrow> max acc (usage_integer details [''cached_tokens'']) | None \<Rightarrow> acc)"

definition usage_object :: "json \<Rightarrow> json option" where
  "usage_object doc =
     (case object_at doc ''usage'' of Some u \<Rightarrow> Some u | None \<Rightarrow> object_at doc ''usageMetadata'')"

definition usage_input :: "json \<Rightarrow> int" where
  "usage_input u = usage_integer u [''input_tokens'', ''prompt_tokens'', ''promptTokenCount'']"

definition usage_output :: "json \<Rightarrow> int" where
  "usage_output u = usage_integer u [''output_tokens'', ''completion_tokens'', ''candidatesTokenCount'']"

definition usage_cache_create :: "json \<Rightarrow> int" where
  "usage_cache_create u = usage_integer u [''cache_creation_input_tokens'']"

definition usage_cache_read :: "json \<Rightarrow> int" where
  "usage_cache_read u =
     cached_tokens_at u ''input_tokens_details''
       (cached_tokens_at u ''prompt_tokens_details''
          (usage_integer u [''cache_read_input_tokens'', ''cachedContentTokenCount'']))"

definition int_add :: "int \<Rightarrow> int \<Rightarrow> rj_error + int" where
  "int_add a b = (if in_int32 (a + b) then Inr (a + b) else Inl SignedOverflow)"

definition add_converted_usage :: "json \<Rightarrow> Format \<Rightarrow> rj_error + (string \<times> json) list" where
  "add_converted_usage source to =
     (case usage_object source of
        None \<Rightarrow> Inr []
      | Some u \<Rightarrow>
          let inp = usage_input u; out = usage_output u; cc = usage_cache_create u;
              cr = usage_cache_read u; details = JObject [(''cached_tokens'', JInt cr)]
          in case to of
               OpenAIChatCompletions \<Rightarrow> res_bind (int_add inp out) (\<lambda>total.
                 Inr [(''usage'', JObject ([(''prompt_tokens'', JInt inp),
                        (''completion_tokens'', JInt out), (''total_tokens'', JInt total)] @
                        opt_member (cr > 0) ''prompt_tokens_details'' details))])
             | OpenAIResponses \<Rightarrow> res_bind (int_add inp out) (\<lambda>total.
                 Inr [(''usage'', JObject ([(''input_tokens'', JInt inp),
                        (''output_tokens'', JInt out), (''total_tokens'', JInt total)] @
                        opt_member (cr > 0) ''input_tokens_details'' details))])
             | Anthropic \<Rightarrow>
                 Inr [(''usage'', JObject ([(''input_tokens'', JInt inp), (''output_tokens'', JInt out)] @
                        opt_member (cc > 0) ''cache_creation_input_tokens'' (JInt cc) @
                        opt_member (cr > 0) ''cache_read_input_tokens'' (JInt cr)))]
             | Gemini \<Rightarrow> res_bind (int_add inp out) (\<lambda>total.
                 Inr [(''usageMetadata'', JObject ([(''promptTokenCount'', JInt inp),
                        (''candidatesTokenCount'', JInt out), (''totalTokenCount'', JInt total)] @
                        opt_member (cr > 0) ''cachedContentTokenCount'' (JInt cr)))]))"

section \<open>Building a response\<close>

definition openai_response_members :: "string \<Rightarrow> string \<Rightarrow> string \<Rightarrow> ToolCall list \<Rightarrow> string
    \<Rightarrow> (string \<times> json) list" where
  "openai_response_members i m txt calls finish =
     [(''id'', jstr i), (''object'', JString ''chat.completion''), (''model'', jstr m),
      (''choices'', JArray [JObject
         [(''index'', JInt 0),
          (''message'', JObject ([(''role'', JString ''assistant''),
             (''content'', if txt = [] \<and> calls \<noteq> [] then JNull else jstr txt)] @
             opt_member (calls \<noteq> []) ''tool_calls'' (JArray (map openai_call_doc calls)))),
          (''finish_reason'', jstr finish)]])]"

definition anthropic_text_doc :: "string \<Rightarrow> json" where
  "anthropic_text_doc txt = JObject [(''type'', JString ''text''), (''text'', jstr txt)]"

definition anthropic_call_doc :: "rapidjson \<Rightarrow> ToolCall \<Rightarrow> json" where
  "anthropic_call_doc rj tc =
     JObject [(''type'', JString ''tool_use''), (''id'', jstr (call_id tc)),
              (''name'', jstr (call_name tc)), (''input'', object_or_empty rj (call_arguments tc))]"

definition anthropic_response_members :: "rapidjson \<Rightarrow> string \<Rightarrow> string \<Rightarrow> string \<Rightarrow> ToolCall list
    \<Rightarrow> string \<Rightarrow> (string \<times> json) list" where
  "anthropic_response_members rj i m txt calls finish =
     [(''id'', jstr i), (''type'', JString ''message''), (''role'', JString ''assistant''),
      (''model'', jstr m),
      (''content'', JArray
         (let blocks = (if txt \<noteq> [] then [anthropic_text_doc txt] else []) @
                       map (anthropic_call_doc rj) calls
          in if blocks = [] then [anthropic_text_doc txt] else blocks)),
      (''stop_reason'', jstr finish)]"

definition responses_response_members :: "string \<Rightarrow> string \<Rightarrow> string \<Rightarrow> ToolCall list \<Rightarrow> string
    \<Rightarrow> (string \<times> json) list" where
  "responses_response_members i m txt calls finish =
     [(''id'', jstr i), (''object'', JString ''response''), (''status'', jstr finish),
      (''model'', jstr m), (''output_text'', jstr txt),
      (''output'', JArray
         ((if txt \<noteq> [] \<or> calls = []
           then [JObject [(''type'', JString ''message''), (''role'', JString ''assistant''),
                  (''content'', JArray [JObject [(''type'', JString ''output_text''),
                                                 (''text'', jstr txt)]])]]
           else []) @ map responses_call_doc calls))]"

definition gemini_call_doc :: "rapidjson \<Rightarrow> ToolCall \<Rightarrow> json" where
  "gemini_call_doc rj tc =
     JObject [(''functionCall'', JObject [(''name'', jstr (call_name tc)),
                (''args'', object_or_empty rj (call_arguments tc))])]"

definition gemini_response_members :: "rapidjson \<Rightarrow> string \<Rightarrow> ToolCall list \<Rightarrow> string
    \<Rightarrow> (string \<times> json) list" where
  "gemini_response_members rj txt calls finish =
     [(''candidates'', JArray [JObject
        [(''content'', JObject [(''role'', JString ''model''),
           (''parts'', JArray
             (let parts = (if txt \<noteq> [] then [JObject [(''text'', jstr txt)]] else []) @
                          map (gemini_call_doc rj) calls
              in if parts = [] then [JObject [(''text'', jstr txt)]] else parts))]),
         (''finishReason'', jstr finish)]])]"

definition response_members :: "rapidjson \<Rightarrow> Format \<Rightarrow> string \<Rightarrow> string \<Rightarrow> string \<Rightarrow> ToolCall list
    \<Rightarrow> string \<Rightarrow> (string \<times> json) list" where
  "response_members rj to i m txt calls finish =
     (case to of
        OpenAIChatCompletions \<Rightarrow> openai_response_members i m txt calls finish
      | Anthropic \<Rightarrow> anthropic_response_members rj i m txt calls finish
      | OpenAIResponses \<Rightarrow> responses_response_members i m txt calls finish
      | Gemini \<Rightarrow> gemini_response_members rj txt calls finish)"

text \<open>The document a response is converted to; usage is added last.\<close>

definition convert_response_doc :: "rapidjson \<Rightarrow> json \<Rightarrow> Format \<Rightarrow> Format \<Rightarrow> string \<Rightarrow> rj_error + json" where
  "convert_response_doc rj source from to requested_model =
     (let calls = extract_tool_calls rj from source;
          finish = (if calls = [] then parse_finish_reason from source else ToolCalls)
      in res_bind (add_converted_usage source to) (\<lambda>usage.
           Inr (JObject (response_members rj to (response_id source to)
                  (response_model source requested_model) (response_text source) calls
                  (serialize_finish_reason finish to) @ usage))))"

definition convert_response_checked ::
    "rapidjson \<Rightarrow> string \<Rightarrow> Format \<Rightarrow> Format \<Rightarrow> string \<Rightarrow> rj_error + ConversionResult" where
  "convert_response_checked rj b from to requested_model =
     (if from = to then Inr \<lparr>success = True, body = b, error = []\<rparr>
      else case parse_object rj b of
        None \<Rightarrow> Inr \<lparr>success = False, body = [], error = ''Upstream response is not a JSON object''\<rparr>
      | Some source \<Rightarrow>
          if has_unsupported_response_shape source from
          then Inr \<lparr>success = False, body = [],
                    error = ''Upstream response contains unsupported tool or multimodal content''\<rparr>
          else res_bind (convert_response_doc rj source from to requested_model) (\<lambda>d.
                 Inr \<lparr>success = True, body = write_text rj d, error = []\<rparr>))"

definition convert_response ::
    "rapidjson \<Rightarrow> string \<Rightarrow> Format \<Rightarrow> Format \<Rightarrow> string \<Rightarrow> rj_error + string" where
  "convert_response rj b from to requested_model =
     res_bind (convert_response_checked rj b from to requested_model) (\<lambda>r. Inr (body r))"

section \<open>Errors\<close>

record CanonicalError =
  error_type :: string
  error_message :: string
  error_code :: string

definition error_member :: "json \<Rightarrow> string \<Rightarrow> string" where
  "error_member doc key = (case string_at doc key of Some s \<Rightarrow> s | None \<Rightarrow> [])"

definition classify_error :: "string \<Rightarrow> int \<Rightarrow> string" where
  "classify_error ty status_code =
     (if status_code = 401 then ''authentication_error''
      else if status_code = 403 then ''permission_error''
      else if status_code = 404 then ''not_found_error''
      else if status_code = 408 \<or> status_code = 504 then ''timeout_error''
      else if status_code = 429 then ''rate_limit_error''
      else if status_code \<ge> 500 then ''provider_error''
      else if contains ty ''auth'' then ''authentication_error''
      else if contains ty ''rate'' \<or> contains ty ''quota'' then ''rate_limit_error''
      else if contains ty ''permission'' \<or> contains ty ''forbidden'' then ''permission_error''
      else if contains ty ''not_found'' \<or> ty = ''NOT_FOUND'' then ''not_found_error''
      else if contains ty ''invalid'' \<or> ty = ''INVALID_ARGUMENT'' then ''invalid_request_error''
      else if 400 \<le> status_code \<and> status_code < 500 then ''invalid_request_error''
      else ''provider_error'')"

definition canonical_error :: "rapidjson \<Rightarrow> string \<Rightarrow> int \<Rightarrow> CanonicalError" where
  "canonical_error rj b status_code =
     (let e = (case parse_object rj b of
                 None \<Rightarrow> JNull
               | Some source \<Rightarrow> (case object_at source ''error'' of Some e \<Rightarrow> e | None \<Rightarrow> source));
          m1 = error_member e ''message'';
          m2 = (if m1 = [] then error_member e ''detail'' else m1);
          m3 = (if m2 = [] then ''Provider request failed'' else m2)
      in \<lparr>error_type = classify_error (error_member e ''type'') status_code,
          error_message = m3, error_code = error_member e ''code''\<rparr>)"

definition gemini_status :: "string \<Rightarrow> string" where
  "gemini_status ty =
     (if ty = ''invalid_request_error'' then ''INVALID_ARGUMENT''
      else if ty = ''authentication_error'' then ''UNAUTHENTICATED''
      else if ty = ''permission_error'' then ''PERMISSION_DENIED''
      else if ty = ''not_found_error'' then ''NOT_FOUND''
      else if ty = ''rate_limit_error'' then ''RESOURCE_EXHAUSTED''
      else if ty = ''timeout_error'' then ''DEADLINE_EXCEEDED'' else ''INTERNAL'')"

definition error_doc :: "CanonicalError \<Rightarrow> int \<Rightarrow> Format \<Rightarrow> json" where
  "error_doc c status_code to =
     (case to of
        Anthropic \<Rightarrow>
          JObject [(''type'', JString ''error''),
            (''error'', JObject [(''type'', JString (error_type c)),
                                 (''message'', JString (error_message c))])]
      | Gemini \<Rightarrow>
          JObject [(''error'', JObject [(''code'', JInt status_code),
            (''message'', JString (error_message c)),
            (''status'', JString (gemini_status (error_type c)))])]
      | _ \<Rightarrow>
          JObject [(''error'', JObject ([(''message'', JString (error_message c)),
            (''type'', JString (error_type c)), (''param'', JNull)] @
            opt_member (error_code c \<noteq> []) ''code'' (JString (error_code c))))])"

definition convert_error :: "rapidjson \<Rightarrow> string \<Rightarrow> int \<Rightarrow> Format \<Rightarrow> Format \<Rightarrow> string" where
  "convert_error rj b status_code from to =
     (if from = to then b
      else Write rj (error_doc (canonical_error rj b status_code) status_code to))"

section \<open>Texts of a response\<close>

lemma nul_free_of_cstr [simp]: "nul_free (cstr s)"
  by (simp add: nul_free_def)

lemma concat_nul_free: "list_all nul_free ss \<Longrightarrow> nul_free (concat ss)"
  by (induction ss) (auto simp: nul_free_def cstr_id_iff)

lemma texts_nul_free: "list_all nul_free (texts_in bs)"
  by (induction bs) (auto simp: texts_in_def nul_free_def split: option.splits)

lemma concat_texts_nul_free [simp]: "nul_free (concat_texts bs)"
  by (simp add: concat_texts_def concat_nul_free texts_nul_free)

lemma output_texts_nul_free [simp]: "nul_free (output_texts items)"
  unfolding output_texts_def
  by (rule concat_nul_free) (auto simp: list_all_iff split: option.splits)

lemma response_text_nul_free [simp]: "nul_free (response_text doc)"
  by (auto simp: response_text_def choice_text_def Let_def split: option.splits)

lemma concat_texts_Nil [simp]: "concat_texts [] = []"
  by (simp add: concat_texts_def texts_in_def)

lemma concat_texts_append [simp]: "concat_texts (xs @ ys) = concat_texts xs @ concat_texts ys"
  by (simp add: concat_texts_def texts_in_def)

lemma concat_texts_single:
  "concat_texts [j] = (case string_at j ''text'' of Some s \<Rightarrow> cstr s | None \<Rightarrow> [])"
  by (simp add: concat_texts_def texts_in_def split: option.split)

lemma concat_texts_calls [simp]:
  "concat_texts (map (anthropic_call_doc rj) calls) = []" "concat_texts (map (gemini_call_doc rj) calls) = []"
  by (induction calls)
     (simp_all add: concat_texts_def texts_in_def anthropic_call_doc_def gemini_call_doc_def json_defs)

text \<open>The members that \<open>add_converted_usage\<close> appends do not hide those of the response.\<close>

lemma member_with_usage:
  assumes "add_converted_usage source to = Inr us" and "k \<noteq> ''usage''" and "k \<noteq> ''usageMetadata''"
  shows "member (JObject (ms @ us)) k = member (JObject ms) k"
proof -
  have "member (JObject us) k = None"
    using assms by (auto simp: add_converted_usage_def Let_def res_bind_Inr_iff split: option.splits Format.splits)
  then show ?thesis by (induction ms) auto
qed

lemma text_members:
  assumes t: "nul_free txt"
    and m: "\<And>k. k \<notin> {''usage'', ''usageMetadata''} \<Longrightarrow> member d k = member (JObject (response_members rj to i m txt calls finish)) k"
  shows "response_text d = txt"
proof -
  have "member d ''choices'' = member (JObject (response_members rj to i m txt calls finish)) ''choices''"
       "member d ''output_text'' = member (JObject (response_members rj to i m txt calls finish)) ''output_text''"
       "member d ''content'' = member (JObject (response_members rj to i m txt calls finish)) ''content''"
       "member d ''output'' = member (JObject (response_members rj to i m txt calls finish)) ''output''"
       "member d ''candidates'' = member (JObject (response_members rj to i m txt calls finish)) ''candidates''"
    by (simp_all add: m)
  note fields = this
  show ?thesis
  proof (cases to)
    case OpenAIChatCompletions
    with t show ?thesis
      by (simp add: response_text_def choice_text_def first_of_def json_defs fields response_members_def
          openai_response_members_def jstr_def)
  next
    case Anthropic
    with t show ?thesis
      by (simp add: response_text_def choice_text_def first_of_def json_defs fields response_members_def
          anthropic_response_members_def concat_texts_single anthropic_text_doc_def jstr_def Let_def)
  next
    case OpenAIResponses
    with t show ?thesis
      by (simp add: response_text_def choice_text_def first_of_def json_defs fields response_members_def
          responses_response_members_def jstr_def)
  next
    case Gemini
    with t show ?thesis
      by (simp add: response_text_def choice_text_def first_of_def json_defs fields response_members_def
          gemini_response_members_def candidate_parts_def concat_texts_single jstr_def Let_def)
  qed
qed

section \<open>Tool calls of a response\<close>

lemma nul_free_get_str [simp]: "nul_free (get_str j k)"
  by (simp add: nul_free_def)

lemma nul_free_object_text [simp]: "nul_free (object_text rj j k)"
  by (simp add: object_text_def nul_free_def split: option.split)

lemma nul_free_to_string [simp]: "nul_free (to_string n)"
proof -
  have "CHR 0x00 \<notin> set (to_string n)"
    using to_string_digits [of "CHR 0x00" n] by (auto simp: char_defs)
  then show ?thesis by (simp add: nul_free_def cstr_id_iff)
qed

lemma nul_free_append [simp]: "nul_free s \<Longrightarrow> nul_free t \<Longrightarrow> nul_free (s @ t)"
  by (simp add: nul_free_def cstr_id_iff)

lemma gemini_calls_wf: "list_all call_wf (gemini_calls rj ps k)"
proof -
  have "nul_free ''_''" by (simp add: nul_free_def)
  then show ?thesis
    by (induction rj ps k rule: gemini_calls.induct)
       (auto simp: call_wf_def simp del: append_Cons append_Nil split: option.split)
qed

lemma concat_calls_wf: "(\<And>j. list_all call_wf (f j)) \<Longrightarrow> list_all call_wf (concat (map f js))"
  by (auto simp: list_all_iff)

lemma extracted_calls_wf: "list_all call_wf (extract_tool_calls rj from doc)"
  by (auto simp: extract_tool_calls_def gemini_calls_wf openai_tool_call_def anthropic_call_def
      responses_call_def call_wf_def intro!: concat_calls_wf split: Format.split option.split)

text \<open>What a target makes of a call: arguments become the text of an object, Gemini renumbers.\<close>

definition object_args :: "rapidjson \<Rightarrow> ToolCall \<Rightarrow> ToolCall" where
  "object_args rj tc = tc\<lparr>call_arguments := write_text rj (object_or_empty rj (call_arguments tc))\<rparr>"

lemma object_args_id: "args_wf rj (call_arguments tc) \<Longrightarrow> object_args rj tc = tc"
  by (erule args_wf_cases) (simp add: object_args_def)

lemma object_or_empty_object: "is_object (object_or_empty rj s)"
  by (auto simp: object_or_empty_def parse_object_Some_iff split: option.split)

lemma object_or_empty_cases: "(case object_or_empty rj s of JObject ms \<Rightarrow> f (JObject ms) | _ \<Rightarrow> y) = f (object_or_empty rj s)"
  using object_or_empty_object [of rj s] by (cases "object_or_empty rj s") auto

lemma anthropic_calls_back:
  "list_all call_wf calls \<Longrightarrow>
     concat (map (anthropic_call rj) (map (anthropic_call_doc rj) calls)) = map (object_args rj) calls"
proof (induction calls)
  case (Cons tc calls)
  have "anthropic_call rj (anthropic_call_doc rj tc) = [object_args rj tc]"
    using Cons.prems object_or_empty_object [of rj "call_arguments tc"]
    by (cases "object_or_empty rj (call_arguments tc)"; cases tc)
       (simp_all add: anthropic_call_def anthropic_call_doc_def object_text_def object_args_def call_wf_def json_defs
         get_str_def jstr_def)
  with Cons show ?case by simp
qed simp

lemma responses_calls_back:
  "list_all call_wf calls \<Longrightarrow> concat (map responses_call (map responses_call_doc calls)) = calls"
proof (induction calls)
  case (Cons tc calls)
  have "responses_call (responses_call_doc tc) = [tc]"
    using Cons.prems
    by (cases tc) (simp add: responses_call_def responses_call_doc_def call_wf_def json_defs get_str_def jstr_def)
  with Cons show ?case by simp
qed simp

lemma gemini_calls_back:
  "list_all call_wf calls \<Longrightarrow>
     map (\<lambda>tc. (call_name tc, call_arguments tc)) (gemini_calls rj (map (gemini_call_doc rj) calls) k) =
     map (\<lambda>tc. (call_name tc, call_arguments (object_args rj tc))) calls"
proof (induction calls arbitrary: k)
  case (Cons tc calls)
  have "object_at (gemini_call_doc rj tc) ''functionCall'' =
      Some (JObject [(''name'', jstr (call_name tc)), (''args'', object_or_empty rj (call_arguments tc))])"
    by (simp add: gemini_call_doc_def json_defs)
  moreover have "object_text rj (JObject [(''name'', jstr (call_name tc)), (''args'', object_or_empty rj (call_arguments tc))]) ''args''
     = call_arguments (object_args rj tc)"
    using object_or_empty_object [of rj "call_arguments tc"]
    by (cases "object_or_empty rj (call_arguments tc)") (simp_all add: object_text_def object_args_def json_defs)
  ultimately show ?case using Cons by (simp add: call_wf_def get_str_def jstr_def json_defs)
qed simp

lemma gemini_calls_skip_text [simp]:
  "gemini_calls rj (JObject [(''text'', v)] # ps) k = gemini_calls rj ps k"
  by (simp add: json_defs)

lemma calls_members:
  assumes w: "list_all call_wf calls"
    and m: "\<And>k. k \<notin> {''usage'', ''usageMetadata''} \<Longrightarrow> member d k = member (JObject (response_members rj to i m txt calls finish)) k"
  shows "map (\<lambda>tc. (call_name tc, call_arguments tc)) (extract_tool_calls rj to d) =
           map (\<lambda>tc. (call_name tc, call_arguments tc))
             (if to = Anthropic \<or> to = Gemini then map (object_args rj) calls else calls)"
    and "to \<noteq> Gemini \<Longrightarrow> extract_tool_calls rj to d =
           (if to = Anthropic then map (object_args rj) calls else calls)"
proof -
  have fields: "member d ''choices'' = member (JObject (response_members rj to i m txt calls finish)) ''choices''"
       "member d ''content'' = member (JObject (response_members rj to i m txt calls finish)) ''content''"
       "member d ''output'' = member (JObject (response_members rj to i m txt calls finish)) ''output''"
       "member d ''candidates'' = member (JObject (response_members rj to i m txt calls finish)) ''candidates''"
    by (simp_all add: m)
  have skip: "anthropic_call rj (anthropic_text_doc txt) = []"
      "responses_call (JObject ((''type'', JString ''message'') # ms)) = []" for ms
    by (simp_all add: anthropic_call_def anthropic_text_doc_def responses_call_def json_defs)
  show all: "to \<noteq> Gemini \<Longrightarrow> extract_tool_calls rj to d =
           (if to = Anthropic then map (object_args rj) calls else calls)"
    using openai_calls_roundtrip [OF w] anthropic_calls_back [OF w, of rj] responses_calls_back [OF w]
    by (cases to) (simp_all add: extract_tool_calls_def first_of_def json_defs fields response_members_def
        openai_response_members_def anthropic_response_members_def responses_response_members_def Let_def skip)
  have "to = Gemini \<Longrightarrow> map (\<lambda>tc. (call_name tc, call_arguments tc)) (extract_tool_calls rj to d) =
      map (\<lambda>tc. (call_name tc, call_arguments (object_args rj tc))) calls"
    using gemini_calls_back [OF w, of rj 0]
    by (auto simp: extract_tool_calls_def first_of_def candidate_parts_def fields response_members_def
        gemini_response_members_def Let_def array_at_def object_at_def
        simp del: gemini_calls.simps(2))
  then show "map (\<lambda>tc. (call_name tc, call_arguments tc)) (extract_tool_calls rj to d) =
           map (\<lambda>tc. (call_name tc, call_arguments tc))
             (if to = Anthropic \<or> to = Gemini then map (object_args rj) calls else calls)"
    using all by (cases "to = Gemini") (auto simp: object_args_def)
qed

section \<open>Finish reasons\<close>

text \<open>How a finish reason reads after it went through a target without tool calls.\<close>

definition finish_image :: "Format \<Rightarrow> FinishReason \<Rightarrow> FinishReason" where
  "finish_image to r =
     (case r of
        Stop \<Rightarrow> Stop | Length \<Rightarrow> Length | Unknown \<Rightarrow> Stop
      | ToolCalls \<Rightarrow> if to = OpenAIChatCompletions \<or> to = Anthropic then ToolCalls else Stop
      | ContentFilter \<Rightarrow> if to = Anthropic then Stop else if to = Gemini then Safety else ContentFilter
      | Safety \<Rightarrow> if to = Anthropic then Stop else if to = Gemini then Safety else ContentFilter
      | Recitation \<Rightarrow> if to = Anthropic then Stop else if to = Gemini then Recitation else ContentFilter)"

lemma finish_members:
  assumes m: "\<And>k. k \<notin> {''usage'', ''usageMetadata''} \<Longrightarrow>
      member d k = member (JObject (response_members rj to i m txt calls
        (serialize_finish_reason (if calls = [] then r else ToolCalls) to))) k"
  shows "parse_finish_reason to d = (if calls = [] then finish_image to r else ToolCalls)"
proof -
  let ?r = "JObject (response_members rj to i m txt calls
        (serialize_finish_reason (if calls = [] then r else ToolCalls) to))"
  have fields: "member d ''choices'' = member ?r ''choices''" "member d ''stop_reason'' = member ?r ''stop_reason''"
       "member d ''candidates'' = member ?r ''candidates''" "member d ''status'' = member ?r ''status''"
       "member d ''output'' = member ?r ''output''"
    by (simp_all add: m)
  have calls: "list_ex (\<lambda>p. has_member p ''functionCall'') (map (gemini_call_doc rj) calls) = (calls \<noteq> [])"
    "list_ex (\<lambda>i. string_at i ''type'' = Some ''function_call'') (map responses_call_doc calls) = (calls \<noteq> [])"
    by (cases calls; simp add: gemini_call_doc_def responses_call_doc_def json_defs)+
  note parts = string_at_def array_at_def object_at_def first_of_def candidate_parts_def fields response_members_def
    serialize_finish_reason_def finish_image_def jstr_def parse_finish_reason_def Let_def
  show ?thesis
  proof (cases to)
    case OpenAIChatCompletions
    then show ?thesis by (cases r) (simp_all add: parts openai_response_members_def)
  next
    case Anthropic
    then show ?thesis by (cases r) (simp_all add: parts anthropic_response_members_def)
  next
    case OpenAIResponses
    then show ?thesis
      using calls(2) by (cases r) (auto simp: parts responses_response_members_def)
  next
    case Gemini
    then show ?thesis
      using calls(1) by (cases r) (auto simp: parts gemini_response_members_def has_member_def)
  qed
qed

section \<open>Usage\<close>

lemma usage_integer_range: "0 \<le> usage_integer u ks \<and> usage_integer u ks \<le> int32_max"
proof (induction ks)
  case (Cons k ks)
  then show ?case
    using is_uint_is_int64
    by (cases "member u k") (auto simp: int_bounds max_def min_def is_int_iff)
qed (simp add: int_bounds)

lemma cached_tokens_range:
  "0 \<le> acc \<Longrightarrow> acc \<le> int32_max \<Longrightarrow>
     0 \<le> cached_tokens_at u k acc \<and> cached_tokens_at u k acc \<le> int32_max"
  using usage_integer_range by (auto simp: cached_tokens_at_def max_def simp del: usage_integer.simps split: option.split)

lemma usage_ranges:
  "in_int32 (usage_input u)" "0 \<le> usage_input u" "in_int32 (usage_output u)" "0 \<le> usage_output u"
  "in_int32 (usage_cache_create u)" "0 \<le> usage_cache_create u"
  "in_int32 (usage_cache_read u)" "0 \<le> usage_cache_read u"
proof -
  have r: "in_int32 (usage_integer v ks)" "0 \<le> usage_integer v ks" for v ks
    using usage_integer_range [of v ks] by (simp_all add: int_bounds)
  then show "in_int32 (usage_input u)" "0 \<le> usage_input u" "in_int32 (usage_output u)" "0 \<le> usage_output u"
    "in_int32 (usage_cache_create u)" "0 \<le> usage_cache_create u"
    by (simp_all add: usage_input_def usage_output_def usage_cache_create_def del: usage_integer.simps)
  have "0 \<le> usage_cache_read u \<and> usage_cache_read u \<le> int32_max"
    unfolding usage_cache_read_def by (intro cached_tokens_range conjunct1 [OF cached_tokens_range]
      conjunct2 [OF cached_tokens_range] conjunct1 [OF usage_integer_range] conjunct2 [OF usage_integer_range])
  then show "in_int32 (usage_cache_read u)" "0 \<le> usage_cache_read u" by (simp_all add: int_bounds)
qed

text \<open>When the sum of the token counts leaves the range of \<^verbatim>\<open>int\<close> the addition is undefined.\<close>

definition usage_overflow :: "json \<Rightarrow> Format \<Rightarrow> bool" where
  "usage_overflow source to \<longleftrightarrow>
     to \<noteq> Anthropic \<and>
     (case usage_object source of
        Some u \<Rightarrow> usage_input u + usage_output u > int32_max | None \<Rightarrow> False)"

lemma add_usage_error: "add_converted_usage source to = Inl e \<longleftrightarrow> usage_overflow source to \<and> e = SignedOverflow"
proof (cases "usage_object source")
  case None
  then show ?thesis by (simp add: add_converted_usage_def usage_overflow_def)
next
  case (Some u)
  have "int_add (usage_input u) (usage_output u) =
      (if usage_input u + usage_output u > int32_max then Inl SignedOverflow
       else Inr (usage_input u + usage_output u))"
    using usage_ranges(1-4) [of u] by (simp add: int_add_def int_bounds)
  with Some show ?thesis
    by (cases to) (auto simp: add_converted_usage_def usage_overflow_def Let_def)
qed

text \<open>
  Where each format documents its token counts: the member that holds them, and the names in it.
  Only Anthropic has a name for the tokens written to a cache, and only Anthropic has none for the
  total.
\<close>

definition usage_key :: "Format \<Rightarrow> string" where
  "usage_key f = (if f = Gemini then ''usageMetadata'' else ''usage'')"

definition input_name :: "Format \<Rightarrow> string" where
  "input_name f = (case f of OpenAIChatCompletions \<Rightarrow> ''prompt_tokens'' | OpenAIResponses \<Rightarrow> ''input_tokens''
     | Anthropic \<Rightarrow> ''input_tokens'' | Gemini \<Rightarrow> ''promptTokenCount'')"

definition output_name :: "Format \<Rightarrow> string" where
  "output_name f = (case f of OpenAIChatCompletions \<Rightarrow> ''completion_tokens'' | OpenAIResponses \<Rightarrow> ''output_tokens''
     | Anthropic \<Rightarrow> ''output_tokens'' | Gemini \<Rightarrow> ''candidatesTokenCount'')"

definition total_name :: "Format \<Rightarrow> string option" where
  "total_name f = (case f of Anthropic \<Rightarrow> None | Gemini \<Rightarrow> Some ''totalTokenCount'' | _ \<Rightarrow> Some ''total_tokens'')"

definition created_name :: "Format \<Rightarrow> string option" where
  "created_name f = (if f = Anthropic then Some ''cache_creation_input_tokens'' else None)"

definition cached_path :: "Format \<Rightarrow> string list" where
  "cached_path f = (case f of OpenAIChatCompletions \<Rightarrow> [''prompt_tokens_details'', ''cached_tokens'']
     | OpenAIResponses \<Rightarrow> [''input_tokens_details'', ''cached_tokens'']
     | Anthropic \<Rightarrow> [''cache_read_input_tokens''] | Gemini \<Rightarrow> [''cachedContentTokenCount''])"

definition count_names :: "Format \<Rightarrow> string list" where
  "count_names f = [input_name f, output_name f, hd (cached_path f)] @
     (case total_name f of Some k \<Rightarrow> [k] | None \<Rightarrow> []) @ (case created_name f of Some k \<Rightarrow> [k] | None \<Rightarrow> [])"

fun at_path :: "json \<Rightarrow> string list \<Rightarrow> json option" where
  "at_path j [] = Some j"
| "at_path j (k # ks) = (case member j k of Some v \<Rightarrow> at_path v ks | None \<Rightarrow> None)"

definition optional_count :: "json \<Rightarrow> string list \<Rightarrow> int \<Rightarrow> bool" where
  "optional_count u path n \<longleftrightarrow> at_path u path = Some (JInt n) \<or> at_path u path = None \<and> n = 0"

text \<open>
  A usage object reports counts in a format: input and output stand under the format's own names,
  cached and cache-creation tokens too unless they are zero, and nothing stands under a name that only
  other formats use.  A document reports them when its usage member does.
\<close>

definition counts_in :: "Format \<Rightarrow> json \<Rightarrow> int \<Rightarrow> int \<Rightarrow> int \<Rightarrow> int \<Rightarrow> bool" where
  "counts_in f u inp out cached created \<longleftrightarrow>
     member u (input_name f) = Some (JInt inp) \<and> member u (output_name f) = Some (JInt out) \<and>
     optional_count u (cached_path f) cached \<and>
     (case created_name f of Some k \<Rightarrow> optional_count u [k] created | None \<Rightarrow> created = 0) \<and>
     {inp, out, cached, created} \<subseteq> {0..int32_max} \<and>
     list_all (\<lambda>g. list_all (\<lambda>k. k \<in> set (count_names f) \<or> member u k = None) (count_names g))
       [OpenAIChatCompletions, OpenAIResponses, Anthropic, Gemini]"

definition reports :: "Format \<Rightarrow> json \<Rightarrow> int \<Rightarrow> int \<Rightarrow> int \<Rightarrow> int \<Rightarrow> bool" where
  "reports f d inp out cached created \<longleftrightarrow>
     (case member d (usage_key f) of Some u \<Rightarrow> counts_in f u inp out cached created | None \<Rightarrow> False) \<and>
     (f = Gemini \<longrightarrow> member d (usage_key Anthropic) = None)"

lemmas name_defs = input_name_def output_name_def total_name_def created_name_def cached_path_def count_names_def

text \<open>The gateway reads such a document as it is meant.\<close>

lemma counts_in_object: "counts_in f u inp out cached created \<Longrightarrow> is_object u"
  by (cases u) (simp_all add: counts_in_def)

lemma usage_object_of_report:
  assumes "reports f d inp out cached created"
  shows "\<exists>u. usage_object d = Some u \<and> counts_in f u inp out cached created"
proof -
  from assms obtain u where u: "member d (usage_key f) = Some u" "counts_in f u inp out cached created"
    by (auto simp: reports_def split: option.splits)
  moreover from counts_in_object [OF u(2)] u(1) have "object_at d (usage_key f) = Some u"
    by (auto simp: object_at_def is_object_iff)
  ultimately show ?thesis using assms by (auto simp: reports_def usage_key_def usage_object_def object_at_def split: if_splits)
qed

lemma optional_integer:
  "optional_count u [k] n \<Longrightarrow> 0 \<le> n \<Longrightarrow> n \<le> int32_max \<Longrightarrow> usage_integer u [k] = n"
  by (auto simp: optional_count_def int_bounds split: option.splits)

lemma optional_cached:
  assumes "optional_count u [k, ''cached_tokens''] n" and "0 \<le> n" and "n \<le> int32_max" and "0 \<le> acc"
  shows "cached_tokens_at u k acc = max acc n"
proof (cases "member u k")
  case None
  with assms show ?thesis by (simp add: cached_tokens_at_def object_at_def optional_count_def)
next
  case (Some v)
  then have "optional_count v [''cached_tokens''] n" using assms(1) by (simp add: optional_count_def)
  from optional_integer [OF this assms(2,3)] assms(4) Some show ?thesis
    by (cases v) (auto simp: cached_tokens_at_def object_at_def)
qed

lemma read_integers:
  assumes "counts_in f u inp out cached created"
  shows "usage_input u = inp" "usage_output u = out"
  using assms
  by (cases f; simp add: counts_in_def name_defs usage_input_def usage_output_def int_bounds)+

lemma read_created:
  assumes "counts_in f u inp out cached created"
  shows "usage_cache_create u = created"
proof -
  have "optional_count u [''cache_creation_input_tokens''] created"
    using assms by (cases f) (simp_all add: counts_in_def name_defs optional_count_def)
  from optional_integer [OF this] show ?thesis using assms by (simp add: usage_cache_create_def counts_in_def)
qed

lemma read_cached:
  assumes "counts_in f u inp out cached created"
  shows "usage_cache_read u = cached"
proof -
  have r: "0 \<le> cached" "cached \<le> int32_max" using assms by (simp_all add: counts_in_def)
  have flat: "optional_count u [''cache_read_input_tokens''] (if f = Anthropic then cached else 0)"
    "optional_count u [''cachedContentTokenCount''] (if f = Gemini then cached else 0)"
    and deep: "optional_count u [''prompt_tokens_details'', ''cached_tokens''] (if f = OpenAIChatCompletions then cached else 0)"
    "optional_count u [''input_tokens_details'', ''cached_tokens''] (if f = OpenAIResponses then cached else 0)"
    using assms by (cases f; simp add: counts_in_def name_defs optional_count_def)+
  have two: "member u a = None \<Longrightarrow> usage_integer u [a, b] = usage_integer u [b]"
    "member u b = None \<Longrightarrow> usage_integer u [a, b] = usage_integer u [a]" for a b
    by (auto split: option.splits)
  have "usage_integer u [''cache_read_input_tokens'', ''cachedContentTokenCount''] =
      (if f \<in> {Anthropic, Gemini} then cached else 0)"
    using assms r optional_integer [OF flat(1)] optional_integer [OF flat(2)] 
      two(1) [of "''cache_read_input_tokens''" "''cachedContentTokenCount''"]
      two(2) [of "''cachedContentTokenCount''" "''cache_read_input_tokens''"]
    by (cases f) (simp_all add: counts_in_def name_defs int_bounds(2) del: usage_integer.simps(2))
  with r deep show ?thesis
    unfolding usage_cache_read_def by (cases f) (simp_all add: optional_cached int_bounds)
qed

lemma usage_members:
  assumes "add_converted_usage source to = Inr us" and "usage_object source = Some u"
    and "member (JObject ms) ''usage'' = None" and "member (JObject ms) ''usageMetadata'' = None"
  shows "\<exists>u'. member (JObject (ms @ us)) (usage_key to) = Some u' \<and>
           counts_in to u' (usage_input u) (usage_output u) (usage_cache_read u)
             (if to = Anthropic then usage_cache_create u else 0) \<and>
           (case total_name to of Some k \<Rightarrow> member u' k = Some (JInt (usage_input u + usage_output u)) | None \<Rightarrow> True) \<and>
           (to = Gemini \<longrightarrow> member (JObject (ms @ us)) ''usage'' = None)"
proof -
  have m: "member (JObject (ms @ us)) k = member (JObject us) k" if "k = ''usage'' \<or> k = ''usageMetadata''" for k
    using that assms(3,4) by (induction ms) (auto split: if_splits)
  have total: "int_add (usage_input u) (usage_output u) = Inr t \<Longrightarrow> t = usage_input u + usage_output u" for t
    by (simp add: int_add_def split: if_splits)
  note r = usage_ranges [of u, unfolded in_int32_def]
  have o: "optional_count u' [k] n" if "member u' k = (if n > 0 then Some (JInt n) else None)" "0 \<le> n" for u' k n
    using that by (auto simp: optional_count_def split: if_splits)
  have o2: "optional_count u' [k, l] n" if "member u' k = (if n > 0 then Some (JObject [(l, JInt n)]) else None)" "0 \<le> n"
    for u' k l n
    using that by (auto simp: optional_count_def split: if_splits)
  show ?thesis
    using assms(1,2) r
    by (cases to)
       (auto simp: m usage_key_def counts_in_def name_defs add_converted_usage_def res_bind_Inr_iff Let_def
         intro!: o o2 dest!: total)
qed

lemma usage_not_in_members:
  "member (JObject (response_members rj to i m txt calls finish)) ''usage'' = None"
  "member (JObject (response_members rj to i m txt calls finish)) ''usageMetadata'' = None"
  by (cases to; simp add: response_members_def openai_response_members_def anthropic_response_members_def
      responses_response_members_def gemini_response_members_def)+

lemma convert_response_docE:
  assumes "convert_response_doc rj source from to m = Inr d"
  obtains us where "add_converted_usage source to = Inr us"
    and "d = JObject (response_members rj to (response_id source to) (response_model source m)
               (response_text source) (extract_tool_calls rj from source)
               (serialize_finish_reason (if extract_tool_calls rj from source = []
                  then parse_finish_reason from source else ToolCalls) to) @ us)"
  using assms by (auto simp: convert_response_doc_def Let_def res_bind_Inr_iff)

lemma converted_members:
  assumes "convert_response_doc rj source from to m = Inr d" and "k \<notin> {''usage'', ''usageMetadata''}"
  shows "member d k = member (JObject (response_members rj to (response_id source to)
           (response_model source m) (response_text source) (extract_tool_calls rj from source)
           (serialize_finish_reason (if extract_tool_calls rj from source = []
              then parse_finish_reason from source else ToolCalls) to))) k"
  using assms by (auto elim!: convert_response_docE simp: member_with_usage)

section \<open>Errors keep their class\<close>

definition standard_status :: "int \<Rightarrow> bool" where
  "standard_status st \<longleftrightarrow> st \<in> {401, 403, 404, 408, 429} \<or> st \<ge> 500"

lemma classify_error_idem: "classify_error (classify_error ty st) st = classify_error ty st"
  by (simp add: classify_error_def contains_def starts_with_def)

lemma standard_status_class: "standard_status st \<Longrightarrow> classify_error t1 st = classify_error t2 st"
  unfolding standard_status_def by (elim disjE insertE emptyE) (simp_all add: classify_error_def)

lemma classify_error_range:
  "classify_error ty st \<in> {''authentication_error'', ''permission_error'', ''not_found_error'',
     ''timeout_error'', ''rate_limit_error'', ''provider_error'', ''invalid_request_error''}"
  by (simp add: classify_error_def)

lemma gemini_status_inj:
  assumes "gemini_status (classify_error t1 s1) = gemini_status (classify_error t2 s2)"
  shows "classify_error t1 s1 = classify_error t2 s2"
proof -
  let ?E = "{''authentication_error'', ''permission_error'', ''not_found_error'',
     ''timeout_error'', ''rate_limit_error'', ''provider_error'', ''invalid_request_error''}"
  have "inj_on gemini_status ?E" by (simp add: gemini_status_def)
  from inj_onD [OF this assms] show ?thesis using classify_error_range by blast
qed

section \<open>Requests\<close>

text \<open>The requests a format can carry, and the parser and serializer of its documents.\<close>

definition format_wf :: "Format \<Rightarrow> rapidjson \<Rightarrow> ChatRequest \<Rightarrow> bool" where
  "format_wf to = (case to of Anthropic \<Rightarrow> anthropic_wf | OpenAIChatCompletions \<Rightarrow> openai_wf
      | OpenAIResponses \<Rightarrow> responses_wf | Gemini \<Rightarrow> gemini_wf)"

definition format_doc :: "Format \<Rightarrow> rapidjson \<Rightarrow> ChatRequest \<Rightarrow> json" where
  "format_doc to = (case to of Anthropic \<Rightarrow> anthropic_request_doc | OpenAIChatCompletions \<Rightarrow> openai_request_doc
      | OpenAIResponses \<Rightarrow> responses_request_doc | Gemini \<Rightarrow> gemini_request_doc)"

text \<open>A Gemini body has no place for the model, the stream flag and the user; they travel in the URL.\<close>

definition carried :: "Format \<Rightarrow> ChatRequest \<Rightarrow> ChatRequest" where
  "carried to ir = (if to = Gemini then ir\<lparr>req_model := [], req_stream := False, metadata_user_id := []\<rparr> else ir)"

lemma gemini_doc_carried: "gemini_request_doc rj (carried Gemini ir) = gemini_request_doc rj ir"
  by (simp add: carried_def gemini_request_doc_def gemini_config_members_def)

lemma serialize_ir_doc: "serialize_ir rj to ir = write_text rj (format_doc to rj ir)"
  by (cases to) (simp_all add: serialize_ir_def format_doc_def anthropic_serialize_request_def
      openai_serialize_request_def responses_serialize_request_def gemini_serialize_request_def)

lemma format_doc_carried: "format_doc to rj (carried to ir) = format_doc to rj ir"
  by (cases to) (simp_all add: format_doc_def gemini_doc_carried, simp_all add: carried_def)

lemma parse_ir_serialize_ir:
  assumes "format_wf to rj ir" and "Parse rj (serialize_ir rj to ir) = Some (format_doc to rj ir)"
  shows "parse_ir rj (serialize_ir rj to ir) to = Inr ir"
proof -
  have "is_object (format_doc to rj ir)"
    by (cases to) (simp_all add: format_doc_def anthropic.doc_object openai.doc_object
        responses.doc_object gemini.doc_object)
  then have p: "parse_object rj (serialize_ir rj to ir) = Some (format_doc to rj ir)"
    using assms(2) by (simp add: parse_object_Some_iff)
  show ?thesis
    using p assms(1) anthropic.parse_request_doc [of rj ir] openai.parse_request_doc [of rj ir]
      responses.parse_request_doc [of rj ir] gemini.parse_request_doc [of rj ir]
    by (cases to)
       (simp_all add: parse_ir_def format_wf_def format_doc_def
         anthropic_parse_request_def openai_parse_request_def responses_parse_request_def
         gemini_parse_request_def)
qed

text \<open>
  Text conversations, which every format can carry: each message is one text from the user or the
  assistant; system text, tool definitions and sampling parameters are arbitrary.
\<close>

definition text_message :: "Message \<Rightarrow> bool" where
  "text_message m \<longleftrightarrow> role m \<in> {''user'', ''assistant''} \<and> length (content m) = 1 \<and>
     list_all text_block_wf (content m) \<and> tool_calls m = [] \<and> msg_tool_call_id m = []"

definition text_chat :: "rapidjson \<Rightarrow> ChatRequest \<Rightarrow> bool" where
  "text_chat rj ir \<longleftrightarrow> scalars_wf ir \<and> list_all text_message (messages ir) \<and>
     list_all (\<lambda>t. tool_wf rj t \<and> parameters_json t \<noteq> []) (tools ir)"

lemma text_message_wf:
  assumes "text_message m"
  shows "anthropic_message_wf rj m" "openai_message_wf m" "responses_message_wf m" "gemini_message_wf rj m"
proof -
  from assms obtain b where b: "content m = [b]" "text_block_wf b" by (auto simp: text_message_def length_Suc_conv)
  note k = block_kinds(1) [OF b(2)]
  have "nul_free (role m)" "role m \<noteq> ''system''" "role m \<noteq> ''developer''" "role m \<noteq> ''model''" "role m \<noteq> []"
    using assms by (auto simp: text_message_def nul_free_def)
  with assms b k show "anthropic_message_wf rj m" "openai_message_wf m" "responses_message_wf m" "gemini_message_wf rj m"
    by (simp_all add: text_message_def anthropic_message_wf_def openai_message_wf_def responses_message_wf_def
        gemini_message_wf_def needs_blocks_def has_tool_blocks_def calls_of_def result_id_of_def)
qed

lemma text_chat_wf:
  assumes "text_chat rj ir" and "to = OpenAIResponses \<Longrightarrow> stop ir = []" and "carried to ir = ir"
  shows "format_wf to rj ir"
proof -
  have m: "list_all (anthropic_message_wf rj) (messages ir)" "list_all openai_message_wf (messages ir)"
    "list_all responses_message_wf (messages ir)" "list_all (gemini_message_wf rj) (messages ir)"
    using assms(1) text_message_wf by (auto simp: text_chat_def list_all_iff)
  have t: "list_all (tool_wf rj) (tools ir)"
    "list_all (\<lambda>t. nul_free (def_name t) \<and> nul_free (def_description t) \<and> args_wf rj (parameters_json t)) (tools ir)"
    using assms(1) by (auto simp: text_chat_def list_all_iff tool_wf_def args_wf_def)
  have c: "req_model ir = [] \<and> \<not> req_stream ir \<and> metadata_user_id ir = []" if "to = Gemini"
    using arg_cong [OF assms(3), of req_model] arg_cong [OF assms(3), of req_stream]
      arg_cong [OF assms(3), of metadata_user_id] that by (simp add: carried_def)
  show ?thesis using assms(1,2) m t c
    by (cases to) (simp_all add: text_chat_def format_wf_def anthropic_wf_def openai_wf_def responses_wf_def gemini_wf_def)
qed

lemma carried_idem [simp]: "carried to (carried to ir) = carried to ir"
  by (simp add: carried_def)

section \<open>An example response\<close>

definition example_response :: json where
  "example_response =
     JObject [(''id'', JString ''r1''), (''model'', JString ''gpt''),
       (''choices'', JArray [JObject [(''message'', JObject [(''content'', JString ''hi''),
          (''tool_calls'', JArray [JObject [(''id'', JString ''c1''),
             (''function'', JObject [(''name'', JString ''f''), (''arguments'', JString ''{}'')])]])]),
          (''finish_reason'', JString ''tool_calls'')]]),
       (''usage'', JObject [(''prompt_tokens'', JInt 7), (''completion_tokens'', JInt 2)])]"

lemma example_response_facts:
  "response_text example_response = ''hi''"
  "extract_tool_calls rj OpenAIChatCompletions example_response =
     [\<lparr>call_id = ''c1'', call_name = ''f'', call_arguments = ''{}''\<rparr>]"
  "parse_finish_reason OpenAIChatCompletions example_response = ToolCalls"
  "usage_object example_response = Some (JObject [(''prompt_tokens'', JInt 7), (''completion_tokens'', JInt 2)])"
  by (simp_all add: example_response_def response_text_def choice_text_def first_of_def json_defs
      extract_tool_calls_def openai_tool_call_def get_str_def parse_finish_reason_def usage_object_def)

lemma example_response_converts:
  "\<exists>d. convert_response_doc rj example_response OpenAIChatCompletions to m = Inr d"
  by (cases to) (simp_all add: convert_response_doc_def Let_def add_converted_usage_def example_response_facts
      usage_input_def usage_output_def int_add_def int_bounds)

section \<open>Properties\<close>

text \<open>
  Converting a response keeps its text: whatever the two formats are, the text read from the
  converted document is the text read from the source document.
\<close>

theorem response_text_preserved:
  assumes "convert_response_doc rj source from to m = Inr d"
  shows "response_text d = response_text source"
  by (rule text_members [OF response_text_nul_free converted_members [OF assms]])

theorem response_text_preserved_witness:
  "response_text (projr (convert_response_doc no_json example_response OpenAIChatCompletions Gemini ''m'')) = ''hi''"
proof -
  obtain d where d: "convert_response_doc no_json example_response OpenAIChatCompletions Gemini ''m'' = Inr d"
    using example_response_converts by blast
  show ?thesis using response_text_preserved [OF d] by (simp add: d example_response_facts)
qed

text \<open>
  C15.  Converting a response keeps its tool calls: names and arguments arrive in order in every
  target, and ids as well except in Gemini, which has none.  For the targets that carry arguments
  as objects, the argument texts have to be what the JSON library writes for the object it reads.
\<close>

theorem response_calls_preserved:
  assumes "convert_response_doc rj source from to m = Inr d"
    and "to = Anthropic \<or> to = Gemini \<Longrightarrow>
           \<forall>tc\<in>set (extract_tool_calls rj from source). args_wf rj (call_arguments tc)"
  shows "map (\<lambda>tc. (call_name tc, call_arguments tc)) (extract_tool_calls rj to d) =
           map (\<lambda>tc. (call_name tc, call_arguments tc)) (extract_tool_calls rj from source) \<and>
         (to \<noteq> Gemini \<longrightarrow> extract_tool_calls rj to d = extract_tool_calls rj from source)"
proof -
  let ?calls = "extract_tool_calls rj from source"
  have "to = Anthropic \<or> to = Gemini \<Longrightarrow> map (object_args rj) ?calls = ?calls"
    using assms(2) object_args_id by (intro map_idI) auto
  with calls_members [OF extracted_calls_wf converted_members [OF assms(1)]]
  show ?thesis by (cases "to = Gemini") (simp_all split: if_splits)
qed

theorem response_calls_preserved_witness:
  "extract_tool_calls (two_doc_json JNull) Anthropic
     (projr (convert_response_doc (two_doc_json JNull) example_response OpenAIChatCompletions Anthropic ''m'')) =
   [\<lparr>call_id = ''c1'', call_name = ''f'', call_arguments = ''{}''\<rparr>]"
proof -
  let ?rj = "two_doc_json JNull"
  obtain d where d: "convert_response_doc ?rj example_response OpenAIChatCompletions Anthropic ''m'' = Inr d"
    using example_response_converts by blast
  have "args_wf ?rj ''{}''"
    by (simp add: args_wf_def two_doc_json_def parse_object_def write_text_def)
  with response_calls_preserved [OF d] show ?thesis by (simp add: d example_response_facts)
qed

text \<open>
  Converting a response keeps its finish reason as far as the target can say it: with tool
  calls the target says tool calls; without, stop and length survive exactly and the answer is
  never left unknown; a filtered answer stays recognizable as filtered in every target but
  Anthropic, which has no such reason and says it ended its turn.
\<close>

theorem response_finish_preserved:
  assumes "convert_response_doc rj source from to m = Inr d"
  shows "parse_finish_reason to d =
           (if extract_tool_calls rj from source = []
            then finish_image to (parse_finish_reason from source) else ToolCalls)"
  by (rule finish_members [OF converted_members [OF assms]])

theorem response_finish_preserved_witness:
  "parse_finish_reason Gemini
     (projr (convert_response_doc no_json example_response OpenAIChatCompletions Gemini ''m'')) = ToolCalls"
proof -
  obtain d where d: "convert_response_doc no_json example_response OpenAIChatCompletions Gemini ''m'' = Inr d"
    using example_response_converts by blast
  show ?thesis using response_finish_preserved [OF d] by (simp add: d example_response_facts)
qed

text \<open>
  C33.  Converting a response keeps its token counts.  Let the source document hold a usage object,
  and let input, output, cached and cache-creation tokens be read from it; a document that reports its
  counts under the names its own format documents is read as meant.  Then the converted document
  reports the same counts under the names the target format documents, and their sum as the total
  where the format has one.  Cache-creation tokens are kept for Anthropic, the only format that has a
  field for them.  The conversion fails only when the target has a total and the sum leaves the range
  of an \<^verbatim>\<open>int\<close>, the signed overflow of the source.
\<close>

theorem response_usage_preserved:
  assumes "usage_object source = Some u"
  shows "(case convert_response_doc rj source from to m of
            Inl e \<Rightarrow> total_name to \<noteq> None \<and> usage_input u + usage_output u > int32_max
          | Inr d \<Rightarrow>
              reports to d (usage_input u) (usage_output u) (usage_cache_read u)
                (if to = Anthropic then usage_cache_create u else 0) \<and>
              (case total_name to of
                 Some k \<Rightarrow> at_path d [usage_key to, k] = Some (JInt (usage_input u + usage_output u))
               | None \<Rightarrow> True)) \<and>
         (\<forall>i out cached created. reports from source i out cached created \<longrightarrow>
            usage_input u = i \<and> usage_output u = out \<and> usage_cache_read u = cached \<and>
            usage_cache_create u = created)"
proof (rule conjI)
  show "\<forall>i out cached created. reports from source i out cached created \<longrightarrow>
      usage_input u = i \<and> usage_output u = out \<and> usage_cache_read u = cached \<and> usage_cache_create u = created"
    using assms by (auto dest!: usage_object_of_report simp: read_integers read_cached read_created)
next
  show "case convert_response_doc rj source from to m of
            Inl e \<Rightarrow> total_name to \<noteq> None \<and> usage_input u + usage_output u > int32_max
          | Inr d \<Rightarrow>
              reports to d (usage_input u) (usage_output u) (usage_cache_read u)
                (if to = Anthropic then usage_cache_create u else 0) \<and>
              (case total_name to of
                 Some k \<Rightarrow> at_path d [usage_key to, k] = Some (JInt (usage_input u + usage_output u))
               | None \<Rightarrow> True)"
  proof (cases "convert_response_doc rj source from to m")
    case (Inl e)
    then have "add_converted_usage source to = Inl e"
      by (cases "add_converted_usage source to") (simp_all add: convert_response_doc_def Let_def)
    with assms Inl show ?thesis by (cases to) (simp_all add: add_usage_error usage_overflow_def total_name_def)
  next
    case (Inr d)
    then show ?thesis
    proof (rule convert_response_docE)
      fix us
      let ?ms = "response_members rj to (response_id source to) (response_model source m) (response_text source)
          (extract_tool_calls rj from source) (serialize_finish_reason (if extract_tool_calls rj from source = []
             then parse_finish_reason from source else ToolCalls) to)"
      assume us: "add_converted_usage source to = Inr us" and d: "d = JObject (?ms @ us)"
      from usage_members [OF us assms usage_not_in_members] obtain u' where
        u': "member d (usage_key to) = Some u'"
        "counts_in to u' (usage_input u) (usage_output u) (usage_cache_read u)
           (if to = Anthropic then usage_cache_create u else 0)"
        "case total_name to of Some k \<Rightarrow> member u' k = Some (JInt (usage_input u + usage_output u)) | None \<Rightarrow> True"
        "to = Gemini \<longrightarrow> member d ''usage'' = None"
        unfolding d by blast
      have "usage_key Anthropic = ''usage''" by (simp add: usage_key_def)
      with u' show ?thesis by (cases "total_name to") (simp_all add: Inr reports_def)
    qed
  qed
qed

theorem response_usage_preserved_witness:
  "\<exists>d. convert_response_doc no_json example_response OpenAIChatCompletions Gemini ''m'' = Inr d \<and>
     reports Gemini d 7 2 0 0 \<and> at_path d [''usageMetadata'', ''totalTokenCount''] = Some (JInt 9)"
proof -
  obtain d where d: "convert_response_doc no_json example_response OpenAIChatCompletions Gemini ''m'' = Inr d"
    using example_response_converts by blast
  show ?thesis
    using response_usage_preserved [OF example_response_facts(4), of Gemini no_json OpenAIChatCompletions "''m''"]
    by (simp add: d total_name_def usage_key_def usage_input_def usage_output_def usage_cache_read_def cached_tokens_at_def
        object_at_def int_bounds del: at_path.simps)
qed

text \<open>
  A response conversion fails outright in exactly one way: the formats differ, the body is a
  supported JSON object, the target reports a total, and the input and output counts (each clamped
  to \<^verbatim>\<open>int\<close>) add up to more than an \<^verbatim>\<open>int\<close>, a signed overflow.
\<close>

theorem response_overflow_iff:
  "convert_response_checked rj b from to m = Inl e \<longleftrightarrow>
     from \<noteq> to \<and> e = SignedOverflow \<and>
     (\<exists>source. parse_object rj b = Some source \<and> \<not> has_unsupported_response_shape source from \<and>
        to \<noteq> Anthropic \<and>
        (\<exists>u. usage_object source = Some u \<and> usage_input u + usage_output u > int32_max))"
proof -
  have "res_bind (convert_response_doc rj source from to m) (\<lambda>d. Inr (f d)) = Inl e \<longleftrightarrow>
      usage_overflow source to \<and> e = SignedOverflow" for source and f :: "json \<Rightarrow> ConversionResult"
    using add_usage_error [of source to e]
    by (cases "add_converted_usage source to") (simp_all add: convert_response_doc_def Let_def)
  then show ?thesis
    by (auto simp: convert_response_checked_def usage_overflow_def split: option.splits)
qed



text \<open>
  C34.  Converting an error keeps what the client acts on: the message always, the class for every
  target that has a type field, the provider code for the OpenAI formats, and for Gemini the class
  through its status name (distinct classes get distinct names) and through every HTTP status that
  carries a meaning of its own.
\<close>


theorem error_class_preserved:
  assumes "from \<noteq> to"
    and "Parse rj (convert_error rj b st from to) = Some (error_doc (canonical_error rj b st) st to)"
    and "c = canonical_error rj b st" and "c' = canonical_error rj (convert_error rj b st from to) st"
  shows "error_message c' = error_message c \<and>
         (to \<noteq> Gemini \<or> standard_status st \<longrightarrow> error_type c' = error_type c) \<and>
         (to = OpenAIChatCompletions \<or> to = OpenAIResponses \<longrightarrow> error_code c' = error_code c) \<and>
         (to = Gemini \<longrightarrow> (\<exists>e. object_at (error_doc c st to) ''error'' = Some e \<and>
            (\<forall>t s. string_at e ''status'' = Some (gemini_status (classify_error t s)) \<longleftrightarrow>
               classify_error t s = error_type c)))"
proof -
  obtain ty where c: "error_type c = classify_error ty st" "error_message c \<noteq> []"
    unfolding assms(3) canonical_error_def Let_def by (auto split: option.splits)
  have "is_object (error_doc c st to)" by (cases to) (simp_all add: error_doc_def)
  then have p: "parse_object rj (convert_error rj b st from to) = Some (error_doc c st to)"
    using assms(2,3) by (simp add: parse_object_Some_iff)
  have g: "gemini_status (classify_error t1 s1) = gemini_status (classify_error t2 s2) \<longleftrightarrow>
      classify_error t1 s1 = classify_error t2 s2" for t1 s1 t2 s2
    using gemini_status_inj by metis
  obtain e where e: "object_at (error_doc c st to) ''error'' = Some e"
    "error_member e ''message'' = error_message c"
    "error_member e ''type'' = (if to = Gemini then [] else error_type c)"
    "to = Gemini \<Longrightarrow> string_at e ''status'' = Some (gemini_status (error_type c))"
    "to = OpenAIChatCompletions \<or> to = OpenAIResponses \<Longrightarrow> error_member e ''code'' = error_code c"
    by (cases to) (simp_all add: error_doc_def json_defs error_member_def)
  have "c' = \<lparr>error_type = classify_error (error_member e ''type'') st, error_message = error_message c,
      error_code = error_member e ''code''\<rparr>"
    using c(2) by (simp add: assms(4) canonical_error_def p e(1,2) Let_def)
  then show ?thesis
    using e c(1) by (auto simp: classify_error_idem g intro: standard_status_class)
qed

theorem error_class_preserved_witness:
  "let rj = \<lparr>Parse = (\<lambda>s. if s = ''x'' then Some (error_doc (\<lparr>error_type = ''rate_limit_error'',
               error_message = ''Provider request failed'', error_code = []\<rparr>) 429 Anthropic) else None),
             Write = (\<lambda>_. ''x'')\<rparr>
   in error_type (canonical_error rj (convert_error rj ''?'' 429 Gemini Anthropic) 429) = ''rate_limit_error''"
proof -
  define rj where "rj = \<lparr>Parse = (\<lambda>s. if s = ''x'' then Some (error_doc (\<lparr>error_type = ''rate_limit_error'',
               error_message = ''Provider request failed'', error_code = []\<rparr>) 429 Anthropic) else None),
             Write = (\<lambda>_. ''x'')\<rparr>"
  have c: "canonical_error rj ''?'' 429 = \<lparr>error_type = ''rate_limit_error'',
               error_message = ''Provider request failed'', error_code = []\<rparr>"
    by (simp add: canonical_error_def rj_def parse_object_def error_member_def json_defs classify_error_def)
  have "Parse rj (convert_error rj ''?'' 429 Gemini Anthropic) = Some (error_doc (canonical_error rj ''?'' 429) 429 Anthropic)"
    by (simp add: c, simp add: rj_def convert_error_def)
  from error_class_preserved [OF _ this refl refl] show ?thesis
    unfolding Let_def rj_def [symmetric] by (simp add: c)
qed

end
