(* ===== verification/Validation.thy ===== *)
theory Validation
  imports Format_Common
begin

text \<open>
  The validators of \<^verbatim>\<open>protocol/converter.cpp\<close> for embeddings, model catalogs, token counts and
  Responses documents, the reader of multipart form fields, and the media usage estimates that are
  billed.  Each validator is shown equivalent to a declarative description of what it accepts; the
  multipart reader returns exactly the fields of a well-formed form.
\<close>

record ValidationResult =
  valid :: bool
  message :: string

definition accept :: ValidationResult where
  "accept = \<lparr>valid = True, message = []\<rparr>"

definition reject :: "string \<Rightarrow> ValidationResult" where
  "reject msg = \<lparr>valid = False, message = msg\<rparr>"

text \<open>A loop that returns at the first element that is rejected.\<close>

fun check_each :: "('a \<Rightarrow> string option) \<Rightarrow> 'a list \<Rightarrow> string option" where
  "check_each f [] = None"
| "check_each f (x # xs) = (case f x of Some e \<Rightarrow> Some e | None \<Rightarrow> check_each f xs)"

definition verdict :: "string option \<Rightarrow> ValidationResult" where
  "verdict e = (case e of None \<Rightarrow> accept | Some msg \<Rightarrow> reject msg)"

text \<open>\<^verbatim>\<open>v.HasMember(k) && v[k].IsString() && v[k].GetStringLength() != 0\<close>\<close>

definition nonempty_string_at :: "json \<Rightarrow> string \<Rightarrow> bool" where
  "nonempty_string_at j k \<longleftrightarrow> (case string_at j k of Some s \<Rightarrow> s \<noteq> [] | None \<Rightarrow> False)"

fun is_nonempty_string :: "json \<Rightarrow> bool" where
  "is_nonempty_string (JString s) = (s \<noteq> [])"
| "is_nonempty_string _ = False"

definition positive_int64_at :: "json \<Rightarrow> string \<Rightarrow> bool" where
  "positive_int64_at j k \<longleftrightarrow> (case int64_at j k of Some n \<Rightarrow> n > 0 | None \<Rightarrow> False)"

definition positive_int_at :: "json \<Rightarrow> string \<Rightarrow> bool" where
  "positive_int_at j k \<longleftrightarrow> (case int_at j k of Some n \<Rightarrow> n > 0 | None \<Rightarrow> False)"

section \<open>Embeddings\<close>

definition input_error :: "json \<Rightarrow> string option" where
  "input_error input =
     (case input of
        JString s \<Rightarrow> if s = [] then Some ''input must not be empty'' else None
      | JArray vs \<Rightarrow>
          if vs = [] then Some ''input must not be an empty array''
          else if length vs > 2048 then Some ''input must contain at most 2048 strings''
          else if \<not> list_all is_nonempty_string vs
               then Some ''input array entries must be non-empty strings'' else None
      | _ \<Rightarrow> Some ''input must be a string or an array of strings'')"

definition encoding_error :: "json \<Rightarrow> string option" where
  "encoding_error doc =
     (if has_member doc ''encoding_format'' \<and>
         string_at doc ''encoding_format'' \<noteq> Some ''float'' \<and>
         string_at doc ''encoding_format'' \<noteq> Some ''base64''
      then Some ''encoding_format must be float or base64'' else None)"

definition max_dimensions_for_model :: "string \<Rightarrow> int" where
  "max_dimensions_for_model m =
     (if m = ''jina-embeddings-v5-text-small'' then 1024
      else if m = ''gemini-embedding-001'' then 3072 else 8192)"

definition dimensions_error :: "json \<Rightarrow> string \<Rightarrow> string option" where
  "dimensions_error doc m =
     (if \<not> has_member doc ''dimensions'' then None
      else case int_at doc ''dimensions'' of
             None \<Rightarrow> Some ''dimensions must be a positive integer''
           | Some n \<Rightarrow>
               if n \<le> 0 then Some ''dimensions must be a positive integer''
               else if n > max_dimensions_for_model m
                    then Some ''dimensions exceed the model profile maximum'' else None)"

definition user_error :: "json \<Rightarrow> string option" where
  "user_error doc =
     (if has_member doc ''user'' \<and> string_at doc ''user'' = None
      then Some ''user must be a string'' else None)"

definition validate_embeddings_request :: "rapidjson \<Rightarrow> string \<Rightarrow> ValidationResult" where
  "validate_embeddings_request rj b =
     (case parse_object rj b of
        None \<Rightarrow> reject ''Request body must be a JSON object''
      | Some doc \<Rightarrow>
          if \<not> nonempty_string_at doc ''model'' then reject ''model must be a non-empty string''
          else case member doc ''input'' of
                 None \<Rightarrow> reject ''input is required''
               | Some input \<Rightarrow>
                   verdict (check_each (\<lambda>check. check)
                     [input_error input, encoding_error doc,
                      dimensions_error doc (case string_at doc ''model'' of Some m \<Rightarrow> m | None \<Rightarrow> []),
                      user_error doc]))"

text \<open>One item of the response; \<open>i\<close> is its position, \<open>dims\<close> the requested dimension or 0.\<close>

definition embedding_error :: "string \<Rightarrow> int \<Rightarrow> json \<Rightarrow> string option" where
  "embedding_error encoding dims emb =
     (if encoding = ''base64''
      then case emb of
             JString s \<Rightarrow>
               if s = [] then Some ''Provider returned a non-base64 embedding''
               else if dims > 0 \<and> length s \<noteq> (nat dims * 4 + 2) div 3 * 4
                    then Some ''Provider returned an unexpected base64 embedding dimension'' else None
           | _ \<Rightarrow> Some ''Provider returned a non-base64 embedding''
      else case emb of
             JArray vs \<Rightarrow>
               if vs = [] then Some ''Provider returned a non-float embedding''
               else if dims > 0 \<and> length vs \<noteq> nat dims
                    then Some ''Provider returned an unexpected embedding dimension''
               else if \<not> list_all (\<lambda>v. is_number v \<and> is_finite (get_double v)) vs
                    then Some ''Provider returned a non-finite embedding value'' else None
           | _ \<Rightarrow> Some ''Provider returned a non-float embedding'')"

definition embedding_item_error :: "string \<Rightarrow> int \<Rightarrow> nat \<times> json \<Rightarrow> string option" where
  "embedding_item_error encoding dims it =
     (case it of (i, item) \<Rightarrow>
        if int_at item ''index'' \<noteq> Some (to_int32 (int i))
        then Some ''Provider returned a malformed embedding item''
        else case member item ''embedding'' of
               None \<Rightarrow> Some ''Provider returned a malformed embedding item''
             | Some emb \<Rightarrow> embedding_error encoding dims emb)"

definition embeddings_usage_ok :: "json \<Rightarrow> bool" where
  "embeddings_usage_ok response \<longleftrightarrow>
     (case object_at response ''usage'' of
        Some u \<Rightarrow> positive_int_at u ''prompt_tokens'' \<and> positive_int_at u ''total_tokens''
      | None \<Rightarrow> False)"

definition validate_embeddings_response :: "rapidjson \<Rightarrow> string \<Rightarrow> string \<Rightarrow> ValidationResult" where
  "validate_embeddings_response rj request_body response_body =
     (case (case parse_object rj request_body of
              Some request \<Rightarrow> map_option (\<lambda>input. (request, input)) (member request ''input'')
            | None \<Rightarrow> None) of
        None \<Rightarrow> reject ''Embedding request could not be inspected''
      | Some (request, input) \<Rightarrow>
          let expected_count = (case input of JArray vs \<Rightarrow> length vs | _ \<Rightarrow> 1);
              dims = (case int_at request ''dimensions'' of Some n \<Rightarrow> n | None \<Rightarrow> 0);
              encoding = (case string_at request ''encoding_format'' of Some s \<Rightarrow> s | None \<Rightarrow> ''float'')
          in case parse_object rj response_body of
               None \<Rightarrow> reject ''Provider returned an invalid embeddings JSON object''
             | Some response \<Rightarrow>
                 (case array_at response ''data'' of
                    None \<Rightarrow> reject ''Provider embeddings response is missing data''
                  | Some data \<Rightarrow>
                      if length data \<noteq> expected_count
                      then reject ''Provider returned an unexpected embeddings count''
                      else case check_each (embedding_item_error encoding dims) (enumerate 0 data) of
                             Some e \<Rightarrow> reject e
                           | None \<Rightarrow>
                               if \<not> embeddings_usage_ok response
                               then reject ''Provider embeddings response is missing positive usage''
                               else accept))"

section \<open>Model catalogs, token counts and Responses documents\<close>

definition gemini_model_error :: "json \<Rightarrow> string option" where
  "gemini_model_error m =
     (case (string_at m ''name'', array_at m ''supportedGenerationMethods'') of
        (Some n, Some methods) \<Rightarrow>
          if length n \<le> length ''models/'' \<or> \<not> starts_with n ''models/'' \<or> methods = []
          then Some ''Provider Gemini model metadata is incomplete''
          else if \<not> list_all is_nonempty_string methods
          then Some ''Provider Gemini model methods are malformed''
          else if \<not> list_all (positive_int64_at m) [''inputTokenLimit'', ''outputTokenLimit'']
          then Some ''Provider Gemini model token limits are malformed'' else None
      | _ \<Rightarrow> Some ''Provider Gemini model metadata is incomplete'')"

definition catalog_entry_ok :: "json \<Rightarrow> bool" where
  "catalog_entry_ok m \<longleftrightarrow>
     nonempty_string_at m ''id'' \<and> string_at m ''object'' = Some ''model'' \<and>
     positive_int64_at m ''created'' \<and> nonempty_string_at m ''owned_by''"

text \<open>The loop over the catalog with the set of the ids seen so far.\<close>

fun catalog_error :: "json list \<Rightarrow> string list \<Rightarrow> string option" where
  "catalog_error [] ids = None"
| "catalog_error (m # ms) ids =
     (if \<not> catalog_entry_ok m then Some ''Provider model metadata is incomplete''
      else case string_at m ''id'' of
             None \<Rightarrow> Some ''Provider model metadata is incomplete''
           | Some i \<Rightarrow> if i \<in> set ids then Some ''Provider model catalog contains duplicate ids''
                      else catalog_error ms (i # ids))"

definition validate_models_response :: "rapidjson \<Rightarrow> string \<Rightarrow> Format \<Rightarrow> ValidationResult" where
  "validate_models_response rj b format =
     (case parse_object rj b of
        None \<Rightarrow> reject ''Provider models response must be a JSON object''
      | Some response \<Rightarrow>
          if format = Gemini
          then case member response ''models'' of
                 Some (JArray ms) \<Rightarrow> verdict (check_each gemini_model_error ms)
               | Some _ \<Rightarrow> reject ''Provider Gemini models must be an array''
               | None \<Rightarrow> verdict (gemini_model_error response)
          else case (string_at response ''object'', array_at response ''data'') of
                 (Some ob, Some ms) \<Rightarrow>
                   if ob \<noteq> ''list'' then reject ''Provider models response must contain a list and data array''
                   else verdict (catalog_error ms [])
               | _ \<Rightarrow> reject ''Provider models response must contain a list and data array'')"

definition validate_count_tokens_response :: "rapidjson \<Rightarrow> string \<Rightarrow> ValidationResult" where
  "validate_count_tokens_response rj b =
     (case (case parse_object rj b of Some r \<Rightarrow> int64_at r ''input_tokens'' | None \<Rightarrow> None) of
        Some n \<Rightarrow> if n \<le> 0 \<or> n > 1000000000
                  then reject ''Provider token-count response must contain a bounded positive input_tokens value''
                  else accept
      | None \<Rightarrow> reject ''Provider token-count response must contain a bounded positive input_tokens value'')"

text \<open>
  The sum of the two token counts is a signed 64-bit addition; both summands are positive here, so
  it overflows exactly when the exact sum is too large.
\<close>

definition responses_usage_check :: "json \<Rightarrow> rj_error + bool" where
  "responses_usage_check u =
     (case (int64_at u ''input_tokens'', int64_at u ''output_tokens'', int64_at u ''total_tokens'') of
        (Some i, Some out, Some sum_tokens) \<Rightarrow>
          if i \<le> 0 \<or> out \<le> 0 then Inr False
          else if \<not> in_int64 (i + out) then Inl SignedOverflow
          else Inr (i + out \<le> sum_tokens)
      | _ \<Rightarrow> Inr False)"

definition validate_responses_response :: "rapidjson \<Rightarrow> string \<Rightarrow> rj_error + ValidationResult" where
  "validate_responses_response rj b =
     (case parse_object rj b of
        None \<Rightarrow> Inr (reject ''Provider Responses response must be a JSON object'')
      | Some r \<Rightarrow>
          if \<not> nonempty_string_at r ''id'' \<or> string_at r ''object'' \<noteq> Some ''response''
             \<or> string_at r ''status'' \<noteq> Some ''completed'' \<or> \<not> nonempty_string_at r ''model''
          then Inr (reject ''Provider Responses response metadata is incomplete'')
          else case array_at r ''output'' of
                 None \<Rightarrow> Inr (reject ''Provider Responses response is missing output'')
               | Some items \<Rightarrow>
                   if items = [] then Inr (reject ''Provider Responses response is missing output'')
                   else if \<not> list_all (\<lambda>it. nonempty_string_at it ''type'') items
                   then Inr (reject ''Provider Responses output item is malformed'')
                   else case object_at r ''usage'' of
                          None \<Rightarrow> Inr (reject ''Provider Responses response is missing usage'')
                        | Some u \<Rightarrow> res_bind (responses_usage_check u) (\<lambda>good.
                            Inr (if good then accept
                                 else reject ''Provider Responses usage is incomplete or inconsistent'')))"

definition parse_realtime_model :: "rapidjson \<Rightarrow> string \<Rightarrow> string" where
  "parse_realtime_model rj event =
     (case parse_object rj event of
        None \<Rightarrow> []
      | Some doc \<Rightarrow>
          let model_from = (\<lambda>v. case string_at v ''model'' of Some m \<Rightarrow> m | None \<Rightarrow> []);
              inner = (\<lambda>k. case member doc k of Some v \<Rightarrow> model_from v | None \<Rightarrow> [])
          in if model_from doc \<noteq> [] then model_from doc
             else if inner ''session'' \<noteq> [] then inner ''session'' else inner ''response'')"

section \<open>Multipart form fields\<close>

definition CRLF :: string where "CRLF = [CHR 0x0D, CHR 0x0A]"

definition unquote :: "string \<Rightarrow> string" where
  "unquote s = (if length s \<ge> 2 \<and> hd s = CHR 0x22 \<and> last s = CHR 0x22 then butlast (tl s) else s)"

definition multipart_boundary :: "string \<Rightarrow> string option" where
  "multipart_boundary content_type =
     (case find_sub ''boundary='' (lower content_type) of
        None \<Rightarrow> None
      | Some marker \<Rightarrow>
          let rest = trim_front (\<lambda>c. c = CHR '' '') (drop (marker + 9) content_type);
              value = (case find_char (CHR '';'') rest of Some e \<Rightarrow> take e rest | None \<Rightarrow> rest);
              boundary = unquote (trim_back (\<lambda>c. c = CHR '' '') value)
          in if boundary = [] \<or> length boundary > 200 \<or> CHR 0x0D \<in> set boundary \<or> CHR 0x0A \<in> set boundary
             then None else Some boundary)"

text \<open>
  The search loop; \<open>rest\<close> is the body from the current position on.  Each round consumes at least
  the delimiter.
\<close>

function multipart_scan :: "string \<Rightarrow> string \<Rightarrow> string \<Rightarrow> string" where
  "multipart_scan boundary name_marker rest =
     (case find_sub (''--'' @ boundary) rest of
        None \<Rightarrow> []
      | Some i \<Rightarrow>
          let r = drop (i + length (''--'' @ boundary)) rest
          in if take 2 r = ''--'' then []
             else if take 2 r \<noteq> CRLF then multipart_scan boundary name_marker r
             else case find_sub (CRLF @ CRLF) (drop 2 r) of
                    None \<Rightarrow> []
                  | Some e \<Rightarrow>
                      let hdrs = lower (take e (drop 2 r));
                          content = drop (e + 4) (drop 2 r)
                      in case find_sub (CRLF @ ''--'' @ boundary) content of
                           None \<Rightarrow> []
                         | Some n \<Rightarrow>
                             if contains hdrs ''content-disposition: form-data'' \<and> contains hdrs name_marker
                             then (if n > 1024 then [] else take n content)
                             else multipart_scan boundary name_marker (drop (n + 2) content))"
  by pat_completeness auto

termination
proof (relation "measure (\<lambda>(b, m, rest). length rest)", goal_cases)
  case (2 boundary name_marker rest i r)
  then show ?case using find_sub_bound [of "''--'' @ boundary" rest i] by simp
next
  case (3 boundary name_marker rest i r e hdrs content n)
  then show ?case using find_sub_bound [of "''--'' @ boundary" rest i] by simp
qed simp

declare multipart_scan.simps [simp del]

definition extract_multipart_field :: "string \<Rightarrow> string \<Rightarrow> string \<Rightarrow> string" where
  "extract_multipart_field b content_type field_name =
     (case multipart_boundary content_type of
        None \<Rightarrow> []
      | Some boundary \<Rightarrow> multipart_scan boundary (''name='' @ [CHR 0x22] @ field_name @ [CHR 0x22]) b)"

section \<open>Media usage\<close>

record MediaUsageMetadata =
  input_image_count :: int
  output_image_count :: int
  image_size :: string
  video_count :: int
  video_resolution :: string
  video_duration_seconds :: int

definition no_media :: MediaUsageMetadata where
  "no_media = \<lparr>input_image_count = 0, output_image_count = 0, image_size = [], video_count = 0,
               video_resolution = [], video_duration_seconds = 0\<rparr>"

text \<open>
  \<^verbatim>\<open>std::from_chars\<close> for \<^verbatim>\<open>int\<close>, accepted only when it consumes the whole text: an optional minus
  sign and at least one digit, the value within range.
\<close>

definition from_chars_all :: "string \<Rightarrow> int option" where
  "from_chars_all s =
     (let neg = (s \<noteq> [] \<and> hd s = CHR ''-''); ds = (if neg then tl s else s);
          v = (if neg then - digits_value ds else digits_value ds)
      in if ds = [] \<or> \<not> list_all is_digit ds \<or> \<not> in_int32 v then None else Some v)"

fun positive_integer :: "json \<Rightarrow> string list \<Rightarrow> int" where
  "positive_integer obj [] = 0"
| "positive_integer obj (key # keys) =
     (case member obj key of
        None \<Rightarrow> positive_integer obj keys
      | Some v \<Rightarrow>
          if is_int v then max 0 (get_integer v)
          else if is_uint v then min (get_integer v) int32_max
          else case v of
                 JString s \<Rightarrow> (case from_chars_all s of
                                Some n \<Rightarrow> max 0 n | None \<Rightarrow> positive_integer obj keys)
               | _ \<Rightarrow> positive_integer obj keys)"

fun string_member :: "json \<Rightarrow> string list \<Rightarrow> string" where
  "string_member obj [] = []"
| "string_member obj (key # keys) =
     (case string_at obj key of Some s \<Rightarrow> cstr s | None \<Rightarrow> string_member obj keys)"

fun multipart_integer :: "string \<Rightarrow> string \<Rightarrow> string list \<Rightarrow> int" where
  "multipart_integer b content_type [] = 0"
| "multipart_integer b content_type (field # others) =
     (case from_chars_all (extract_multipart_field b content_type field) of
        Some n \<Rightarrow> max 0 n | None \<Rightarrow> multipart_integer b content_type others)"

definition parse_media_request :: "rapidjson \<Rightarrow> string \<Rightarrow> string \<Rightarrow> string \<Rightarrow> MediaUsageMetadata" where
  "parse_media_request rj b content_type operation =
     (let image = starts_with operation ''images_''; video = starts_with operation ''videos_'';
          u0 = no_media\<lparr>input_image_count := (if image \<and> contains operation ''edits'' then 1 else 0),
                        video_count := (if video then 1 else 0)\<rparr>
      in if starts_with content_type ''multipart/form-data''
         then u0\<lparr>output_image_count := (if image then max 1 (multipart_integer b content_type [''n'']) else 0),
                 image_size := extract_multipart_field b content_type ''size'',
                 video_resolution := extract_multipart_field b content_type ''resolution'',
                 video_duration_seconds := multipart_integer b content_type [''duration'', ''duration_seconds'']\<rparr>
         else case parse_object rj b of
                None \<Rightarrow> u0
              | Some doc \<Rightarrow>
                  u0\<lparr>output_image_count := (if image then max 1 (positive_integer doc [''n'']) else 0),
                     image_size := string_member doc [''size''],
                     video_resolution := string_member doc [''resolution''],
                     video_duration_seconds := positive_integer doc [''duration'', ''duration_seconds'']\<rparr>)"

definition parse_media_response :: "rapidjson \<Rightarrow> string \<Rightarrow> string \<Rightarrow> MediaUsageMetadata" where
  "parse_media_response rj b operation =
     (case parse_object rj b of
        None \<Rightarrow> no_media
      | Some doc \<Rightarrow>
          let u1 = (if starts_with operation ''images_''
                    then no_media\<lparr>output_image_count :=
                           (case array_at doc ''data'' of
                              Some xs \<Rightarrow> to_int32 (int (length xs))
                            | None \<Rightarrow> positive_integer doc [''output_count'', ''n'']),
                         image_size := string_member doc [''size'']\<rparr>
                    else no_media)
          in if starts_with operation ''videos_''
             then u1\<lparr>video_count := 1, video_resolution := string_member doc [''resolution''],
                     video_duration_seconds := positive_integer doc [''duration'', ''duration_seconds'']\<rparr>
             else u1)"

section \<open>Loops with an early return\<close>

lemma check_each_None: "check_each f xs = None \<longleftrightarrow> (\<forall>x\<in>set xs. f x = None)"
  by (induction xs) (auto split: option.splits)

lemma valid_verdict [simp]: "valid (verdict e) \<longleftrightarrow> e = None"
  by (cases e) (simp_all add: verdict_def accept_def reject_def)

lemma valid_simps [simp]: "valid accept" "\<not> valid (reject msg)"
  by (simp_all add: accept_def reject_def)

lemma catalog_error_None:
  "catalog_error ms ids = None \<longleftrightarrow>
     (\<forall>m\<in>set ms. catalog_entry_ok m) \<and> distinct (map (\<lambda>m. string_at m ''id'') ms) \<and>
     (\<forall>m\<in>set ms. \<forall>i\<in>set ids. string_at m ''id'' \<noteq> Some i)"
proof (induction ms arbitrary: ids)
  case (Cons m ms)
  show ?case
  proof (cases "catalog_entry_ok m")
    case True
    then obtain i where i: "string_at m ''id'' = Some i"
      by (auto simp: catalog_entry_ok_def nonempty_string_at_def split: option.splits)
    with True Cons.IH [of "i # ids"] show ?thesis by (auto simp: image_iff eq_commute [of "Some i"])
  qed simp
qed simp

section \<open>The first occurrence of a pattern\<close>

lemma find_sub_Cons_skip:
  assumes "c \<notin> set xs"
  shows "find_sub (c # p) (xs @ c # p @ ys) = Some (length xs)"
  using assms
proof (induction xs)
  case (Cons x xs)
  then show ?case by (auto simp: starts_with_def)
qed (simp add: starts_with_def)

lemma find_sub_prefix [simp]: "find_sub p (p @ s) = Some 0"
  by (simp add: find_sub_Some_iff)

lemma contains_iff: "contains s p \<longleftrightarrow> (\<exists>u w. s = u @ p @ w)"
proof
  assume "contains s p"
  then obtain i where "find_sub p s = Some i" by (auto simp: contains_def)
  then have "starts_with (drop i s) p" by (simp add: find_sub_Some_iff)
  then obtain w where "drop i s = p @ w" by (auto simp: starts_with_iff)
  then show "\<exists>u w. s = u @ p @ w" by (metis append_take_drop_id)
next
  assume "\<exists>u w. s = u @ p @ w"
  then obtain u w where s: "s = u @ p @ w" by blast
  have "length u \<le> length s" "starts_with (drop (length u) s) p" by (simp_all add: s)
  then show "contains s p" unfolding contains_def by (auto simp: find_sub_None_iff)
qed

text \<open>Two quoted names: a text with exactly two quotes contains a quoted name only if it is that name.\<close>

lemma quoted_name_unique:
  assumes t: "P @ [q] @ g @ [q] = u @ N @ [q] @ f @ [q] @ w"
    and "q \<notin> set P" "q \<notin> set g" "q \<notin> set N" "q \<notin> set f"
  shows "f = g"
proof -
  have "count_list (P @ [q] @ g @ [q]) q = count_list (u @ N @ [q] @ f @ [q] @ w) q" by (simp only: t)
  with assms(2-5) have "count_list u q = 0" by simp
  then have u: "q \<notin> set (u @ N)" using assms(4) by (simp add: count_list_0_iff)
  have tw: "takeWhile (\<lambda>c. c \<noteq> q) (xs @ q # ys) = xs" "dropWhile (\<lambda>c. c \<noteq> q) (xs @ q # ys) = q # ys"
    if "q \<notin> set xs" for xs ys using that by (induction xs) auto
  have "dropWhile (\<lambda>c. c \<noteq> q) (P @ q # g @ [q]) = dropWhile (\<lambda>c. c \<noteq> q) ((u @ N) @ q # f @ q # w)"
    using t by simp
  then have "g @ [q] = f @ q # w" using tw(2) [OF assms(2)] tw(2) [OF u] by simp
  then have "takeWhile (\<lambda>c. c \<noteq> q) (g @ [q]) = takeWhile (\<lambda>c. c \<noteq> q) (f @ q # w)" by simp
  then show ?thesis using tw(1) [OF assms(3)] tw(1) [OF assms(5)] by simp
qed

section \<open>Well-formed forms\<close>

text \<open>The text of a form as clients write it, and the forms for which the reader is exact.\<close>

definition part_header :: "string \<Rightarrow> string" where
  "part_header name = ''content-disposition: form-data; name='' @ [CHR 0x22] @ name @ [CHR 0x22]"

fun form_text :: "string \<Rightarrow> (string \<times> string) list \<Rightarrow> string" where
  "form_text boundary [] = ''--'' @ boundary @ ''--'' @ CRLF"
| "form_text boundary ((name, value) # parts) =
     ''--'' @ boundary @ CRLF @ part_header name @ CRLF @ CRLF @ value @ CRLF @ form_text boundary parts"

definition field_name_ok :: "string \<Rightarrow> bool" where
  "field_name_ok name \<longleftrightarrow> lower name = name \<and> CHR 0x22 \<notin> set name \<and> CHR 0x0D \<notin> set name"

definition form_part_ok :: "string \<times> string \<Rightarrow> bool" where
  "form_part_ok p \<longleftrightarrow> field_name_ok (fst p) \<and> CHR 0x0D \<notin> set (snd p) \<and> length (snd p) \<le> 1024"

lemma part_header_facts:
  assumes "field_name_ok name"
  shows "lower (part_header name) = part_header name" and "CHR 0x0D \<notin> set (part_header name)"
    and "contains (part_header name) ''content-disposition: form-data''"
    and "CHR 0x22 \<notin> set f \<Longrightarrow>
      contains (part_header name) (''name='' @ [CHR 0x22] @ f @ [CHR 0x22]) \<longleftrightarrow> f = name"
proof -
  have l: "map to_lower name = name" using assms by (simp add: field_name_ok_def lower_def)
  show "lower (part_header name) = part_header name"
    by (simp add: part_header_def lower_def to_lower_def is_upper_def byte_of_def l)
  show "CHR 0x0D \<notin> set (part_header name)" using assms by (simp add: part_header_def field_name_ok_def)
  show "contains (part_header name) ''content-disposition: form-data''"
    unfolding part_header_def contains_def by (simp add: starts_with_def)
  show "contains (part_header name) (''name='' @ [CHR 0x22] @ f @ [CHR 0x22]) \<longleftrightarrow> f = name"
    if f: "CHR 0x22 \<notin> set f"
  proof
    assume "contains (part_header name) (''name='' @ [CHR 0x22] @ f @ [CHR 0x22])"
    then obtain u w where "''content-disposition: form-data; name='' @ [CHR 0x22] @ name @ [CHR 0x22] =
        u @ ''name='' @ [CHR 0x22] @ f @ [CHR 0x22] @ w"
      by (auto simp: contains_iff part_header_def)
    from quoted_name_unique [OF this] assms f show "f = name" by (simp add: field_name_ok_def)
  next
    assume "f = name"
    then have "part_header name = ''content-disposition: form-data; '' @ (''name='' @ [CHR 0x22] @ f @ [CHR 0x22]) @ []"
      by (simp add: part_header_def)
    then show "contains (part_header name) (''name='' @ [CHR 0x22] @ f @ [CHR 0x22])"
      unfolding contains_iff by blast
  qed
qed

lemma scan_form_text:
  assumes "list_all form_part_ok parts" and "CHR 0x22 \<notin> set f"
  shows "multipart_scan b (''name='' @ [CHR 0x22] @ f @ [CHR 0x22]) (form_text b parts) =
           (case map_of parts f of Some v \<Rightarrow> v | None \<Rightarrow> [])"
  using assms(1)
proof (induction parts)
  case Nil
  have "find_sub (''--'' @ b) (form_text b []) = Some 0"
    using find_sub_prefix [of "''--'' @ b" "''--'' @ CRLF"] by simp
  then show ?case by (subst multipart_scan.simps) (simp add: Let_def)
next
  case (Cons p parts)
  obtain name v where p: "p = (name, v)" by (cases p)
  note ok = Cons.prems [unfolded p, simplified, unfolded form_part_ok_def, simplified]
  let ?rest = "form_text b parts" and ?m = "''name='' @ [CHR 0x22] @ f @ [CHR 0x22]"
  let ?t = "part_header name @ CRLF @ CRLF @ v @ CRLF @ ?rest"
  have f0: "find_sub (''--'' @ b) (''--'' @ b @ CRLF @ ?t) = Some 0"
    using find_sub_prefix [of "''--'' @ b" "CRLF @ ?t"] by simp
  have f1: "find_sub (CRLF @ CRLF) ?t = Some (length (part_header name))"
    using find_sub_Cons_skip [OF part_header_facts(2) [of name], of "CHR 0x0A # CRLF" "v @ CRLF @ ?rest"] ok
    by (simp add: CRLF_def)
  obtain r where r: "?rest = ''--'' @ b @ r" by (cases "(b, parts)" rule: form_text.cases) auto
  have f2: "find_sub (CRLF @ ''--'' @ b) (v @ CRLF @ ?rest) = Some (length v)"
    using find_sub_Cons_skip [of "CHR 0x0D" v "CHR 0x0A # ''--'' @ b" r] ok by (simp add: CRLF_def r)
  have len: "length CRLF = 2" by (simp add: CRLF_def)
  have "multipart_scan b ?m (form_text b (p # parts)) =
      (if f = name then v else multipart_scan b ?m ?rest)"
  proof -
    define m where "m = ?m"
    have c: "contains (lower (part_header name)) m = (f = name)"
      unfolding m_def using part_header_facts(1,4) [of name] ok assms(2) by simp
    have d: "contains (lower (part_header name)) ''content-disposition: form-data''"
      using part_header_facts(1,3) [of name] ok by simp
    show ?thesis unfolding m_def [symmetric]
      by (subst multipart_scan.simps) (use f0 f1 f2 ok c d in \<open>simp add: p Let_def len\<close>, simp add: CRLF_def)
  qed
  then show ?case using Cons by (simp add: p)
qed

lemma boundary_of_content_type:
  assumes "b \<noteq> []" "length b \<le> 200" "set b \<inter> {CHR 0x0D, CHR 0x0A, CHR '';'', CHR '' '', CHR 0x22} = {}"
  shows "multipart_boundary (''multipart/form-data; boundary='' @ b) = Some b"
proof -
  let ?ct = "''multipart/form-data; boundary='' @ b"
  have l: "lower ?ct = ''multipart/form-data; boundary='' @ lower b"
    by (simp add: lower_def to_lower_def is_upper_def byte_of_def)
  have m: "find_sub ''boundary='' (lower ?ct) = Some 21"
    unfolding l by (simp add: starts_with_def)
  have d: "drop (21 + 9) ?ct = b" by simp
  obtain c bs where b: "b = c # bs" using assms(1) by (cases b) auto
  have t: "trim_front (\<lambda>c. c = CHR '' '') b = b" using assms(3) by (auto simp: trim_front_def b)
  have f: "find_char (CHR '';'') b = None" using assms(3) by (auto simp: find_char_None)
  have r: "trim_back (\<lambda>c. c = CHR '' '') b = b"
    using assms(1,3) by (cases b rule: rev_cases) (auto simp: trim_back_def)
  have u: "unquote b = b" using assms(3) by (auto simp: unquote_def b)
  show ?thesis
    using assms unfolding multipart_boundary_def m by (simp add: Let_def t f r u d del: drop_append)
qed

lemma positive_integer_range: "0 \<le> positive_integer obj ks \<and> positive_integer obj ks \<le> int32_max"
proof (induction ks)
  case (Cons k ks)
  have r: "from_chars_all s = Some n \<Longrightarrow> in_int32 n" for s n
    by (auto simp: from_chars_all_def Let_def split: if_splits)
  have i: "is_int v \<Longrightarrow> max 0 (get_integer v) \<le> int32_max" for v
    by (cases v) (auto simp: int_bounds)
  have u: "is_uint v \<Longrightarrow> 0 \<le> get_integer v" for v by (cases v) auto
  from Cons show ?case
    by (auto simp: i u split: option.splits json.splits dest!: r) (auto simp: int_bounds)
qed (simp add: int_bounds)

lemma multipart_integer_range: "0 \<le> multipart_integer b ct fs \<and> multipart_integer b ct fs \<le> int32_max"
proof (induction fs)
  case (Cons f fs)
  have r: "from_chars_all s = Some n \<Longrightarrow> in_int32 n" for s n
    by (auto simp: from_chars_all_def Let_def split: if_splits)
  from Cons show ?case by (auto simp: int_bounds split: option.splits dest!: r)
qed (simp add: int_bounds)

section \<open>Properties\<close>

text \<open>
  Reading a form field returns exactly what the client sent: for a form with lower-case field
  names, values of at most 1024 bytes without carriage returns and a plain boundary, the reader
  returns the first value of the field, and the empty text when the form does not have it.
\<close>

theorem multipart_roundtrip:
  assumes "list_all form_part_ok parts" and "CHR 0x22 \<notin> set f"
    and "b \<noteq> []" and "length b \<le> 200"
    and "set b \<inter> {CHR 0x0D, CHR 0x0A, CHR '';'', CHR '' '', CHR 0x22} = {}"
  shows "extract_multipart_field (form_text b parts) (''multipart/form-data; boundary='' @ b) f =
           (case map_of parts f of Some v \<Rightarrow> v | None \<Rightarrow> [])"
  unfolding extract_multipart_field_def boundary_of_content_type [OF assms(3-5)]
  using scan_form_text [OF assms(1,2), of b] by simp

theorem multipart_roundtrip_witness:
  "extract_multipart_field (form_text ''b'' [(''prompt'', ''hi''), (''model'', ''sora'')])
     (''multipart/form-data; boundary='' @ ''b'') ''model'' = ''sora''"
  by (subst multipart_roundtrip)
     (simp_all add: form_part_ok_def field_name_ok_def lower_def to_lower_def is_upper_def byte_of_def)

text \<open>
  A file name is mistaken for a field name: a part for field \<open>image\<close> whose file is called
  \<open>model\<close> is returned as the value of field \<open>model\<close>, although the form has no such field.
\<close>

theorem multipart_filename_confused:
  "extract_multipart_field
     (''--b'' @ CRLF @ ''Content-Disposition: form-data; name='' @ [CHR 0x22] @ ''image'' @ [CHR 0x22] @
        ''; filename='' @ [CHR 0x22] @ ''model'' @ [CHR 0x22] @ CRLF @ CRLF @ ''data'' @ CRLF @ ''--b--'')
     ''multipart/form-data; boundary=b'' ''model'' = ''data''"
proof -
  have b: "multipart_boundary ''multipart/form-data; boundary=b'' = Some ''b''"
    using boundary_of_content_type [of "''b''"] by simp
  show ?thesis
    unfolding extract_multipart_field_def b
    by (subst multipart_scan.simps)
       (simp add: CRLF_def starts_with_def contains_def lower_def to_lower_def is_upper_def byte_of_def Let_def char_of_def bit_0)
qed

text \<open>
  An accepted embeddings response answers the request: one item per input, in order (item \<open>i\<close>
  carries index \<open>i\<close>), each a non-empty vector of finite numbers (or a non-empty text when base64 was
  asked for) of exactly the dimension asked for, and positive token counts to bill.
\<close>

theorem embeddings_response_faithful:
  assumes "valid (validate_embeddings_response rj request_body response_body)"
    and "parse_object rj request_body = Some request" and "member request ''input'' = Some input"
  shows "\<exists>response data. parse_object rj response_body = Some response \<and>
           array_at response ''data'' = Some data \<and>
           length data = (case input of JArray vs \<Rightarrow> length vs | _ \<Rightarrow> 1) \<and>
           (\<forall>i<length data. int_at (data ! i) ''index'' = Some (to_int32 (int i)) \<and>
              (\<exists>emb. member (data ! i) ''embedding'' = Some emb \<and>
                (if string_at request ''encoding_format'' = Some ''base64''
                 then \<exists>s. emb = JString s \<and> s \<noteq> []
                 else \<exists>vs. emb = JArray vs \<and> vs \<noteq> [] \<and>
                        (\<forall>v\<in>set vs. is_number v \<and> is_finite (get_double v)) \<and>
                        (\<forall>n>0. int_at request ''dimensions'' = Some n \<longrightarrow> length vs = nat n)))) \<and>
           embeddings_usage_ok response"
proof -
  let ?enc = "case string_at request ''encoding_format'' of Some s \<Rightarrow> s | None \<Rightarrow> ''float''"
  let ?dims = "case int_at request ''dimensions'' of Some n \<Rightarrow> n | None \<Rightarrow> 0"
  from assms obtain response data where r: "parse_object rj response_body = Some response"
    "array_at response ''data'' = Some data" "length data = (case input of JArray vs \<Rightarrow> length vs | _ \<Rightarrow> 1)"
    "check_each (embedding_item_error ?enc ?dims) (enumerate 0 data) = None" "embeddings_usage_ok response"
    by (auto simp: validate_embeddings_response_def Let_def split: option.splits if_splits)
  have "embedding_item_error ?enc ?dims (i, data ! i) = None" if "i < length data" for i
  proof -
    have "(i, data ! i) \<in> set (enumerate 0 data)" using that by (simp add: in_set_enumerate_eq)
    with r(4) show ?thesis unfolding check_each_None by blast
  qed
  then have item: "int_at (data ! i) ''index'' = Some (to_int32 (int i))"
      "\<exists>emb. member (data ! i) ''embedding'' = Some emb \<and> embedding_error ?enc ?dims emb = None"
    if "i < length data" for i
    using that by (force simp: embedding_item_error_def split: option.splits if_splits)+
  have enc: "?enc = ''base64'' \<longleftrightarrow> string_at request ''encoding_format'' = Some ''base64''"
    by (auto split: option.splits)
  have emb: "if string_at request ''encoding_format'' = Some ''base64'' then \<exists>s. e = JString s \<and> s \<noteq> []
      else \<exists>vs. e = JArray vs \<and> vs \<noteq> [] \<and> (\<forall>v\<in>set vs. is_number v \<and> is_finite (get_double v)) \<and>
             (\<forall>n>0. int_at request ''dimensions'' = Some n \<longrightarrow> length vs = nat n)"
    if "embedding_error ?enc ?dims e = None" for e
    using that unfolding embedding_error_def enc
    by (auto simp: list_all_iff split: if_splits json.splits)
  show ?thesis
    using r(1-3,5) item emb by (intro exI [of _ response] exI [of _ data]) blast
qed
theorem embeddings_response_faithful_witness:
  "let request = JObject [(''input'', JString ''x''), (''dimensions'', JInt 1)];
       response = JObject [(''data'', JArray [JObject [(''index'', JInt 0), (''embedding'', JArray [JInt 5])]]),
                           (''usage'', JObject [(''prompt_tokens'', JInt 1), (''total_tokens'', JInt 1)])];
       rj = \<lparr>Parse = (\<lambda>s. if s = ''q'' then Some request else Some response), Write = (\<lambda>_. [])\<rparr>
   in \<exists>data. array_at response ''data'' = Some data \<and> length data = 1 \<and>
        int_at (data ! 0) ''index'' = Some 0 \<and> embeddings_usage_ok response"
proof -
  define request where "request = JObject [(''input'', JString ''x''), (''dimensions'', JInt 1)]"
  define response where "response = JObject [(''data'', JArray [JObject [(''index'', JInt 0), (''embedding'', JArray [JInt 5])]]),
      (''usage'', JObject [(''prompt_tokens'', JInt 1), (''total_tokens'', JInt 1)])]"
  define rj where "rj = \<lparr>Parse = (\<lambda>s. if s = ''q'' then Some request else Some response), Write = (\<lambda>_. [])\<rparr>"
  have p: "parse_object rj ''q'' = Some request" "parse_object rj ''r'' = Some response"
    by (simp_all add: parse_object_def rj_def request_def response_def)
  have i: "member request ''input'' = Some (JString ''x'')" by (simp add: request_def)
  have "valid (validate_embeddings_response rj ''q'' ''r'')"
    by (simp add: validate_embeddings_response_def p i)
       (simp add: request_def response_def json_defs embedding_item_error_def embedding_error_def
         embeddings_usage_ok_def positive_int_at_def int_bounds)
  from embeddings_response_faithful [OF this p(1) i] p(2) show ?thesis
    unfolding Let_def request_def [symmetric] response_def [symmetric] rj_def [symmetric]
    by (auto simp: int_bounds)
qed

text \<open>
  A model catalog is accepted exactly when it is a list of complete entries with pairwise
  distinct ids.
\<close>

theorem models_catalog_iff:
  "valid (validate_models_response rj b OpenAIChatCompletions) \<longleftrightarrow>
     (\<exists>response ms. parse_object rj b = Some response \<and> string_at response ''object'' = Some ''list'' \<and>
        array_at response ''data'' = Some ms \<and> list_all catalog_entry_ok ms \<and>
        distinct (map (\<lambda>m. string_at m ''id'') ms))"
  by (auto simp: validate_models_response_def catalog_error_None list_all_iff split: option.splits)

text \<open>
  What a media request is billed for stays within \<^verbatim>\<open>int\<close> and is never negative, whatever the
  body holds, and an image request that can be read counts at least one image.
\<close>

theorem media_counts_bounded:
  "{input_image_count u, output_image_count u, video_count u, video_duration_seconds u} \<subseteq> {0..int32_max} \<and>
   (output_image_count u > 0 \<or> \<not> starts_with operation ''images_'' \<or>
    parse_object rj b = None \<and> \<not> starts_with content_type ''multipart/form-data'')"
  if "u = parse_media_request rj b content_type operation"
  using that positive_integer_range multipart_integer_range
  by (auto simp: parse_media_request_def Let_def no_media_def int_bounds max_def
      simp del: positive_integer.simps multipart_integer.simps split: option.splits if_splits)

theorem media_counts_bounded_witness:
  "output_image_count (parse_media_request no_json [] ''multipart/form-data'' ''images_edits'') > 0"
  using media_counts_bounded [OF refl, of no_json "[]" "''multipart/form-data''" "''images_edits''"]
  by (simp add: starts_with_def)

text \<open>
  Validating a Responses document fails outright in exactly one way: the document is complete
  up to its usage, and the two positive token counts add up to more than 64 signed bits.
\<close>

theorem responses_overflow_iff:
  "validate_responses_response rj b = Inl e \<longleftrightarrow>
     e = SignedOverflow \<and>
     (\<exists>r items u i out sum_tokens. parse_object rj b = Some r \<and>
        nonempty_string_at r ''id'' \<and> string_at r ''object'' = Some ''response'' \<and>
        string_at r ''status'' = Some ''completed'' \<and> nonempty_string_at r ''model'' \<and>
        array_at r ''output'' = Some items \<and> items \<noteq> [] \<and>
        list_all (\<lambda>it. nonempty_string_at it ''type'') items \<and> object_at r ''usage'' = Some u \<and>
        int64_at u ''input_tokens'' = Some i \<and> int64_at u ''output_tokens'' = Some out \<and>
        int64_at u ''total_tokens'' = Some sum_tokens \<and> 0 < i \<and> 0 < out \<and> i + out > int64_max)"
proof -
  have bind: "res_bind r (\<lambda>g. Inr (f g)) = Inl e \<longleftrightarrow> r = Inl e" for r :: "rj_error + bool" and f :: "bool \<Rightarrow> ValidationResult"
    by (cases r) simp_all
  have u: "responses_usage_check u = Inl e \<longleftrightarrow> e = SignedOverflow \<and>
      (\<exists>i out sum_tokens. int64_at u ''input_tokens'' = Some i \<and> int64_at u ''output_tokens'' = Some out \<and>
        int64_at u ''total_tokens'' = Some sum_tokens \<and> 0 < i \<and> 0 < out \<and> i + out > int64_max)" for u
    by (auto simp: responses_usage_check_def in_int64_def int64_min_def split: option.splits)
  show ?thesis
    by (auto simp: validate_responses_response_def bind u split: option.splits if_splits)
qed

end
