(* ===== verification/Usage_Collector.thy ===== *)
theory Usage_Collector
  imports Dispatch_Types
begin

text \<open>
  The usage outbox (\<^verbatim>\<open>usage/usage_collector.cpp\<close>): usage events and lease evidence, kept in two
  SQLite tables or, without a database path, in memory.  A table is the list of its rows in rowid
  order (a new row gets the largest rowid); the statements of the source act on it as SQL defines
  them.  \<open>unixepoch()\<close> is the argument \<open>now\<close>; a statement that the engine does not complete, the
  argument \<open>ok\<close> being false, leaves the tables alone and raises \<open>DbError\<close>.  The outcome of a query for
  rows is an argument of type \<open>nat option\<close>: \<open>None\<close> when it cannot be prepared, and otherwise the number of
  rows that can be read before a step fails.  A failing step just ends the list of rows.
\<close>

datatype db_error = DbError

section \<open>Events, rows and the collector\<close>

record UsageEvent =
  ue_lease_token :: string
  ue_request_id :: string
  ue_api_key_id :: int
  ue_user_id :: int
  ue_account_id :: int
  ue_group_id :: int
  ue_model :: string
  ue_upstream_model :: string
  ue_input_tokens :: int
  ue_output_tokens :: int
  ue_cache_create_tokens :: int
  ue_cache_read_tokens :: int
  ue_duration_ms :: int
  ue_first_token_ms :: int
  ue_stream :: bool
  ue_client_disconnect :: bool
  ue_status_code :: int
  ue_input_image_count :: int
  ue_output_image_count :: int
  ue_image_size :: string
  ue_video_count :: int
  ue_video_resolution :: string
  ue_video_duration_seconds :: int
  ue_realtime_duration_ms :: int
  ue_realtime_frames :: int
  ue_disconnect_reason :: string
  ue_provider_usage_json :: string
  ue_reasoning_tokens :: int
  ue_service_tier :: string
  ue_upstream_endpoint :: string
  ue_cancellation_reason :: string
  ue_media_operation_id :: string
  ue_pricing_version :: string
  ue_response_status_code :: int
  ue_response_content_type :: string
  ue_response_body :: string

definition new_event :: UsageEvent where
  "new_event = \<lparr>
     ue_lease_token = [], ue_request_id = [], ue_api_key_id = 0, ue_user_id = 0,
     ue_account_id = 0, ue_group_id = 0, ue_model = [], ue_upstream_model = [],
     ue_input_tokens = 0, ue_output_tokens = 0, ue_cache_create_tokens = 0,
     ue_cache_read_tokens = 0, ue_duration_ms = 0, ue_first_token_ms = 0, ue_stream = False,
     ue_client_disconnect = False, ue_status_code = 0, ue_input_image_count = 0,
     ue_output_image_count = 0, ue_image_size = [], ue_video_count = 0, ue_video_resolution = [],
     ue_video_duration_seconds = 0, ue_realtime_duration_ms = 0, ue_realtime_frames = 0,
     ue_disconnect_reason = [], ue_provider_usage_json = [], ue_reasoning_tokens = 0,
     ue_service_tier = [], ue_upstream_endpoint = [], ue_cancellation_reason = [],
     ue_media_operation_id = [], ue_pricing_version = [], ue_response_status_code = 0,
     ue_response_content_type = [], ue_response_body = []\<rparr>"

text \<open>An event as \<^verbatim>\<open>sqlite3_column_text\<close> gives it back: every text is a C string.\<close>

definition column_event :: "UsageEvent \<Rightarrow> UsageEvent" where
  "column_event e = e\<lparr>
       ue_lease_token := cstr (ue_lease_token e), ue_request_id := cstr (ue_request_id e),
       ue_model := cstr (ue_model e), ue_upstream_model := cstr (ue_upstream_model e),
       ue_image_size := cstr (ue_image_size e),
       ue_video_resolution := cstr (ue_video_resolution e),
       ue_disconnect_reason := cstr (ue_disconnect_reason e),
       ue_provider_usage_json := cstr (ue_provider_usage_json e),
       ue_service_tier := cstr (ue_service_tier e),
       ue_upstream_endpoint := cstr (ue_upstream_endpoint e),
       ue_cancellation_reason := cstr (ue_cancellation_reason e),
       ue_media_operation_id := cstr (ue_media_operation_id e),
       ue_pricing_version := cstr (ue_pricing_version e),
       ue_response_content_type := cstr (ue_response_content_type e),
       ue_response_body := cstr (ue_response_body e)\<rparr>"

record UsageRow =
  row_event :: UsageEvent
  row_created_at :: int
  dead_lettered_at :: "int option"
  dead_letter_error :: string

record Evidence =
  evidence_lease_token :: string
  evidence_stage :: string
  evidence_source :: string
  evidence_detail :: string

record EvidenceRow =
  row_evidence :: Evidence
  evidence_created_at :: int
  acknowledged_at :: "int option"
  evidence_dead_letter_error :: string

record Outbox =
  usage_outbox :: "UsageRow list"
  evidence_outbox :: "EvidenceRow list"

record UsageCollector =
  db :: "Outbox option"
  memory :: "UsageEvent list"

text \<open>
  A collector without a database path, and one on a database whose tables exist.
\<close>

definition memory_collector :: UsageCollector where
  "memory_collector = \<lparr>db = None, memory = []\<rparr>"

definition database_collector :: "Outbox \<Rightarrow> UsageCollector" where
  "database_collector tables = \<lparr>db = Some tables, memory = []\<rparr>"

abbreviation row_lease :: "UsageRow \<Rightarrow> string" where
  "row_lease r \<equiv> ue_lease_token (row_event r)"

text \<open>The rows that a statement with \<^verbatim>\<open>dead_lettered_at IS NULL\<close> sees, in \<^verbatim>\<open>ORDER BY\<close> order.\<close>

definition live_rows :: "UsageRow list \<Rightarrow> UsageRow list" where
  "live_rows rows = filter (\<lambda>r. dead_lettered_at r = None) rows"

definition ordered_live :: "UsageRow list \<Rightarrow> UsageRow list" where
  "ordered_live rows = sort_key row_created_at (live_rows rows)"

text \<open>\<^verbatim>\<open>LIMIT ?\<close> bound to a \<^verbatim>\<open>size_t\<close> cast to \<^verbatim>\<open>int\<close>: a negative limit is no limit.\<close>

definition sql_limit :: "nat \<Rightarrow> 'a list \<Rightarrow> 'a list" where
  "sql_limit limit xs = (let l = to_int32 (int limit) in if l < 0 then xs else take (nat l) xs)"

section \<open>Operations\<close>

definition insert_row :: "int \<Rightarrow> UsageEvent \<Rightarrow> UsageRow list \<Rightarrow> UsageRow list" where
  "insert_row now e rows =
     (if list_ex (\<lambda>r. row_lease r = ue_lease_token e) rows then rows
      else rows @ [\<lparr>row_event = e, row_created_at = now, dead_lettered_at = None, dead_letter_error = []\<rparr>])"

definition delete_row :: "string \<Rightarrow> UsageRow list \<Rightarrow> UsageRow list" where
  "delete_row token rows = filter (\<lambda>r. row_lease r \<noteq> token) rows"

definition bury_row :: "int \<Rightarrow> string \<Rightarrow> string \<Rightarrow> UsageRow list \<Rightarrow> UsageRow list" where
  "bury_row now token err rows =
     map (\<lambda>r. if row_lease r = token \<and> dead_lettered_at r = None
              then r\<lparr>dead_lettered_at := Some now, dead_letter_error := err\<rparr> else r) rows"

text \<open>A statement on the usage table.\<close>

definition on_usage :: "bool \<Rightarrow> (UsageRow list \<Rightarrow> UsageRow list) \<Rightarrow> Outbox \<Rightarrow> UsageCollector
    \<Rightarrow> db_error + UsageCollector" where
  "on_usage ok f tables c =
     (if ok then Inr (c\<lparr>db := Some (tables\<lparr>usage_outbox := f (usage_outbox tables)\<rparr>)\<rparr>) else Inl DbError)"

definition on_evidence :: "bool \<Rightarrow> (EvidenceRow list \<Rightarrow> EvidenceRow list) \<Rightarrow> Outbox \<Rightarrow> UsageCollector
    \<Rightarrow> db_error + UsageCollector" where
  "on_evidence ok f tables c =
     (if ok then Inr (c\<lparr>db := Some (tables\<lparr>evidence_outbox := f (evidence_outbox tables)\<rparr>)\<rparr>)
      else Inl DbError)"

definition record_usage :: "bool \<Rightarrow> int \<Rightarrow> UsageEvent \<Rightarrow> UsageCollector \<Rightarrow> db_error + UsageCollector" where
  "record_usage ok now e c =
     (case db c of
        None \<Rightarrow> Inr (c\<lparr>memory := memory c @ [e]\<rparr>)
      | Some tables \<Rightarrow> on_usage ok (insert_row now e) tables c)"

definition peek :: "nat option \<Rightarrow> nat \<Rightarrow> UsageCollector \<Rightarrow> db_error + UsageEvent list" where
  "peek readable limit c =
     (case db c of
        None \<Rightarrow> Inr (take (min limit (length (memory c))) (memory c))
      | Some tables \<Rightarrow>
          (case readable of
             None \<Rightarrow> Inl DbError
           | Some n \<Rightarrow> Inr (map (\<lambda>r. column_event (row_event r))
                            (take n (sql_limit limit (ordered_live (usage_outbox tables)))))))"

text \<open>The in-memory queue gives up an event only when it is the first.\<close>

definition pop_front_if :: "string \<Rightarrow> UsageEvent list \<Rightarrow> UsageEvent list" where
  "pop_front_if token evs =
     (case evs of [] \<Rightarrow> [] | e # rest \<Rightarrow> if ue_lease_token e = token then rest else evs)"

definition acknowledge :: "bool \<Rightarrow> string \<Rightarrow> UsageCollector \<Rightarrow> db_error + UsageCollector" where
  "acknowledge ok token c =
     (case db c of
        None \<Rightarrow> Inr (c\<lparr>memory := pop_front_if token (memory c)\<rparr>)
      | Some tables \<Rightarrow> on_usage ok (delete_row token) tables c)"

definition dead_letter :: "bool \<Rightarrow> int \<Rightarrow> string \<Rightarrow> string \<Rightarrow> UsageCollector \<Rightarrow> db_error + UsageCollector" where
  "dead_letter ok now token err c =
     (case db c of
        None \<Rightarrow> Inr (c\<lparr>memory := pop_front_if token (memory c)\<rparr>)
      | Some tables \<Rightarrow> on_usage ok (bury_row now token err) tables c)"

definition dead_lettered :: "bool \<Rightarrow> UsageCollector \<Rightarrow> nat" where
  "dead_lettered ok c =
     (case db c of
        None \<Rightarrow> 0
      | Some tables \<Rightarrow> if ok then length (filter (\<lambda>r. dead_lettered_at r \<noteq> None) (usage_outbox tables)) else 0)"

definition pending :: "bool \<Rightarrow> UsageCollector \<Rightarrow> nat" where
  "pending ok c =
     (case db c of
        None \<Rightarrow> length (memory c)
      | Some tables \<Rightarrow> if ok then length (live_rows (usage_outbox tables)) else 0)"

definition durable :: "UsageCollector \<Rightarrow> bool" where
  "durable c \<longleftrightarrow> db c \<noteq> None"

fun acknowledge_all :: "(nat \<Rightarrow> bool) \<Rightarrow> nat \<Rightarrow> UsageEvent list \<Rightarrow> UsageCollector \<Rightarrow> db_error + UsageCollector" where
  "acknowledge_all ok i [] c = Inr c"
| "acknowledge_all ok i (e # es) c =
     res_bind (acknowledge (ok i) (ue_lease_token e) c) (acknowledge_all ok (Suc i) es)"

definition drain :: "nat option \<Rightarrow> (nat \<Rightarrow> bool) \<Rightarrow> UsageCollector \<Rightarrow> db_error + UsageEvent list \<times> UsageCollector" where
  "drain readable ok c =
     (case db c of
        None \<Rightarrow> Inr (memory c, c\<lparr>memory := []\<rparr>)
      | Some _ \<Rightarrow>
          res_bind (peek readable (2 ^ 64 - 1) c) (\<lambda>evs.
          res_bind (acknowledge_all ok 0 evs c) (\<lambda>c'. Inr (evs, c'))))"

section \<open>Evidence\<close>

definition evidence_key :: "EvidenceRow \<Rightarrow> string \<times> string" where
  "evidence_key r = (evidence_lease_token (row_evidence r), evidence_stage (row_evidence r))"

definition insert_evidence :: "int \<Rightarrow> Evidence \<Rightarrow> EvidenceRow list \<Rightarrow> EvidenceRow list" where
  "insert_evidence now ev rows =
     (if list_ex (\<lambda>r. evidence_key r = (evidence_lease_token ev, evidence_stage ev)) rows then rows
      else rows @ [\<lparr>row_evidence = ev, evidence_created_at = now, acknowledged_at = None,
                    evidence_dead_letter_error = []\<rparr>])"

definition settle_evidence :: "int \<Rightarrow> string \<Rightarrow> string \<Rightarrow> string option \<Rightarrow> EvidenceRow list \<Rightarrow> EvidenceRow list" where
  "settle_evidence now token stage err rows =
     map (\<lambda>r. if evidence_key r = (token, stage) \<and> acknowledged_at r = None
              then r\<lparr>acknowledged_at := Some now,
                     evidence_dead_letter_error :=
                       (case err of Some e \<Rightarrow> e | None \<Rightarrow> evidence_dead_letter_error r)\<rparr>
              else r) rows"

definition record_evidence :: "bool \<Rightarrow> int \<Rightarrow> Evidence \<Rightarrow> UsageCollector \<Rightarrow> db_error + UsageCollector" where
  "record_evidence ok now ev c =
     (case db c of None \<Rightarrow> Inr c | Some tables \<Rightarrow> on_evidence ok (insert_evidence now ev) tables c)"

definition live_evidence :: "EvidenceRow list \<Rightarrow> EvidenceRow list" where
  "live_evidence rows = filter (\<lambda>r. acknowledged_at r = None) rows"

definition column_evidence :: "Evidence \<Rightarrow> Evidence" where
  "column_evidence ev =
     \<lparr>evidence_lease_token = cstr (evidence_lease_token ev), evidence_stage = cstr (evidence_stage ev),
      evidence_source = cstr (evidence_source ev), evidence_detail = cstr (evidence_detail ev)\<rparr>"

definition peek_evidence :: "nat option \<Rightarrow> nat \<Rightarrow> UsageCollector \<Rightarrow> Evidence list" where
  "peek_evidence readable limit c =
     (case db c of
        None \<Rightarrow> []
      | Some tables \<Rightarrow>
          (case readable of
             None \<Rightarrow> []
           | Some n \<Rightarrow> map (\<lambda>r. column_evidence (row_evidence r))
                       (take n (sql_limit limit (sort_key evidence_created_at (live_evidence (evidence_outbox tables)))))))"

definition acknowledge_evidence :: "bool \<Rightarrow> int \<Rightarrow> string \<Rightarrow> string \<Rightarrow> UsageCollector \<Rightarrow> db_error + UsageCollector" where
  "acknowledge_evidence ok now token stage c =
     (case db c of None \<Rightarrow> Inr c | Some tables \<Rightarrow> on_evidence ok (settle_evidence now token stage None) tables c)"

definition dead_letter_evidence :: "bool \<Rightarrow> int \<Rightarrow> string \<Rightarrow> string \<Rightarrow> string \<Rightarrow> UsageCollector
    \<Rightarrow> db_error + UsageCollector" where
  "dead_letter_evidence ok now token stage err c =
     (case db c of None \<Rightarrow> Inr c
      | Some tables \<Rightarrow> on_evidence ok (settle_evidence now token stage (Some err)) tables c)"

definition pending_evidence :: "bool \<Rightarrow> UsageCollector \<Rightarrow> nat" where
  "pending_evidence ok c =
     (case db c of
        None \<Rightarrow> 0
      | Some tables \<Rightarrow> if ok then length (live_evidence (evidence_outbox tables)) else 0)"

end
