(* ===== verification/Usage_Reporter.thy ===== *)
theory Usage_Reporter
  imports Usage_Collector
begin

text \<open>
  The reporter loop (\<^verbatim>\<open>usage/usage_reporter.cpp\<close>): every pass reads a batch of the outbox, reports
  each event to the platform service and settles it in the outbox according to the answer.  The
  answers of the service and the outcome of each database statement are the environment of a pass.
\<close>

section \<open>Reports\<close>

record UsageReportData =
  ur_lease_token :: string
  ur_request_id :: string
  ur_api_key_id :: int
  ur_user_id :: int
  ur_account_id :: int
  ur_group_id :: int
  ur_model :: string
  ur_upstream_model :: string
  ur_input_tokens :: int
  ur_output_tokens :: int
  ur_cache_create_tokens :: int
  ur_cache_read_tokens :: int
  ur_duration_ms :: int
  ur_first_token_ms :: int
  ur_stream :: bool
  ur_client_disconnect :: bool
  ur_status_code :: int
  ur_input_image_count :: int
  ur_output_image_count :: int
  ur_image_size :: string
  ur_video_count :: int
  ur_video_resolution :: string
  ur_video_duration_seconds :: int
  ur_realtime_duration_ms :: int
  ur_realtime_frames :: int
  ur_disconnect_reason :: string
  ur_provider_usage_json :: string
  ur_reasoning_tokens :: int
  ur_service_tier :: string
  ur_upstream_endpoint :: string
  ur_cancellation_reason :: string
  ur_media_operation_id :: string
  ur_pricing_version :: string
  ur_response_status_code :: int
  ur_response_content_type :: string
  ur_response_body :: string

definition usage_report :: "UsageEvent \<Rightarrow> UsageReportData" where
  "usage_report e = \<lparr>
     ur_lease_token = ue_lease_token e, ur_request_id = ue_request_id e,
     ur_api_key_id = ue_api_key_id e, ur_user_id = ue_user_id e, ur_account_id = ue_account_id e,
     ur_group_id = ue_group_id e, ur_model = ue_model e, ur_upstream_model = ue_upstream_model e,
     ur_input_tokens = ue_input_tokens e, ur_output_tokens = ue_output_tokens e,
     ur_cache_create_tokens = ue_cache_create_tokens e,
     ur_cache_read_tokens = ue_cache_read_tokens e, ur_duration_ms = ue_duration_ms e,
     ur_first_token_ms = ue_first_token_ms e, ur_stream = ue_stream e,
     ur_client_disconnect = ue_client_disconnect e, ur_status_code = ue_status_code e,
     ur_input_image_count = ue_input_image_count e,
     ur_output_image_count = ue_output_image_count e, ur_image_size = ue_image_size e,
     ur_video_count = ue_video_count e, ur_video_resolution = ue_video_resolution e,
     ur_video_duration_seconds = ue_video_duration_seconds e,
     ur_realtime_duration_ms = ue_realtime_duration_ms e,
     ur_realtime_frames = ue_realtime_frames e, ur_disconnect_reason = ue_disconnect_reason e,
     ur_provider_usage_json = ue_provider_usage_json e,
     ur_reasoning_tokens = ue_reasoning_tokens e, ur_service_tier = ue_service_tier e,
     ur_upstream_endpoint = ue_upstream_endpoint e,
     ur_cancellation_reason = ue_cancellation_reason e,
     ur_media_operation_id = ue_media_operation_id e, ur_pricing_version = ue_pricing_version e,
     ur_response_status_code = ue_response_status_code e,
     ur_response_content_type = ue_response_content_type e, ur_response_body = ue_response_body e\<rparr>"

section \<open>One pass\<close>

text \<open>
  The \<open>i\<close>-th report of a pass is answered by \<open>rpc i\<close>, the \<open>i\<close>-th evidence by \<open>rpc_evidence i\<close>.
\<close>

record pass_env =
  rpc :: "nat \<Rightarrow> UsageReportData \<Rightarrow> RpcAck"
  rpc_evidence :: "nat \<Rightarrow> string \<Rightarrow> LeaseEvidenceStage \<Rightarrow> string \<Rightarrow> RpcAck"
  readable :: "nat option"
  readable_evidence :: "nat option"
  settle_ok :: "nat \<Rightarrow> bool"
  settle_evidence_ok :: "nat \<Rightarrow> bool"
  clock :: int

record reporter =
  collector :: UsageCollector
  usage_events_buffered :: "64 word"
  usage_report_failures :: "64 word"

fun report_events :: "pass_env \<Rightarrow> nat \<Rightarrow> UsageEvent list \<Rightarrow> reporter \<Rightarrow> db_error + reporter" where
  "report_events env i [] s = Inr s"
| "report_events env i (ev # evs) s =
     (let report = usage_report ev; ack = rpc env i report
      in if acknowledged ack
         then res_bind (acknowledge (settle_ok env i) (ur_lease_token report) (collector s)) (\<lambda>c.
                report_events env (Suc i) evs
                  (s\<lparr>collector := c, usage_events_buffered := usage_events_buffered s - 1\<rparr>))
         else if \<not> retryable ack
         then res_bind (dead_letter (settle_ok env i) (clock env) (ur_lease_token report) (error_code ack)
                          (collector s)) (\<lambda>c.
                report_events env (Suc i) evs
                  (s\<lparr>collector := c, usage_events_buffered := usage_events_buffered s - 1,
                     usage_report_failures := usage_report_failures s + 1\<rparr>))
         else report_events env (Suc i) evs
                (s\<lparr>usage_report_failures := usage_report_failures s + 1\<rparr>))"

definition stage_of :: "string \<Rightarrow> LeaseEvidenceStage" where
  "stage_of s = (if s = ''output_started'' then OutputStarted else Forwarded)"

fun report_evidence :: "pass_env \<Rightarrow> nat \<Rightarrow> Evidence list \<Rightarrow> reporter \<Rightarrow> db_error + reporter" where
  "report_evidence env i [] s = Inr s"
| "report_evidence env i (ev # evs) s =
     (let token = evidence_lease_token ev; st = evidence_stage ev;
          ack = rpc_evidence env i token (stage_of st) (evidence_detail ev)
      in if acknowledged ack
         then res_bind (acknowledge_evidence (settle_evidence_ok env i) (clock env) token st (collector s)) (\<lambda>c.
                report_evidence env (Suc i) evs (s\<lparr>collector := c\<rparr>))
         else if \<not> retryable ack
         then res_bind (dead_letter_evidence (settle_evidence_ok env i) (clock env) token st (error_code ack)
                          (collector s)) (\<lambda>c.
                report_evidence env (Suc i) evs
                  (s\<lparr>collector := c, usage_report_failures := usage_report_failures s + 1\<rparr>))
         else report_evidence env (Suc i) evs
                (s\<lparr>usage_report_failures := usage_report_failures s + 1\<rparr>))"

definition flush_pass :: "pass_env \<Rightarrow> reporter \<Rightarrow> db_error + reporter" where
  "flush_pass env s =
     res_bind (peek (readable env) 100 (collector s)) (\<lambda>events.
       if events = [] then Inr s
       else res_bind (report_events env 0 events s) (\<lambda>s'.
              report_evidence env 0 (peek_evidence (readable_evidence env) 100 (collector s')) s'))"

text \<open>The loop: the passes made until the reporter is stopped or an exception leaves the loop.\<close>

definition reporter_loop :: "pass_env list \<Rightarrow> reporter \<Rightarrow> db_error + reporter" where
  "reporter_loop envs s = res_fold flush_pass envs s"

section \<open>The contract of an outbox\<close>

text \<open>
  What the reporter relies on: settling a lease removes that lease from the pending ones, and no
  other.
\<close>

locale outbox =
  fixes live :: "'s \<Rightarrow> string list"
    and ack :: "string \<Rightarrow> 's \<Rightarrow> 's"
    and bury :: "string \<Rightarrow> string \<Rightarrow> 's \<Rightarrow> 's"
  assumes live_ack: "live (ack l s) = filter (\<lambda>k. k \<noteq> l) (live s)"
    and live_bury: "live (bury l e s) = filter (\<lambda>k. k \<noteq> l) (live s)"
begin

text \<open>How one answer settles a lease, and the effect of a batch of answers on the pending leases.\<close>

definition settle :: "string \<times> RpcAck \<Rightarrow> 's \<Rightarrow> 's" where
  "settle p s = (if acknowledged (snd p) then ack (fst p) s
                 else if \<not> retryable (snd p) then bury (fst p) (error_code (snd p)) s else s)"

lemma live_settle_batch:
  "live (fold settle ps s) =
     filter (\<lambda>l. \<forall>p\<in>set ps. fst p = l \<longrightarrow> \<not> acknowledged (snd p) \<and> retryable (snd p)) (live s)"
proof (induction ps arbitrary: s)
  case (Cons p ps)
  have "live (settle p s) = filter (\<lambda>l. fst p = l \<longrightarrow> \<not> acknowledged (snd p) \<and> retryable (snd p)) (live s)"
    by (auto simp: settle_def live_ack live_bury intro!: filter_cong)
  with Cons.IH show ?case by (simp add: conj_commute)
qed simp

text \<open>Nothing is lost or settled by an answer to another lease.\<close>

lemma settle_batch_keeps:
  assumes "l \<in> set (live s)" and "\<And>a. (l, a) \<in> set ps \<Longrightarrow> \<not> acknowledged a \<and> retryable a"
  shows "l \<in> set (live (fold settle ps s))"
  using assms by (auto simp: live_settle_batch)

lemma settle_batch_drops:
  assumes "(l, a) \<in> set ps" and "acknowledged a \<or> \<not> retryable a"
  shows "l \<notin> set (live (fold settle ps s))"
  using assms by (force simp: live_settle_batch)

end

section \<open>The database provides it\<close>

definition live_leases :: "UsageRow list \<Rightarrow> string list" where
  "live_leases rows = map row_lease (ordered_live rows)"

lemma live_leases_delete: "live_leases (delete_row l rows) = filter (\<lambda>k. k \<noteq> l) (live_leases rows)"
  by (simp add: live_leases_def ordered_live_def live_rows_def delete_row_def filter_sort filter_map o_def conj_commute)

lemma live_leases_bury: "live_leases (bury_row now l e rows) = filter (\<lambda>k. k \<noteq> l) (live_leases rows)"
proof -
  let ?f = "\<lambda>r. if row_lease r = l \<and> dead_lettered_at r = None
              then r\<lparr>dead_lettered_at := Some now, dead_letter_error := e\<rparr> else r"
  have "live_rows (map ?f rows) = filter (\<lambda>r. row_lease r \<noteq> l) (live_rows rows)"
    by (induction rows) (auto simp: live_rows_def)
  then show ?thesis
    by (simp add: live_leases_def ordered_live_def bury_row_def filter_sort [symmetric] filter_map o_def)
qed

interpretation rows: outbox live_leases delete_row "bury_row now" for now
  by unfold_locales (rule live_leases_delete, rule live_leases_bury)

section \<open>A pass on the database\<close>

text \<open>The leases of a batch with the answers they get.\<close>

definition answers :: "pass_env \<Rightarrow> nat \<Rightarrow> UsageEvent list \<Rightarrow> (string \<times> RpcAck) list" where
  "answers env i evs = map (\<lambda>(j, ev). (ue_lease_token ev, rpc env j (usage_report ev))) (enumerate i evs)"

lemma answers_simps [simp]:
  "answers env i [] = []"
  "answers env i (ev # evs) = (ue_lease_token ev, rpc env i (usage_report ev)) # answers env (Suc i) evs"
  by (simp_all add: answers_def)

lemma report_lease [simp]: "ur_lease_token (usage_report e) = ue_lease_token e"
  by (simp add: usage_report_def)

lemma report_events_db:
  assumes "db (collector s) = Some tables" and "\<And>j. settle_ok env j"
  shows "\<exists>s'. report_events env i evs s = Inr s' \<and>
           db (collector s') = Some (tables\<lparr>usage_outbox :=
             fold (rows.settle (clock env)) (answers env i evs) (usage_outbox tables)\<rparr>)"
  using assms(1)
proof (induction evs arbitrary: i s tables)
  case (Cons ev evs)
  let ?a = "rpc env i (usage_report ev)"
  let ?rows = "rows.settle (clock env) (ue_lease_token ev, ?a) (usage_outbox tables)"
  obtain s1 where s1: "report_events env i (ev # evs) s = report_events env (Suc i) evs s1"
    "db (collector s1) = Some (tables\<lparr>usage_outbox := ?rows\<rparr>)"
    using Cons.prems assms(2)
    by (cases "acknowledged ?a"; cases "retryable ?a")
       (auto simp: Let_def acknowledge_def dead_letter_def on_usage_def rows.settle_def)
  from Cons.IH [OF s1(2), of "Suc i"] show ?case unfolding s1(1) by simp
qed simp

lemma report_evidence_db:
  assumes "db (collector s) = Some tables" and "\<And>j. settle_evidence_ok env j"
  shows "\<exists>s' es. report_evidence env i evs s = Inr s' \<and>
           db (collector s') = Some (tables\<lparr>evidence_outbox := es\<rparr>)"
  using assms(1)
proof (induction evs arbitrary: i s tables)
  case Nil
  then show ?case by (intro exI [of _ s] exI [of _ "evidence_outbox tables"]) simp
next
  case (Cons ev evs)
  obtain s1 es where s1: "report_evidence env i (ev # evs) s = report_evidence env (Suc i) evs s1"
    "db (collector s1) = Some (tables\<lparr>evidence_outbox := es\<rparr>)"
  proof (cases "acknowledged (rpc_evidence env i (evidence_lease_token ev) (stage_of (evidence_stage ev)) (evidence_detail ev))")
    case True
    with Cons.prems assms(2) show thesis
      by (intro that) (auto simp: Let_def acknowledge_evidence_def on_evidence_def)
  next
    case False
    show thesis
    proof (cases "retryable (rpc_evidence env i (evidence_lease_token ev) (stage_of (evidence_stage ev)) (evidence_detail ev))")
      case True
      with False Cons.prems show thesis
        by (intro that [of "s\<lparr>usage_report_failures := usage_report_failures s + 1\<rparr>" "evidence_outbox tables"])
          (simp_all add: Let_def)
    next
      case f: False
      with False Cons.prems assms(2) show thesis
        by (intro that) (auto simp: Let_def dead_letter_evidence_def on_evidence_def)
    qed
  qed
  from Cons.IH [OF s1(2), of "Suc i"] show ?case unfolding s1(1) by simp
qed

text \<open>
  A pass in which the database completes every statement it has prepared; and one that also reads
  the whole batch.
\<close>

definition completes :: "pass_env \<Rightarrow> bool" where
  "completes env \<longleftrightarrow> readable env \<noteq> None \<and> (\<forall>j. settle_ok env j) \<and> (\<forall>j. settle_evidence_ok env j)"

definition healthy :: "pass_env \<Rightarrow> bool" where
  "healthy env \<longleftrightarrow> completes env \<and> 100 \<le> the (readable env)"

definition batch_of :: "Outbox \<Rightarrow> UsageEvent list" where
  "batch_of tables = map (\<lambda>r. column_event (row_event r)) (take 100 (ordered_live (usage_outbox tables)))"

lemma flush_pass_rows:
  assumes "db (collector s) = Some tables" and "completes env"
  shows "\<exists>s' tables'. flush_pass env s = Inr s' \<and> db (collector s') = Some tables' \<and>
           usage_outbox tables' = fold (rows.settle (clock env))
             (answers env 0 (take (the (readable env)) (batch_of tables))) (usage_outbox tables)"
proof -
  let ?batch = "take (the (readable env)) (batch_of tables)"
  let ?rows = "fold (rows.settle (clock env)) (answers env 0 ?batch) (usage_outbox tables)"
  have p: "peek (readable env) 100 (collector s) = Inr ?batch"
    using assms by (auto simp: peek_def completes_def sql_limit_def batch_of_def int_bounds to_int32_def take_map)
  show ?thesis
  proof (cases "?batch = []")
    case True
    have "flush_pass env s = Inr s" unfolding flush_pass_def p True by simp
    moreover have "usage_outbox tables = ?rows" unfolding True by simp
    ultimately show ?thesis using assms(1) by blast
  next
    case False
    have ok: "\<And>j. settle_ok env j" "\<And>j. settle_evidence_ok env j" using assms(2) by (auto simp: completes_def)
    from report_events_db [OF assms(1) ok(1), of 0 ?batch] obtain s1 where
      s1: "report_events env 0 ?batch s = Inr s1" "db (collector s1) = Some (tables\<lparr>usage_outbox := ?rows\<rparr>)"
      by blast
    from report_evidence_db [OF s1(2) ok(2)] obtain s2 es where
      "report_evidence env 0 (peek_evidence (readable_evidence env) 100 (collector s1)) s1 = Inr s2"
      "db (collector s2) = Some (tables\<lparr>usage_outbox := ?rows, evidence_outbox := es\<rparr>)"
      by (metis Outbox.fold_congs(2) Outbox.ext_inject)
    moreover have "flush_pass env s = report_evidence env 0 (peek_evidence (readable_evidence env) 100 (collector s1)) s1"
      unfolding flush_pass_def p using False s1(1) by simp
    ultimately show ?thesis by simp
  qed
qed

lemma flush_pass_db:
  assumes "db (collector s) = Some tables" and "healthy env"
  shows "\<exists>s' tables'. flush_pass env s = Inr s' \<and> db (collector s') = Some tables' \<and>
           usage_outbox tables' =
             fold (rows.settle (clock env)) (answers env 0 (batch_of tables)) (usage_outbox tables)"
proof -
  have "take (the (readable env)) (batch_of tables) = batch_of tables"
    using assms(2) by (auto simp: healthy_def batch_of_def)
  moreover have "completes env" using assms(2) by (simp add: healthy_def)
  ultimately show ?thesis using flush_pass_rows [OF assms(1), of env] by metis
qed

text \<open>An answer that settles a lease.\<close>

definition final :: "RpcAck \<Rightarrow> bool" where
  "final a \<longleftrightarrow> acknowledged a \<or> \<not> retryable a"

text \<open>Primary keys are distinct; tokens hold no NUL byte, so that they read back as they were bound.\<close>

definition outbox_inv :: "UsageRow list \<Rightarrow> bool" where
  "outbox_inv rs \<longleftrightarrow> distinct (map row_lease rs) \<and> list_all (\<lambda>r. cstr (row_lease r) = row_lease r) rs"

lemma outbox_inv_leases: "outbox_inv rs \<longleftrightarrow> distinct (map row_lease rs) \<and> list_all (\<lambda>l. cstr l = l) (map row_lease rs)"
  by (simp add: outbox_inv_def list_all_iff)

lemma leases_bury: "map row_lease (bury_row now l e rs) = map row_lease rs"
  by (simp add: bury_row_def)

lemma outbox_inv_settle: "outbox_inv rs \<Longrightarrow> outbox_inv (rows.settle now p rs)"
proof -
  assume inv: "outbox_inv rs"
  have "outbox_inv (delete_row l rs)" for l
    using inv by (auto simp: outbox_inv_def delete_row_def list_all_iff distinct_map_filter)
  moreover have "outbox_inv (bury_row now l e rs)" for l e
    using inv unfolding outbox_inv_leases leases_bury .
  ultimately show ?thesis using inv by (simp add: rows.settle_def)
qed

lemma outbox_inv_settle_batch: "outbox_inv rs \<Longrightarrow> outbox_inv (fold (rows.settle now) ps rs)"
  by (induction ps arbitrary: rs) (simp_all add: outbox_inv_settle)

lemma outbox_inv_insert:
  "outbox_inv rs \<Longrightarrow> cstr (ue_lease_token e) = ue_lease_token e \<Longrightarrow> outbox_inv (insert_row now e rs)"
  by (auto simp: outbox_inv_def insert_row_def list_ex_iff list_all_iff)

lemma live_leases_distinct: "outbox_inv rs \<Longrightarrow> distinct (live_leases rs)"
  unfolding outbox_inv_def live_leases_def ordered_live_def live_rows_def distinct_map
  by (auto intro: inj_on_subset)

lemma column_lease [simp]: "ue_lease_token (column_event e) = cstr (ue_lease_token e)"
  by (simp add: column_event_def)

text \<open>The answer to the \<open>i\<close>-th pending event of a table.\<close>

definition reply :: "pass_env \<Rightarrow> UsageRow list \<Rightarrow> nat \<Rightarrow> RpcAck" where
  "reply env rs i = rpc env i (usage_report (column_event (row_event (ordered_live rs ! i))))"

lemma answers_of_batch:
  assumes "outbox_inv (usage_outbox t)"
  shows "answers env 0 (batch_of t) =
    map (\<lambda>i. (live_leases (usage_outbox t) ! i, reply env (usage_outbox t) i))
      [0..<min 100 (length (live_leases (usage_outbox t)))]"
proof -
  let ?rs = "usage_outbox t"
  have sub: "r \<in> set ?rs" if "r \<in> set (ordered_live ?rs)" for r
    using that by (auto simp: ordered_live_def live_rows_def)
  have c: "cstr (row_lease (ordered_live ?rs ! i)) = row_lease (ordered_live ?rs ! i)"
    if "i < length (ordered_live ?rs)" for i
    using assms sub [OF nth_mem [OF that]] by (simp add: outbox_inv_def list_all_iff)
  show ?thesis
    by (rule nth_equalityI)
       (simp_all add: answers_def batch_of_def nth_enumerate_eq live_leases_def reply_def c)
qed

lemma nths_in_range: "nths xs {i. i < length xs \<and> P i} = nths xs {i. P i}"
  unfolding nths_def by (rule arg_cong [of _ _ "map fst"], rule filter_cong) (auto simp: set_zip)

lemma nths_from: "nths xs {i. n \<le> i} = drop n xs"
proof (induction xs arbitrary: n)
  case (Cons x xs)
  have "nths xs {j. n \<le> Suc j} = drop (n - 1) xs"
    using Cons.IH [of "n - 1"] by (simp add: le_diff_conv)
  then show ?case by (cases n) (auto simp: nths_Cons)
qed simp

lemma pass_live:
  assumes "outbox_inv (usage_outbox t)"
  shows "live_leases (fold (rows.settle now) (answers env 0 (batch_of t)) (usage_outbox t)) =
    nths (live_leases (usage_outbox t)) {i. 100 \<le> i \<or> \<not> final (reply env (usage_outbox t) i)}"
proof -
  let ?L = "live_leases (usage_outbox t)" and ?r = "reply env (usage_outbox t)"
  have "nths ?L {i. i < length ?L \<and> (\<forall>p\<in>set (answers env 0 (batch_of t)).
          fst p = ?L ! i \<longrightarrow> \<not> acknowledged (snd p) \<and> retryable (snd p))} =
        nths ?L {i. 100 \<le> i \<or> \<not> final (?r i)}"
  proof -
    have "(\<forall>p\<in>set (answers env 0 (batch_of t)). fst p = ?L ! i \<longrightarrow> \<not> acknowledged (snd p) \<and> retryable (snd p))
        \<longleftrightarrow> 100 \<le> i \<or> \<not> final (?r i)" if "i < length ?L" for i
      using that live_leases_distinct [OF assms]
      by (auto simp: answers_of_batch [OF assms] nth_eq_iff_index_eq final_def)
    then have "{i. i < length ?L \<and> (\<forall>p\<in>set (answers env 0 (batch_of t)).
          fst p = ?L ! i \<longrightarrow> \<not> acknowledged (snd p) \<and> retryable (snd p))} =
        {i. i < length ?L \<and> (100 \<le> i \<or> \<not> final (?r i))}" by blast
    then show ?thesis by (simp only: nths_in_range)
  qed
  then show ?thesis by (simp add: rows.live_settle_batch filter_eq_nths)
qed


section \<open>Passes interleaved with recording\<close>

text \<open>
  A request handler records its event and counts it as buffered; when the database refuses, the
  handler reports the event itself and the outbox is as before.
\<close>

definition handler_record :: "bool \<Rightarrow> int \<Rightarrow> UsageEvent \<Rightarrow> reporter \<Rightarrow> reporter" where
  "handler_record ok now e s =
     (case record_usage ok now e (collector s) of
        Inr c \<Rightarrow> s\<lparr>collector := c, usage_events_buffered := usage_events_buffered s + 1\<rparr>
      | Inl _ \<Rightarrow> s)"

datatype usage_step = Record bool int UsageEvent | Pass pass_env

fun usage_exec :: "usage_step \<Rightarrow> reporter \<Rightarrow> db_error + reporter" where
  "usage_exec (Record ok now e) s = Inr (handler_record ok now e s)"
| "usage_exec (Pass env) s = flush_pass env s"

text \<open>
  The schedules considered: tokens without NUL byte, and passes in which no statement fails (the rows
  of a query may end early).
\<close>

fun step_ok :: "usage_step \<Rightarrow> bool" where
  "step_ok (Record ok now e) \<longleftrightarrow> cstr (ue_lease_token e) = ue_lease_token e"
| "step_ok (Pass env) \<longleftrightarrow> completes env"

text \<open>The step gives no final answer to the report of the event as it is read back.\<close>

fun open_for :: "UsageEvent \<Rightarrow> usage_step \<Rightarrow> bool" where
  "open_for e (Record ok now e') \<longleftrightarrow> True"
| "open_for e (Pass env) \<longleftrightarrow> (\<forall>i. \<not> final (rpc env i (usage_report (column_event e))))"

text \<open>A pass gives no final answer to any report about the lease.\<close>

definition leaves_open :: "string \<Rightarrow> pass_env \<Rightarrow> bool" where
  "leaves_open l env \<longleftrightarrow> (\<forall>i report. ur_lease_token report = l \<longrightarrow> \<not> final (rpc env i report))"

lemma exec_Record:
  assumes "db (collector s) = Some t"
  shows "\<exists>t'. db (collector (handler_record ok now e s)) = Some t' \<and>
           usage_outbox t' = (if ok then insert_row now e (usage_outbox t) else usage_outbox t)"
  using assms by (auto simp: handler_record_def record_usage_def on_usage_def)

text \<open>A row is left exactly as it is by answers to other leases and by answers that settle nothing.\<close>

lemma settle_batch_keeps_row:
  assumes "r \<in> set rs" and "\<And>a. (row_lease r, a) \<in> set ps \<Longrightarrow> \<not> final a"
  shows "r \<in> set (fold (rows.settle now) ps rs)"
  using assms
proof (induction ps arbitrary: rs)
  case (Cons p ps)
  have "r \<in> set (rows.settle now p rs)"
    using Cons.prems(1) Cons.prems(2) [of "snd p"]
    by (cases p) (auto simp: rows.settle_def delete_row_def bury_row_def final_def image_iff)
  with Cons.IH Cons.prems(2) show ?case by auto
qed simp

text \<open>What a pass is told about a row of the table is the answer to that very row.\<close>

lemma answer_of_row:
  assumes "outbox_inv (usage_outbox t)" and "r \<in> set (usage_outbox t)"
    and "(row_lease r, a) \<in> set (answers env 0 (take n (batch_of t)))"
  shows "\<exists>i. a = rpc env i (usage_report (column_event (row_event r)))"
proof -
  from assms(3) obtain i ev where a: "ue_lease_token ev = row_lease r" "a = rpc env i (usage_report ev)"
    "ev \<in> set (batch_of t)"
    by (auto simp: answers_def in_set_enumerate_eq dest: in_set_takeD)
  then obtain r' where r': "r' \<in> set (usage_outbox t)" "ev = column_event (row_event r')"
    unfolding batch_of_def ordered_live_def live_rows_def by (auto dest!: in_set_takeD)
  have "cstr (row_lease r') = row_lease r'" "inj_on row_lease (set (usage_outbox t))"
    using assms(1) r'(1) by (auto simp: outbox_inv_def list_all_iff distinct_map)
  with a(1) r' assms(2) have "r' = r" by (auto dest: inj_onD)
  with a r' show ?thesis by blast
qed

lemma exec_step:
  assumes "db (collector s) = Some t" and "outbox_inv (usage_outbox t)" and "step_ok st"
  shows "\<exists>s' t'. usage_exec st s = Inr s' \<and> db (collector s') = Some t' \<and> outbox_inv (usage_outbox t') \<and>
           (\<forall>r\<in>set (usage_outbox t). open_for (row_event r) st \<longrightarrow> r \<in> set (usage_outbox t'))"
proof (cases st)
  case (Record ok now e)
  with assms exec_Record [OF assms(1), of ok now e] show ?thesis
    by (auto simp: outbox_inv_insert) (auto simp: insert_row_def)
next
  case (Pass env)
  with assms(3) have "completes env" by simp
  from flush_pass_rows [OF assms(1) this] obtain s' t' where s': "flush_pass env s = Inr s'" "db (collector s') = Some t'"
    "usage_outbox t' = fold (rows.settle (clock env))
       (answers env 0 (take (the (readable env)) (batch_of t))) (usage_outbox t)"
    by blast
  have "r \<in> set (usage_outbox t')" if "r \<in> set (usage_outbox t)" "open_for (row_event r) st" for r
    unfolding s'(3) using that Pass
    by (intro settle_batch_keeps_row) (auto dest!: answer_of_row [OF assms(2)])
  with s' assms(2) Pass show ?thesis by (auto simp: outbox_inv_settle_batch)
qed

lemma exec_run:
  assumes "db (collector s) = Some t" and "outbox_inv (usage_outbox t)" and "list_all step_ok sts"
  shows "\<exists>s' t'. res_fold usage_exec sts s = Inr s' \<and> db (collector s') = Some t' \<and>
           outbox_inv (usage_outbox t') \<and>
           (\<forall>r\<in>set (usage_outbox t). list_all (open_for (row_event r)) sts \<longrightarrow> r \<in> set (usage_outbox t'))"
  using assms
proof (induction sts arbitrary: s t)
  case (Cons st sts)
  from exec_step [OF Cons.prems(1,2), of st] Cons.prems(3) obtain s1 t1 where
    1: "usage_exec st s = Inr s1" "db (collector s1) = Some t1" "outbox_inv (usage_outbox t1)"
      "\<forall>r\<in>set (usage_outbox t). open_for (row_event r) st \<longrightarrow> r \<in> set (usage_outbox t1)"
    by auto
  from Cons.IH [OF 1(2,3)] Cons.prems(3) show ?case using 1 by fastforce
qed simp

lemma pass_all_final:
  assumes "db (collector s) = Some t" and "outbox_inv (usage_outbox t)" and "healthy env"
    and "\<And>i report. final (rpc env i report)"
  shows "\<exists>s' t'. flush_pass env s = Inr s' \<and> db (collector s') = Some t' \<and> outbox_inv (usage_outbox t') \<and>
           live_leases (usage_outbox t') = drop 100 (live_leases (usage_outbox t))"
proof -
  from flush_pass_db [OF assms(1,3)] obtain s' t' where
    s': "flush_pass env s = Inr s'" "db (collector s') = Some t'"
    "usage_outbox t' = fold (rows.settle (clock env)) (answers env 0 (batch_of t)) (usage_outbox t)" by auto
  have "live_leases (usage_outbox t') = drop 100 (live_leases (usage_outbox t))"
    unfolding s'(3) pass_live [OF assms(2)] using assms(4) by (simp add: reply_def nths_from)
  with s' assms(2) show ?thesis by (auto simp: outbox_inv_settle_batch)
qed

lemma loop_all_final:
  assumes "db (collector s) = Some t" and "outbox_inv (usage_outbox t)"
    and "list_all healthy envs" and "\<And>env i report. env \<in> set envs \<Longrightarrow> final (rpc env i report)"
  shows "\<exists>s' t'. reporter_loop envs s = Inr s' \<and> db (collector s') = Some t' \<and>
           live_leases (usage_outbox t') = drop (100 * length envs) (live_leases (usage_outbox t))"
  using assms
proof (induction envs arbitrary: s t)
  case (Cons env envs)
  from pass_all_final [OF Cons.prems(1,2), of env] Cons.prems(3,4) obtain s1 t1 where
    1: "flush_pass env s = Inr s1" "db (collector s1) = Some t1" "outbox_inv (usage_outbox t1)"
      "live_leases (usage_outbox t1) = drop 100 (live_leases (usage_outbox t))" by auto
  from Cons.IH [OF 1(2,3)] Cons.prems(3,4) obtain s' t' where
    "reporter_loop envs s1 = Inr s'" "db (collector s') = Some t'"
    "live_leases (usage_outbox t') = drop (100 * length envs) (live_leases (usage_outbox t1))" by auto
  then show ?case by (auto simp: reporter_loop_def 1 add.commute)
qed (simp add: reporter_loop_def)

lemma pass_all_open:
  assumes "db (collector s) = Some t" and "outbox_inv (usage_outbox t)" and "healthy env"
    and "\<And>l. l \<in> set (take 100 (live_leases (usage_outbox t))) \<Longrightarrow> leaves_open l env"
  shows "\<exists>s' t'. flush_pass env s = Inr s' \<and> db (collector s') = Some t' \<and> outbox_inv (usage_outbox t') \<and>
           live_leases (usage_outbox t') = live_leases (usage_outbox t)"
proof -
  let ?L = "live_leases (usage_outbox t)"
  from flush_pass_db [OF assms(1,3)] obtain s' t' where
    s': "flush_pass env s = Inr s'" "db (collector s') = Some t'"
    "usage_outbox t' = fold (rows.settle (clock env)) (answers env 0 (batch_of t)) (usage_outbox t)" by auto
  have "\<forall>p\<in>set (answers env 0 (batch_of t)). \<not> final (snd p)"
  proof
    fix p assume "p \<in> set (answers env 0 (batch_of t))"
    then obtain j ev where p: "p = (ue_lease_token ev, rpc env j (usage_report ev))" "ev \<in> set (batch_of t)"
      by (auto simp: answers_def in_set_enumerate_eq)
    from p(2) obtain r where r: "r \<in> set (take 100 (ordered_live (usage_outbox t)))" "ev = column_event (row_event r)"
      by (auto simp: batch_of_def)
    then have "r \<in> set (usage_outbox t)" by (auto simp: ordered_live_def live_rows_def dest: in_set_takeD)
    then have "ue_lease_token ev = row_lease r" using assms(2) r(2) by (simp add: outbox_inv_def list_all_iff)
    moreover have "row_lease r \<in> set (take 100 ?L)" using r(1) by (simp add: live_leases_def take_map)
    ultimately show "\<not> final (snd p)" using assms(4) [of "row_lease r"] by (simp add: p(1) leaves_open_def)
  qed
  then have "live_leases (usage_outbox t') = ?L"
    unfolding s'(3) rows.live_settle_batch by (auto simp: final_def intro!: filter_True)
  with s' assms(2) show ?thesis by (auto simp: outbox_inv_settle_batch)
qed

lemma memory_front_stays:
  assumes "db (collector s) = None" and "memory (collector s) = e # es"
    and "\<And>ev. ev \<in> set evs \<Longrightarrow> ue_lease_token ev \<noteq> ue_lease_token e"
  shows "\<exists>s'. report_events env i evs s = Inr s' \<and> collector s' = collector s"
  using assms
proof (induction evs arbitrary: i s)
  case (Cons ev evs)
  let ?a = "rpc env i (usage_report ev)"
  have keep: "(collector s)\<lparr>memory := pop_front_if (ue_lease_token ev) (memory (collector s))\<rparr> = collector s"
    using Cons.prems(2) Cons.prems(3) [of ev] by (cases "collector s") (auto simp: pop_front_if_def)
  obtain s1 where s1: "report_events env i (ev # evs) s = report_events env (Suc i) evs s1"
    "collector s1 = collector s"
    using Cons.prems(1) keep
    by (cases "acknowledged ?a"; cases "retryable ?a")
       (auto simp: Let_def acknowledge_def dead_letter_def)
  from Cons.IH [of s1 "Suc i"] Cons.prems show ?case unfolding s1 by simp
qed simp

section \<open>A small schedule\<close>

definition final_env :: pass_env where
  "final_env = \<lparr>rpc = (\<lambda>_ _. \<lparr>accepted = True, duplicate = False, retryable = False, error_code = []\<rparr>),
     rpc_evidence = (\<lambda>_ _ _ _. \<lparr>accepted = True, duplicate = False, retryable = False, error_code = []\<rparr>),
     readable = Some 100, readable_evidence = Some 100, settle_ok = (\<lambda>_. True), settle_evidence_ok = (\<lambda>_. True),
     clock = 0\<rparr>"

definition busy_env :: pass_env where
  "busy_env = final_env\<lparr>rpc := (\<lambda>_ _. \<lparr>accepted = False, duplicate = False, retryable = True, error_code = ''busy''\<rparr>)\<rparr>"

definition one_row :: Outbox where
  "one_row = \<lparr>usage_outbox = [\<lparr>row_event = new_event\<lparr>ue_lease_token := ''L1''\<rparr>, row_created_at = 0,
      dead_lettered_at = None, dead_letter_error = []\<rparr>], evidence_outbox = []\<rparr>"

definition reporter_on :: "Outbox \<Rightarrow> reporter" where
  "reporter_on t = \<lparr>collector = database_collector t, usage_events_buffered = 0, usage_report_failures = 0\<rparr>"

definition late_event :: UsageEvent where
  "late_event = new_event\<lparr>ue_lease_token := ''L2'', ue_input_tokens := 7\<rparr>"

definition late_steps :: "usage_step list" where
  "late_steps = [Record True 6 (late_event\<lparr>ue_input_tokens := 0\<rparr>), Pass busy_env, Pass (busy_env\<lparr>readable := Some 1\<rparr>)]"

lemma late_facts:
  "list_all step_ok (Record True 5 late_event # late_steps)" "list_all (open_for late_event) late_steps"
  "ue_lease_token late_event \<notin> set (map row_lease (usage_outbox one_row))"
  by (simp_all add: late_steps_def late_event_def new_event_def one_row_def completes_def busy_env_def final_env_def
      final_def acknowledged_def)

lemma example_facts:
  "db (collector (reporter_on t)) = Some t" "outbox_inv (usage_outbox one_row)"
  "healthy final_env" "completes busy_env" "healthy busy_env" "final (rpc final_env i r)" "\<not> final (rpc busy_env i r)"
  "leaves_open l busy_env" "live_leases (usage_outbox one_row) = [''L1'']"
  "map row_lease (usage_outbox one_row) = [''L1'']"
  by (simp_all add: reporter_on_def database_collector_def outbox_inv_def one_row_def new_event_def healthy_def
      completes_def leaves_open_def final_env_def busy_env_def final_def acknowledged_def live_leases_def ordered_live_def live_rows_def)

section \<open>Properties\<close>

text \<open>
  C5.  A recorded usage event is not lost.  Suppose that its lease has no row yet and that, in the
  steps that follow, any mixture of other handlers recording and of reporter passes, the database
  completes the statements of the passes (reading a batch may end early at any row, and a handler's own
  insert may fail).  Then none of these passes stops the reporter, the outbox keeps one row per lease,
  and as long as no pass gets a final answer (accepted, duplicate, or a permanent error) to the report
  made of this very event, the row of the event is in the outbox, pending, with every field as it was
  recorded.
\<close>

theorem usage_event_not_lost:
  assumes "db (collector s) = Some t" and "outbox_inv (usage_outbox t)"
    and "list_all step_ok (Record True now e # sts)"
    and "ue_lease_token e \<notin> set (map row_lease (usage_outbox t))"
  shows "\<exists>s' t'. res_fold usage_exec (Record True now e # sts) s = Inr s' \<and> db (collector s') = Some t' \<and>
           outbox_inv (usage_outbox t') \<and>
           (list_all (open_for e) sts \<longrightarrow>
              \<lparr>row_event = e, row_created_at = now, dead_lettered_at = None, dead_letter_error = []\<rparr>
                \<in> set (usage_outbox t'))"
proof -
  let ?r = "\<lparr>row_event = e, row_created_at = now, dead_lettered_at = None, dead_letter_error = []\<rparr>"
  obtain t1 where 1: "db (collector (handler_record True now e s)) = Some t1"
    "usage_outbox t1 = insert_row now e (usage_outbox t)" using exec_Record [OF assms(1), of True now e] by auto
  have inv: "outbox_inv (usage_outbox t1)" using assms(2,3) by (simp add: 1(2) outbox_inv_insert)
  have "?r \<in> set (usage_outbox t1)"
    using assms(4) by (force simp: 1(2) insert_row_def list_ex_iff)
  moreover have "row_event ?r = e" by simp
  moreover have "res_fold usage_exec (Record True now e # sts) s = res_fold usage_exec sts (handler_record True now e s)"
    by simp
  moreover have "list_all step_ok sts" using assms(3) by simp
  ultimately show ?thesis using exec_run [OF 1(1) inv, of sts] by metis
qed

theorem usage_event_not_lost_witness:
  "\<exists>s' t'. res_fold usage_exec (Record True 5 late_event # late_steps) (reporter_on one_row) = Inr s' \<and>
     db (collector s') = Some t' \<and>
     \<lparr>row_event = late_event, row_created_at = 5, dead_lettered_at = None, dead_letter_error = []\<rparr>
       \<in> set (usage_outbox t')"
  using usage_event_not_lost [OF example_facts(1,2) late_facts(1,3)] late_facts(2) by metis

text \<open>
  C18.  A pass settles exactly what was answered: of the pending leases, in order, precisely those
  among the first hundred with a final answer leave the outbox; one retryable answer holds back
  nothing but its own lease.
\<close>

theorem pass_settles_exactly:
  assumes "db (collector s) = Some t" and "outbox_inv (usage_outbox t)" and "healthy env"
  shows "\<exists>s' t'. flush_pass env s = Inr s' \<and> db (collector s') = Some t' \<and> outbox_inv (usage_outbox t') \<and>
           live_leases (usage_outbox t') =
             nths (live_leases (usage_outbox t)) {i. 100 \<le> i \<or> \<not> final (reply env (usage_outbox t) i)}"
  using flush_pass_db [OF assms(1,3)] assms(2) by (auto simp: pass_live outbox_inv_settle_batch)

theorem pass_settles_exactly_witness:
  "\<exists>s' t'. flush_pass final_env (reporter_on one_row) = Inr s' \<and> db (collector s') = Some t' \<and>
     live_leases (usage_outbox t') = []"
proof -
  have "nths [''L1''] {i. 100 \<le> i \<or> \<not> final (reply final_env (usage_outbox one_row) i)} = []"
    by (simp add: nths_Cons reply_def example_facts)
  with pass_settles_exactly [OF example_facts(1,2,3)] show ?thesis by (auto simp: example_facts)
qed

text \<open>
  C19.  The outbox drains: when the database completes the statements of every pass and the service
  answers finally, every pass removes the hundred oldest pending events, so \<open>n\<close> pending events are all
  delivered after \<open>n / 100\<close> passes, rounded up.
\<close>

theorem outbox_drains:
  assumes "db (collector s) = Some t" and "outbox_inv (usage_outbox t)"
    and "list_all healthy envs" and "\<And>env i report. env \<in> set envs \<Longrightarrow> final (rpc env i report)"
    and "pending True (collector s) \<le> 100 * length envs"
  shows "\<exists>s'. reporter_loop envs s = Inr s' \<and> pending True (collector s') = 0"
proof -
  have len: "length (live_leases rs) = length (live_rows rs)" for rs
    by (simp add: live_leases_def ordered_live_def)
  from loop_all_final [OF assms(1-4)] obtain s' t' where
    s': "reporter_loop envs s = Inr s'" "db (collector s') = Some t'"
      "live_leases (usage_outbox t') = drop (100 * length envs) (live_leases (usage_outbox t))" by blast
  have "length (live_leases (usage_outbox t)) \<le> 100 * length envs"
    using assms(1,5) by (simp add: pending_def len)
  with s'(3) have "live_leases (usage_outbox t') = []" by simp
  then have "pending True (collector s') = 0" using s'(2) len [of "usage_outbox t'"] by (simp add: pending_def)
  with s'(1) show ?thesis by blast
qed

theorem outbox_drains_witness:
  "\<exists>s'. reporter_loop [final_env] (reporter_on one_row) = Inr s' \<and> pending True (collector s') = 0"
  by (rule outbox_drains [OF example_facts(1,2)])
     (simp_all add: example_facts, simp add: pending_def reporter_on_def database_collector_def one_row_def live_rows_def)

text \<open>
  A hundred stuck leases starve all later ones: while the hundred oldest pending leases get
  retryable answers, every pass reads that same batch again and no later event is ever reported.
\<close>

theorem stuck_batch_starves:
  assumes "db (collector s) = Some t" and "outbox_inv (usage_outbox t)"
    and "list_all healthy envs"
    and "\<And>env l. env \<in> set envs \<Longrightarrow> l \<in> set (take 100 (live_leases (usage_outbox t))) \<Longrightarrow> leaves_open l env"
  shows "\<exists>s' t'. reporter_loop envs s = Inr s' \<and> db (collector s') = Some t' \<and>
           live_leases (usage_outbox t') = live_leases (usage_outbox t)"
  using assms
proof (induction envs arbitrary: s t)
  case (Cons env envs)
  from pass_all_open [OF Cons.prems(1,2), of env] Cons.prems(3,4) obtain s1 t1 where
    1: "flush_pass env s = Inr s1" "db (collector s1) = Some t1" "outbox_inv (usage_outbox t1)"
      "live_leases (usage_outbox t1) = live_leases (usage_outbox t)" by auto
  from Cons.IH [OF 1(2,3)] Cons.prems(3,4) show ?case by (auto simp: reporter_loop_def 1)
qed (simp add: reporter_loop_def)

theorem stuck_batch_starves_witness:
  "\<exists>s' t'. reporter_loop [busy_env, busy_env] (reporter_on one_row) = Inr s' \<and> db (collector s') = Some t' \<and>
     live_leases (usage_outbox t') = [''L1'']"
  using stuck_batch_starves [OF example_facts(1,2), of "[busy_env, busy_env]"] by (auto simp: example_facts)

text \<open>
  Without a database one retryable answer blocks the queue: if the oldest event is answered
  with a retryable error, a pass removes nothing, although later events of the batch may have been
  accepted; they are reported again in every following pass.
\<close>

theorem memory_head_blocks:
  assumes "db (collector s) = None" and "memory (collector s) = e # es"
    and "ue_lease_token e \<notin> set (map ue_lease_token es)" and "\<not> final (rpc env 0 (usage_report e))"
  shows "\<exists>s'. flush_pass env s = Inr s' \<and> collector s' = collector s"
proof -
  let ?rest = "take 99 es"
  let ?s = "s\<lparr>usage_report_failures := usage_report_failures s + 1\<rparr>"
  have p: "peek (readable env) 100 (collector s) = Inr (e # ?rest)"
    using assms(1,2) by (simp add: peek_def min_def take_Cons')
  have "report_events env 0 (e # ?rest) s = report_events env 1 ?rest ?s"
    using assms(4) by (simp add: final_def Let_def)
  moreover have "\<exists>s'. report_events env 1 ?rest ?s = Inr s' \<and> collector s' = collector ?s"
  proof (rule memory_front_stays [of _ e es])
    show "ue_lease_token ev \<noteq> ue_lease_token e" if "ev \<in> set ?rest" for ev
      using assms(3) in_set_takeD [OF that] by (metis image_eqI list.set_map)
  qed (use assms in simp_all)
  ultimately obtain s' where s': "report_events env 0 (e # ?rest) s = Inr s'" "collector s' = collector s" by auto
  have "peek_evidence (readable_evidence env) 100 (collector s') = []"
    using assms(1) s'(2) by (simp add: peek_evidence_def)
  with p s' show ?thesis by (auto simp: flush_pass_def)
qed

theorem memory_head_blocks_witness:
  "let s = \<lparr>collector = memory_collector\<lparr>memory := [new_event\<lparr>ue_lease_token := ''a''\<rparr>, new_event\<lparr>ue_lease_token := ''b''\<rparr>]\<rparr>,
            usage_events_buffered = 2, usage_report_failures = 0\<rparr>;
       env = final_env\<lparr>rpc := (\<lambda>i _. \<lparr>accepted = i > 0, duplicate = False, retryable = True, error_code = []\<rparr>)\<rparr>
   in \<exists>s'. flush_pass env s = Inr s' \<and> collector s' = collector s"
  unfolding Let_def
  by (rule memory_head_blocks [where e = "new_event\<lparr>ue_lease_token := ''a''\<rparr>"
        and es = "[new_event\<lparr>ue_lease_token := ''b''\<rparr>]"])
     (simp_all add: memory_collector_def new_event_def final_def acknowledged_def)

text \<open>
  Evidence waits for usage: while no usage event is pending, a pass reports no lease evidence
  at all, however much of it is in the outbox.
\<close>

theorem evidence_waits_for_usage:
  assumes "db (collector s) = Some t" and "readable env = Some n" and "live_rows (usage_outbox t) = []"
  shows "flush_pass env s = Inr s"
  using assms by (simp add: flush_pass_def peek_def ordered_live_def sql_limit_def Let_def)
theorem evidence_waits_for_usage_witness:
  "let t = \<lparr>usage_outbox = [], evidence_outbox = [\<lparr>row_evidence = \<lparr>evidence_lease_token = ''a'',
         evidence_stage = ''forwarded'', evidence_source = [], evidence_detail = []\<rparr>,
       evidence_created_at = 0, acknowledged_at = None, evidence_dead_letter_error = []\<rparr>]\<rparr>
   in flush_pass final_env (reporter_on t) = Inr (reporter_on t) \<and> pending_evidence True (collector (reporter_on t)) = 1"
  unfolding Let_def
  by (intro conjI evidence_waits_for_usage [OF example_facts(1)])
     (simp_all add: final_env_def live_rows_def, simp add: pending_evidence_def reporter_on_def database_collector_def live_evidence_def)

text \<open>
  The gauge of buffered events wraps: an event that is recorded without being counted, as the
  realtime path does, is counted down when its report is acknowledged, so a gauge at zero becomes
  the largest 64-bit number.
\<close>

theorem buffered_gauge_wraps:
  "\<exists>s'. flush_pass final_env (reporter_on one_row) = Inr s' \<and> usage_events_buffered s' = - 1"
proof -
  let ?e = "column_event (new_event\<lparr>ue_lease_token := ''L1''\<rparr>)"
  have p: "peek (Some 100) 100 (database_collector one_row) = Inr [?e]"
    by (simp add: peek_def database_collector_def one_row_def ordered_live_def live_rows_def sql_limit_def to_int32_def)
  have "report_events final_env 0 [?e] (reporter_on one_row) =
      Inr \<lparr>collector = database_collector (one_row\<lparr>usage_outbox := []\<rparr>), usage_events_buffered = - 1, usage_report_failures = 0\<rparr>"
    by (simp add: Let_def acknowledge_def on_usage_def reporter_on_def database_collector_def one_row_def delete_row_def
        final_env_def acknowledged_def new_event_def)
  moreover have "peek_evidence (Some 100) 100 (database_collector (one_row\<lparr>usage_outbox := []\<rparr>)) = []"
    by (simp add: peek_evidence_def database_collector_def one_row_def live_evidence_def sql_limit_def to_int32_def)
  ultimately show ?thesis using p
    by (simp add: flush_pass_def reporter_on_def final_env_def)
qed

end
