(* ===== verification/Stream_Pipe.thy ===== *)
theory Stream_Pipe
  imports Converter "HOL-Library.Sublist"
begin

text \<open>
  The streaming pipe (\<^verbatim>\<open>forwarder/stream_pipe.cpp\<close>): it reads chunks from the provider, splits them
  into server-sent events, takes usage counts and the terminal event from them, asks the content
  policy and writes to the client, either the bytes as they are or each event converted.

  A run is a list of rounds of its loop.  A round is given by the clock before the read, the
  outcome of the read and the clock after it (steady, in milliseconds; it is taken as constant
  within a round after the read).  The client is a sink: the bytes it took, and the return values
  of the coming writes (a write takes at most what it is offered; an empty script takes all).
\<close>

section \<open>Configuration and state\<close>

datatype StreamPolicyDisposition = PolicyAllow | PolicyBlock | PolicyFailClosed

record StreamPolicyDecision =
  disposition :: StreamPolicyDisposition
  decision_code :: string
  decision_message :: string

definition FailedClosed :: "string \<Rightarrow> string \<Rightarrow> StreamPolicyDecision" where
  "FailedClosed code msg = \<lparr>disposition = PolicyFailClosed, decision_code = code, decision_message = msg\<rparr>"

record StreamResult =
  bytes_forwarded :: int
  input_tokens :: int
  output_tokens :: int
  cache_create_tokens :: int
  cache_read_tokens :: int
  reasoning_tokens :: int
  first_token_ms :: int
  total_duration_ms :: int
  completed :: bool
  terminal_event_seen :: bool
  incomplete :: bool
  provider_disconnect :: bool
  timed_out :: bool
  client_disconnect :: bool
  malformed_usage :: bool
  policy_blocked :: bool
  policy_failed_closed :: bool
  policy_error_code :: string
  policy_message :: string
  provider_usage_json :: string

definition new_result :: StreamResult where
  "new_result = \<lparr>bytes_forwarded = 0, input_tokens = 0, output_tokens = 0, cache_create_tokens = 0,
     cache_read_tokens = 0, reasoning_tokens = 0, first_token_ms = 0, total_duration_ms = 0,
     completed = False, terminal_event_seen = False, incomplete = False, provider_disconnect = False,
     timed_out = False, client_disconnect = False, malformed_usage = False, policy_blocked = False,
     policy_failed_closed = False, policy_error_code = [], policy_message = [], provider_usage_json = []\<rparr>"

datatype ProtocolMode = Passthrough | AnthropicToOpenAI | OpenAIToAnthropic | GeminiCompat | CrossProtocol

record StreamPipeConfig =
  read_buf_size :: nat
  first_token_timeout_ms :: nat
  inter_chunk_timeout_ms :: nat
  total_timeout_ms :: nat
  keepalive_interval_ms :: nat
  max_policy_event_bytes :: nat
  keepalive_enabled :: bool
  policy :: "(string \<Rightarrow> StreamPolicyDecision) option"

definition default_config :: StreamPipeConfig where
  "default_config = \<lparr>read_buf_size = 64 * 1024, first_token_timeout_ms = 60000,
     inter_chunk_timeout_ms = 120000, total_timeout_ms = 300000, keepalive_interval_ms = 15000,
     max_policy_event_bytes = 128 * 1024, keepalive_enabled = True, policy = None\<rparr>"

record sink =
  sent :: string
  replies :: "int list"

record StreamPipe =
  config :: StreamPipeConfig
  pipe_mode :: ProtocolMode
  source_format :: Format
  target_format :: Format

text \<open>The state of a run: the result so far, the accumulator, the client and the loop's variables.\<close>

record pipe_state =
  result :: StreamResult
  event_accumulator :: string
  client :: sink
  last_data_ms :: nat
  last_write_ms :: nat
  first_token_received :: bool

section \<open>Writing\<close>

definition write_once :: "string \<Rightarrow> sink \<Rightarrow> int \<times> sink" where
  "write_once data k =
     (case replies k of
        [] \<Rightarrow> (int (length data), k\<lparr>sent := sent k @ data\<rparr>)
      | c # cs \<Rightarrow>
          if c \<le> 0 then (c, k\<lparr>replies := cs\<rparr>)
          else (min c (int (length data)), k\<lparr>sent := sent k @ take (nat c) data, replies := cs\<rparr>))"

text \<open>The loop of \<^verbatim>\<open>write_all\<close>: whether everything was written, and the sink.\<close>

function write_loop :: "string \<Rightarrow> sink \<Rightarrow> bool \<times> sink" where
  "write_loop data k =
     (if data = [] then (True, k)
      else case write_once data k of
             (count, k') \<Rightarrow> if count \<le> 0 then (False, k') else write_loop (drop (nat count) data) k')"
  by pat_completeness auto

termination
  by (relation "measure (\<lambda>(data, k). length data)") auto

declare write_loop.simps [simp del]

definition write_all :: "string \<Rightarrow> pipe_state \<Rightarrow> bool \<times> pipe_state" where
  "write_all data s =
     (case write_loop data (client s) of
        (True, k) \<Rightarrow> (True, s\<lparr>client := k, result := (result s)\<lparr>bytes_forwarded :=
                                bytes_forwarded (result s) + int (length data)\<rparr>\<rparr>)
      | (False, k) \<Rightarrow> (False, s\<lparr>client := k, result := (result s)\<lparr>client_disconnect := True\<rparr>\<rparr>))"

definition keepalive_text :: string where
  "keepalive_text = '': keepalive'' @ [CHR 0x0A, CHR 0x0A]"

text \<open>Whether the client turned out to be gone.\<close>

definition inject_keepalive :: "StreamPipeConfig \<Rightarrow> nat \<Rightarrow> pipe_state \<Rightarrow> bool \<times> pipe_state" where
  "inject_keepalive cfg now s =
     (if now - last_write_ms s < keepalive_interval_ms cfg then (False, s)
      else case write_once keepalive_text (client s) of (count, k) \<Rightarrow> (count \<le> 0, s\<lparr>client := k\<rparr>))"

section \<open>Events\<close>

definition LF2 :: string where "LF2 = [CHR 0x0A, CHR 0x0A]"
definition CRLF2 :: string where "CRLF2 = [CHR 0x0D, CHR 0x0A, CHR 0x0D, CHR 0x0A]"

text \<open>The first complete event of a text, delimiter included, and what follows it.\<close>

definition next_event :: "string \<Rightarrow> (string \<times> string) option" where
  "next_event s =
     (case (find_sub LF2 s, find_sub CRLF2 s) of
        (None, None) \<Rightarrow> None
      | (Some i, None) \<Rightarrow> Some (take (i + 2) s, drop (i + 2) s)
      | (None, Some j) \<Rightarrow> Some (take (j + 4) s, drop (j + 4) s)
      | (Some i, Some j) \<Rightarrow>
          if j < i then Some (take (j + 4) s, drop (j + 4) s) else Some (take (i + 2) s, drop (i + 2) s))"

lemma split_at_char_SomeD:
  assumes "split_at_char c s = (a, Some b)"
  shows "s = a @ c # b" and "c \<notin> set a"
proof -
  from assms have a: "a = takeWhile (\<lambda>x. x \<noteq> c) s" and b: "b = tl (dropWhile (\<lambda>x. x \<noteq> c) s)" and c: "c \<in> set s"
    by (auto simp: split_at_char_eq split: if_splits)
  have "dropWhile (\<lambda>x. x \<noteq> c) s = c # b" unfolding b using c by (induction s) auto
  then show "s = a @ c # b" unfolding a by (metis takeWhile_dropWhile_id)
  show "c \<notin> set a" unfolding a by (auto dest: set_takeWhileD)
qed

text \<open>The lines of an event; the loops of \<^verbatim>\<open>is_terminal_event\<close> and \<^verbatim>\<open>transform_event\<close> read them.\<close>

function sse_lines :: "string \<Rightarrow> string list" where
  "sse_lines s =
     (if s = [] then []
      else case split_at_char (CHR 0x0A) s of
             (line, None) \<Rightarrow> [line]
           | (line, Some rest) \<Rightarrow> line # sse_lines rest)"
  by pat_completeness auto

termination
  by (relation "measure length") (auto dest!: split_at_char_SomeD(1) [OF sym])

declare sse_lines.simps [simp del]

definition no_space :: "string \<Rightarrow> string" where
  "no_space s = trim_front (\<lambda>c. c = CHR '' '') s"

definition no_cr :: "string \<Rightarrow> string" where
  "no_cr s = trim_back (\<lambda>c. c = CHR 0x0D) s"

text \<open>One line: \<open>(event_type, data_payload)\<close> so far; \<open>strip\<close> tells whether the payload loses a final CR.\<close>

definition sse_line :: "bool \<Rightarrow> string \<Rightarrow> string \<times> string \<Rightarrow> string \<times> string" where
  "sse_line strip line acc =
     (if starts_with line ''event:'' then (no_cr (no_space (drop 6 line)), snd acc)
      else if starts_with line ''data:''
      then (fst acc, if strip then no_cr (no_space (drop 5 line)) else no_space (drop 5 line))
      else acc)"

definition sse_fields :: "bool \<Rightarrow> string \<Rightarrow> string \<times> string" where
  "sse_fields strip event = fold (sse_line strip) (sse_lines event) ([], [])"

definition has_reason :: "string \<Rightarrow> json \<Rightarrow> bool" where
  "has_reason k j \<longleftrightarrow> (case string_at j k of Some s \<Rightarrow> cstr s \<noteq> [] | None \<Rightarrow> False)"

definition is_terminal_event :: "rapidjson \<Rightarrow> Format \<Rightarrow> string \<Rightarrow> bool" where
  "is_terminal_event rj source event =
     (case sse_fields True event of (ty, data) \<Rightarrow>
        if source = Anthropic then ty = ''message_stop''
        else if data = ''[DONE]'' then True
        else case parse_object rj data of
               None \<Rightarrow> False
             | Some doc \<Rightarrow>
                 (case source of
                    OpenAIResponses \<Rightarrow>
                      (case string_at doc ''type'' of Some s \<Rightarrow> cstr s = ''response.completed'' | None \<Rightarrow> False)
                  | OpenAIChatCompletions \<Rightarrow>
                      (case array_at doc ''choices'' of
                         Some cs \<Rightarrow> list_ex (has_reason ''finish_reason'') cs | None \<Rightarrow> False)
                  | Gemini \<Rightarrow>
                      (case array_at doc ''candidates'' of
                         Some cs \<Rightarrow> list_ex (has_reason ''finishReason'') cs | None \<Rightarrow> False)
                  | Anthropic \<Rightarrow> False))"

definition transform_event :: "rapidjson \<Rightarrow> StreamPipe \<Rightarrow> string \<Rightarrow> rj_error + string" where
  "transform_event rj p event =
     (case sse_fields False event of (ty, data) \<Rightarrow>
        if data = [] then Inr event
        else if pipe_mode p = CrossProtocol \<or> source_format p \<noteq> target_format p
        then res_bind
               (case source_format p of
                  Anthropic \<Rightarrow> Inr (anthropic_parse_stream_event rj ty data)
                | OpenAIChatCompletions \<Rightarrow> openai_parse_stream_event rj data
                | OpenAIResponses \<Rightarrow> Inr (responses_parse_stream_event rj data)
                | Gemini \<Rightarrow> gemini_parse_stream_event rj data)
               (\<lambda>delta. Inr (serialize_event rj (target_format p) delta))
        else case pipe_mode p of
               AnthropicToOpenAI \<Rightarrow>
                 Inr (openai_serialize_stream_event rj (anthropic_parse_stream_event rj ty data))
             | OpenAIToAnthropic \<Rightarrow>
                 res_bind (openai_parse_stream_event rj data) (\<lambda>delta.
                   Inr (anthropic_serialize_stream_event rj delta))
             | GeminiCompat \<Rightarrow>
                 res_bind (gemini_parse_stream_event rj data) (\<lambda>delta.
                   Inr (openai_serialize_stream_event rj delta))
             | _ \<Rightarrow> Inr event)"

section \<open>Usage\<close>

definition valid_usage_count :: "json \<Rightarrow> bool" where
  "valid_usage_count v =
     (if is_int v then get_integer v \<ge> 0
      else if is_int64 v then get_integer v \<ge> 0 \<and> get_integer v \<le> int32_max
      else if is_uint v then get_integer v \<le> int32_max
      else if is_uint64 v then get_integer v \<le> int32_max
      else False)"

definition invalid_at :: "json \<Rightarrow> string \<Rightarrow> bool" where
  "invalid_at obj k \<longleftrightarrow> (case member obj k of Some v \<Rightarrow> \<not> valid_usage_count v | None \<Rightarrow> False)"

definition count_fields :: "string list" where
  "count_fields = [''input_tokens'', ''prompt_tokens'', ''output_tokens'', ''completion_tokens'',
     ''cache_creation_input_tokens'', ''cache_read_input_tokens'', ''promptTokenCount'',
     ''candidatesTokenCount'', ''cachedContentTokenCount'', ''reasoning_tokens'', ''thoughtsTokenCount'']"

definition invalid_details :: "json \<Rightarrow> string \<Rightarrow> bool" where
  "invalid_details usage k \<longleftrightarrow>
     (case member usage k of
        None \<Rightarrow> False
      | Some d \<Rightarrow> \<not> is_object d \<or> list_ex (invalid_at d) [''cached_tokens'', ''reasoning_tokens''])"

definition usage_has_invalid_counts :: "json \<Rightarrow> bool" where
  "usage_has_invalid_counts usage \<longleftrightarrow>
     list_ex (invalid_at usage) count_fields \<or>
     list_ex (invalid_details usage) [''prompt_tokens_details'', ''input_tokens_details'', ''output_tokens_details'']"

text \<open>The payload of the first \<^verbatim>\<open>data:\<close> of an event.\<close>

definition usage_payload :: "string \<Rightarrow> string" where
  "usage_payload event =
     (case find_sub ''data:'' event of
        None \<Rightarrow> []
      | Some i \<Rightarrow>
          no_cr (takeWhile (\<lambda>c. c \<noteq> CHR 0x0A)
            (trim_front (\<lambda>c. c = CHR '' '' \<or> c = CHR 0x09) (drop (i + 5) event))))"

definition nested_usage :: "json \<Rightarrow> string \<Rightarrow> json option" where
  "nested_usage doc k = (case object_at doc k of Some m \<Rightarrow> object_at m ''usage'' | None \<Rightarrow> None)"

definition event_usage :: "json \<Rightarrow> json option" where
  "event_usage doc =
     (case object_at doc ''usage'' of Some u \<Rightarrow> Some u | None \<Rightarrow>
     (case object_at doc ''usageMetadata'' of Some u \<Rightarrow> Some u | None \<Rightarrow>
     (case nested_usage doc ''message'' of Some u \<Rightarrow> Some u | None \<Rightarrow> nested_usage doc ''response'')))"

text \<open>\<^verbatim>\<open>integer(object, key)\<close>: a 64-bit count is cast to \<^verbatim>\<open>int\<close>.\<close>

definition count_value :: "json \<Rightarrow> int" where
  "count_value v = (if is_int v then get_integer v else if is_int64 v then to_int32 (get_integer v) else 0)"

definition raise_count :: "json \<Rightarrow> int \<Rightarrow> string \<Rightarrow> int" where
  "raise_count obj acc k = (case member obj k of Some v \<Rightarrow> max acc (count_value v) | None \<Rightarrow> acc)"

definition read_usage :: "rapidjson \<Rightarrow> json \<Rightarrow> StreamResult \<Rightarrow> StreamResult" where
  "read_usage rj u r =
     r\<lparr>malformed_usage := usage_has_invalid_counts u,
       input_tokens := foldl (raise_count u) (input_tokens r) [''input_tokens'', ''prompt_tokens'', ''promptTokenCount''],
       output_tokens := foldl (raise_count u) (output_tokens r)
         [''output_tokens'', ''completion_tokens'', ''candidatesTokenCount''],
       cache_create_tokens := foldl (raise_count u) (cache_create_tokens r) [''cache_creation_input_tokens''],
       cache_read_tokens := foldl (raise_count u) (cache_read_tokens r)
         [''cache_read_input_tokens'', ''cachedContentTokenCount''],
       reasoning_tokens :=
         (case object_at u ''output_tokens_details'' of
            Some d \<Rightarrow> raise_count d (foldl (raise_count u) (reasoning_tokens r)
                        [''reasoning_tokens'', ''thoughtsTokenCount'']) ''reasoning_tokens''
          | None \<Rightarrow> foldl (raise_count u) (reasoning_tokens r) [''reasoning_tokens'', ''thoughtsTokenCount'']),
       provider_usage_json := take (1024 * 1024) (Write rj u)\<rparr>"

definition extract_usage_from_event :: "rapidjson \<Rightarrow> string \<Rightarrow> StreamResult \<Rightarrow> StreamResult" where
  "extract_usage_from_event rj event r =
     (let data = usage_payload event
      in if data = [] \<or> data = ''[DONE]'' then r
         else case parse_object rj data of
                None \<Rightarrow> r
              | Some doc \<Rightarrow> (case event_usage doc of Some u \<Rightarrow> read_usage rj u r | None \<Rightarrow> r))"

section \<open>Policy\<close>

text \<open>The events that \<^verbatim>\<open>apply_policy\<close> lets pass without asking.\<close>

definition policy_exempt :: "Format \<Rightarrow> string \<Rightarrow> bool" where
  "policy_exempt source event \<longleftrightarrow>
     contains event ''data: [DONE]'' \<or> (source = Anthropic \<and> contains event ''event: message_stop'')"

definition policy_decision :: "StreamPipeConfig \<Rightarrow> (string \<Rightarrow> StreamPolicyDecision) \<Rightarrow> string \<Rightarrow> StreamPolicyDecision" where
  "policy_decision cfg ask txt =
     (if length txt > max_policy_event_bytes cfg
      then FailedClosed ''content_policy_payload_too_large''
             ''A streaming response event exceeded the content policy limit''
      else ask txt)"

definition withheld :: "StreamPolicyDecision \<Rightarrow> StreamResult \<Rightarrow> StreamResult" where
  "withheld d r =
     (let blocked = (disposition d = PolicyBlock)
      in r\<lparr>policy_blocked := blocked, policy_failed_closed := (disposition d = PolicyFailClosed),
           policy_error_code := (if decision_code d = []
              then (if blocked then ''content_policy_blocked'' else ''content_policy_unavailable'')
              else decision_code d),
           policy_message := (if decision_message d = []
              then (if blocked then ''Provider response was withheld by the active content policy''
                    else ''Provider response could not be cleared for delivery'')
              else decision_message d),
           incomplete := True\<rparr>)"

definition apply_policy :: "StreamPipe \<Rightarrow> string \<Rightarrow> string \<Rightarrow> StreamResult \<Rightarrow> bool \<times> StreamResult" where
  "apply_policy p provider_event client_event r =
     (case policy (config p) of
        None \<Rightarrow> (True, r)
      | Some ask \<Rightarrow>
          if policy_exempt (source_format p) provider_event then (True, r)
          else let d = policy_decision (config p) ask (if client_event = [] then provider_event else client_event)
               in if disposition d = PolicyAllow then (True, r) else (False, withheld d r))"

definition quote_hex :: "nat \<Rightarrow> char" where
  "quote_hex n = ''0123456789abcdef'' ! n"

definition quote_char :: "char \<Rightarrow> string" where
  "quote_char c =
     (if c = CHR 0x22 then [CHR 0x5C, CHR 0x22]
      else if c = CHR 0x5C then [CHR 0x5C, CHR 0x5C]
      else if c = CHR 0x08 then [CHR 0x5C, CHR ''b'']
      else if c = CHR 0x0C then [CHR 0x5C, CHR ''f'']
      else if c = CHR 0x0A then [CHR 0x5C, CHR ''n'']
      else if c = CHR 0x0D then [CHR 0x5C, CHR ''r'']
      else if c = CHR 0x09 then [CHR 0x5C, CHR ''t'']
      else if byte_of c < 0x20
      then [CHR 0x5C, CHR ''u'', CHR ''0'', CHR ''0'', quote_hex (byte_of c div 16), quote_hex (byte_of c mod 16)]
      else [c])"

definition json_quote :: "string \<Rightarrow> string" where
  "json_quote s = [CHR 0x22] @ concat (map quote_char s) @ [CHR 0x22]"

definition policy_error_event :: "Format \<Rightarrow> StreamResult \<Rightarrow> string" where
  \<open>policy_error_event target r =
     (let code = json_quote (policy_error_code r); msg = json_quote (policy_message r)
      in if target = Anthropic
         then ''event: error'' @ [CHR 0x0A] @ ''data: {"type":"error","error":{"type":'' @ code @
                '',"message":'' @ msg @ ''}}'' @ LF2
         else if target = OpenAIResponses
         then ''event: response.failed'' @ [CHR 0x0A] @
                ''data: {"type":"response.failed","response":{"status":"failed","error":{"code":'' @ code @
                '',"message":'' @ msg @ ''}}}'' @ LF2
         else ''data: {"error":{"type":'' @ code @ '',"message":'' @ msg @ ''}}'' @ LF2)\<close>

definition emit_policy_error :: "StreamPipe \<Rightarrow> pipe_state \<Rightarrow> pipe_state" where
  "emit_policy_error p s = snd (write_all (policy_error_event (target_format p) (result s)) s)"

section \<open>The loops\<close>

datatype read_outcome = Data string | Closed | ReadError int

record round =
  round_start :: nat
  round_read :: read_outcome
  round_now :: nat

text \<open>A round leaves the loop running or ends the run.\<close>

datatype progress = Running pipe_state | Finished pipe_state

definition provider_disconnect_errno :: "int \<Rightarrow> bool" where
  "provider_disconnect_errno e \<longleftrightarrow> e = 0 \<or> e = 104 \<or> e = 103 \<or> e = 32 \<or> e = 107"

definition finish :: "nat \<Rightarrow> nat \<Rightarrow> pipe_state \<Rightarrow> progress" where
  "finish start now s = Finished (s\<lparr>result := (result s)\<lparr>total_duration_ms := to_int32 (int (now - start))\<rparr>\<rparr>)"

definition time_out :: "pipe_state \<Rightarrow> pipe_state" where
  "time_out s = s\<lparr>result := (result s)\<lparr>incomplete := True, timed_out := True\<rparr>\<rparr>"

definition lose_provider :: "pipe_state \<Rightarrow> pipe_state" where
  "lose_provider s = s\<lparr>result := (result s)\<lparr>incomplete := True, provider_disconnect := True\<rparr>\<rparr>"

definition lose_client :: "pipe_state \<Rightarrow> pipe_state" where
  "lose_client s =
     s\<lparr>result := (result s)\<lparr>incomplete := \<not> terminal_event_seen (result s)\<rparr>\<rparr>"

definition upstream_closed :: "pipe_state \<Rightarrow> pipe_state" where
  "upstream_closed s =
     (let s1 = s\<lparr>result := (result s)\<lparr>completed := True\<rparr>\<rparr>
      in if \<not> terminal_event_seen (result s) then lose_provider s1 else s1)"

definition silent_too_long :: "StreamPipeConfig \<Rightarrow> nat \<Rightarrow> pipe_state \<Rightarrow> bool" where
  "silent_too_long cfg now s \<longleftrightarrow>
     (if first_token_received s then now - last_data_ms s > inter_chunk_timeout_ms cfg
      else now - last_data_ms s > first_token_timeout_ms cfg)"

definition note_data :: "nat \<Rightarrow> nat \<Rightarrow> pipe_state \<Rightarrow> pipe_state" where
  "note_data start now s =
     (let s1 = s\<lparr>last_data_ms := now\<rparr>
      in if first_token_received s then s1
         else s1\<lparr>first_token_received := True,
                 result := (result s1)\<lparr>first_token_ms := to_int32 (int (now - start))\<rparr>\<rparr>)"

definition note_terminal :: "bool \<Rightarrow> pipe_state \<Rightarrow> pipe_state" where
  "note_terminal terminal s =
     (if terminal then s\<lparr>result := (result s)\<lparr>terminal_event_seen := True\<rparr>\<rparr> else s)"

text \<open>
  The event loop of a passthrough round on the text \<open>s\<close> still to be split; the accumulator keeps
  what is left of it.
\<close>

lemma next_event_shorter: "next_event s = Some (e, r) \<Longrightarrow> length r < length s"
  by (auto simp: next_event_def LF2_def CRLF2_def split: option.splits if_splits dest!: find_sub_bound)

function passthrough_events :: "rapidjson \<Rightarrow> StreamPipe \<Rightarrow> nat \<Rightarrow> nat \<Rightarrow> string \<Rightarrow> pipe_state \<Rightarrow> progress" where
  "passthrough_events rj p start now txt s =
     (case next_event txt of
        None \<Rightarrow> Running (s\<lparr>event_accumulator := txt\<rparr>)
      | Some (event, rest) \<Rightarrow>
          let s1 = note_terminal (is_terminal_event rj (source_format p) event)
                     (s\<lparr>result := extract_usage_from_event rj event (result s)\<rparr>)
          in if policy (config p) = None then passthrough_events rj p start now rest s1
             else case apply_policy p event event (result s1) of
                    (False, r) \<Rightarrow> finish start now (emit_policy_error p (s1\<lparr>result := r\<rparr>))
                  | (True, _) \<Rightarrow>
                      (case write_all event s1 of
                         (False, s2) \<Rightarrow> finish start now (lose_client s2)
                       | (True, s2) \<Rightarrow> passthrough_events rj p start now rest (s2\<lparr>last_write_ms := now\<rparr>)))"
  by pat_completeness auto

termination
  by (relation "measure (\<lambda>(rj, p, start, now, txt, s). length txt)") (auto dest!: next_event_shorter)

declare passthrough_events.simps [simp del]

definition trim_accumulator :: "StreamPipeConfig \<Rightarrow> pipe_state \<Rightarrow> pipe_state" where
  "trim_accumulator cfg s =
     (let n = length (event_accumulator s)
      in if n > read_buf_size cfg * 4
         then s\<lparr>event_accumulator := drop (n - read_buf_size cfg) (event_accumulator s)\<rparr> else s)"

text \<open>A chunk in passthrough mode: copied to the client unless a policy holds the events back.\<close>

definition passthrough_data :: "rapidjson \<Rightarrow> StreamPipe \<Rightarrow> nat \<Rightarrow> nat \<Rightarrow> string \<Rightarrow> pipe_state \<Rightarrow> progress" where
  "passthrough_data rj p start now chunk s =
     (let s0 = note_data start now s;
          copied = (if policy (config p) \<noteq> None then (True, s0)
                    else case write_loop chunk (client s0) of
                           (True, k) \<Rightarrow> (True, s0\<lparr>client := k, last_write_ms := now,
                             result := (result s0)\<lparr>bytes_forwarded := bytes_forwarded (result s0) + int (length chunk)\<rparr>\<rparr>)
                         | (False, k) \<Rightarrow> (False, s0\<lparr>client := k, result := (result s0)\<lparr>client_disconnect := True\<rparr>\<rparr>))
      in case copied of
           (False, s1) \<Rightarrow> finish start now (lose_client s1)
         | (True, s1) \<Rightarrow>
             (case passthrough_events rj p start now (event_accumulator s1 @ chunk) s1 of
                Finished s2 \<Rightarrow> Finished s2
              | Running s2 \<Rightarrow>
                  if policy (config p) \<noteq> None \<and>
                     length (event_accumulator s2) > max_policy_event_bytes (config p)
                  then finish start now (emit_policy_error p (s2\<lparr>result :=
                         snd (apply_policy p (event_accumulator s2) (event_accumulator s2) (result s2))\<rparr>))
                  else Running (trim_accumulator (config p) s2)))"

definition passthrough_round :: "rapidjson \<Rightarrow> StreamPipe \<Rightarrow> nat \<Rightarrow> round \<Rightarrow> pipe_state \<Rightarrow> progress" where
  "passthrough_round rj p start rd s =
     (if round_start rd - start > total_timeout_ms (config p)
      then finish start (round_start rd) (time_out s)
      else let now = round_now rd
      in case round_read rd of
           ReadError e \<Rightarrow>
             if provider_disconnect_errno e then finish start now (lose_provider s)
             else if silent_too_long (config p) now s then finish start now (time_out s)
             else if keepalive_enabled (config p)
             then (case inject_keepalive (config p) now s of
                     (True, s1) \<Rightarrow> finish start now (s1\<lparr>result := (result s1)\<lparr>client_disconnect := True\<rparr>\<rparr>)
                   | (False, s1) \<Rightarrow> Running s1)
             else Running s
         | Closed \<Rightarrow> finish start now (upstream_closed s)
         | Data chunk \<Rightarrow> passthrough_data rj p start now chunk s)"

text \<open>The event loop of a transforming round.\<close>

definition mentions_usage :: "string \<Rightarrow> bool" where
  \<open>mentions_usage event \<longleftrightarrow>
     contains event ''"usage"'' \<or> contains event ''"usageMetadata"'' \<or> contains event ''message_stop''\<close>

function transform_events :: "rapidjson \<Rightarrow> StreamPipe \<Rightarrow> nat \<Rightarrow> nat \<Rightarrow> string \<Rightarrow> pipe_state \<Rightarrow> rj_error + progress" where
  "transform_events rj p start now txt s =
     (case next_event txt of
        None \<Rightarrow> Inr (Running (s\<lparr>event_accumulator := txt\<rparr>))
      | Some (event, rest) \<Rightarrow>
          res_bind (transform_event rj p event) (\<lambda>out.
            let s1 = note_terminal (is_terminal_event rj (source_format p) event)
                       (if mentions_usage event
                        then s\<lparr>result := extract_usage_from_event rj event (result s)\<rparr> else s)
            in case apply_policy p event out (result s1) of
                 (False, r) \<Rightarrow> Inr (finish start now (emit_policy_error p (s1\<lparr>result := r\<rparr>)))
               | (True, _) \<Rightarrow>
                   if out = [] then transform_events rj p start now rest s1
                   else case write_all out s1 of
                          (False, s2) \<Rightarrow> Inr (finish start now (lose_client s2))
                        | (True, s2) \<Rightarrow> transform_events rj p start now rest s2))"
  by pat_completeness auto

termination
  by (relation "measure (\<lambda>(rj, p, start, now, txt, s). length txt)") (auto dest!: next_event_shorter)

declare transform_events.simps [simp del]

definition transform_round :: "rapidjson \<Rightarrow> StreamPipe \<Rightarrow> nat \<Rightarrow> round \<Rightarrow> pipe_state \<Rightarrow> rj_error + progress" where
  "transform_round rj p start rd s =
     (if round_start rd - start > total_timeout_ms (config p)
      then Inr (finish start (round_start rd) (time_out s))
      else let now = round_now rd
      in case round_read rd of
           ReadError e \<Rightarrow>
             if provider_disconnect_errno e then Inr (finish start now (lose_provider s))
             else if silent_too_long (config p) now s then Inr (finish start now (time_out s))
             else Inr (Running s)
         | Closed \<Rightarrow> Inr (finish start now (upstream_closed s))
         | Data chunk \<Rightarrow>
             let s1 = note_data start now s
             in transform_events rj p start now (event_accumulator s1 @ chunk) s1)"

definition pipe_round :: "rapidjson \<Rightarrow> StreamPipe \<Rightarrow> nat \<Rightarrow> round \<Rightarrow> pipe_state \<Rightarrow> rj_error + progress" where
  "pipe_round rj p start rd s =
     (if pipe_mode p = Passthrough then Inr (passthrough_round rj p start rd s)
      else transform_round rj p start rd s)"

text \<open>The run over the rounds that happen; \<open>Running\<close> at the end means that it is still waiting.\<close>

fun run_from :: "rapidjson \<Rightarrow> StreamPipe \<Rightarrow> nat \<Rightarrow> round list \<Rightarrow> pipe_state \<Rightarrow> rj_error + progress" where
  "run_from rj p start [] s = Inr (Running s)"
| "run_from rj p start (rd # rds) s =
     res_bind (pipe_round rj p start rd s) (\<lambda>pr.
       case pr of Finished s' \<Rightarrow> Inr (Finished s') | Running s' \<Rightarrow> run_from rj p start rds s')"

definition start_state :: "nat \<Rightarrow> sink \<Rightarrow> pipe_state" where
  "start_state start k =
     \<lparr>result = new_result, event_accumulator = [], client = k, last_data_ms = start,
      last_write_ms = start, first_token_received = False\<rparr>"

definition run :: "rapidjson \<Rightarrow> StreamPipe \<Rightarrow> nat \<Rightarrow> round list \<Rightarrow> sink \<Rightarrow> rj_error + progress" where
  "run rj p start rds k = run_from rj p start rds (start_state start k)"

section \<open>Splitting does not depend on the chunks\<close>

lemma starts_with_append_iff: "length p \<le> length s \<Longrightarrow> starts_with (s @ t) p \<longleftrightarrow> starts_with s p"
  by (simp add: starts_with_def)

lemma find_sub_append:
  assumes "find_sub pat a = Some i"
  shows "find_sub pat (a @ b) = Some i"
proof -
  have l: "i + length pat \<le> length a" using assms by (rule find_sub_bound)
  have "starts_with (drop j (a @ b)) pat \<longleftrightarrow> starts_with (drop j a) pat" if "j \<le> i" for j
  proof -
    have "drop j (a @ b) = drop j a @ b" using that l by simp
    moreover have "length pat \<le> length (drop j a)" using that l by simp
    ultimately show ?thesis by (simp only: starts_with_append_iff)
  qed
  with assms l show ?thesis unfolding find_sub_Some_iff by auto
qed

text \<open>An occurrence that ends within the first part is one of the first part.\<close>

lemma find_sub_in_front:
  assumes "find_sub pat (a @ b) = Some i" and "i + length pat \<le> length a"
  shows "find_sub pat a = Some i"
proof -
  have "starts_with (drop j (a @ b)) pat \<longleftrightarrow> starts_with (drop j a) pat" if "j \<le> i" for j
  proof -
    have "drop j (a @ b) = drop j a @ b" using that assms(2) by simp
    moreover have "length pat \<le> length (drop j a)" using that assms(2) by simp
    ultimately show ?thesis by (simp only: starts_with_append_iff)
  qed
  with assms show ?thesis unfolding find_sub_Some_iff by auto
qed

lemma starts_with_nth:
  assumes "starts_with (drop i s) p" and "k < length p"
  shows "s ! (i + k) = p ! k"
proof -
  from assms(1) obtain t where t: "drop i s = p @ t" by (auto simp: starts_with_iff)
  have "drop i s \<noteq> []" using t assms(2) by auto
  then have "i \<le> length s" by simp
  then have "s ! (i + k) = drop i s ! k" by simp
  also have "\<dots> = p ! k" using assms(2) by (simp add: t nth_append)
  finally show ?thesis .
qed

text \<open>The two delimiters never start one byte apart.\<close>

lemma delimiters_apart:
  assumes "find_sub LF2 s = Some i" and "find_sub CRLF2 s = Some j"
  shows "i \<noteq> Suc j"
proof
  assume "i = Suc j"
  have "starts_with (drop i s) LF2" "starts_with (drop j s) CRLF2" using assms by (simp_all add: find_sub_Some_iff)
  then have "s ! (i + 1) = CHR 0x0A" "s ! (j + 2) = CHR 0x0D"
    using starts_with_nth [of i s LF2 1] starts_with_nth [of j s CRLF2 2] by (simp_all add: LF2_def CRLF2_def)
  with \<open>i = Suc j\<close> show False by simp
qed

lemma delimiter_lengths [simp]: "length LF2 = 2" "length CRLF2 = 4"
  by (simp_all add: LF2_def CRLF2_def)

lemma next_event_append:
  assumes "next_event a = Some (e, r)"
  shows "next_event (a @ b) = Some (e, r @ b)"
proof (cases "find_sub CRLF2 a")
  case None
  with assms obtain i where i: "find_sub LF2 a = Some i" "e = take (i + 2) a" "r = drop (i + 2) a"
    by (auto simp: next_event_def split: option.splits)
  have l: "i + 2 \<le> length a" using find_sub_bound [OF i(1)] by simp
  have i': "find_sub LF2 (a @ b) = Some i" using i(1) by (rule find_sub_append)
  have "\<not> j < i" if j: "find_sub CRLF2 (a @ b) = Some j" for j
  proof
    assume "j < i"
    have "\<not> j + 4 \<le> length a" using find_sub_in_front [OF j] None by auto
    then have "i = Suc j" using l \<open>j < i\<close> by simp
    with delimiters_apart [OF i' j] show False by simp
  qed
  then show ?thesis using i i' l by (auto simp: next_event_def split: option.split)
next
  case (Some j)
  have lj: "j + 4 \<le> length a" using find_sub_bound [OF Some] by simp
  have j': "find_sub CRLF2 (a @ b) = Some j" using Some by (rule find_sub_append)
  show ?thesis
  proof (cases "find_sub LF2 a")
    case n: None
    have "j < i" if i: "find_sub LF2 (a @ b) = Some i" for i
      using find_sub_in_front [OF i] n lj by (cases "i + 2 \<le> length a") auto
    then show ?thesis using assms n Some j' lj by (auto simp: next_event_def split: option.split)
  next
    case s: (Some i)
    have "find_sub LF2 (a @ b) = Some i" using s by (rule find_sub_append)
    then show ?thesis
      using assms s Some j' lj find_sub_bound [OF s] by (auto simp: next_event_def split: if_splits)
  qed
qed

lemma next_event_concat: "next_event s = Some (e, r) \<Longrightarrow> s = e @ r"
  by (auto simp: next_event_def split: option.splits if_splits)

text \<open>What can be observed of a run; the accumulator of a finished run is never read again.\<close>

fun observed :: "progress \<Rightarrow> bool \<times> sink \<times> StreamResult \<times> string" where
  "observed (Running s) = (False, client s, result s, event_accumulator s)"
| "observed (Finished s) = (True, client s, result s, [])"

definition shown :: "'e + progress \<Rightarrow> 'e + bool \<times> sink \<times> StreamResult \<times> string" where
  "shown r = (case r of Inl e \<Rightarrow> Inl e | Inr pr \<Rightarrow> Inr (observed pr))"

lemma shown_simps [simp]: "shown (Inl e) = Inl e" "shown (Inr pr) = Inr (observed pr)"
  by (simp_all add: shown_def)

abbreviation with_acc :: "string \<Rightarrow> pipe_state \<Rightarrow> pipe_state" where
  "with_acc x s \<equiv> s\<lparr>event_accumulator := x\<rparr>"

lemma acc_result: "(with_acc x s)\<lparr>result := r\<rparr> = with_acc x (s\<lparr>result := r\<rparr>)"
  by simp

lemma write_all_acc: "write_all d (with_acc x s) = map_prod id (with_acc x) (write_all d s)"
  by (auto simp: write_all_def split: prod.splits bool.splits)

lemma note_terminal_acc: "note_terminal t (with_acc x s) = with_acc x (note_terminal t s)"
  by (simp add: note_terminal_def)

lemma note_terminal_result [simp]: "result (note_terminal t s) = (if t then (result s)\<lparr>terminal_event_seen := True\<rparr> else result s)"
  by (simp add: note_terminal_def)

lemma observed_finish: "observed (finish start now (with_acc x s)) = observed (finish start now s)"
  by (simp add: finish_def)

lemma emit_policy_error_acc: "emit_policy_error p (with_acc x s) = with_acc x (emit_policy_error p s)"
  by (simp add: emit_policy_error_def write_all_acc)

lemma lose_client_acc: "lose_client (with_acc x s) = with_acc x (lose_client s)"
  by (simp add: lose_client_def)

lemmas acc_simps = write_all_acc note_terminal_acc observed_finish emit_policy_error_acc lose_client_acc

text \<open>What the state before an event does to it, apart from the accumulator.\<close>

definition event_state :: "rapidjson \<Rightarrow> StreamPipe \<Rightarrow> string \<Rightarrow> pipe_state \<Rightarrow> pipe_state" where
  "event_state rj p event s =
     note_terminal (is_terminal_event rj (source_format p) event)
       (if mentions_usage event then s\<lparr>result := extract_usage_from_event rj event (result s)\<rparr> else s)"

lemma event_state_acc: "event_state rj p event (with_acc x s) = with_acc x (event_state rj p event s)"
  by (simp add: event_state_def note_terminal_def)

lemma transform_events_Some:
  assumes "next_event tx = Some (event, rest)"
  shows "transform_events rj p start now tx s =
     res_bind (transform_event rj p event) (\<lambda>out.
       let s1 = event_state rj p event s
       in case apply_policy p event out (result s1) of
            (False, r) \<Rightarrow> Inr (finish start now (emit_policy_error p (s1\<lparr>result := r\<rparr>)))
          | (True, _) \<Rightarrow>
              if out = [] then transform_events rj p start now rest s1
              else case write_all out s1 of
                     (False, s2) \<Rightarrow> Inr (finish start now (lose_client s2))
                   | (True, s2) \<Rightarrow> transform_events rj p start now rest s2)"
  by (subst transform_events.simps) (simp add: assms event_state_def)

lemma transform_events_None:
  "next_event tx = None \<Longrightarrow> transform_events rj p start now tx s = Inr (Running (with_acc tx s))"
  by (subst transform_events.simps) simp

lemma transform_events_acc:
  "shown (transform_events rj p start now tx (with_acc x s)) =
   shown (transform_events rj p start now tx s)"
proof (induction tx arbitrary: s rule: length_induct)
  case (1 tx)
  show ?case
  proof (cases "next_event tx")
    case None
    then show ?thesis by (simp add: transform_events_None)
  next
    case (Some er)
    obtain event rest where er: "er = (event, rest)" by (cases er)
    note ne = Some [unfolded er]
    have IH: "shown (transform_events rj p start now rest (with_acc x s')) =
        shown (transform_events rj p start now rest s')" for s'
      using 1 next_event_shorter [OF ne] by blast
    let ?s1 = "event_state rj p event s"
    show ?thesis
    proof (cases "transform_event rj p event")
      case (Inl e)
      then show ?thesis by (simp add: transform_events_Some [OF ne])
    next
      case (Inr out)
      obtain ok r where a: "apply_policy p event out (result ?s1) = (ok, r)" by fastforce
      obtain ok' s2 where w: "write_all out ?s1 = (ok', s2)" by fastforce
      have e: "emit_policy_error p ((with_acc x ?s1)\<lparr>result := r\<rparr>) = with_acc x (emit_policy_error p (?s1\<lparr>result := r\<rparr>))"
        by (simp only: acc_result emit_policy_error_acc)
      show ?thesis
        using a w IH
        by (cases ok; cases ok')
           (simp_all add: transform_events_Some [OF ne] Inr event_state_acc Let_def acc_simps e)
    qed
  qed
qed

definition resume :: "(pipe_state \<Rightarrow> 'e + progress) \<Rightarrow> 'e + progress \<Rightarrow> 'e + progress" where
  "resume f r = res_bind r (\<lambda>pr. case pr of Finished s \<Rightarrow> Inr (Finished s) | Running s \<Rightarrow> f s)"

lemma resume_simps [simp]:
  "resume f (Inl e) = Inl e" "resume f (Inr (Finished s)) = Inr (Finished s)" "resume f (Inr (Running s)) = f s"
  by (simp_all add: resume_def)

lemma resume_finish [simp]: "resume f (Inr (finish start now s)) = Inr (finish start now s)"
  by (simp add: finish_def)

lemma transform_events_append:
  "shown (transform_events rj p start now (a @ b) s) =
   shown (resume (\<lambda>s'. transform_events rj p start now (event_accumulator s' @ b) s')
     (transform_events rj p start now a s))"
proof (induction a arbitrary: s rule: length_induct)
  case (1 a)
  show ?case
  proof (cases "next_event a")
    case None
    then show ?thesis by (simp add: transform_events_None transform_events_acc)
  next
    case (Some er)
    obtain event rest where er: "er = (event, rest)" by (cases er)
    note ne = Some [unfolded er]
    have IH: "shown (transform_events rj p start now (rest @ b) s') =
      shown (resume (\<lambda>s'. transform_events rj p start now (event_accumulator s' @ b) s')
        (transform_events rj p start now rest s'))" for s'
      using 1 next_event_shorter [OF ne] by blast
    let ?s1 = "event_state rj p event s"
    show ?thesis
    proof (cases "transform_event rj p event")
      case (Inl e)
      then show ?thesis by (simp add: transform_events_Some [OF ne] transform_events_Some [OF next_event_append [OF ne]])
    next
      case (Inr out)
      obtain ok r where a: "apply_policy p event out (result ?s1) = (ok, r)" by fastforce
      obtain ok' s2 where w: "write_all out ?s1 = (ok', s2)" by fastforce
      show ?thesis
        using a w IH
        by (cases ok; cases ok')
           (simp_all add: transform_events_Some [OF ne] transform_events_Some [OF next_event_append [OF ne]] Inr Let_def)
    qed
  qed
qed

lemma transform_events_keeps:
  assumes "transform_events rj p start now tx s = Inr (Running s')"
  shows "last_data_ms s' = last_data_ms s" and "first_token_received s' = first_token_received s"
proof -
  have wa: "last_data_ms (snd (write_all d s)) = last_data_ms s \<and>
      first_token_received (snd (write_all d s)) = first_token_received s" for d s
    by (auto simp: write_all_def split: prod.splits bool.splits)
  have es: "last_data_ms (event_state rj p ev s) = last_data_ms s \<and>
      first_token_received (event_state rj p ev s) = first_token_received s" for ev s
    by (simp add: event_state_def note_terminal_def)
  have "last_data_ms s' = last_data_ms s \<and> first_token_received s' = first_token_received s"
    using assms
  proof (induction tx arbitrary: s rule: length_induct)
    case (1 tx)
    show ?case
    proof (cases "next_event tx")
      case None
      with 1(2) show ?thesis by (auto simp: transform_events_None)
    next
      case (Some er)
      obtain event rest where er: "er = (event, rest)" by (cases er)
      note ne = Some [unfolded er]
      let ?s1 = "event_state rj p event s"
      obtain out where out: "transform_event rj p event = Inr out"
        using 1(2) by (cases "transform_event rj p event") (auto simp: transform_events_Some [OF ne])
      obtain ok r where a: "apply_policy p event out (result ?s1) = (ok, r)" by fastforce
      obtain ok' s2 where w: "write_all out ?s1 = (ok', s2)" by fastforce
      obtain s1 where s1: "transform_events rj p start now rest s1 = Inr (Running s')"
        "last_data_ms s1 = last_data_ms s \<and> first_token_received s1 = first_token_received s"
        using 1(2) a w es [of event s] wa [of out ?s1] that [of ?s1] that [of s2]
        by (cases ok; cases ok'; cases "out = []")
           (simp_all add: transform_events_Some [OF ne] out Let_def finish_def)
      have "last_data_ms s' = last_data_ms s1 \<and> first_token_received s' = first_token_received s1"
        using 1(1) next_event_shorter [OF ne] s1(1) by blast
      with s1(2) show ?thesis by simp
    qed
  qed
  then show "last_data_ms s' = last_data_ms s" "first_token_received s' = first_token_received s" by auto
qed

section \<open>Chunks\<close>

text \<open>A chunk that arrives at time \<open>t\<close>.\<close>

definition arrive :: "nat \<Rightarrow> string \<Rightarrow> round" where
  "arrive t c = \<lparr>round_start = t, round_read = Data c, round_now = t\<rparr>"

lemma note_data_idem:
  assumes "last_data_ms s = t" and "first_token_received s"
  shows "note_data start t s = s"
  using assms by (simp add: note_data_def Let_def)

lemma transform_arrive:
  assumes "pipe_mode p \<noteq> Passthrough" and "t - start \<le> total_timeout_ms (config p)"
  shows "pipe_round rj p start (arrive t c) s =
    transform_events rj p start t (event_accumulator s @ c) (note_data start t s)"
  using assms by (simp add: pipe_round_def transform_round_def arrive_def Let_def note_data_def)

lemma shown_resume_cong:
  assumes "\<And>s. r = Inr (Running s) \<Longrightarrow> shown (f s) = shown (g s)"
  shows "shown (resume f r) = shown (resume g r)"
proof (cases r)
  case (Inr pr)
  with assms show ?thesis by (cases pr) simp_all
qed simp

lemma run_from_Cons: "run_from rj p start (rd # rds) s = resume (run_from rj p start rds) (pipe_round rj p start rd s)"
  by (simp add: resume_def)

lemma resume_Running [simp]: "resume (\<lambda>s. Inr (Running s)) r = r"
proof (cases r)
  case (Inr pr)
  then show ?thesis by (cases pr) simp_all
qed simp

lemma run_from_single: "run_from rj p start [rd] s = pipe_round rj p start rd s"
proof -
  have "run_from rj p start [] = (\<lambda>s. Inr (Running s))" by (rule ext) simp
  then show ?thesis by (simp only: run_from_Cons resume_Running)
qed

lemma chunks_joined:
  assumes "pipe_mode p \<noteq> Passthrough" and "t - start \<le> total_timeout_ms (config p)" and "cs \<noteq> []"
  shows "shown (run_from rj p start (map (arrive t) cs) s) = shown (run_from rj p start [arrive t (concat cs)] s)"
  using assms(3)
proof (induction cs arbitrary: s rule: list_nonempty_induct)
  case (cons c cs)
  let ?te = "transform_events rj p start t" and ?s0 = "note_data start t s"
  have nd: "event_accumulator ?s0 = event_accumulator s" "last_data_ms ?s0 = t" "first_token_received ?s0"
    by (simp_all add: note_data_def Let_def)
  have "shown (run_from rj p start (map (arrive t) (c # cs)) s) =
      shown (resume (run_from rj p start (map (arrive t) cs)) (?te (event_accumulator s @ c) ?s0))"
    by (simp add: run_from_Cons transform_arrive [OF assms(1,2)] del: run_from.simps)
  also have "\<dots> = shown (resume (\<lambda>s'. ?te (event_accumulator s' @ concat cs) s') (?te (event_accumulator s @ c) ?s0))"
  proof (rule shown_resume_cong)
    fix s' assume "?te (event_accumulator s @ c) ?s0 = Inr (Running s')"
    from transform_events_keeps [OF this] nd have "note_data start t s' = s'" by (intro note_data_idem) simp_all
    then show "shown (run_from rj p start (map (arrive t) cs) s') = shown (?te (event_accumulator s' @ concat cs) s')"
      unfolding cons.IH run_from_single transform_arrive [OF assms(1,2)] by simp
  qed
  also have "\<dots> = shown (?te ((event_accumulator s @ c) @ concat cs) ?s0)"
    by (rule transform_events_append [symmetric])
  finally show ?case
    unfolding run_from_single transform_arrive [OF assms(1,2)] by simp
qed simp

section \<open>Steps of a run\<close>

text \<open>Whether the policy clears an event in the form in which the client gets it.\<close>

definition policy_clears :: "StreamPipe \<Rightarrow> string \<Rightarrow> string \<Rightarrow> bool" where
  "policy_clears p event out \<longleftrightarrow>
     (case policy (config p) of
        None \<Rightarrow> True
      | Some ask \<Rightarrow> policy_exempt (source_format p) event \<or>
          disposition (policy_decision (config p) ask (if out = [] then event else out)) = PolicyAllow)"

lemma apply_policy_clears: "fst (apply_policy p event out r) = policy_clears p event out"
  by (simp add: apply_policy_def policy_clears_def Let_def split: option.split)

text \<open>The form in which an event can reach the client.\<close>

definition form_of :: "rapidjson \<Rightarrow> StreamPipe \<Rightarrow> string \<Rightarrow> string \<Rightarrow> bool" where
  "form_of rj p event out \<longleftrightarrow> (if pipe_mode p = Passthrough then out = event else transform_event rj p event = Inr out)"

definition with_duration :: "int \<Rightarrow> pipe_state \<Rightarrow> pipe_state" where
  "with_duration d s = s\<lparr>result := (result s)\<lparr>total_duration_ms := d\<rparr>\<rparr>"

text \<open>The steps that keep the loop running, and those that end it.\<close>

inductive work :: "rapidjson \<Rightarrow> StreamPipe \<Rightarrow> pipe_state \<Rightarrow> pipe_state \<Rightarrow> bool" for rj p where
  usage: "work rj p s (s\<lparr>result := extract_usage_from_event rj event (result s)\<rparr>)"
| terminal: "work rj p s (note_terminal (is_terminal_event rj (source_format p) event) s)"
| clock_write: "work rj p s (s\<lparr>last_write_ms := t\<rparr>)"
| clock_data: "work rj p s (note_data start now s)"
| hold: "work rj p s (s\<lparr>event_accumulator := x\<rparr>)"
| copy: "policy (config p) = None \<Longrightarrow> write_loop chunk (client s) = (True, k) \<Longrightarrow>
    work rj p s (s\<lparr>client := k, last_write_ms := now, result := (result s)\<lparr>bytes_forwarded := b\<rparr>\<rparr>)"
| deliver: "form_of rj p event out \<Longrightarrow> policy_clears p event out \<Longrightarrow> write_all out s = (True, s') \<Longrightarrow>
    work rj p s s'"
| keepalive: "write_once keepalive_text (client s) = (n, k) \<Longrightarrow> work rj p s (s\<lparr>client := k\<rparr>)"

inductive ending :: "rapidjson \<Rightarrow> StreamPipe \<Rightarrow> pipe_state \<Rightarrow> pipe_state \<Rightarrow> bool" for rj p where
  timeout: "ending rj p s (with_duration d (time_out s))"
| provider_lost: "ending rj p s (with_duration d (lose_provider s))"
| closed: "ending rj p s (with_duration d (upstream_closed s))"
| copy_failed: "policy (config p) = None \<Longrightarrow> write_loop chunk (client s) = (False, k) \<Longrightarrow>
    ending rj p s (with_duration d (lose_client
      (s\<lparr>client := k, result := (result s)\<lparr>client_disconnect := True\<rparr>\<rparr>)))"
| deliver_failed: "form_of rj p event out \<Longrightarrow> policy_clears p event out \<Longrightarrow> write_all out s = (False, s') \<Longrightarrow>
    ending rj p s (with_duration d (lose_client s'))"
| keepalive_failed: "write_once keepalive_text (client s) = (n, k) \<Longrightarrow>
    ending rj p s (with_duration d (s\<lparr>client := k, result := (result s)\<lparr>client_disconnect := True\<rparr>\<rparr>))"
| withheld: "policy (config p) \<noteq> None \<Longrightarrow>
    ending rj p s (with_duration d (emit_policy_error p (s\<lparr>result := snd (apply_policy p event out (result s))\<rparr>)))"

lemma finish_with_duration: "finish start now s = Finished (with_duration (to_int32 (int (now - start))) s)"
  by (simp add: finish_def with_duration_def)

text \<open>A progress that is reached by such steps.\<close>

definition reached :: "rapidjson \<Rightarrow> StreamPipe \<Rightarrow> pipe_state \<Rightarrow> progress \<Rightarrow> bool" where
  "reached rj p s pr \<longleftrightarrow>
     (case pr of Running s' \<Rightarrow> (work rj p)\<^sup>*\<^sup>* s s'
      | Finished s' \<Rightarrow> \<exists>s1. (work rj p)\<^sup>*\<^sup>* s s1 \<and> ending rj p s1 s')"

lemma reached_work: "(work rj p)\<^sup>*\<^sup>* s s1 \<Longrightarrow> reached rj p s1 pr \<Longrightarrow> reached rj p s pr"
  by (cases pr) (auto simp: reached_def intro: rtranclp_trans)

lemma reached_end: "(work rj p)\<^sup>*\<^sup>* s s1 \<Longrightarrow> ending rj p s1 (with_duration (to_int32 (int (now - start))) s2) \<Longrightarrow>
    reached rj p s (finish start now s2)"
  by (auto simp: reached_def finish_with_duration)

lemma reached_Running: "(work rj p)\<^sup>*\<^sup>* s s' \<Longrightarrow> reached rj p s (Running s')"
  by (simp add: reached_def)

lemma two_works: "work rj p s s1 \<Longrightarrow> work rj p s1 s2 \<Longrightarrow> (work rj p)\<^sup>*\<^sup>* s s2"
  by auto

lemma passthrough_events_reached:
  assumes "pipe_mode p = Passthrough"
  shows "reached rj p s (passthrough_events rj p start now tx s)"
proof (induction tx arbitrary: s rule: length_induct)
  case (1 tx)
  show ?case
  proof (cases "next_event tx")
    case None
    then show ?thesis
      by (subst passthrough_events.simps) (auto intro!: reached_Running r_into_rtranclp work.hold)
  next
    case (Some er)
    obtain event rest where er: "er = (event, rest)" by (cases er)
    note ne = Some [unfolded er]
    have IH: "reached rj p s' (passthrough_events rj p start now rest s')" for s'
      using 1 next_event_shorter [OF ne] by blast
    let ?u = "s\<lparr>result := extract_usage_from_event rj event (result s)\<rparr>"
    define s1 where "s1 = note_terminal (is_terminal_event rj (source_format p) event) ?u"
    have w1: "(work rj p)\<^sup>*\<^sup>* s s1"
      unfolding s1_def by (rule two_works [OF work.usage work.terminal])
    obtain ok r where a: "apply_policy p event event (result s1) = (ok, r)" by fastforce
    have ok: "ok = policy_clears p event event" using apply_policy_clears [of p event event "result s1"] a by simp
    obtain ok' s2 where w: "write_all event s1 = (ok', s2)" by fastforce
    have form: "form_of rj p event event" using assms by (simp add: form_of_def)
    have eq: "passthrough_events rj p start now tx s =
        (if policy (config p) = None then passthrough_events rj p start now rest s1
         else if \<not> ok then finish start now (emit_policy_error p (s1\<lparr>result := r\<rparr>))
         else if \<not> ok' then finish start now (lose_client s2)
         else passthrough_events rj p start now rest (s2\<lparr>last_write_ms := now\<rparr>))"
      by (subst passthrough_events.simps) (simp add: ne Let_def s1_def [symmetric] a w split: bool.split)
    consider "policy (config p) = None" | "policy (config p) \<noteq> None" "\<not> ok" | "policy (config p) \<noteq> None" "ok" "\<not> ok'"
      | "policy (config p) \<noteq> None" "ok" "ok'" by blast
    then show ?thesis
    proof cases
      case 1
      then show ?thesis using IH w1 by (simp add: eq reached_work)
    next
      case 2
      then show ?thesis using ending.withheld [of p rj s1 _ event event] a
        by (auto simp: eq intro!: reached_end [OF w1])
    next
      case 3
      then show ?thesis using ending.deliver_failed [OF form, of s1 s2] w ok
        by (auto simp: eq intro!: reached_end [OF w1])
    next
      case 4
      then have "work rj p s1 s2" using work.deliver [OF form, of s1 s2] w ok by simp
      then have "(work rj p)\<^sup>*\<^sup>* s (s2\<lparr>last_write_ms := now\<rparr>)"
        using rtranclp_trans [OF w1 two_works [OF _ work.clock_write]] by blast
      then show ?thesis using 4 IH by (auto simp: eq intro: reached_work)
    qed
  qed
qed

lemma transform_events_reached:
  assumes "pipe_mode p \<noteq> Passthrough" and "transform_events rj p start now tx s = Inr pr"
  shows "reached rj p s pr"
  using assms(2)
proof (induction tx arbitrary: s rule: length_induct)
  case (1 tx)
  show ?case
  proof (cases "next_event tx")
    case None
    with 1(2) have "pr = Running (s\<lparr>event_accumulator := tx\<rparr>)" by (subst (asm) transform_events.simps) simp
    then show ?thesis by (auto intro!: reached_Running r_into_rtranclp work.hold)
  next
    case (Some er)
    obtain event rest where er: "er = (event, rest)" by (cases er)
    note ne = Some [unfolded er]
    have IH: "transform_events rj p start now rest s' = Inr pr \<Longrightarrow> reached rj p s' pr" for s'
      using 1(1) next_event_shorter [OF ne] by blast
    define s1 where "s1 = event_state rj p event s"
    have w1: "(work rj p)\<^sup>*\<^sup>* s s1"
      using two_works [OF work.usage work.terminal] work.terminal [of rj p s event]
      unfolding s1_def event_state_def by (simp add: r_into_rtranclp)
    obtain out where out: "transform_event rj p event = Inr out"
      using 1(2) by (subst (asm) transform_events.simps) (cases "transform_event rj p event"; simp add: ne)
    obtain ok r where a: "apply_policy p event out (result s1) = (ok, r)" by fastforce
    have ok: "ok = policy_clears p event out" using apply_policy_clears [of p event out "result s1"] a by simp
    obtain ok' s2 where w: "write_all out s1 = (ok', s2)" by fastforce
    have form: "form_of rj p event out" using assms(1) out by (simp add: form_of_def)
    have eq: "Inr pr =
        (if \<not> ok then Inr (finish start now (emit_policy_error p (s1\<lparr>result := r\<rparr>)))
         else if out = [] then transform_events rj p start now rest s1
         else if \<not> ok' then Inr (finish start now (lose_client s2))
         else transform_events rj p start now rest s2)"
      unfolding 1(2) [symmetric]
      by (simp add: transform_events_Some [OF ne] out Let_def s1_def [symmetric] a w split: bool.split)
    consider "\<not> ok" | "ok" "out = []" | "ok" "out \<noteq> []" "\<not> ok'" | "ok" "out \<noteq> []" "ok'" by blast
    then show ?thesis
    proof cases
      case 1
      then have "policy (config p) \<noteq> None" using ok by (cases "policy (config p)") (auto simp: policy_clears_def)
      then show ?thesis using 1 eq ending.withheld [of p rj s1 _ event out] a
        by (auto intro!: reached_end [OF w1])
    next
      case 2
      then show ?thesis using eq IH reached_work [OF w1] by simp
    next
      case 3
      then show ?thesis using eq ending.deliver_failed [OF form, of s1 s2] w ok
        by (auto intro!: reached_end [OF w1])
    next
      case 4
      then have "(work rj p)\<^sup>*\<^sup>* s s2"
        using rtranclp.rtrancl_into_rtrancl [OF w1 work.deliver [OF form, of s1 s2]] w ok by simp
      then show ?thesis using 4 eq IH by (auto intro: reached_work)
    qed
  qed
qed

lemma inject_keepalive_reached:
  assumes "inject_keepalive cfg now s = (failed, s1)"
  shows "(work rj p)\<^sup>*\<^sup>* s s1" and "failed \<Longrightarrow> \<exists>n k. write_once keepalive_text (client s) = (n, k) \<and> s1 = s\<lparr>client := k\<rparr>"
  using assms by (auto simp: inject_keepalive_def intro: work.keepalive split: if_splits prod.splits)

lemma passthrough_data_reached:
  assumes "pipe_mode p = Passthrough"
  shows "reached rj p s (passthrough_data rj p start now chunk s)"
proof -
  define s0 where "s0 = note_data start now s"
  have w0: "(work rj p)\<^sup>*\<^sup>* s s0" unfolding s0_def by (intro r_into_rtranclp work.clock_data)
  define go where "go = (\<lambda>s1. case passthrough_events rj p start now (event_accumulator s1 @ chunk) s1 of
      Finished s2 \<Rightarrow> Finished s2
    | Running s2 \<Rightarrow>
        if policy (config p) \<noteq> None \<and> length (event_accumulator s2) > max_policy_event_bytes (config p)
        then finish start now (emit_policy_error p (s2\<lparr>result :=
               snd (apply_policy p (event_accumulator s2) (event_accumulator s2) (result s2))\<rparr>))
        else Running (trim_accumulator (config p) s2))"
  have go: "reached rj p s1 (go s1)" for s1
  proof (cases "passthrough_events rj p start now (event_accumulator s1 @ chunk) s1")
    case (Running s2)
    with passthrough_events_reached [OF assms] have w: "(work rj p)\<^sup>*\<^sup>* s1 s2"
      by (metis progress.simps(5) reached_def)
    have "(work rj p)\<^sup>*\<^sup>* s2 (trim_accumulator (config p) s2)"
      using work.hold by (auto simp: trim_accumulator_def Let_def)
    with w show ?thesis
      using ending.withheld [of p rj s2]
      by (auto simp: go_def Running intro!: reached_Running reached_end [OF w] intro: rtranclp_trans)
  next
    case (Finished s2)
    then show ?thesis using passthrough_events_reached [OF assms] by (simp add: go_def) metis
  qed
  show ?thesis
  proof (cases "policy (config p)")
    case None
    obtain ok k where c: "write_loop chunk (client s0) = (ok, k)" by fastforce
    let ?s1 = "s0\<lparr>client := k, last_write_ms := now,
        result := (result s0)\<lparr>bytes_forwarded := bytes_forwarded (result s0) + int (length chunk)\<rparr>\<rparr>"
    have "passthrough_data rj p start now chunk s = (if ok then go ?s1 else finish start now
        (lose_client (s0\<lparr>client := k, result := (result s0)\<lparr>client_disconnect := True\<rparr>\<rparr>)))"
      using None c by (cases ok) (simp_all add: passthrough_data_def s0_def [symmetric] go_def)
    moreover have "ok \<Longrightarrow> work rj p s0 ?s1" by (rule work.copy [OF None, of chunk]) (simp add: c)
    ultimately show ?thesis
      using w0 go [of ?s1] c ending.copy_failed [OF None, of chunk s0 k]
      by (auto intro!: reached_end [OF w0] intro: reached_work rtranclp.rtrancl_into_rtrancl)
  next
    case (Some ask)
    then have "passthrough_data rj p start now chunk s = go s0"
      by (simp add: passthrough_data_def s0_def [symmetric] go_def)
    then show ?thesis using go w0 by (simp add: reached_work)
  qed
qed

lemma passthrough_round_reached:
  assumes "pipe_mode p = Passthrough"
  shows "reached rj p s (passthrough_round rj p start rd s)"
proof -
  note ends = reached_end [OF rtranclp.rtrancl_refl]
  have keep: "reached rj p s (case inject_keepalive (config p) now s of
      (True, s1) \<Rightarrow> finish start now (s1\<lparr>result := (result s1)\<lparr>client_disconnect := True\<rparr>\<rparr>)
    | (False, s1) \<Rightarrow> Running s1)" for now
  proof -
    obtain failed s1 where k: "inject_keepalive (config p) now s = (failed, s1)" by fastforce
    from inject_keepalive_reached [OF k] show ?thesis
      by (cases failed) (auto simp: k intro!: ends reached_Running ending.keepalive_failed)
  qed
  show ?thesis
    using keep passthrough_data_reached [OF assms]
    by (auto simp: passthrough_round_def Let_def intro!: ends reached_Running
      intro: ending.timeout ending.provider_lost ending.closed split: read_outcome.split)
qed

lemma transform_round_reached:
  assumes "pipe_mode p \<noteq> Passthrough" and "transform_round rj p start rd s = Inr pr"
  shows "reached rj p s pr"
proof -
  note ends = reached_end [OF rtranclp.rtrancl_refl]
  have "reached rj p s pr" if "transform_events rj p start now (event_accumulator s1 @ chunk) s1 = Inr pr"
      and "s1 = note_data start now s" for now chunk s1
    by (rule reached_work [OF _ transform_events_reached [OF assms(1) that(1)]])
      (simp add: that(2) r_into_rtranclp work.clock_data)
  then show ?thesis
    using assms(2)
    by (auto simp: transform_round_def Let_def intro!: ends reached_Running
      intro: ending.timeout ending.provider_lost ending.closed split: read_outcome.splits if_splits)
qed

lemma run_from_reached:
  "run_from rj p start rds s = Inr pr \<Longrightarrow> reached rj p s pr"
proof (induction rds arbitrary: s)
  case Nil
  then show ?case by (auto intro: reached_Running)
next
  case (Cons rd rds)
  obtain pr1 where r: "pipe_round rj p start rd s = Inr pr1"
    using Cons.prems by (cases "pipe_round rj p start rd s") auto
  have r1: "reached rj p s pr1"
    using r passthrough_round_reached transform_round_reached by (auto simp: pipe_round_def split: if_splits)
  show ?case
  proof (cases pr1)
    case (Running s1)
    then have "reached rj p s1 pr" using Cons r by simp
    with r1 Running show ?thesis using reached_work by (simp add: reached_def [of _ _ _ "Running _"])
  next
    case (Finished s1)
    then show ?thesis using Cons.prems r r1 by simp
  qed
qed

section \<open>What reaches the client\<close>

lemma write_once_sent:
  assumes "write_once data k = (n, k')"
  shows "\<exists>x. prefix x data \<and> sent k' = sent k @ x"
proof (cases "replies k")
  case Nil
  with assms show ?thesis by (auto simp: write_once_def)
next
  case (Cons c cs)
  then have "sent k' = sent k @ (if c \<le> 0 then [] else take (nat c) data)"
    using assms by (auto simp: write_once_def split: if_splits)
  moreover have "prefix (if c \<le> 0 then [] else take (nat c) data) data" by (simp add: take_is_prefix)
  ultimately show ?thesis by blast
qed

lemma write_loop_sent:
  "write_loop data k = (ok, k') \<Longrightarrow> \<exists>x. prefix x data \<and> sent k' = sent k @ x \<and> (ok \<longrightarrow> x = data)"
proof (induction data k arbitrary: k' rule: write_loop.induct)
  case (1 data k)
  show ?case
  proof (cases "data = []")
    case True
    then show ?thesis using 1(2) by (auto simp: write_loop.simps)
  next
    case False
    obtain count k1 where w: "write_once data k = (count, k1)" by fastforce
    show ?thesis
    proof (cases "count \<le> 0")
      case True
      then have "\<not> ok" "k' = k1" using 1(2) False w by (auto simp: write_loop.simps [of data])
      then show ?thesis using write_once_sent [OF w] by blast
    next
      case pos: False
      then have l: "write_loop (drop (nat count) data) k1 = (ok, k')" using 1(2) False w by (simp add: write_loop.simps [of data])
      have s: "sent k1 = sent k @ take (nat count) data" using w pos False
        by (auto simp: write_once_def min_def split: list.splits if_splits)
      from 1(1) [OF False w [symmetric] pos l] obtain x where
        "prefix x (drop (nat count) data)" "sent k' = sent k1 @ x" "ok \<longrightarrow> x = drop (nat count) data" by blast
      then show ?thesis
        using same_prefix_prefix [of "take (nat count) data" x "drop (nat count) data"] unfolding s
        by (intro exI [of _ "take (nat count) data @ x"]) auto
    qed
  qed
qed

lemma write_all_sent:
  assumes "write_all data s = (ok, s')"
  shows "\<exists>x. prefix x data \<and> sent (client s') = sent (client s) @ x \<and> (ok \<longrightarrow> x = data)"
proof -
  obtain ok' k where w: "write_loop data (client s) = (ok', k)" by fastforce
  with assms have "ok = ok'" "client s' = k" by (auto simp: write_all_def split: bool.splits)
  with write_loop_sent [OF w] show ?thesis by simp
qed

text \<open>A piece that the policy does not hold back, an error event, or a keepalive.\<close>

definition vetted :: "rapidjson \<Rightarrow> StreamPipe \<Rightarrow> string \<Rightarrow> bool" where
  "vetted rj p x \<longleftrightarrow>
     (\<exists>event out. form_of rj p event out \<and> policy_clears p event out \<and> prefix x out) \<or>
     (\<exists>r. prefix x (policy_error_event (target_format p) r)) \<or> prefix x keepalive_text"

definition guarded :: "rapidjson \<Rightarrow> StreamPipe \<Rightarrow> string \<Rightarrow> pipe_state \<Rightarrow> bool" where
  "guarded rj p b s \<longleftrightarrow> (\<exists>ps. sent (client s) = b @ concat ps \<and> list_all (vetted rj p) ps)"

lemma guarded_add:
  assumes "guarded rj p b s" and "sent (client s') = sent (client s) @ x" and "vetted rj p x"
  shows "guarded rj p b s'"
proof -
  obtain ps where "sent (client s) = b @ concat ps" "list_all (vetted rj p) ps" using assms(1) by (auto simp: guarded_def)
  then show ?thesis using assms(2,3) by (auto simp: guarded_def intro!: exI [of _ "ps @ [x]"])
qed

lemma guarded_same: "guarded rj p b s \<Longrightarrow> client s' = client s \<Longrightarrow> guarded rj p b s'"
  by (simp add: guarded_def)

lemma note_client [simp]: "client (note_terminal t s) = client s" "client (note_data start now s) = client s"
  by (simp_all add: note_terminal_def note_data_def Let_def)

lemma work_guarded:
  assumes "policy (config p) \<noteq> None" and "work rj p s s'" and "guarded rj p b s"
  shows "guarded rj p b s'"
  using assms(2)
proof cases
  case (deliver event out)
  from write_all_sent [OF deliver(3)] obtain x where "prefix x out" "sent (client s') = sent (client s) @ x" by blast
  with deliver show ?thesis by (intro guarded_add [OF assms(3)]) (auto simp: vetted_def)
next
  case (keepalive n k)
  from write_once_sent [OF keepalive(2)] obtain x where "prefix x keepalive_text" "sent k = sent (client s) @ x" by blast
  with keepalive show ?thesis by (intro guarded_add [OF assms(3)]) (auto simp: vetted_def)
qed (use assms in \<open>auto intro: guarded_same\<close>)

lemma ending_guarded:
  assumes "policy (config p) \<noteq> None" and "ending rj p s s'" and "guarded rj p b s"
  shows "guarded rj p b s'"
  using assms(2)
proof cases
  case (deliver_failed event out s1 d)
  from write_all_sent [OF deliver_failed(4)] obtain x where "prefix x out" "sent (client s1) = sent (client s) @ x" by blast
  with deliver_failed show ?thesis
    by (intro guarded_add [OF assms(3)]) (auto simp: vetted_def with_duration_def lose_client_def)
next
  case (keepalive_failed n k d)
  from write_once_sent [OF keepalive_failed(2)] obtain x where "prefix x keepalive_text" "sent k = sent (client s) @ x" by blast
  with keepalive_failed show ?thesis by (intro guarded_add [OF assms(3)]) (auto simp: vetted_def with_duration_def)
next
  case (withheld d event out)
  define s1 where "s1 = s\<lparr>result := snd (apply_policy p event out (result s))\<rparr>"
  obtain ok s2 where w: "write_all (policy_error_event (target_format p) (result s1)) s1 = (ok, s2)" by fastforce
  from write_all_sent [OF w] obtain x where
    "prefix x (policy_error_event (target_format p) (result s1))" "sent (client s2) = sent (client s) @ x"
    by (auto simp: s1_def)
  with withheld(1) w show ?thesis
    by (intro guarded_add [OF assms(3)]) (auto simp: vetted_def with_duration_def emit_policy_error_def s1_def [symmetric])
qed (use assms in \<open>auto simp: with_duration_def time_out_def lose_provider_def upstream_closed_def Let_def intro: guarded_same\<close>)

fun state_of :: "progress \<Rightarrow> pipe_state" where
  "state_of (Running s) = s"
| "state_of (Finished s) = s"

text \<open>An invariant of the steps is one of every run.\<close>

lemma run_invariant:
  assumes "run rj p start rds k = Inr pr" and "I (start_state start k)"
    and "\<And>s s'. work rj p s s' \<Longrightarrow> I s \<Longrightarrow> I s'" and "\<And>s s'. ending rj p s s' \<Longrightarrow> I s \<Longrightarrow> I s'"
  shows "I (state_of pr)"
proof -
  have w: "I s'" if "(work rj p)\<^sup>*\<^sup>* (start_state start k) s'" for s'
    using that by (induction rule: rtranclp_induct) (use assms in auto)
  have "reached rj p (start_state start k) pr" using assms(1) unfolding run_def by (rule run_from_reached)
  then show ?thesis using w assms(4) by (cases pr) (auto simp: reached_def)
qed


section \<open>Counts\<close>

definition in_range :: "int \<Rightarrow> bool" where
  "in_range c \<longleftrightarrow> 0 \<le> c \<and> c \<le> int32_max"

definition counts_ok :: "StreamResult \<Rightarrow> bool" where
  "counts_ok r \<longleftrightarrow> in_range (input_tokens r) \<and> in_range (output_tokens r) \<and> in_range (cache_create_tokens r) \<and>
     in_range (cache_read_tokens r) \<and> in_range (reasoning_tokens r)"

lemma to_int32_bound: "to_int32 i \<le> int32_max"
  by (simp add: to_int32_def int32_max_def)

lemma raise_count_in_range: "in_range a \<Longrightarrow> in_range (raise_count obj a k)"
proof -
  have "count_value v \<le> int32_max" for v
    using to_int32_bound by (cases v) (auto simp: count_value_def in_int32_def int32_max_def)
  then show "in_range a \<Longrightarrow> ?thesis" by (auto simp: raise_count_def in_range_def split: option.split)
qed

lemma foldl_in_range: "in_range a \<Longrightarrow> in_range (foldl (raise_count obj) a ks)"
  by (induction ks arbitrary: a) (simp_all add: raise_count_in_range)

lemma extract_counts: "counts_ok r \<Longrightarrow> counts_ok (extract_usage_from_event rj event r)"
  by (auto simp: extract_usage_from_event_def read_usage_def counts_ok_def Let_def
    intro!: foldl_in_range raise_count_in_range split: option.split simp del: foldl.simps)

lemma write_all_result:
  "write_all data s = (ok, s') \<Longrightarrow> result s' =
     (if ok then (result s)\<lparr>bytes_forwarded := bytes_forwarded (result s) + int (length data)\<rparr>
      else (result s)\<lparr>client_disconnect := True\<rparr>)"
  by (auto simp: write_all_def split: prod.splits bool.splits)

lemma emit_result: "\<exists>b c. result (emit_policy_error p s) = (result s)\<lparr>bytes_forwarded := b, client_disconnect := c\<rparr>"
proof -
  obtain ok s' where w: "write_all (policy_error_event (target_format p) (result s)) s = (ok, s')" by fastforce
  have "result s' = (result s)\<lparr>bytes_forwarded := bytes_forwarded (result s'), client_disconnect := client_disconnect (result s')\<rparr>"
    using write_all_result [OF w] by (cases ok) simp_all
  then show ?thesis unfolding emit_policy_error_def w by (metis snd_conv)
qed

lemma counts_ok_other [simp]:
  "counts_ok (r\<lparr>bytes_forwarded := b\<rparr>) = counts_ok r" "counts_ok (r\<lparr>first_token_ms := t\<rparr>) = counts_ok r"
  "counts_ok (r\<lparr>total_duration_ms := t\<rparr>) = counts_ok r" "counts_ok (r\<lparr>completed := c\<rparr>) = counts_ok r"
  "counts_ok (r\<lparr>terminal_event_seen := c\<rparr>) = counts_ok r" "counts_ok (r\<lparr>incomplete := c\<rparr>) = counts_ok r"
  "counts_ok (r\<lparr>provider_disconnect := c\<rparr>) = counts_ok r" "counts_ok (r\<lparr>timed_out := c\<rparr>) = counts_ok r"
  "counts_ok (r\<lparr>client_disconnect := c\<rparr>) = counts_ok r" "counts_ok (withheld d r) = counts_ok r"
  by (simp_all add: counts_ok_def withheld_def Let_def)

lemma counts_ok_new [simp]: "counts_ok new_result"
  by (simp add: new_result_def counts_ok_def in_range_def int32_max_def)

lemma counts_ok_policy [simp]: "counts_ok (snd (apply_policy p event out r)) = counts_ok r"
  by (simp add: apply_policy_def Let_def split: option.split)

lemma counts_ok_write: "write_all data s = (ok, s') \<Longrightarrow> counts_ok (result s') = counts_ok (result s)"
  by (simp add: write_all_result)

lemma counts_ok_emit [simp]: "counts_ok (result (emit_policy_error p s)) = counts_ok (result s)"
  using emit_result [of p s] by auto

lemma work_counts: "work rj p s s' \<Longrightarrow> counts_ok (result s) \<Longrightarrow> counts_ok (result s')"
  by (induction rule: work.induct)
    (simp_all add: extract_counts counts_ok_write note_terminal_def note_data_def Let_def)

lemma ending_counts: "ending rj p s s' \<Longrightarrow> counts_ok (result s) \<Longrightarrow> counts_ok (result s')"
  by (induction rule: ending.induct)
    (simp_all add: counts_ok_write with_duration_def time_out_def lose_provider_def lose_client_def
      upstream_closed_def Let_def)

lemma run_counts_ok:
  assumes "run rj p start rds k = Inr pr"
  shows "counts_ok (result (state_of pr))"
  by (rule run_invariant [OF assms, where I = "\<lambda>s. counts_ok (result s)"])
    (auto simp: start_state_def dest: work_counts ending_counts)

text \<open>
  Whatever usage objects the provider sends (negative counts, counts beyond 32 bits, non-numbers),
  the five token counts of a stream stay between 0 and the largest 32-bit integer.
\<close>

theorem stream_counts_in_range:
  assumes "run rj p start rds k = Inr pr"
  shows "counts_ok (result (state_of pr))"
  using assms by (rule run_counts_ok)

section \<open>How a run ends\<close>

text \<open>A result without a verdict yet.\<close>

definition undecided :: "StreamResult \<Rightarrow> bool" where
  "undecided r \<longleftrightarrow> \<not> completed r \<and> \<not> incomplete r \<and> \<not> provider_disconnect r \<and> \<not> timed_out r \<and>
     \<not> client_disconnect r \<and> \<not> policy_blocked r \<and> \<not> policy_failed_closed r"

lemma undecided_extract: "undecided (extract_usage_from_event rj event r) = undecided r"
  by (auto simp: extract_usage_from_event_def read_usage_def undecided_def Let_def split: option.split)

lemma work_undecided: "work rj p s s' \<Longrightarrow> undecided (result s) \<Longrightarrow> undecided (result s')"
proof (induction rule: work.induct)
  case (usage s event)
  then show ?case by (simp add: undecided_extract)
next
  case (deliver event out s s')
  then show ?case by (simp add: write_all_result undecided_def)
qed (simp_all add: note_terminal_def note_data_def Let_def undecided_def)

definition settled :: "StreamPipe \<Rightarrow> StreamResult \<Rightarrow> bool" where
  "settled p r \<longleftrightarrow>
     (if completed r
      then (incomplete r \<longleftrightarrow> \<not> terminal_event_seen r) \<and> (provider_disconnect r \<longleftrightarrow> \<not> terminal_event_seen r) \<and>
        \<not> client_disconnect r \<and> \<not> timed_out r \<and> \<not> policy_blocked r \<and> \<not> policy_failed_closed r
      else incomplete r \<or> client_disconnect r \<or> policy (config p) \<noteq> None)"

lemma completed_policy: "completed (snd (apply_policy p event out r)) = completed r"
  by (simp add: apply_policy_def withheld_def Let_def split: option.split)

lemma ending_settled: "ending rj p s s' \<Longrightarrow> undecided (result s) \<Longrightarrow> settled p (result s')"
proof (induction rule: ending.induct)
  case (deliver_failed event out s s' d)
  then have "client_disconnect (result s')" "\<not> completed (result s')"
    using write_all_result [OF deliver_failed(3)] by (simp_all add: undecided_def)
  then show ?case by (simp add: settled_def with_duration_def lose_client_def)
next
  case (withheld s d event out)
  let ?s = "s\<lparr>result := snd (apply_policy p event out (result s))\<rparr>"
  have "\<not> completed (result (emit_policy_error p ?s))"
    using emit_result [of p ?s] withheld(2) completed_policy [of p event out "result s"] by (auto simp: undecided_def)
  then show ?case using withheld(1) by (simp add: settled_def with_duration_def)
qed (auto simp: with_duration_def time_out_def lose_provider_def lose_client_def upstream_closed_def Let_def
  undecided_def settled_def)


section \<open>Copying\<close>

definition chunk_of :: "round \<Rightarrow> string" where
  "chunk_of rd = (case round_read rd of Data c \<Rightarrow> c | _ \<Rightarrow> [])"

lemma extract_bytes [simp]: "bytes_forwarded (extract_usage_from_event rj event r) = bytes_forwarded r"
  by (simp add: extract_usage_from_event_def read_usage_def Let_def split: option.split)

lemma passthrough_events_client:
  assumes "policy (config p) = None"
  shows "\<exists>s'. passthrough_events rj p start now tx s = Running s' \<and> client s' = client s \<and>
    bytes_forwarded (result s') = bytes_forwarded (result s)"
proof (induction tx arbitrary: s rule: length_induct)
  case (1 tx)
  show ?case
  proof (cases "next_event tx")
    case None
    then show ?thesis by (subst passthrough_events.simps) simp
  next
    case (Some er)
    obtain event rest where er: "er = (event, rest)" by (cases er)
    note ne = Some [unfolded er]
    define s1 where "s1 = note_terminal (is_terminal_event rj (source_format p) event)
                     (s\<lparr>result := extract_usage_from_event rj event (result s)\<rparr>)"
    have s1: "client s1 = client s" "bytes_forwarded (result s1) = bytes_forwarded (result s)"
      by (simp_all add: s1_def note_terminal_def)
    have "passthrough_events rj p start now tx s = passthrough_events rj p start now rest s1"
      by (subst passthrough_events.simps) (simp add: ne assms s1_def Let_def)
    moreover from 1 next_event_shorter [OF ne] obtain s' where
      "passthrough_events rj p start now rest s1 = Running s'" "client s' = client s1"
      "bytes_forwarded (result s') = bytes_forwarded (result s1)" by blast
    ultimately show ?thesis using s1 by simp
  qed
qed

lemma note_data_bytes [simp]: "bytes_forwarded (result (note_data start now s)) = bytes_forwarded (result s)"
  by (simp add: note_data_def Let_def)

lemma trim_keeps [simp]: "client (trim_accumulator cfg s) = client s" "result (trim_accumulator cfg s) = result s"
  by (simp_all add: trim_accumulator_def Let_def)

definition copied :: "pipe_state \<Rightarrow> string \<Rightarrow> progress \<Rightarrow> bool" where
  "copied s data pr \<longleftrightarrow>
     (\<exists>x. prefix x data \<and> sent (client (state_of pr)) = sent (client s) @ x \<and>
       (\<forall>s'. pr = Running s' \<longrightarrow> x = data \<and> bytes_forwarded (result s') = bytes_forwarded (result s) + int (length data)))"

lemma passthrough_data_copied:
  assumes "policy (config p) = None"
  shows "copied s chunk (passthrough_data rj p start now chunk s)"
proof -
  let ?s0 = "note_data start now s"
  obtain ok k where c: "write_loop chunk (client s) = (ok, k)" by fastforce
  from write_loop_sent [OF c] obtain x where
    x: "prefix x chunk" "sent k = sent (client s) @ x" "ok \<longrightarrow> x = chunk" by blast
  show ?thesis
  proof (cases ok)
    case True
    let ?s1 = "?s0\<lparr>client := k, last_write_ms := now,
        result := (result ?s0)\<lparr>bytes_forwarded := bytes_forwarded (result ?s0) + int (length chunk)\<rparr>\<rparr>"
    obtain s2 where "passthrough_events rj p start now (event_accumulator ?s1 @ chunk) ?s1 = Running s2"
        "client s2 = client ?s1" "bytes_forwarded (result s2) = bytes_forwarded (result ?s1)"
      using passthrough_events_client [OF assms] by blast
    then show ?thesis using assms c True x by (simp add: passthrough_data_def copied_def)
  next
    case False
    then show ?thesis using assms c x
      by (auto simp: passthrough_data_def copied_def finish_def lose_client_def Let_def)
  qed
qed

lemma passthrough_round_copied:
  assumes "policy (config p) = None" and "\<not> keepalive_enabled (config p)"
  shows "copied s (chunk_of rd) (passthrough_round rj p start rd s)"
proof -
  have fin: "copied s c (finish start now s')" if "client s' = client s" for c now s'
    using that by (simp add: copied_def finish_def)
  have run: "copied s [] (Running s)" by (simp add: copied_def)
  show ?thesis
    using passthrough_data_copied [OF assms(1)] assms(2) fin run
    by (simp add: passthrough_round_def chunk_of_def Let_def time_out_def lose_provider_def upstream_closed_def
      split: read_outcome.split)
qed

lemma copied_then:
  assumes "copied s a (Running s1)" and "copied s1 b pr"
  shows "copied s (a @ b) pr"
proof -
  from assms(1) have 1: "sent (client s1) = sent (client s) @ a" "bytes_forwarded (result s1) = bytes_forwarded (result s) + int (length a)"
    by (auto simp: copied_def)
  from assms(2) obtain x where x: "prefix x b" "sent (client (state_of pr)) = sent (client s1) @ x"
    "\<forall>s'. pr = Running s' \<longrightarrow> x = b \<and> bytes_forwarded (result s') = bytes_forwarded (result s1) + int (length b)"
    unfolding copied_def by blast
  show ?thesis
    unfolding copied_def
  proof (intro exI conjI allI impI)
    show "prefix (a @ x) (a @ b)" using x(1) by simp
    show "sent (client (state_of pr)) = sent (client s) @ (a @ x)" using x(2) 1(1) by simp
  qed (use x(3) 1(2) in auto)
qed

lemma copied_end: "copied s a (Finished s1) \<Longrightarrow> copied s (a @ b) (Finished s1)"
  by (auto simp: copied_def)

lemma run_from_copied:
  assumes "pipe_mode p = Passthrough" and "policy (config p) = None" and "\<not> keepalive_enabled (config p)"
  shows "\<exists>pr. run_from rj p start rds s = Inr pr \<and> copied s (concat (map chunk_of rds)) pr"
proof (induction rds arbitrary: s)
  case (Cons rd rds)
  note r = passthrough_round_copied [OF assms(2,3), of s rd rj start]
  show ?case
  proof (cases "passthrough_round rj p start rd s")
    case (Running s1)
    with Cons [of s1] r show ?thesis by (auto simp: pipe_round_def assms(1) intro: copied_then)
  next
    case (Finished s1)
    with r show ?thesis by (auto simp: pipe_round_def assms(1) intro: copied_end)
  qed
qed (simp add: copied_def)

text \<open>
  Without a policy and keepalives, passthrough is transparent: the run never fails, the client
  gets a prefix of the bytes the provider sent, in order, and as long as the run goes on it has got
  all of them and \<^verbatim>\<open>bytes_forwarded\<close> is their number; for every partial-write behaviour.
\<close>

theorem passthrough_transparent:
  assumes "pipe_mode p = Passthrough" and "policy (config p) = None" and "\<not> keepalive_enabled (config p)"
  shows "\<exists>pr x. run rj p start rds k = Inr pr \<and> prefix x (concat (map chunk_of rds)) \<and>
    sent (client (state_of pr)) = sent k @ x \<and>
    (\<forall>s. pr = Running s \<longrightarrow> x = concat (map chunk_of rds) \<and> bytes_forwarded (result s) = int (length x))"
proof -
  obtain pr where "run rj p start rds k = Inr pr" "copied (start_state start k) (concat (map chunk_of rds)) pr"
    using run_from_copied [OF assms] unfolding run_def by blast
  then show ?thesis unfolding copied_def by (auto simp: start_state_def new_result_def)
qed

definition plain_pipe :: "ProtocolMode \<Rightarrow> (string \<Rightarrow> StreamPolicyDecision) option \<Rightarrow> StreamPipe" where
  "plain_pipe m pol = \<lparr>config = default_config\<lparr>keepalive_enabled := False, policy := pol\<rparr>, pipe_mode = m,
     source_format = OpenAIChatCompletions, target_format = OpenAIChatCompletions\<rparr>"

definition fresh_sink :: sink where
  "fresh_sink = \<lparr>sent = [], replies = []\<rparr>"

theorem passthrough_transparent_witness:
  "\<exists>pr x. run no_json (plain_pipe Passthrough None) 0 [arrive 5 ''da'', arrive 6 ''ta: 1''] \<lparr>sent = [], replies = [1, 1, 3]\<rparr> = Inr pr \<and>
     prefix x ''data: 1'' \<and> sent (client (state_of pr)) = x \<and> (\<forall>s. pr = Running s \<longrightarrow> x = ''data: 1'' \<and> bytes_forwarded (result s) = 7)"
proof -
  let ?p = "plain_pipe Passthrough None"
  have c: "concat (map chunk_of [arrive 5 ''da'', arrive 6 ''ta: 1'']) = ''data: 1''" by (simp add: chunk_of_def arrive_def)
  show ?thesis
    using passthrough_transparent [of ?p no_json 0 "[arrive 5 ''da'', arrive 6 ''ta: 1'']" "\<lparr>sent = [], replies = [1, 1, 3]\<rparr>"]
    unfolding c by (auto simp: plain_pipe_def default_config_def)
qed

text \<open>
  C17.  How the network cuts a stream into chunks does not matter to a converting pipe: the client gets
  the same bytes and the result is the same as if everything had come in one chunk, for every way of
  cutting it (in the middle of events, of delimiters, of UTF-8 sequences), every client and policy.
\<close>

theorem stream_chunking_irrelevant:
  assumes "pipe_mode p \<noteq> Passthrough" and "t - start \<le> total_timeout_ms (config p)" and "cs \<noteq> []"
  shows "shown (run rj p start (map (arrive t) cs) k) = shown (run rj p start [arrive t (concat cs)] k)"
  unfolding run_def by (rule chunks_joined [OF assms])

theorem stream_chunking_irrelevant_witness:
  "shown (run no_json (plain_pipe CrossProtocol None) 0 (map (arrive 5) [''data: [DO'', ''NE]'' @ [CHR 0x0A], [CHR 0x0A]]) fresh_sink) =
   shown (run no_json (plain_pipe CrossProtocol None) 0 [arrive 5 (''data: [DONE]'' @ LF2)] fresh_sink)"
  using stream_chunking_irrelevant [of "plain_pipe CrossProtocol None" 5 0 "[''data: [DO'', ''NE]'' @ [CHR 0x0A], [CHR 0x0A]]" no_json fresh_sink]
  by (simp add: plain_pipe_def default_config_def LF2_def)

section \<open>Deadlines\<close>

lemma late_round_ends:
  assumes "round_start rd - start > total_timeout_ms (config p)"
  shows "pipe_round rj p start rd s = Inr (finish start (round_start rd) (time_out s))"
  using assms by (simp add: pipe_round_def passthrough_round_def transform_round_def)

text \<open>
  The total timeout bounds every run: no run is still going on after a round that starts later
  than that, whatever the provider sends and however long the client takes.
\<close>

theorem stream_total_timeout:
  assumes "rd \<in> set rds" and "round_start rd - start > total_timeout_ms (config p)"
  shows "run rj p start rds k \<noteq> Inr (Running s)"
proof -
  have "run_from rj p start rds s0 \<noteq> Inr (Running s)" for s0
    using assms(1)
  proof (induction rds arbitrary: s0)
    case (Cons rd' rds)
    show ?case
    proof (cases "rd' = rd")
      case True
      then show ?thesis by (simp add: late_round_ends [OF assms(2)] finish_def)
    next
      case False
      then have "run_from rj p start rds s1 \<noteq> Inr (Running s)" for s1 using Cons by auto
      then show ?thesis
        by (cases "pipe_round rj p start rd' s0") (auto split: progress.split)
    qed
  qed simp
  then show ?thesis by (simp add: run_def)
qed

theorem stream_total_timeout_witness:
  "\<forall>s. run no_json (plain_pipe Passthrough None) 0 [arrive 5 ''x'', arrive 300001 ''y''] fresh_sink \<noteq> Inr (Running s)"
  using stream_total_timeout [of "arrive 300001 ''y''" "[arrive 5 ''x'', arrive 300001 ''y'']" "plain_pipe Passthrough None" 0]
  by (simp add: plain_pipe_def default_config_def arrive_def)

section \<open>The error frame\<close>

lemma quote_hex_neq: "n < 16 \<Longrightarrow> quote_hex n \<noteq> CHR 0x0A" "n < 16 \<Longrightarrow> quote_hex n \<noteq> CHR 0x0D"
  by (simp_all add: quote_hex_def nth_Cons' numeral_nat)

lemma quote_char_line: "CHR 0x0A \<notin> set (quote_char c)" "CHR 0x0D \<notin> set (quote_char c)"
proof -
  have "byte_of c div 16 < 16" using byte_of_less [of c] by simp
  then show "CHR 0x0A \<notin> set (quote_char c)" "CHR 0x0D \<notin> set (quote_char c)"
    using quote_hex_neq [of "byte_of c div 16"] quote_hex_neq [of "byte_of c mod 16"]
    by (auto simp: quote_char_def)
qed

lemma json_quote_line: "CHR 0x0A \<notin> set (json_quote s)" "CHR 0x0D \<notin> set (json_quote s)"
  by (auto simp: json_quote_def quote_char_line)

lemma find_LF2_skip: "CHR 0x0A \<notin> set a \<Longrightarrow> find_sub LF2 (a @ s) = map_option ((+) (length a)) (find_sub LF2 s)"
  by (cases "find_sub LF2 s"; induction a) (auto simp: LF2_def starts_with_def)

lemma find_CRLF2_none: "CHR 0x0D \<notin> set s \<Longrightarrow> find_sub CRLF2 s = None"
  by (induction s) (auto simp: CRLF2_def starts_with_def)

lemma one_frame:
  assumes "CHR 0x0A \<notin> set d" and "CHR 0x0D \<notin> set d"
  shows "next_event (d @ LF2) = Some (d @ LF2, [])"
proof -
  have "find_sub LF2 LF2 = Some 0" by (simp add: LF2_def starts_with_def)
  then have "find_sub LF2 (d @ LF2) = Some (length d)" using find_LF2_skip [OF assms(1), of LF2] by simp
  moreover have "find_sub CRLF2 (d @ LF2) = None" using assms(2) by (intro find_CRLF2_none) (auto simp: LF2_def)
  ultimately show ?thesis by (simp add: next_event_def)
qed

lemma two_line_frame:
  assumes "CHR 0x0A \<notin> set a" "CHR 0x0D \<notin> set a" "CHR 0x0A \<notin> set (c # d)" "CHR 0x0D \<notin> set (c # d)"
  shows "next_event (a @ [CHR 0x0A] @ c # d @ LF2) = Some (a @ [CHR 0x0A] @ c # d @ LF2, [])"
proof -
  have "find_sub LF2 LF2 = Some 0" by (simp add: LF2_def starts_with_def)
  then have "find_sub LF2 ((c # d) @ LF2) = Some (Suc (length d))" using find_LF2_skip [OF assms(3), of LF2] by simp
  then have "find_sub LF2 ([CHR 0x0A] @ c # d @ LF2) = Some (Suc (Suc (length d)))"
    using assms(3) by (auto simp: LF2_def starts_with_def split: if_splits)
  then have "find_sub LF2 (a @ [CHR 0x0A] @ c # d @ LF2) = Some (length a + Suc (Suc (length d)))"
    using find_LF2_skip [OF assms(1), of "[CHR 0x0A] @ c # d @ LF2"] by simp
  moreover have "find_sub CRLF2 (a @ [CHR 0x0A] @ c # d @ LF2) = None"
    using assms by (intro find_CRLF2_none) (auto simp: LF2_def)
  ultimately show ?thesis by (simp add: next_event_def)
qed

text \<open>
  Whatever text the policy gives as code and message (quotes, line breaks, control bytes), the
  error event is exactly one server-sent event: a policy server cannot inject further events.
\<close>

theorem policy_error_one_event:
  "next_event (policy_error_event target r) = Some (policy_error_event target r, [])"
proof -
  let ?c = "json_quote (policy_error_code r)" and ?m = "json_quote (policy_message r)"
  have q: "CHR 0x0A \<notin> set ?c" "CHR 0x0D \<notin> set ?c" "CHR 0x0A \<notin> set ?m" "CHR 0x0D \<notin> set ?m"
    by (rule json_quote_line)+
  consider "target = Anthropic" | "target = OpenAIResponses" | "target \<noteq> Anthropic" "target \<noteq> OpenAIResponses" by blast
  then show ?thesis
  proof cases
    case 1
    have \<open>policy_error_event target r = ''event: error'' @ [CHR 0x0A] @ CHR ''d'' #
        (''ata: {"type":"error","error":{"type":'' @ ?c @ '',"message":'' @ ?m @ ''}}'') @ LF2\<close>
      by (simp add: policy_error_event_def 1)
    then show ?thesis by (simp only:) (rule two_line_frame, use q in auto)
  next
    case 2
    have \<open>policy_error_event target r = ''event: response.failed'' @ [CHR 0x0A] @ CHR ''d'' #
        (''ata: {"type":"response.failed","response":{"status":"failed","error":{"code":'' @ ?c @ '',"message":'' @ ?m @ ''}}}'') @ LF2\<close>
      by (simp add: policy_error_event_def 2)
    then show ?thesis by (simp only:) (rule two_line_frame, use q in auto)
  next
    case 3
    then have \<open>policy_error_event target r = (''data: {"error":{"type":'' @ ?c @ '',"message":'' @ ?m @ ''}}'') @ LF2\<close>
      by (simp add: policy_error_event_def)
    then show ?thesis by (simp only:) (rule one_frame, use q in auto)
  qed
qed

section \<open>Exempt events\<close>

lemma write_loop_open: "replies k = [] \<Longrightarrow> write_loop data k = (True, k\<lparr>sent := sent k @ data\<rparr>)"
  by (simp add: write_loop.simps [of data] write_loop.simps [of "[]"] write_once_def)

lemma exempt_delivered:
  assumes "pipe_mode p = Passthrough" and "policy (config p) = Some ask" and "policy_exempt (source_format p) event"
    and "next_event event = Some (event, [])" and "replies k = []" and "t - start \<le> total_timeout_ms (config p)"
  shows "\<exists>s. run rj p start [arrive t event] k = Inr (Running s) \<and> sent (client s) = sent k @ event"
proof -
  define s0 where "s0 = note_data start t (start_state start k)"
  define s1 where "s1 = note_terminal (is_terminal_event rj (source_format p) event)
                     (s0\<lparr>result := extract_usage_from_event rj event (result s0)\<rparr>)"
  have k: "event_accumulator s0 = []" "client s1 = k"
    by (simp_all add: s0_def s1_def start_state_def note_data_def Let_def)
  have a: "apply_policy p event event (result s1) = (True, result s1)" using assms(2,3) by (simp add: apply_policy_def)
  obtain s2 where w: "write_all event s1 = (True, s2)" "client s2 = k\<lparr>sent := sent k @ event\<rparr>"
    using write_loop_open [OF assms(5), of event] by (simp add: write_all_def k)
  have n: "next_event [] = None" by (simp add: next_event_def LF2_def CRLF2_def)
  let ?s3 = "s2\<lparr>last_write_ms := t, event_accumulator := []\<rparr>"
  have "passthrough_events rj p start t event s0 = Running ?s3"
    by (simp add: passthrough_events.simps [of _ _ _ _ event] passthrough_events.simps [of _ _ _ _ "[]"]
      assms(2,4) Let_def s1_def [symmetric] a w(1) n del: note_terminal_result)
  then have "passthrough_round rj p start (arrive t event) (start_state start k) = Running (trim_accumulator (config p) ?s3)"
    using assms(2,6) k by (simp add: passthrough_round_def arrive_def passthrough_data_def s0_def [symmetric])
  then show ?thesis using assms(1) w(2) by (simp add: run_def pipe_round_def)
qed

text \<open>
  C35.  The exemption for \<^verbatim>\<open>[DONE]\<close> is a hole in the policy: an event that merely contains the text
  \<^verbatim>\<open>data: [DONE]\<close>, in its content or anywhere else, reaches the client whole, although the policy
  may refuse everything.
\<close>

theorem policy_bypassed:
  assumes "pipe_mode p = Passthrough" and "policy (config p) = Some ask" and "contains event ''data: [DONE]''"
    and "next_event event = Some (event, [])" and "replies k = []" and "t - start \<le> total_timeout_ms (config p)"
  shows "\<exists>s. run rj p start [arrive t event] k = Inr (Running s) \<and> sent (client s) = sent k @ event"
  using assms by (intro exempt_delivered) (auto simp: policy_exempt_def)

definition refuse_all :: "string \<Rightarrow> StreamPolicyDecision" where
  "refuse_all s = \<lparr>disposition = PolicyBlock, decision_code = [], decision_message = []\<rparr>"

definition smuggled :: string where
  \<open>smuggled = ''data: {"choices":[{"delta":{"content":"the secret, data: [DONE]"}}]}'' @ LF2\<close>

lemma smuggled_facts: "contains smuggled ''data: [DONE]''" "next_event smuggled = Some (smuggled, [])"
proof -
  show "contains smuggled ''data: [DONE]''" by (simp add: smuggled_def contains_def starts_with_def)
  show "next_event smuggled = Some (smuggled, [])" unfolding smuggled_def by (rule one_frame) simp_all
qed

lemma plain_pipe_facts: "pipe_mode (plain_pipe m pol) = m" "policy (config (plain_pipe m pol)) = pol"
  "total_timeout_ms (config (plain_pipe m pol)) = 300000" "\<not> keepalive_enabled (config (plain_pipe m pol))"
  "source_format (plain_pipe m pol) = OpenAIChatCompletions"
  by (simp_all add: plain_pipe_def default_config_def)

theorem policy_bypassed_witness:
  "\<exists>s. run no_json (plain_pipe Passthrough (Some refuse_all)) 0 [arrive 5 smuggled] fresh_sink = Inr (Running s) \<and>
     sent (client s) = smuggled"
  using policy_bypassed [OF plain_pipe_facts(1) plain_pipe_facts(2) [of _ "Some refuse_all"] smuggled_facts, of fresh_sink 5 0 no_json]
  by (simp add: plain_pipe_facts fresh_sink_def)

lemma smuggled_run:
  obtains s where "run no_json (plain_pipe Passthrough (Some refuse_all)) 0 [arrive 5 smuggled] fresh_sink = Inr (Running s)"
  using exempt_delivered [OF plain_pipe_facts(1) plain_pipe_facts(2) [of _ "Some refuse_all"] _ smuggled_facts(2), of fresh_sink 5 0 no_json] smuggled_facts(1)
  by (auto simp: plain_pipe_facts fresh_sink_def policy_exempt_def)


theorem stream_counts_in_range_witness:
  "\<exists>pr. run no_json (plain_pipe Passthrough (Some refuse_all)) 0 [arrive 5 smuggled] fresh_sink = Inr pr \<and>
     counts_ok (result (state_of pr))"
proof -
  obtain s where r: "run no_json (plain_pipe Passthrough (Some refuse_all)) 0 [arrive 5 smuggled] fresh_sink = Inr (Running s)"
    by (rule smuggled_run)
  from stream_counts_in_range [OF r] r show ?thesis by blast
qed

definition closing :: "nat \<Rightarrow> round" where
  "closing t = \<lparr>round_start = t, round_read = Closed, round_now = t\<rparr>"

lemma closed_run: "run no_json (plain_pipe Passthrough None) 0 [closing 5] fresh_sink =
    Inr (finish 0 5 (upstream_closed (start_state 0 fresh_sink)))"
  by (simp add: run_def pipe_round_def plain_pipe_facts passthrough_round_def closing_def finish_def)


text \<open>
  A client that is lost while a keepalive is written leaves the result of a stream without a
  terminal event neither complete nor incomplete; when a data write fails, the same loss is reported
  as incomplete.
\<close>

theorem keepalive_loss_unmarked:
  assumes "pipe_mode p = Passthrough" and "keepalive_enabled (config p)" and "\<not> provider_disconnect_errno e"
    and "keepalive_interval_ms (config p) \<le> now" and "now \<le> first_token_timeout_ms (config p)"
    and "replies k = c # cs" and "c \<le> 0"
  shows "\<exists>s. run rj p 0 [\<lparr>round_start = 0, round_read = ReadError e, round_now = now\<rparr>] k = Inr (Finished s) \<and>
    client_disconnect (result s) \<and> \<not> completed (result s) \<and> \<not> incomplete (result s) \<and> \<not> terminal_event_seen (result s)"
  using assms
  by (simp add: run_def pipe_round_def passthrough_round_def silent_too_long_def inject_keepalive_def
    start_state_def write_once_def finish_def new_result_def)

theorem keepalive_loss_unmarked_witness:
  "\<exists>s. run no_json ((plain_pipe Passthrough None)\<lparr>config := default_config\<rparr>) 0
      [\<lparr>round_start = 0, round_read = ReadError 110, round_now = 20000\<rparr>] \<lparr>sent = [], replies = [-1]\<rparr> = Inr (Finished s) \<and>
    client_disconnect (result s) \<and> \<not> completed (result s) \<and> \<not> incomplete (result s) \<and> \<not> terminal_event_seen (result s)"
  by (rule keepalive_loss_unmarked [where c = "-1" and cs = "[]"])
    (simp_all add: plain_pipe_def default_config_def provider_disconnect_errno_def)

end
