(* ===== verification/Forwarder.thy ===== *)
theory Forwarder
  imports Stream_Pipe Dispatch_Types
begin

text \<open>
  The forwarder (\<^verbatim>\<open>forwarder/forwarder.cpp\<close>) and its pool of HTTP clients
  (\<^verbatim>\<open>forwarder/connection_pool.cpp\<close>): the request sent to the provider, the header filters, the reading
  of a response body or a stream, and the result that the request handler acts on.

  The HTTP client is Photon's.  What it does is the record \<open>transport\<close>: the verb table, the outcome
  of the call, the outcomes of the body reads, the clock, and the moments at which the watcher of
  the client connection has set the cancellation flag.  Headers inserted into a request are kept as
  the sequence of insertions.
\<close>

section \<open>Proxy addresses\<close>

definition url_hex :: "nat \<Rightarrow> char" where
  "url_hex n = ''0123456789ABCDEF'' ! n"

definition url_unreserved :: "char \<Rightarrow> bool" where
  "url_unreserved c \<longleftrightarrow> is_alnum c \<or> c = CHR ''-'' \<or> c = CHR ''_'' \<or> c = CHR ''.'' \<or> c = CHR ''~''"

definition url_encode_char :: "char \<Rightarrow> string" where
  "url_encode_char c =
     (if url_unreserved c then [c]
      else [CHR ''%'', url_hex (byte_of c div 16), url_hex (byte_of c mod 16)])"

definition url_encode_component :: "string \<Rightarrow> string" where
  "url_encode_component value = concat (map url_encode_char value)"

definition build_proxy_auth_url :: "string \<Rightarrow> string \<Rightarrow> string \<Rightarrow> string" where
  "build_proxy_auth_url base_url username password =
     (case find_sub ''://'' base_url of
        None \<Rightarrow> base_url
      | Some scheme_end \<Rightarrow>
          take (scheme_end + 3) base_url @ url_encode_component username @ '':'' @
          url_encode_component password @ ''@'' @ drop (scheme_end + 3) base_url)"

section \<open>Connection pool\<close>

text \<open>A client is a number; \<open>fresh\<close> is what \<^verbatim>\<open>new_http_client\<close> returns.\<close>

record ConnectionPool =
  max_per_host :: nat
  clients :: "(string \<times> nat) list"
  default_client :: "nat option"

definition create_pool :: "nat \<Rightarrow> nat option \<Rightarrow> ConnectionPool" where
  "create_pool n fresh = \<lparr>max_per_host = n, clients = [], default_client = fresh\<rparr>"

definition get_client :: "nat option \<Rightarrow> string \<Rightarrow> ConnectionPool \<Rightarrow> nat option \<times> ConnectionPool" where
  "get_client fresh host pool =
     (case map_of (clients pool) host of
        Some c \<Rightarrow> (Some c, pool)
      | None \<Rightarrow>
          if length (clients pool) \<ge> max_per_host pool then (default_client pool, pool)
          else case fresh of
                 None \<Rightarrow> (default_client pool, pool)
               | Some c \<Rightarrow> (Some c, pool\<lparr>clients := (host, c) # clients pool\<rparr>))"

section \<open>Requests and results\<close>

record ForwardRequest =
  rq_method :: string
  rq_body :: string
  rq_content_type :: string
  rq_accept :: string
  rq_user_agent :: string
  rq_request_id :: string
  rq_idempotency_key :: string
  rq_headers :: headers
  rq_stream :: bool
  rq_stream_source :: Format
  rq_stream_target :: Format
  rq_stream_policy :: "(string \<Rightarrow> StreamPolicyDecision) option"
  rq_has_stream_write :: bool
  rq_has_response_start :: bool
  rq_has_client_disconnected :: bool

record ForwardResult =
  fr_status_code :: int
  fr_stream :: bool
  fr_body :: string
  fr_input_tokens :: int
  fr_output_tokens :: int
  fr_cache_create_tokens :: int
  fr_cache_read_tokens :: int
  fr_first_token_ms :: int
  fr_duration_ms :: int
  fr_client_disconnect :: bool
  fr_stream_incomplete :: bool
  fr_stream_timeout :: bool
  fr_output_started :: bool
  fr_provider_response_received :: bool
  fr_provider_status_code :: int
  fr_malformed_usage :: bool
  fr_policy_blocked :: bool
  fr_policy_failed_closed :: bool
  fr_policy_error_code :: string
  fr_policy_message :: string
  fr_content_type :: string
  fr_response_headers :: headers
  fr_retry_after_ms :: int
  fr_reasoning_tokens :: int
  fr_provider_usage_json :: string
  fr_disconnect_reason :: string
  fr_cancellation_reason :: string
  fr_service_tier :: string
  fr_error :: string

definition new_forward_result :: ForwardResult where
  "new_forward_result = \<lparr>fr_status_code = 0, fr_stream = False, fr_body = [], fr_input_tokens = 0,
     fr_output_tokens = 0, fr_cache_create_tokens = 0, fr_cache_read_tokens = 0, fr_first_token_ms = 0,
     fr_duration_ms = 0, fr_client_disconnect = False, fr_stream_incomplete = False,
     fr_stream_timeout = False, fr_output_started = False, fr_provider_response_received = False,
     fr_provider_status_code = 0, fr_malformed_usage = False, fr_policy_blocked = False,
     fr_policy_failed_closed = False, fr_policy_error_code = [], fr_policy_message = [],
     fr_content_type = [], fr_response_headers = [], fr_retry_after_ms = 0, fr_reasoning_tokens = 0,
     fr_provider_usage_json = [], fr_disconnect_reason = [], fr_cancellation_reason = [],
     fr_service_tier = [], fr_error = []\<rparr>"

record ForwardConfig =
  fc_request_timeout_ms :: nat
  fc_first_token_timeout_ms :: nat
  fc_inter_chunk_timeout_ms :: nat
  fc_total_stream_timeout_ms :: nat
  fc_keepalive_interval_ms :: nat
  fc_read_buf_size :: nat
  fc_write_buf_size :: nat
  fc_max_response_body_size :: nat

definition default_forward_config :: ForwardConfig where
  "default_forward_config = \<lparr>fc_request_timeout_ms = 30000, fc_first_token_timeout_ms = 60000,
     fc_inter_chunk_timeout_ms = 120000, fc_total_stream_timeout_ms = 300000,
     fc_keepalive_interval_ms = 15000, fc_read_buf_size = 64 * 1024, fc_write_buf_size = 64 * 1024,
     fc_max_response_body_size = 64 * 1024 * 1024\<rparr>"

record Forwarder =
  fw_config :: ForwardConfig
  fw_pool :: ConnectionPool

definition create_forwarder :: "ForwardConfig \<Rightarrow> nat option \<Rightarrow> Forwarder" where
  "create_forwarder cfg fresh = \<lparr>fw_config = cfg, fw_pool = create_pool 64 fresh\<rparr>"

section \<open>Media types and headers\<close>

definition media_type :: "string \<Rightarrow> string" where
  "media_type content_type = trim_back is_space (takeWhile (\<lambda>c. c \<noteq> CHR '';'') (lower content_type))"

definition has_invalid_success_payload :: "rapidjson \<Rightarrow> int \<Rightarrow> string \<Rightarrow> string \<Rightarrow> bool" where
  "has_invalid_success_payload rj status content_type payload =
     (if status < 200 \<or> status \<ge> 300 \<or> status = 204 \<or> status = 205 then False
      else if payload = [] then True
      else let mt = media_type content_type
           in if \<not> (mt = ''application/json'' \<or> (length mt > 5 \<and> ends_with mt ''+json'')) then False
              else Parse rj payload = None)"

definition is_event_stream_content_type :: "string \<Rightarrow> bool" where
  "is_event_stream_content_type content_type \<longleftrightarrow>
     trim_front is_space (media_type content_type) = ''text/event-stream''"

definition is_explicit_provider_rejection :: "ForwardResult \<Rightarrow> bool" where
  "is_explicit_provider_rejection r \<longleftrightarrow> fr_provider_response_received r \<and> fr_provider_status_code r \<ge> 400"

definition hop_by_hop :: "string \<Rightarrow> bool" where
  "hop_by_hop name \<longleftrightarrow> lower name \<in> set [''connection'', ''keep-alive'', ''proxy-authenticate'',
     ''proxy-authorization'', ''te'', ''trailer'', ''transfer-encoding'', ''upgrade'']"

definition header_name_char :: "char \<Rightarrow> bool" where
  "header_name_char c \<longleftrightarrow> is_alnum c \<or>
     c \<in> set (''!#$%&'' @ [CHR 0x27] @ ''*+-.^_'' @ [CHR 0x60] @ ''|~'')"

definition reserved_auth_header :: "string \<Rightarrow> bool" where
  "reserved_auth_header key \<longleftrightarrow> hop_by_hop key \<or>
     key \<in> set [''host'', ''content-length'', ''content-type'', ''accept'', ''user-agent'', ''x-request-id'',
       ''idempotency-key'', ''api_key'', ''anthropic_version'', ''anthropic_beta'', ''provider_scenario'']"

text \<open>The loop over the headers, with the lower-case names seen and the bytes counted so far.\<close>

fun auth_headers_ok :: "string list \<Rightarrow> nat \<Rightarrow> headers \<Rightarrow> bool" where
  "auth_headers_ok names total_bytes [] = True"
| "auth_headers_ok names total_bytes ((name, value) # hs) =
     (if name = [] \<or> length name > 64 \<or> value = [] \<or> length value > 4096 then False
      else if \<not> list_all header_name_char name then False
      else if CHR 0x0D \<in> set value \<or> CHR 0x0A \<in> set value \<or> CHR 0x00 \<in> set value then False
      else let key = lower name
           in if key \<in> set names then False
              else if reserved_auth_header key then False
              else let n = total_bytes + length name + length value
                   in if n > 32 * 1024 then False else auth_headers_ok (key # names) n hs)"

definition validate_target_auth_headers :: "headers \<Rightarrow> bool" where
  "validate_target_auth_headers hs \<longleftrightarrow> length hs \<le> 16 \<and> auth_headers_ok [] 0 hs"

definition safe_request_header :: "string \<Rightarrow> bool" where
  "safe_request_header name \<longleftrightarrow> \<not> hop_by_hop name \<and>
     lower name \<in> set [''accept'', ''user-agent'', ''x-request-id'', ''idempotency-key'']"

definition safe_response_header :: "string \<Rightarrow> UpstreamTarget \<Rightarrow> bool" where
  "safe_response_header name target =
     (if hop_by_hop name then False
      else if tgt_allowed_response_headers target = []
      then let key = lower name
           in key \<in> set [''content-type'', ''retry-after'', ''x-request-id'', ''openai-request-id''] \<or>
              starts_with key ''x-ratelimit-'' \<or> starts_with key ''ratelimit-''
      else lower name \<in> set (map lower (tgt_allowed_response_headers target)))"

section \<open>Usage of a complete body\<close>

definition as_int :: "json \<Rightarrow> string \<Rightarrow> int" where
  "as_int obj key =
     (case (if is_object obj then member obj key else None) of
        None \<Rightarrow> 0
      | Some v \<Rightarrow> if is_int v then get_integer v
                  else if is_int64 v then to_int32 (get_integer v)
                  else if is_uint v then to_int32 (get_integer v) else 0)"

text \<open>The first non-zero count of a list of keys.\<close>

fun first_count :: "json \<Rightarrow> string list \<Rightarrow> int" where
  "first_count u [] = 0"
| "first_count u (k # ks) = (if ks = [] \<or> as_int u k \<noteq> 0 then as_int u k else first_count u ks)"

definition detail_count :: "json \<Rightarrow> string \<Rightarrow> string \<Rightarrow> int \<Rightarrow> int" where
  "detail_count u details key acc =
     (case object_at u details of Some d \<Rightarrow> max acc (as_int d key) | None \<Rightarrow> acc)"

definition body_usage :: "json \<Rightarrow> json option" where
  "body_usage doc =
     (case object_at doc ''usage'' of Some u \<Rightarrow> Some u | None \<Rightarrow>
     (case object_at doc ''usageMetadata'' of Some u \<Rightarrow> Some u | None \<Rightarrow> nested_usage doc ''response''))"

definition parse_usage :: "rapidjson \<Rightarrow> string \<Rightarrow> ForwardResult \<Rightarrow> ForwardResult" where
  "parse_usage rj payload r =
     (case parse_object rj payload of
        None \<Rightarrow> r
      | Some doc \<Rightarrow>
          (case body_usage doc of
             None \<Rightarrow> r
           | Some u \<Rightarrow>
               r\<lparr>fr_malformed_usage := usage_has_invalid_counts u,
                 fr_input_tokens := first_count u [''input_tokens'', ''prompt_tokens'', ''promptTokenCount''],
                 fr_output_tokens := first_count u [''output_tokens'', ''completion_tokens'', ''candidatesTokenCount''],
                 fr_cache_create_tokens := as_int u ''cache_creation_input_tokens'',
                 fr_cache_read_tokens :=
                   detail_count u ''input_tokens_details'' ''cached_tokens''
                     (detail_count u ''prompt_tokens_details'' ''cached_tokens''
                       (first_count u [''cache_read_input_tokens'', ''cachedContentTokenCount''])),
                 fr_reasoning_tokens :=
                   detail_count u ''output_tokens_details'' ''reasoning_tokens''
                     (first_count u [''reasoning_tokens'', ''thoughtsTokenCount'']),
                 fr_service_tier := (case string_at doc ''service_tier'' of
                   Some t \<Rightarrow> cstr t | None \<Rightarrow> fr_service_tier r),
                 fr_provider_usage_json := take (1024 * 1024) (Write rj u)\<rparr>))"

section \<open>The request to the provider\<close>

record upstream_call =
  uc_verb :: string
  uc_url :: string
  uc_timeout_us :: nat
  uc_headers :: headers
  uc_body :: "string option"
  uc_proxy :: "string option"

definition upstream_url :: "UpstreamTarget \<Rightarrow> string" where
  "upstream_url target =
     (let url = tgt_base_url target; path = tgt_upstream_path target
      in if path = [] then url
         else (if url \<noteq> [] \<and> last url \<noteq> CHR ''/'' \<and> hd path \<noteq> CHR ''/'' then url @ ''/'' else url) @ path)"

definition optional_header :: "string \<Rightarrow> string \<Rightarrow> headers" where
  "optional_header name value = (if value = [] then [] else [(name, value)])"

definition upstream_headers :: "UpstreamTarget \<Rightarrow> ForwardRequest \<Rightarrow> headers" where
  "upstream_headers target rq =
     tgt_auth_headers target @
     filter (\<lambda>h. \<not> hop_by_hop (fst h)) (tgt_request_headers target) @
     filter (\<lambda>h. safe_request_header (fst h)) (rq_headers rq) @
     optional_header ''Accept'' (rq_accept rq) @
     optional_header ''User-Agent'' (rq_user_agent rq) @
     optional_header ''X-Request-ID'' (rq_request_id rq) @
     optional_header ''Idempotency-Key'' (rq_idempotency_key rq) @
     (if rq_content_type rq \<noteq> [] then [(''Content-Type'', rq_content_type rq)]
      else if rq_body rq \<noteq> [] then [(''Content-Type'', ''application/json'')] else [])"

definition upstream_request :: "(string \<Rightarrow> string option) \<Rightarrow> ForwardConfig \<Rightarrow> UpstreamTarget \<Rightarrow> ForwardRequest \<Rightarrow> upstream_call" where
  "upstream_request string_to_verb cfg target rq =
     \<lparr>uc_verb = (case string_to_verb (if tgt_http_method target = [] then rq_method rq else tgt_http_method target) of
                   Some v \<Rightarrow> v | None \<Rightarrow> ''POST''),
      uc_url = upstream_url target,
      uc_timeout_us = (if rq_stream rq then fc_first_token_timeout_ms cfg else fc_request_timeout_ms cfg) * 1000,
      uc_headers = upstream_headers target rq,
      uc_body = (if rq_body rq = [] then None else Some (rq_body rq)),
      uc_proxy = (if tgt_proxy_url target = [] then None
                  else if tgt_proxy_username target = [] then Some (tgt_proxy_url target)
                  else Some (build_proxy_auth_url (tgt_proxy_url target) (tgt_proxy_username target)
                         (tgt_proxy_password target)))\<rparr>"

section \<open>The answer of the provider\<close>

datatype call_result = CallFailed int | Responded int string headers

record transport =
  string_to_verb :: "string \<Rightarrow> string option"
  new_client :: "nat option"
  call_result :: "upstream_call \<Rightarrow> call_result"
  body_reads :: "read_outcome list"
  body_ms :: int
  stream_started_ms :: nat
  stream_rounds :: "(bool \<times> round) list"
  cancelled_after_call :: bool
  cancelled_after_stream :: bool
  cancelled_at_end :: bool

text \<open>The error bodies of the forwarder.\<close>

definition provider_error_body :: "string \<Rightarrow> string \<Rightarrow> string" where
  \<open>provider_error_body ty msg = ''{"error":{"type":"'' @ ty @ ''","message":"'' @ msg @ ''"}}''\<close>

text \<open>The \<^verbatim>\<open>Retry-After\<close> header in milliseconds: the product is a \<^verbatim>\<open>long\<close>, the result an \<^verbatim>\<open>int\<close>.\<close>

definition retry_after :: "string \<Rightarrow> int \<Rightarrow> rj_error + int" where
  "retry_after value old =
     (case strtol10 (cstr value) of (v, rest) \<Rightarrow>
        if rest = [] \<and> v \<ge> 0
        then if in_int64 (v * 1000) then Inr (to_int32 (v * 1000)) else Inl SignedOverflow
        else Inr old)"

definition note_header :: "UpstreamTarget \<Rightarrow> string \<times> string \<Rightarrow> ForwardResult \<Rightarrow> rj_error + ForwardResult" where
  "note_header target h r =
     (let r1 = (if safe_response_header (fst h) target
                then r\<lparr>fr_response_headers := fr_response_headers r @ [h]\<rparr> else r)
      in if lower (fst h) = ''retry-after''
         then res_bind (retry_after (snd h) (fr_retry_after_ms r1)) (\<lambda>ms. Inr (r1\<lparr>fr_retry_after_ms := ms\<rparr>))
         else Inr r1)"

text \<open>The result after the response head, and whether a stream came with another media type.\<close>

definition response_head :: "UpstreamTarget \<Rightarrow> ForwardRequest \<Rightarrow> int \<Rightarrow> string \<Rightarrow> headers \<Rightarrow> rj_error + ForwardResult \<times> bool" where
  "response_head target rq status content_type hs =
     res_bind (res_fold (note_header target) hs
         (new_forward_result\<lparr>fr_status_code := status, fr_provider_response_received := True,
            fr_provider_status_code := status, fr_content_type := content_type\<rparr>)) (\<lambda>r.
       let bad = (rq_stream rq \<and> status < 400 \<and> \<not> is_event_stream_content_type content_type)
       in Inr (if bad
               then r\<lparr>fr_status_code := 502, fr_content_type := ''application/json'',
                      fr_error := ''streaming upstream response did not use text/event-stream''\<rparr>
               else r, bad))"

datatype body_end = BodyDone string | BodyFailed int | BodyTooLarge | BodyPending

fun read_body :: "nat \<Rightarrow> read_outcome list \<Rightarrow> string \<Rightarrow> body_end" where
  "read_body limit [] payload = BodyPending"
| "read_body limit (ReadError e # rs) payload = BodyFailed e"
| "read_body limit (Closed # rs) payload = BodyDone payload"
| "read_body limit (Data chunk # rs) payload =
     (if length payload + length chunk > limit then BodyTooLarge else read_body limit rs (payload @ chunk))"

text \<open>What the watcher's flag does to a result at the end (\<^verbatim>\<open>apply_transport_cancellation\<close>).\<close>

definition apply_transport_cancellation :: "bool \<Rightarrow> ForwardRequest \<Rightarrow> ForwardResult \<Rightarrow> ForwardResult" where
  "apply_transport_cancellation cancelled rq r =
     (if \<not> cancelled \<or> fr_client_disconnect r then r
      else r\<lparr>fr_status_code := (if fr_output_started r then 502 else 499),
             fr_stream := rq_stream rq, fr_client_disconnect := True, fr_stream_incomplete := True,
             fr_disconnect_reason := ''client_disconnect'',
             fr_cancellation_reason := (if fr_output_started r then ''client_disconnect_after_output''
                else ''client_disconnect_before_output''),
             fr_error := (if fr_output_started r then ''client disconnected before provider stream completion''
                else ''client disconnected before response output'')\<rparr>)"

definition finish_body :: "rapidjson \<Rightarrow> bool \<Rightarrow> int \<Rightarrow> string \<Rightarrow> ForwardResult \<Rightarrow> ForwardResult" where
  "finish_body rj bad ms payload r =
     (let r1 = r\<lparr>fr_duration_ms := to_int32 ms\<rparr>;
          invalid = has_invalid_success_payload rj (fr_status_code r1) (fr_content_type r1) payload;
          r2 = (if invalid
                then r1\<lparr>fr_status_code := 502, fr_content_type := ''application/json'',
                        fr_error := ''provider returned incomplete or invalid JSON''\<rparr>
                else parse_usage rj payload r1);
          body2 = (if invalid then provider_error_body ''provider_protocol_error''
                     ''Provider returned incomplete or invalid JSON'' else payload)
      in r2\<lparr>fr_stream := False,
            fr_body := (if bad then provider_error_body ''provider_protocol_error''
              ''Streaming provider response must use text/event-stream'' else body2)\<rparr>)"

definition body_failed :: "int \<Rightarrow> ForwardResult \<Rightarrow> ForwardResult \<times> string" where
  "body_failed e r =
     (let unavailable = provider_disconnect_errno e
      in (r\<lparr>fr_status_code := (if unavailable then 503 else 502), fr_content_type := ''application/json'',
            fr_error := (if unavailable then ''provider response body connection unavailable''
                         else ''provider response body read failed'')\<rparr>,
          if unavailable
          then provider_error_body ''provider_unavailable''
                 ''Provider connection was unavailable before the response body completed''
          else provider_error_body ''provider_protocol_error''
                 ''Provider response ended before the body was complete''))"

text \<open>The part for complete bodies; \<open>None\<close> while the payload is still being read.\<close>

definition receive_body :: "rapidjson \<Rightarrow> ForwardConfig \<Rightarrow> ForwardRequest \<Rightarrow> transport \<Rightarrow> bool \<Rightarrow> ForwardResult \<Rightarrow> ForwardResult option" where
  "receive_body rj cfg rq tr bad r =
     (let ended = apply_transport_cancellation (cancelled_at_end tr) rq
      in case read_body (fc_max_response_body_size cfg) (body_reads tr) [] of
           BodyPending \<Rightarrow> None
         | BodyTooLarge \<Rightarrow>
             Some (ended (r\<lparr>fr_status_code := 502,
                            fr_error := ''upstream response exceeded configured body limit''\<rparr>))
         | BodyFailed e \<Rightarrow> (case body_failed e r of (r1, payload) \<Rightarrow> Some (ended (finish_body rj bad (body_ms tr) payload r1)))
         | BodyDone payload \<Rightarrow> Some (ended (finish_body rj bad (body_ms tr) payload r)))"

section \<open>Streams\<close>

definition pipe_config :: "ForwardConfig \<Rightarrow> ForwardRequest \<Rightarrow> StreamPipeConfig" where
  "pipe_config cfg rq =
     \<lparr>read_buf_size = fc_read_buf_size cfg, first_token_timeout_ms = fc_first_token_timeout_ms cfg,
      inter_chunk_timeout_ms = fc_inter_chunk_timeout_ms cfg,
      total_timeout_ms = fc_total_stream_timeout_ms cfg,
      keepalive_interval_ms = fc_keepalive_interval_ms cfg, max_policy_event_bytes = 128 * 1024,
      keepalive_enabled = True, policy = rq_stream_policy rq\<rparr>"

text \<open>\<^verbatim>\<open>upstream_read\<close>: once the flag is set, every read fails with \<^verbatim>\<open>ECONNABORTED\<close>.\<close>

definition upstream_read :: "bool \<times> round \<Rightarrow> round" where
  "upstream_read cr = (if fst cr then (snd cr)\<lparr>round_read := ReadError 103\<rparr> else snd cr)"

definition take_stream_result :: "StreamResult \<Rightarrow> ForwardResult \<Rightarrow> ForwardResult" where
  "take_stream_result sr r =
     r\<lparr>fr_stream := True, fr_input_tokens := input_tokens sr, fr_output_tokens := output_tokens sr,
       fr_cache_create_tokens := cache_create_tokens sr, fr_cache_read_tokens := cache_read_tokens sr,
       fr_reasoning_tokens := reasoning_tokens sr, fr_malformed_usage := malformed_usage sr,
       fr_provider_usage_json := provider_usage_json sr, fr_first_token_ms := first_token_ms sr,
       fr_duration_ms := total_duration_ms sr, fr_client_disconnect := client_disconnect sr,
       fr_stream_incomplete := incomplete sr, fr_stream_timeout := timed_out sr,
       fr_policy_blocked := policy_blocked sr, fr_policy_failed_closed := policy_failed_closed sr,
       fr_policy_error_code := policy_error_code sr, fr_policy_message := policy_message sr\<rparr>"

definition note_cancelled :: "bool \<Rightarrow> ForwardResult \<Rightarrow> ForwardResult" where
  "note_cancelled cancelled r =
     (if cancelled then r\<lparr>fr_client_disconnect := True, fr_stream_incomplete := True\<rparr> else r)"

definition refused_by_policy :: "ForwardResult \<Rightarrow> bool" where
  "refused_by_policy r \<longleftrightarrow> fr_policy_blocked r \<or> fr_policy_failed_closed r"

definition settle_policy :: "ForwardResult \<Rightarrow> ForwardResult" where
  "settle_policy r =
     (if \<not> refused_by_policy r then r
      else r\<lparr>fr_status_code := (if fr_policy_blocked r then 400 else 503),
             fr_content_type := ''text/event-stream'',
             fr_disconnect_reason := (if fr_policy_blocked r then ''content_policy_blocked''
                else ''content_policy_unavailable''),
             fr_cancellation_reason := (if fr_policy_blocked r then ''content_policy_blocked''
                else ''content_policy_failed_closed''),
             fr_error := fr_policy_message r\<rparr>)"

definition settle_client :: "ForwardResult \<Rightarrow> ForwardResult" where
  "settle_client r =
     (let r1 = r\<lparr>fr_disconnect_reason := ''client_disconnect'',
                 fr_cancellation_reason := (if fr_output_started r then ''client_disconnect_after_output''
                    else ''client_disconnect_before_output'')\<rparr>
      in if \<not> fr_output_started r
         then r1\<lparr>fr_status_code := 499, fr_error := ''client disconnected before response output''\<rparr>
         else if fr_stream_incomplete r
         then r1\<lparr>fr_status_code := 502, fr_error := ''client disconnected before provider stream completion''\<rparr>
         else r1)"

definition settle_provider :: "ForwardResult \<Rightarrow> ForwardResult" where
  "settle_provider r =
     (let late = fr_stream_timeout r;
          r1 = r\<lparr>fr_status_code := (if late then 502 else 503), fr_content_type := ''application/json'',
                 fr_disconnect_reason := (if late then ''provider_timeout'' else ''provider_disconnect''),
                 fr_cancellation_reason := ''provider_stream_incomplete'',
                 fr_error := (if late then ''provider stream timed out before a terminal event''
                              else ''provider stream ended before a terminal event'')\<rparr>
      in if fr_output_started r then r1
         else r1\<lparr>fr_body := (if late
                then provider_error_body ''provider_protocol_error'' ''Provider stream ended before completion''
                else provider_error_body ''provider_unavailable''
                       ''Provider connection was unavailable before the stream completed'')\<rparr>)"

definition settle_stream :: "ForwardResult \<Rightarrow> ForwardResult" where
  "settle_stream r =
     (let r1 = settle_policy r
      in if refused_by_policy r1 then r1
         else if fr_client_disconnect r1 then settle_client r1
         else if fr_stream_incomplete r1 then settle_provider r1 else r1)"

text \<open>
  The streaming part: the result and what the client got; \<open>None\<close> while the stream goes on.  Output
  has started when a write took bytes, which is when the sink has grown; without a writer of the
  caller the bytes go to a buffer that takes everything and is dropped.
\<close>

definition receive_stream :: "rapidjson \<Rightarrow> ForwardConfig \<Rightarrow> ForwardRequest \<Rightarrow> ProtocolMode \<Rightarrow> transport \<Rightarrow> sink \<Rightarrow> ForwardResult \<Rightarrow> rj_error + (ForwardResult \<times> sink) option" where
  "receive_stream rj cfg rq mode tr k r =
     (let pipe = \<lparr>config = pipe_config cfg rq, pipe_mode = mode, source_format = rq_stream_source rq,
                  target_format = rq_stream_target rq\<rparr>;
          k0 = (if rq_has_stream_write rq then k else \<lparr>sent = [], replies = []\<rparr>)
      in res_bind (run rj pipe (stream_started_ms tr) (map upstream_read (stream_rounds tr)) k0) (\<lambda>pr.
           case pr of
             Running s \<Rightarrow> Inr None
           | Finished s \<Rightarrow>
               let r1 = (take_stream_result (result s) r)\<lparr>fr_output_started := (sent (client s) \<noteq> sent k0)\<rparr>;
                   r2 = settle_stream (note_cancelled (cancelled_after_stream tr) r1)
               in Inr (Some (apply_transport_cancellation (cancelled_at_end tr) rq r2,
                             if rq_has_stream_write rq then client s else k))))"

section \<open>Forwarding\<close>

definition refused_call :: "int \<Rightarrow> string \<Rightarrow> string \<Rightarrow> ForwardResult" where
  "refused_call status err payload = new_forward_result\<lparr>fr_status_code := status, fr_error := err, fr_body := payload\<rparr>"

text \<open>The checks before the call.\<close>

definition precheck :: "UpstreamTarget \<Rightarrow> ForwardResult option" where
  "precheck target =
     (if \<not> validate_target_auth_headers (tgt_auth_headers target)
      then Some (refused_call 502 ''invalid upstream auth header contract''
             (provider_error_body ''provider_protocol_error'' ''Provider authentication contract is invalid''))
      else if tgt_tls_fingerprint target \<and> tgt_tls_fingerprint_profile_id target \<noteq> []
      then Some (refused_call 501 ''TLS fingerprint profile not implemented''
             (provider_error_body ''unsupported'' ''TLS fingerprint profiling is not supported''))
      else if upstream_url target = [] then Some (refused_call 502 ''empty upstream URL'' [])
      else None)"

text \<open>A call without response headers; \<^verbatim>\<open>ETIMEDOUT\<close> is 110.\<close>

definition call_failed :: "bool \<Rightarrow> int \<Rightarrow> ForwardResult" where
  "call_failed cancelled e =
     (if cancelled
      then new_forward_result\<lparr>fr_status_code := 499, fr_stream := True, fr_client_disconnect := True,
             fr_stream_incomplete := True, fr_disconnect_reason := ''client_disconnect'',
             fr_cancellation_reason := ''client_disconnect_before_output'',
             fr_error := ''client disconnected before provider response headers''\<rparr>
      else if e = 110
      then refused_call 502 ''provider response header timed out''
             (provider_error_body ''provider_protocol_error''
                ''Provider did not return response headers before the first-token deadline'')
      else refused_call 503 ''upstream connection unavailable''
             (provider_error_body ''provider_unavailable''
                ''Provider connection was unavailable before a response was received''))"

text \<open>
  What a forwarding does: the result, the call made, the announcements of the response head to the
  caller, and the client's sink; \<open>Waiting\<close> while reads are outstanding.
\<close>

record forwarding =
  fwd_result :: ForwardResult
  fwd_call :: "upstream_call option"
  fwd_starts :: "(int \<times> string \<times> headers) list"
  fwd_sink :: sink

datatype forward_outcome = Returned forwarding | Waiting

text \<open>The watcher runs only for streams whose caller can tell that the client is gone.\<close>

definition watched :: "ForwardRequest \<Rightarrow> bool" where
  "watched rq \<longleftrightarrow> rq_stream rq \<and> rq_has_client_disconnected rq"

definition observe_cancellation :: "ForwardRequest \<Rightarrow> transport \<Rightarrow> transport" where
  "observe_cancellation rq tr =
     (if watched rq then tr
      else tr\<lparr>stream_rounds := map (\<lambda>cr. (False, snd cr)) (stream_rounds tr), cancelled_after_call := False,
              cancelled_after_stream := False, cancelled_at_end := False\<rparr>)"

definition receive :: "rapidjson \<Rightarrow> ForwardConfig \<Rightarrow> UpstreamTarget \<Rightarrow> ForwardRequest \<Rightarrow> ProtocolMode \<Rightarrow> transport \<Rightarrow> sink \<Rightarrow> upstream_call \<Rightarrow> rj_error + forward_outcome" where
  "receive rj cfg target rq mode tr k call =
     (case call_result tr call of
        CallFailed e \<Rightarrow>
          let r = call_failed (cancelled_after_call tr) e
          in Inr (Returned \<lparr>fwd_result = r, fwd_call = Some call,
               fwd_starts = (if \<not> cancelled_after_call tr \<and> rq_stream rq \<and> rq_has_response_start rq
                             then [(fr_status_code r, ''application/json'', [])] else []),
               fwd_sink = k\<rparr>)
      | Responded status content_type hs \<Rightarrow>
          res_bind (response_head target rq status content_type hs) (\<lambda>(r, bad).
            let starts = (if rq_has_response_start rq
                          then [(fr_status_code r, fr_content_type r, fr_response_headers r)] else [])
            in if \<not> rq_stream rq \<or> fr_status_code r \<ge> 400
               then (case receive_body rj cfg rq tr bad r of
                       None \<Rightarrow> Inr Waiting
                     | Some r1 \<Rightarrow> Inr (Returned \<lparr>fwd_result = r1, fwd_call = Some call, fwd_starts = starts, fwd_sink = k\<rparr>))
               else res_bind (receive_stream rj cfg rq mode tr k r) (\<lambda>x.
                      case x of
                        None \<Rightarrow> Inr Waiting
                      | Some (r1, k1) \<Rightarrow>
                          Inr (Returned \<lparr>fwd_result = r1, fwd_call = Some call, fwd_starts = starts, fwd_sink = k1\<rparr>))))"

definition forward :: "rapidjson \<Rightarrow> UpstreamTarget \<Rightarrow> ForwardRequest \<Rightarrow> ProtocolMode \<Rightarrow> transport \<Rightarrow> sink \<Rightarrow> Forwarder \<Rightarrow> rj_error + forward_outcome \<times> Forwarder" where
  "forward rj target rq mode tr k fw =
     (let stop = (\<lambda>r. Returned \<lparr>fwd_result = r, fwd_call = None, fwd_starts = [], fwd_sink = k\<rparr>)
      in case precheck target of
           Some r \<Rightarrow> Inr (stop r, fw)
         | None \<Rightarrow>
             (case get_client (new_client tr) (tgt_base_url target) (fw_pool fw) of
                (None, pool) \<Rightarrow> Inr (stop (refused_call 502 ''HTTP client not available'' []), fw\<lparr>fw_pool := pool\<rparr>)
              | (Some _, pool) \<Rightarrow>
                  res_bind (receive rj (fw_config fw) target rq mode (observe_cancellation rq tr) k
                      (upstream_request (string_to_verb tr) (fw_config fw) target rq)) (\<lambda>out.
                    Inr (out, fw\<lparr>fw_pool := pool\<rparr>))))"

section \<open>Headers\<close>

text \<open>What a header has to satisfy, and what a list of them has to satisfy in addition.\<close>

definition auth_header_ok :: "string \<times> string \<Rightarrow> bool" where
  "auth_header_ok h \<longleftrightarrow> (case h of (name, value) \<Rightarrow>
     name \<noteq> [] \<and> length name \<le> 64 \<and> value \<noteq> [] \<and> length value \<le> 4096 \<and> list_all header_name_char name \<and>
     list_all (\<lambda>c. c \<noteq> CHR 0x0D \<and> c \<noteq> CHR 0x0A \<and> c \<noteq> CHR 0x00) value \<and> \<not> reserved_auth_header (lower name))"

definition header_bytes :: "headers \<Rightarrow> nat" where
  "header_bytes hs = sum_list (map (\<lambda>(name, value). length name + length value) hs)"

lemma auth_headers_ok_iff:
  assumes "n \<le> 32 * 1024"
  shows "auth_headers_ok names n hs \<longleftrightarrow> list_all auth_header_ok hs \<and> distinct (map (\<lambda>h. lower (fst h)) hs) \<and>
     list_all (\<lambda>h. lower (fst h) \<notin> set names) hs \<and> n + header_bytes hs \<le> 32 * 1024"
  using assms
proof (induction hs arbitrary: names n)
  case (Cons h hs)
  obtain name v where h: "h = (name, v)" by (cases h)
  define m where "m = n + length name + length v"
  have hb: "header_bytes (h # hs) = length name + length v + header_bytes hs" by (simp add: h header_bytes_def)
  have IH: "auth_headers_ok (lower name # names) m hs \<longleftrightarrow> list_all auth_header_ok hs \<and> distinct (map (\<lambda>h. lower (fst h)) hs) \<and>
     list_all (\<lambda>h. lower (fst h) \<notin> set (lower name # names)) hs \<and> m + header_bytes hs \<le> 32 * 1024" if "m \<le> 32 * 1024"
    using Cons.IH [OF that] .
  have keys: "list_all (\<lambda>h. lower (fst h) \<notin> set (lower name # names)) hs \<longleftrightarrow>
      lower name \<notin> set (map (\<lambda>h. lower (fst h)) hs) \<and> list_all (\<lambda>h. lower (fst h) \<notin> set names) hs"
    by (induction hs) (auto simp: list_all_iff)
  have val: "list_all (\<lambda>c. c \<noteq> CHR 0x0D \<and> c \<noteq> CHR 0x0A \<and> c \<noteq> CHR 0x00) v \<longleftrightarrow>
      CHR 0x0D \<notin> set v \<and> CHR 0x0A \<notin> set v \<and> CHR 0x00 \<notin> set v" by (auto simp: list_all_iff)
  have ok: "auth_header_ok h \<longleftrightarrow> \<not> (name = [] \<or> length name > 64 \<or> v = [] \<or> length v > 4096) \<and> list_all header_name_char name \<and>
      \<not> (CHR 0x0D \<in> set v \<or> CHR 0x0A \<in> set v \<or> CHR 0x00 \<in> set v) \<and> \<not> reserved_auth_header (lower name)"
    by (auto simp: auth_header_ok_def h val not_less)
  have step: "auth_headers_ok names n (h # hs) \<longleftrightarrow> auth_header_ok h \<and> lower name \<notin> set names \<and> m \<le> 32 * 1024 \<and>
      auth_headers_ok (lower name # names) m hs"
    unfolding ok unfolding h m_def by (simp add: Let_def not_le)
  show ?case unfolding step using IH keys hb by (auto simp: h m_def)
qed (simp add: header_bytes_def)

lemma validate_target_auth_headers_iff:
  "validate_target_auth_headers hs \<longleftrightarrow> length hs \<le> 16 \<and> list_all auth_header_ok hs \<and>
     distinct (map (\<lambda>h. lower (fst h)) hs) \<and> header_bytes hs \<le> 32 * 1024"
  by (simp add: validate_target_auth_headers_def auth_headers_ok_iff list_all_iff)

lemma hop_by_hop_lower [simp]: "hop_by_hop (lower name) = hop_by_hop name"
  by (simp add: hop_by_hop_def)

lemma auth_header_not_hop: "auth_header_ok (name, value) \<Longrightarrow> \<not> hop_by_hop name"
  by (simp add: auth_header_ok_def reserved_auth_header_def)

lemma generated_not_hop: "\<not> hop_by_hop ''Accept''" "\<not> hop_by_hop ''User-Agent''" "\<not> hop_by_hop ''X-Request-ID''"
  "\<not> hop_by_hop ''Idempotency-Key''" "\<not> hop_by_hop ''Content-Type''"
  by (simp_all add: hop_by_hop_def lower_def to_lower_def char_defs)

text \<open>The names the forwarder lets a client choose values for.\<close>

definition client_header_names :: "string list" where
  "client_header_names = [''accept'', ''user-agent'', ''x-request-id'', ''idempotency-key'', ''content-type'']"

lemma optional_header_name: "(n, v) \<in> set (optional_header m x) \<Longrightarrow> n = m"
  by (simp add: optional_header_def split: if_splits)

definition generated_header_names :: "string list" where
  "generated_header_names = [''Accept'', ''User-Agent'', ''X-Request-ID'', ''Idempotency-Key'', ''Content-Type'']"

lemma generated_names: "''Accept'' \<in> set generated_header_names" "''User-Agent'' \<in> set generated_header_names"
  "''X-Request-ID'' \<in> set generated_header_names" "''Idempotency-Key'' \<in> set generated_header_names"
  "''Content-Type'' \<in> set generated_header_names"
  by (simp_all add: generated_header_names_def)

lemma generated_name:
  assumes "n \<in> set generated_header_names"
  shows "lower n \<in> set client_header_names \<and> \<not> hop_by_hop n"
proof -
  have "lower ''Accept'' = ''accept''" "lower ''User-Agent'' = ''user-agent''" "lower ''X-Request-ID'' = ''x-request-id''"
    "lower ''Idempotency-Key'' = ''idempotency-key''" "lower ''Content-Type'' = ''content-type''"
    by (simp_all add: lower_def to_lower_def char_defs char_of_def bit_0)
  with assms generated_not_hop show ?thesis
    by (auto simp: client_header_names_def generated_header_names_def)
qed

lemma upstream_headers_origin:
  assumes "(n, v) \<in> set (upstream_headers target rq)"
  shows "(n, v) \<in> set (tgt_auth_headers target) \<or> (n, v) \<in> set (tgt_request_headers target) \<and> \<not> hop_by_hop n \<or>
     lower n \<in> set client_header_names \<and> \<not> hop_by_hop n"
proof -
  have o: "(n, v) \<in> set (optional_header m x) \<Longrightarrow> m \<in> set generated_header_names \<Longrightarrow> n \<in> set generated_header_names" for m x
    using optional_header_name by metis
  have ct: "(n, v) \<in> set (if rq_content_type rq \<noteq> [] then [(''Content-Type'', rq_content_type rq)]
      else if rq_body rq \<noteq> [] then [(''Content-Type'', ''application/json'')] else []) \<Longrightarrow> n \<in> set generated_header_names"
    using generated_names(5) by (simp split: if_splits)
  have "(n, v) \<in> set (tgt_auth_headers target) \<or> (n, v) \<in> set (tgt_request_headers target) \<and> \<not> hop_by_hop n \<or>
      safe_request_header n \<or> n \<in> set generated_header_names"
    using assms o generated_names ct unfolding upstream_headers_def set_append set_filter Un_iff mem_Collect_eq fst_conv
    by blast
  then show ?thesis
    using generated_name by (auto simp: safe_request_header_def client_header_names_def)
qed

section \<open>Cases of a forwarding\<close>

lemma receive_cases:
  assumes "receive rj cfg target rq mode tr k call = Inr (Returned f)"
  obtains
    (failed) c e where "call_result tr call = CallFailed e" "fwd_result f = call_failed c e" "fwd_sink f = k" "fwd_call f = Some call"
  | (complete) status ct hs r bad where "call_result tr call = Responded status ct hs"
      "response_head target rq status ct hs = Inr (r, bad)" "\<not> rq_stream rq \<or> fr_status_code r \<ge> 400"
      "receive_body rj cfg rq tr bad r = Some (fwd_result f)" "fwd_call f = Some call"
  | (streamed) status ct hs r bad where "call_result tr call = Responded status ct hs"
      "response_head target rq status ct hs = Inr (r, bad)" "rq_stream rq" "fr_status_code r < 400"
      "receive_stream rj cfg rq mode tr k r = Inr (Some (fwd_result f, fwd_sink f))" "fwd_call f = Some call"
proof (cases "call_result tr call")
  case (CallFailed e)
  with assms have "fwd_result f = call_failed (cancelled_after_call tr) e" "fwd_sink f = k" "fwd_call f = Some call"
    by (auto simp: receive_def Let_def)
  then show ?thesis by (rule failed [OF CallFailed])
next
  case (Responded status ct hs)
  with assms obtain r bad where h: "response_head target rq status ct hs = Inr (r, bad)"
    by (auto simp: receive_def res_bind_Inr_iff)
  show ?thesis
  proof (cases "\<not> rq_stream rq \<or> fr_status_code r \<ge> 400")
    case True
    obtain x where x: "receive_body rj cfg rq tr bad r = Some x" "fwd_result f = x" "fwd_call f = Some call"
      using assms Responded h True by (cases "receive_body rj cfg rq tr bad r") (auto simp: receive_def Let_def)
    then show ?thesis using complete [OF Responded h True] by simp
  next
    case False
    then have s: "rq_stream rq" "fr_status_code r < 400" by auto
    obtain x where r: "receive_stream rj cfg rq mode tr k r = Inr x"
      using assms Responded h False by (auto simp: receive_def Let_def res_bind_Inr_iff)
    then obtain r1 k1 where "x = Some (r1, k1)" "fwd_result f = r1" "fwd_sink f = k1" "fwd_call f = Some call"
      using assms Responded h False by (cases x) (auto simp: receive_def Let_def)
    then show ?thesis using streamed [OF Responded h s] r by simp
  qed
qed

lemma refusal_ex: "500 \<le> c \<Longrightarrow> \<exists>status. (\<exists>err payload. refused_call c e b = refused_call status err payload) \<and> 500 \<le> status"
  by blast

lemma forward_cases:
  assumes "forward rj target rq mode tr k fw = Inr (Returned f, fw')"
  obtains
    (refused) status err payload where "fwd_call f = None" "fwd_result f = refused_call status err payload" "status \<ge> 500"
      "fwd_starts f = []" "fwd_sink f = k"
  | (called) call where "validate_target_auth_headers (tgt_auth_headers target)" "fwd_call f = Some call"
      "call = upstream_request (string_to_verb tr) (fw_config fw) target rq"
      "receive rj (fw_config fw) target rq mode (observe_cancellation rq tr) k call = Inr (Returned f)"
proof (cases "precheck target")
  case (Some r)
  then have "\<exists>status. (\<exists>err payload. r = refused_call status err payload) \<and> 500 \<le> status"
    by (auto simp: precheck_def split: if_splits intro: refusal_ex)
  then obtain status err payload where "r = refused_call status err payload" "500 \<le> status" by blast
  moreover have "f = \<lparr>fwd_result = r, fwd_call = None, fwd_starts = [], fwd_sink = k\<rparr>"
    using assms Some by (auto simp: forward_def)
  ultimately show ?thesis using refused by simp
next
  case None
  then have v: "validate_target_auth_headers (tgt_auth_headers target)" by (auto simp: precheck_def split: if_splits)
  obtain c pool where c: "get_client (new_client tr) (tgt_base_url target) (fw_pool fw) = (c, pool)" by fastforce
  show ?thesis
  proof (cases c)
    case n: None
    then have "f = \<lparr>fwd_result = refused_call 502 ''HTTP client not available'' [], fwd_call = None, fwd_starts = [], fwd_sink = k\<rparr>"
      using assms None c by (auto simp: forward_def)
    then show ?thesis using refused by simp
  next
    case (Some cl)
    let ?call = "upstream_request (string_to_verb tr) (fw_config fw) target rq"
    have r: "receive rj (fw_config fw) target rq mode (observe_cancellation rq tr) k ?call = Inr (Returned f)"
      using assms None c Some by (auto simp: forward_def res_bind_Inr_iff)
    then have "fwd_call f = Some ?call" by (cases rule: receive_cases)
    then show ?thesis by (rule called [OF v _ refl r])
  qed
qed

text \<open>
  C28.  The credentials of a provider and the headers of a client are kept apart: of the headers a
  client sends, only those with one of five harmless names can reach the provider; everything else
  in the request comes from the platform's target.  No hop-by-hop header is sent, and no
  authentication header holds a line break or a NUL byte.
\<close>

theorem provider_headers_safe:
  assumes "forward rj target rq mode tr k fw = Inr (Returned f, fw')" and "fwd_call f = Some call"
    and "(n, v) \<in> set (uc_headers call)"
  shows "\<not> hop_by_hop n \<and>
    (lower n \<in> set client_header_names \<or> (n, v) \<in> set (tgt_request_headers target) \<or>
     (n, v) \<in> set (tgt_auth_headers target) \<and> auth_header_ok (n, v))"
  using assms(1)
proof (cases rule: forward_cases)
  case (called call')
  then have o: "(n, v) \<in> set (upstream_headers target rq)" using assms(2,3) by (simp add: upstream_request_def)
  have "list_all auth_header_ok (tgt_auth_headers target)"
    using called(1) by (simp add: validate_target_auth_headers_iff)
  then show ?thesis
    using upstream_headers_origin [OF o] auth_header_not_hop [of n v] by (auto simp: list_all_iff)
qed (use assms(2) in simp)

section \<open>Response headers\<close>

definition filtered_headers :: "UpstreamTarget \<Rightarrow> headers \<Rightarrow> headers" where
  "filtered_headers target hs = filter (\<lambda>h. safe_response_header (fst h) target) hs"

lemma note_headers_filter:
  "res_fold (note_header target) hs r = Inr r' \<Longrightarrow>
     \<exists>ms. r' = r\<lparr>fr_response_headers := fr_response_headers r @ filtered_headers target hs, fr_retry_after_ms := ms\<rparr>"
proof (induction hs arbitrary: r)
  case Nil
  then show ?case by (auto simp: filtered_headers_def intro!: exI [of _ "fr_retry_after_ms r"])
next
  case (Cons h hs)
  from Cons.prems obtain r1 where 1: "note_header target h r = Inr r1" and 2: "res_fold (note_header target) hs r1 = Inr r'"
    by (auto simp: res_bind_Inr_iff)
  from 1 have "\<exists>ms. r1 = r\<lparr>fr_response_headers := fr_response_headers r @ filtered_headers target [h], fr_retry_after_ms := ms\<rparr>"
    by (cases r) (auto simp: note_header_def filtered_headers_def Let_def res_bind_Inr_iff split: if_splits)
  with Cons.IH [OF 2] show ?case by (auto simp: filtered_headers_def)
qed

text \<open>What the head of a response makes of a result.\<close>

lemma response_head_result:
  assumes "response_head target rq status ct hs = Inr (r, bad)"
  shows "\<exists>ms st c e. r = new_forward_result\<lparr>fr_status_code := st, fr_provider_response_received := True,
            fr_provider_status_code := status, fr_content_type := c, fr_response_headers := filtered_headers target hs,
            fr_retry_after_ms := ms, fr_error := e\<rparr> \<and> st = (if bad then 502 else status)"
proof -
  let ?r0 = "new_forward_result\<lparr>fr_status_code := status, fr_provider_response_received := True,
            fr_provider_status_code := status, fr_content_type := ct\<rparr>"
  obtain r1 where 1: "res_fold (note_header target) hs ?r0 = Inr r1"
    and r: "r = (if bad then r1\<lparr>fr_status_code := 502, fr_content_type := ''application/json'',
                      fr_error := ''streaming upstream response did not use text/event-stream''\<rparr> else r1)"
    using assms by (auto simp: response_head_def res_bind_Inr_iff Let_def split: if_splits)
  obtain ms where "r1 = ?r0\<lparr>fr_response_headers := filtered_headers target hs, fr_retry_after_ms := ms\<rparr>"
    using note_headers_filter [OF 1] by (auto simp: new_forward_result_def)
  then show ?thesis using r by (cases bad) (auto simp: new_forward_result_def)
qed

lemma response_head_facts:
  assumes "response_head target rq status ct hs = Inr (r, bad)"
  shows "fr_response_headers r = filtered_headers target hs" "\<not> fr_stream_incomplete r" "\<not> fr_client_disconnect r"
    "\<not> fr_malformed_usage r" "\<not> fr_output_started r" "\<not> refused_by_policy r"
    "bad \<Longrightarrow> fr_status_code r = 502" "\<not> bad \<Longrightarrow> fr_status_code r = status"
  using response_head_result [OF assms] by (auto simp: new_forward_result_def refused_by_policy_def)

lemma parse_usage_keeps:
  "fr_response_headers (parse_usage rj b r) = fr_response_headers r"
  "fr_status_code (parse_usage rj b r) = fr_status_code r" "fr_content_type (parse_usage rj b r) = fr_content_type r"
  "fr_stream_incomplete (parse_usage rj b r) = fr_stream_incomplete r"
  "fr_client_disconnect (parse_usage rj b r) = fr_client_disconnect r"
  "fr_policy_blocked (parse_usage rj b r) = fr_policy_blocked r"
  "fr_policy_failed_closed (parse_usage rj b r) = fr_policy_failed_closed r"
  "fr_output_started (parse_usage rj b r) = fr_output_started r"
  by (simp_all add: parse_usage_def split: option.split)

lemma cancellation_keeps [simp]: "fr_response_headers (apply_transport_cancellation c rq r) = fr_response_headers r"
  by (simp add: apply_transport_cancellation_def)

lemma finish_body_headers [simp]: "fr_response_headers (finish_body rj bad ms b r) = fr_response_headers r"
  by (simp add: finish_body_def Let_def parse_usage_keeps)

lemma finish_body_fields:
  "fr_status_code (finish_body rj bad ms b r) =
     (if has_invalid_success_payload rj (fr_status_code r) (fr_content_type r) b then 502 else fr_status_code r)"
  "\<not> has_invalid_success_payload rj (fr_status_code r) (fr_content_type r) b \<Longrightarrow>
     fr_content_type (finish_body rj bad ms b r) = fr_content_type r"
  "\<not> has_invalid_success_payload rj (fr_status_code r) (fr_content_type r) b \<Longrightarrow> \<not> bad \<Longrightarrow>
     fr_body (finish_body rj bad ms b r) = b"
  "fr_stream (finish_body rj bad ms b r) = False"
  "fr_stream_incomplete (finish_body rj bad ms b r) = fr_stream_incomplete r"
  "fr_client_disconnect (finish_body rj bad ms b r) = fr_client_disconnect r"
  "fr_output_started (finish_body rj bad ms b r) = fr_output_started r"
  "refused_by_policy (finish_body rj bad ms b r) = refused_by_policy r"
  by (simp_all add: finish_body_def Let_def parse_usage_keeps refused_by_policy_def)

lemma body_failed_fields: "body_failed e r = (r1, b) \<Longrightarrow> (fr_status_code r1 = 502 \<or> fr_status_code r1 = 503) \<and>
    fr_stream_incomplete r1 = fr_stream_incomplete r \<and> fr_client_disconnect r1 = fr_client_disconnect r \<and>
    fr_output_started r1 = fr_output_started r \<and> refused_by_policy r1 = refused_by_policy r \<and>
    fr_response_headers r1 = fr_response_headers r \<and> fr_malformed_usage r1 = fr_malformed_usage r"
  by (auto simp: body_failed_def Let_def refused_by_policy_def)

lemma uncancelled: "fr_status_code (apply_transport_cancellation c rq r) < 400 \<Longrightarrow> apply_transport_cancellation c rq r = r"
  by (auto simp: apply_transport_cancellation_def split: if_splits)

lemma receive_body_cases:
  assumes "receive_body rj cfg rq tr bad r = Some r'"
  obtains
    (large) "r' = apply_transport_cancellation (cancelled_at_end tr) rq
       (r\<lparr>fr_status_code := 502, fr_error := ''upstream response exceeded configured body limit''\<rparr>)"
  | (failed) e r1 b where "body_failed e r = (r1, b)"
      "r' = apply_transport_cancellation (cancelled_at_end tr) rq (finish_body rj bad (body_ms tr) b r1)"
  | (complete) b where "read_body (fc_max_response_body_size cfg) (body_reads tr) [] = BodyDone b"
      "r' = apply_transport_cancellation (cancelled_at_end tr) rq (finish_body rj bad (body_ms tr) b r)"
  using assms
  by (cases "read_body (fc_max_response_body_size cfg) (body_reads tr) []")
    (auto simp: receive_body_def Let_def intro: that split: prod.splits)

lemma receive_stream_cases:
  assumes "receive_stream rj cfg rq mode tr k r = Inr (Some (r', k'))"
  obtains s p k0 c b where "run rj p (stream_started_ms tr) (map upstream_read (stream_rounds tr)) k0 = Inr (Finished s)"
    "r' = apply_transport_cancellation (cancelled_at_end tr) rq (settle_stream (note_cancelled c
       ((take_stream_result (result s) r)\<lparr>fr_output_started := b\<rparr>)))"
proof -
  let ?k0 = "if rq_has_stream_write rq then k else \<lparr>sent = [], replies = []\<rparr>"
  let ?p = "\<lparr>config = pipe_config cfg rq, pipe_mode = mode, source_format = rq_stream_source rq, target_format = rq_stream_target rq\<rparr>"
  obtain pr where r: "run rj ?p (stream_started_ms tr) (map upstream_read (stream_rounds tr)) ?k0 = Inr pr"
    using assms by (auto simp: receive_stream_def Let_def res_bind_Inr_iff)
  then show ?thesis
  proof (cases pr)
    case (Running s)
    then show ?thesis using assms r by (simp add: receive_stream_def Let_def)
  next
    case (Finished s)
    show ?thesis
      by (rule that [OF r [unfolded Finished]], use assms r Finished in \<open>auto simp: receive_stream_def Let_def\<close>)
  qed
qed

lemma settle_keeps [simp]: "fr_response_headers (settle_stream r) = fr_response_headers r" "fr_stream (settle_stream r) = fr_stream r"
  by (simp_all add: settle_stream_def settle_policy_def settle_client_def settle_provider_def Let_def)

text \<open>
  The provider's headers that reach the client are exactly those the filter lets through, in
  order: never a hop-by-hop header, and without an allow list of the target only the documented
  rate-limit, request-id, retry and media-type headers (so no cookies).
\<close>

theorem response_headers_filtered:
  assumes "forward rj target rq mode tr k fw = Inr (Returned f, fw')" and "fwd_call f = Some call"
    and "call_result tr call = Responded status ct hs"
  shows "fr_response_headers (fwd_result f) = filtered_headers target hs \<and>
    list_all (\<lambda>h. \<not> hop_by_hop (fst h)) (fr_response_headers (fwd_result f))"
proof -
  have "fr_response_headers (fwd_result f) = filtered_headers target hs"
    using assms(1)
  proof (cases rule: forward_cases)
    case (called call')
    have c: "call_result (observe_cancellation rq tr) call' = Responded status ct hs"
      using called assms(2,3) by (simp add: observe_cancellation_def)
    from called(4) show ?thesis
    proof (cases rule: receive_cases)
      case (failed c e)
      then show ?thesis using c by simp
    next
      case (complete status' ct' hs' r bad)
      note h = response_head_facts(1) [OF complete(2)]
      from complete(4) show ?thesis
        by (cases rule: receive_body_cases) (use h complete(1) c in \<open>auto simp: body_failed_def Let_def\<close>)
    next
      case (streamed status' ct' hs' r bad)
      note h = response_head_facts(1) [OF streamed(2)]
      from streamed(5) show ?thesis
        by (cases rule: receive_stream_cases)
          (use h streamed(1) c in \<open>simp add: take_stream_result_def note_cancelled_def\<close>)
    qed
  qed (use assms(2) in simp)
  then show ?thesis by (auto simp: filtered_headers_def safe_response_header_def list_all_iff split: if_splits)
qed

section \<open>Complete answers\<close>

text \<open>
  C29.  A success that is not a stream is a complete one: with a status from 200 to 299 that carries
  a payload, the body is not empty and, when the provider declared JSON, it parses.  A truncated or
  oversized body never comes out as a success.
\<close>

theorem success_payload_complete:
  assumes "forward rj target rq mode tr k fw = Inr (Returned f, fw')" and "fwd_result f = r" and "\<not> fr_stream r"
    and "200 \<le> fr_status_code r" and "fr_status_code r < 300" and "fr_status_code r \<noteq> 204" and "fr_status_code r \<noteq> 205"
  shows "fr_body r \<noteq> [] \<and> (media_type (fr_content_type r) = ''application/json'' \<longrightarrow> Parse rj (fr_body r) \<noteq> None)"
  using assms(1)
proof (cases rule: forward_cases)
  case (called call)
  from called(4) show ?thesis
  proof (cases rule: receive_cases)
    case (failed c e)
    then show ?thesis using assms by (auto simp: call_failed_def refused_call_def new_forward_result_def split: if_splits)
  next
    case (complete status ct hs r0 bad)
    let ?c = "apply_transport_cancellation (cancelled_at_end (observe_cancellation rq tr)) rq"
    have u: "r = x" if "r = ?c x" for x using that assms(5) uncancelled by simp
    from complete(4) [unfolded assms(2)] show ?thesis
    proof (cases rule: receive_body_cases)
      case large
      then show ?thesis using assms(5) u by fastforce
    next
      case (failed e r1 b)
      then show ?thesis
        using assms(5) u [OF failed(2)] body_failed_fields [OF failed(1)] by (auto simp: finish_body_fields split: if_splits)
    next
      case (complete b)
      note r = u [OF complete(2)]
      then have "\<not> has_invalid_success_payload rj (fr_status_code r0) (fr_content_type r0) b" "\<not> bad"
        using assms(4,5) response_head_facts(7) [OF \<open>response_head target rq status ct hs = Inr (r0, bad)\<close>]
        by (auto simp: finish_body_fields split: if_splits)
      then show ?thesis
        using r assms(4-7) by (auto simp: finish_body_fields has_invalid_success_payload_def split: if_splits)
    qed
  next
    case (streamed status ct hs r0 bad)
    from streamed(5) [unfolded assms(2)] obtain s :: pipe_state and c b where r:
      "r = apply_transport_cancellation (cancelled_at_end (observe_cancellation rq tr)) rq (settle_stream (note_cancelled c
       ((take_stream_result (result s) r0)\<lparr>fr_output_started := b\<rparr>)))"
      by (rule receive_stream_cases) blast
    then have "r = settle_stream (note_cancelled c ((take_stream_result (result s) r0)\<lparr>fr_output_started := b\<rparr>))"
      using uncancelled assms(5) by simp
    then have "fr_stream r" by (simp add: note_cancelled_def take_stream_result_def)
    then show ?thesis using assms(3) by simp
  qed
qed (use assms in \<open>auto simp: refused_call_def new_forward_result_def\<close>)

section \<open>Failures are visible\<close>

definition failure_visible :: "ForwardResult \<Rightarrow> bool" where
  "failure_visible r \<longleftrightarrow>
     (fr_stream_incomplete r \<or> refused_by_policy r \<longrightarrow> 400 \<le> fr_status_code r) \<and>
     (fr_client_disconnect r \<and> \<not> fr_output_started r \<and> \<not> refused_by_policy r \<longrightarrow> fr_status_code r = 499)"

lemma cancellation_visible:
  "failure_visible r \<Longrightarrow> failure_visible (apply_transport_cancellation c rq r)"
  by (auto simp: apply_transport_cancellation_def failure_visible_def)

lemma settle_policy_flags [simp]:
  "fr_client_disconnect (settle_policy r) = fr_client_disconnect r" "fr_stream_incomplete (settle_policy r) = fr_stream_incomplete r"
  "fr_output_started (settle_policy r) = fr_output_started r" "refused_by_policy (settle_policy r) = refused_by_policy r"
  by (simp_all add: settle_policy_def refused_by_policy_def)

lemma settle_client_flags [simp]:
  "fr_client_disconnect (settle_client r) = fr_client_disconnect r" "fr_stream_incomplete (settle_client r) = fr_stream_incomplete r"
  "fr_output_started (settle_client r) = fr_output_started r" "refused_by_policy (settle_client r) = refused_by_policy r"
  by (simp_all add: settle_client_def refused_by_policy_def Let_def)

lemma settle_provider_flags [simp]:
  "fr_client_disconnect (settle_provider r) = fr_client_disconnect r" "fr_stream_incomplete (settle_provider r) = fr_stream_incomplete r"
  "fr_output_started (settle_provider r) = fr_output_started r" "refused_by_policy (settle_provider r) = refused_by_policy r"
  by (simp_all add: settle_provider_def refused_by_policy_def Let_def)

lemma settle_stream_visible: "failure_visible (settle_stream r)"
proof -
  have "refused_by_policy r \<Longrightarrow> 400 \<le> fr_status_code (settle_policy r)"
    by (auto simp: settle_policy_def)
  moreover have "fr_stream_incomplete x \<Longrightarrow> 400 \<le> fr_status_code (settle_client x)"
    "\<not> fr_output_started x \<Longrightarrow> fr_status_code (settle_client x) = 499"
    "400 \<le> fr_status_code (settle_provider x)" for x
    by (simp_all add: settle_client_def settle_provider_def Let_def)
  ultimately show ?thesis
    by (auto simp: settle_stream_def failure_visible_def Let_def)
qed

text \<open>
  No failed forwarding looks like a success: an incomplete stream and one stopped by the policy
  have an error status, and a client lost before any output gives the status 499 (unless the policy
  had already stopped the stream).
\<close>

theorem forward_failure_visible:
  assumes "forward rj target rq mode tr k fw = Inr (Returned f, fw')"
  shows "failure_visible (fwd_result f)"
  using assms
proof (cases rule: forward_cases)
  case (called call)
  from called(4) show ?thesis
  proof (cases rule: receive_cases)
    case (failed c e)
    then show ?thesis
      by (auto simp: call_failed_def refused_call_def new_forward_result_def failure_visible_def refused_by_policy_def)
  next
    case (complete status ct hs r bad)
    note h = response_head_facts [OF complete(2)]
    from complete(4) show ?thesis
    proof (cases rule: receive_body_cases)
      case large
      show ?thesis unfolding large
        by (rule cancellation_visible) (use h in \<open>simp add: failure_visible_def refused_by_policy_def\<close>)
    next
      case (failed e r1 b)
      show ?thesis unfolding failed(2)
        by (rule cancellation_visible)
          (use h body_failed_fields [OF failed(1)] in \<open>simp add: failure_visible_def finish_body_fields\<close>)
    next
      case (complete b)
      show ?thesis unfolding complete(2)
        by (rule cancellation_visible) (use h in \<open>simp add: failure_visible_def finish_body_fields\<close>)
    qed
  next
    case (streamed status ct hs r bad)
    from streamed(5) show ?thesis
      by (cases rule: receive_stream_cases) (simp add: cancellation_visible settle_stream_visible)
  qed
qed (simp add: refused_call_def new_forward_result_def failure_visible_def refused_by_policy_def)

section \<open>Counts\<close>

definition result_counts_ok :: "ForwardResult \<Rightarrow> bool" where
  "result_counts_ok r \<longleftrightarrow> in_range (fr_input_tokens r) \<and> in_range (fr_output_tokens r) \<and>
     in_range (fr_cache_create_tokens r) \<and> in_range (fr_cache_read_tokens r) \<and> in_range (fr_reasoning_tokens r)"

lemma valid_count_in_range:
  assumes "is_object obj" and "\<not> invalid_at obj k"
  shows "in_range (as_int obj k)"
proof (cases "member obj k")
  case (Some v)
  then have "valid_usage_count v" using assms(2) by (simp add: invalid_at_def)
  then show ?thesis using Some assms(1)
    by (cases v) (auto simp: as_int_def valid_usage_count_def in_range_def int_bounds split: if_splits)
qed (simp add: as_int_def in_range_def int32_max_def)

lemma first_count_in_range:
  "is_object u \<Longrightarrow> list_all (\<lambda>k. \<not> invalid_at u k) ks \<Longrightarrow> in_range (first_count u ks)"
proof (induction ks)
  case (Cons k ks)
  then show ?case using valid_count_in_range [of u k] by auto
qed (simp add: in_range_def int32_max_def)

lemma detail_count_in_range:
  assumes "\<not> invalid_details u details" and "key \<in> {''cached_tokens'', ''reasoning_tokens''}" and "in_range acc"
  shows "in_range (detail_count u details key acc)"
proof (cases "object_at u details")
  case (Some d)
  then have "member u details = Some d" "is_object d" by (auto simp: object_at_Some_iff)
  moreover have "\<not> invalid_at d key" using assms(1,2) calculation by (auto simp: invalid_details_def)
  ultimately have "in_range (as_int d key)" using valid_count_in_range by blast
  then show ?thesis using Some assms(3) by (auto simp: detail_count_def in_range_def)
qed (use assms(3) in \<open>simp add: detail_count_def\<close>)

lemma body_usage_object: "body_usage doc = Some u \<Longrightarrow> is_object u"
  by (auto simp: body_usage_def nested_usage_def object_at_Some_iff split: option.splits)

lemma parse_usage_counts:
  assumes "result_counts_ok r" and "\<not> fr_malformed_usage (parse_usage rj b r)"
  shows "result_counts_ok (parse_usage rj b r)"
proof (cases "parse_object rj b")
  case (Some doc)
  show ?thesis
  proof (cases "body_usage doc")
    case u: (Some u)
    then have obj: "is_object u" by (rule body_usage_object)
    have "\<not> usage_has_invalid_counts u" using assms(2) Some u by (simp add: parse_usage_def)
    then have f: "\<not> invalid_at u k" if "k \<in> set count_fields" for k
      using that by (auto simp: usage_has_invalid_counts_def list_ex_iff)
    have d: "\<not> invalid_details u ''prompt_tokens_details''" "\<not> invalid_details u ''input_tokens_details''"
        "\<not> invalid_details u ''output_tokens_details''"
      using \<open>\<not> usage_has_invalid_counts u\<close> by (auto simp: usage_has_invalid_counts_def)
    have c: "in_range (first_count u ks)" if "set ks \<subseteq> set count_fields" for ks
      using that f by (intro first_count_in_range [OF obj]) (auto simp: list_all_iff)
    have "in_range (as_int u ''cache_creation_input_tokens'')"
      by (rule valid_count_in_range [OF obj f]) (simp add: count_fields_def)
    moreover have "in_range (first_count u [''input_tokens'', ''prompt_tokens'', ''promptTokenCount''])"
      "in_range (first_count u [''output_tokens'', ''completion_tokens'', ''candidatesTokenCount''])"
      "in_range (first_count u [''cache_read_input_tokens'', ''cachedContentTokenCount''])"
      "in_range (first_count u [''reasoning_tokens'', ''thoughtsTokenCount''])"
      by (rule c, simp add: count_fields_def)+
    ultimately show ?thesis
      using detail_count_in_range [OF d(2)] detail_count_in_range [OF d(1)] detail_count_in_range [OF d(3)]
      by (simp add: parse_usage_def Some u result_counts_ok_def del: first_count.simps)
  qed (use assms(1) Some in \<open>simp add: parse_usage_def\<close>)
qed (use assms(1) in \<open>simp add: parse_usage_def\<close>)


lemma counts_other [simp]:
  "result_counts_ok (r\<lparr>fr_status_code := a\<rparr>) = result_counts_ok r" "result_counts_ok (r\<lparr>fr_stream := b\<rparr>) = result_counts_ok r"
  "result_counts_ok (r\<lparr>fr_body := c\<rparr>) = result_counts_ok r" "result_counts_ok (r\<lparr>fr_error := c\<rparr>) = result_counts_ok r"
  "result_counts_ok (r\<lparr>fr_content_type := c\<rparr>) = result_counts_ok r" "result_counts_ok (r\<lparr>fr_duration_ms := a\<rparr>) = result_counts_ok r"
  "result_counts_ok (r\<lparr>fr_client_disconnect := b\<rparr>) = result_counts_ok r" "result_counts_ok (r\<lparr>fr_stream_incomplete := b\<rparr>) = result_counts_ok r"
  "result_counts_ok (r\<lparr>fr_disconnect_reason := c\<rparr>) = result_counts_ok r" "result_counts_ok (r\<lparr>fr_cancellation_reason := c\<rparr>) = result_counts_ok r"
  "result_counts_ok (r\<lparr>fr_output_started := b\<rparr>) = result_counts_ok r"
  by (simp_all add: result_counts_ok_def)

lemma new_result_counts: "result_counts_ok new_forward_result" "\<not> fr_malformed_usage new_forward_result"
  by (simp_all add: result_counts_ok_def new_forward_result_def in_range_def int32_max_def)

lemma response_head_counts: "response_head target rq status ct hs = Inr (r, bad) \<Longrightarrow> result_counts_ok r"
  using response_head_result [of target rq status ct hs r bad] new_result_counts by (auto simp: result_counts_ok_def)

lemma cancellation_counts [simp]: "result_counts_ok (apply_transport_cancellation c rq r) = result_counts_ok r"
  "fr_malformed_usage (apply_transport_cancellation c rq r) = fr_malformed_usage r"
  by (simp_all add: apply_transport_cancellation_def)

lemma finish_body_counts:
  assumes "result_counts_ok r" and "\<not> fr_malformed_usage (finish_body rj bad ms b r)"
  shows "result_counts_ok (finish_body rj bad ms b r)"
proof -
  let ?r1 = "r\<lparr>fr_duration_ms := to_int32 ms\<rparr>"
  have "result_counts_ok ?r1" using assms(1) by simp
  then show ?thesis
    using assms(2) parse_usage_counts [of ?r1 rj b] by (auto simp: finish_body_def Let_def split: if_splits)
qed

lemma settle_counts [simp]: "result_counts_ok (settle_stream r) = result_counts_ok r"
  by (simp add: settle_stream_def settle_policy_def settle_client_def settle_provider_def Let_def)

lemma body_failed_counts: "body_failed e r = (r1, b) \<Longrightarrow> result_counts_ok r1 = result_counts_ok r"
  by (auto simp: body_failed_def Let_def)

text \<open>
  The token counts that reach accounting are sane: unless the usage object is reported as
  malformed, every count of a forwarding lies between 0 and the largest 32-bit integer, for complete
  bodies and for streams.
\<close>

theorem forward_counts_sane:
  assumes "forward rj target rq mode tr k fw = Inr (Returned f, fw')" and "\<not> fr_malformed_usage (fwd_result f)"
  shows "result_counts_ok (fwd_result f)"
  using assms(1)
proof (cases rule: forward_cases)
  case (refused status err payload)
  then show ?thesis by (simp add: refused_call_def new_result_counts)
next
  case (called call)
  from called(4) show ?thesis
  proof (cases rule: receive_cases)
    case (failed c e)
    then show ?thesis by (simp add: call_failed_def refused_call_def new_result_counts)
  next
    case (complete status ct hs r bad)
    note h = response_head_counts [OF complete(2)]
    from complete(4) show ?thesis
    proof (cases rule: receive_body_cases)
      case large
      then show ?thesis using h by simp
    next
      case (failed e r1 b)
      then show ?thesis using h body_failed_counts [OF failed(1)] assms(2) by (simp add: finish_body_counts)
    next
      case (complete b)
      then show ?thesis using h assms(2) by (simp add: finish_body_counts)
    qed
  next
    case (streamed status ct hs r bad)
    from streamed(5) show ?thesis
    proof (cases rule: receive_stream_cases)
      case (1 s p k0 c b)
      have "counts_ok (result s)" using run_counts_ok [OF 1(1)] by simp
      then have "result_counts_ok (take_stream_result (result s) r)"
        by (simp add: take_stream_result_def counts_ok_def result_counts_ok_def)
      then show ?thesis unfolding 1(2) by (simp add: note_cancelled_def)
    qed
  qed
qed

section \<open>Proxy credentials\<close>

definition url_hex_value :: "char \<Rightarrow> nat" where
  "url_hex_value c = (if is_digit c then byte_of c - 48 else byte_of c - 55)"

text \<open>Percent-decoding as RFC 3986 has it.\<close>

fun url_decode :: "string \<Rightarrow> string" where
  "url_decode (c # a # b # s) =
     (if c = CHR ''%'' then char_of (url_hex_value a * 16 + url_hex_value b) # url_decode s
      else c # url_decode (a # b # s))"
| "url_decode s = s"

lemma hex_digits_checked: "list_all (\<lambda>n. url_hex_value (url_hex n) = n \<and> url_unreserved (url_hex n)) [0..<16]"
  by code_simp

lemma url_hex_value_hex: "n < 16 \<Longrightarrow> url_hex_value (url_hex n) = n"
  using hex_digits_checked by (simp add: list_all_iff)

lemma percent_not_unreserved: "\<not> url_unreserved (CHR ''%'')"
  by (simp add: url_unreserved_def char_defs)

lemma url_decode_plain: "c \<noteq> CHR ''%'' \<Longrightarrow> url_decode (c # s) = c # url_decode s"
  by (cases s rule: url_decode.cases) simp_all

lemma url_decode_encode: "url_decode (url_encode_component s) = s"
proof (induction s)
  case (Cons c s)
  show ?case
  proof (cases "url_unreserved c")
    case True
    then have "c \<noteq> CHR ''%''" using percent_not_unreserved by auto
    with True Cons show ?thesis by (simp add: url_encode_component_def url_encode_char_def url_decode_plain)
  next
    case False
    have "char_of (byte_of c div 16 * 16 + byte_of c mod 16) = c" by (simp add: byte_of_def)
    moreover have "byte_of c div 16 < 16" "byte_of c mod 16 < 16" using byte_of_less [of c] by simp_all
    ultimately show ?thesis using False Cons
      by (simp add: url_encode_component_def url_encode_char_def url_hex_value_hex)
  qed
qed (simp add: url_encode_component_def)

lemma url_hex_plain: "n < 16 \<Longrightarrow> url_unreserved (url_hex n)"
  using hex_digits_checked by (simp add: list_all_iff)

lemma url_encode_chars: "c \<in> set (url_encode_component s) \<Longrightarrow> url_unreserved c \<or> c = CHR ''%''"
proof (induction s)
  case (Cons x s)
  have "byte_of x div 16 < 16" "byte_of x mod 16 < 16" using byte_of_less [of x] by simp_all
  with Cons url_hex_plain show ?case by (auto simp: url_encode_component_def url_encode_char_def split: if_splits)
qed (simp add: url_encode_component_def)

lemma url_encode_delimiters:
  "CHR '':'' \<notin> set (url_encode_component s)" "CHR ''@'' \<notin> set (url_encode_component s)" "CHR ''/'' \<notin> set (url_encode_component s)"
  using url_encode_chars [of "CHR '':''" s] url_encode_chars [of "CHR ''@''" s] url_encode_chars [of "CHR ''/''" s]
  by (auto simp: url_unreserved_def char_defs)

lemma find_scheme: "CHR '':'' \<notin> set scheme \<Longrightarrow> find_sub ''://'' (scheme @ ''://'' @ rest) = Some (length scheme)"
  by (induction scheme) (auto simp: starts_with_def)

text \<open>
  Proxy credentials survive the trip into the proxy address: whatever bytes user name and
  password hold, the part before the first colon and the part up to the first at-sign decode to
  them, and the address after the at-sign is the configured one; credentials cannot change the host.
\<close>

theorem proxy_credentials_roundtrip:
  assumes "CHR '':'' \<notin> set scheme"
    and "build_proxy_auth_url (scheme @ ''://'' @ host) user password = scheme @ ''://'' @ authority"
  shows "url_decode (takeWhile (\<lambda>c. c \<noteq> CHR '':'') authority) = user \<and>
    (\<exists>p. dropWhile (\<lambda>c. c \<noteq> CHR '':'') authority = CHR '':'' # p @ CHR ''@'' # host \<and>
       CHR ''@'' \<notin> set p \<and> CHR ''/'' \<notin> set p \<and> url_decode p = password)"
proof -
  have drop: "drop (length scheme + 3) (scheme @ ''://'' @ host) = host"
    and take: "take (length scheme + 3) (scheme @ ''://'' @ host) = scheme @ ''://''" by simp_all
  have a: "authority = url_encode_component user @ '':'' @ url_encode_component password @ ''@'' @ host"
    using assms(2) unfolding build_proxy_auth_url_def find_scheme [OF assms(1)] option.case drop take by simp
  have "takeWhile (\<lambda>c. c \<noteq> CHR '':'') authority = url_encode_component user"
    "dropWhile (\<lambda>c. c \<noteq> CHR '':'') authority = CHR '':'' # url_encode_component password @ CHR ''@'' # host"
    unfolding a using url_encode_delimiters(1) [of user]
    by (auto simp: takeWhile_append dropWhile_append)
  then show ?thesis using url_decode_encode url_encode_delimiters by auto
qed

theorem proxy_credentials_roundtrip_witness:
  "url_decode (takeWhile (\<lambda>c. c \<noteq> CHR '':'') ''us%3Aer:p%40ss@proxy:8080'') = ''us:er'' \<and>
   (\<exists>p. dropWhile (\<lambda>c. c \<noteq> CHR '':'') ''us%3Aer:p%40ss@proxy:8080'' = CHR '':'' # p @ CHR ''@'' # ''proxy:8080'' \<and>
       CHR ''@'' \<notin> set p \<and> CHR ''/'' \<notin> set p \<and> url_decode p = ''p@ss'')"
proof -
  have "build_proxy_auth_url (''http'' @ ''://'' @ ''proxy:8080'') ''us:er'' ''p@ss'' = ''http'' @ ''://'' @ ''us%3Aer:p%40ss@proxy:8080''"
    by (simp add: build_proxy_auth_url_def starts_with_def url_encode_component_def url_encode_char_def url_unreserved_def url_hex_def char_defs)
  then show ?thesis using proxy_credentials_roundtrip [of "''http''" "''proxy:8080''" "''us:er''" "''p@ss''"] by simp
qed

section \<open>Retry-After\<close>

text \<open>
  A large \<^verbatim>\<open>Retry-After\<close> value is not kept: 2147484 seconds become a negative number of
  milliseconds, 4294968 seconds become 704 milliseconds, and the largest \<^verbatim>\<open>long\<close> overflows the
  multiplication, which is undefined.
\<close>

theorem retry_after_wraps:
  "retry_after ''2147484'' 0 = Inr (- 2147483296) \<and> retry_after ''4294968'' 0 = Inr 704 \<and>
   retry_after ''9223372036854775807'' 0 = Inl SignedOverflow"
  by (simp add: retry_after_def strtol10_def cstr_def trim_front_def digits_value_def char_defs int_bounds to_int32_def)

section \<open>The pool\<close>

definition pool_inv :: "ConnectionPool \<Rightarrow> bool" where
  "pool_inv p \<longleftrightarrow> distinct (map fst (clients p)) \<and> length (clients p) \<le> max_per_host p"

lemma pool_inv_create: "pool_inv (create_pool n fresh)"
  by (simp add: pool_inv_def create_pool_def)

lemma pool_inv_get_client: "pool_inv p \<Longrightarrow> pool_inv (snd (get_client fresh host p))"
  by (auto simp: pool_inv_def get_client_def map_of_eq_None_iff split: option.split)

text \<open>A host that has a client of its own keeps it.\<close>

lemma get_client_stable:
  assumes "get_client fresh host p = (Some c, p')" and "map_of (clients p') host = Some c"
  shows "get_client fresh' host p' = (Some c, p')"
  using assms by (simp add: get_client_def)

section \<open>An example\<close>

definition any_json :: rapidjson where
  "any_json = \<lparr>Parse = (\<lambda>s. if s = [] then None else Some (JObject [])), Write = (\<lambda>j. ''{}'')\<rparr>"

definition sample_target :: UpstreamTarget where
  "sample_target = new_target\<lparr>tgt_base_url := ''http://p'', tgt_upstream_path := ''/v1'',
     tgt_auth_headers := [(''authorization'', ''k'')]\<rparr>"

definition sample_request :: ForwardRequest where
  "sample_request = \<lparr>rq_method = ''POST'', rq_body = ''{}'', rq_content_type = [], rq_accept = [], rq_user_agent = [],
     rq_request_id = ''r1'', rq_idempotency_key = [], rq_headers = [(''cookie'', ''c'')], rq_stream = False,
     rq_stream_source = Anthropic, rq_stream_target = Anthropic, rq_stream_policy = None,
     rq_has_stream_write = True, rq_has_response_start = True, rq_has_client_disconnected = True\<rparr>"

definition sample_headers :: headers where
  "sample_headers = [(''set-cookie'', ''s''), (''retry-after'', ''3'')]"

definition sample_transport :: transport where
  "sample_transport = \<lparr>string_to_verb = (\<lambda>s. Some s), new_client = Some 1,
     call_result = (\<lambda>c. Responded 200 ''application/json'' sample_headers), body_reads = [Data ''{}'', Closed],
     body_ms = 7, stream_started_ms = 0, stream_rounds = [], cancelled_after_call = False,
     cancelled_after_stream = False, cancelled_at_end = False\<rparr>"

definition sample_call :: upstream_call where
  "sample_call = upstream_request (\<lambda>s. Some s) default_forward_config sample_target sample_request"

definition sample_result :: ForwardResult where
  "sample_result = new_forward_result\<lparr>fr_status_code := 200, fr_provider_response_received := True,
     fr_provider_status_code := 200, fr_content_type := ''application/json'',
     fr_response_headers := [(''retry-after'', ''3'')], fr_retry_after_ms := 3000, fr_duration_ms := 7, fr_body := ''{}''\<rparr>"

lemma lower_literals: "lower ''authorization'' = ''authorization''" "lower ''set-cookie'' = ''set-cookie''"
  "lower ''retry-after'' = ''retry-after''" "lower ''application/json'' = ''application/json''"
  by (simp_all add: lower_def to_lower_def char_defs)

lemma sample_head:
  "response_head sample_target sample_request 200 ''application/json'' sample_headers =
     Inr (new_forward_result\<lparr>fr_status_code := 200, fr_provider_response_received := True,
     fr_provider_status_code := 200, fr_content_type := ''application/json'',
     fr_response_headers := [(''retry-after'', ''3'')], fr_retry_after_ms := 3000\<rparr>, False)"
proof -
  have r: "retry_after ''3'' x = Inr 3000" for x
    by (simp add: retry_after_def strtol10_def cstr_def trim_front_def digits_value_def char_defs int_bounds to_int32_def)
  show ?thesis
    by (simp add: response_head_def sample_headers_def note_header_def Let_def safe_response_header_def hop_by_hop_def
      lower_literals sample_target_def new_target_def sample_request_def r new_forward_result_def starts_with_def)
qed

lemma sample_forward:
  "forward any_json sample_target sample_request Passthrough sample_transport fresh_sink
     (create_forwarder default_forward_config (Some 0)) =
   Inr (Returned \<lparr>fwd_result = sample_result, fwd_call = Some sample_call,
          fwd_starts = [(200, ''application/json'', [(''retry-after'', ''3'')])], fwd_sink = fresh_sink\<rparr>,
        \<lparr>fw_config = default_forward_config,
         fw_pool = \<lparr>max_per_host = 64, clients = [(''http://p'', 1)], default_client = Some 0\<rparr>\<rparr>)"
proof -
  have v: "precheck sample_target = None"
    by (simp add: precheck_def validate_target_auth_headers_def sample_target_def new_target_def lower_literals
      header_name_char_def char_defs reserved_auth_header_def hop_by_hop_def upstream_url_def)
  have g: "get_client (new_client sample_transport) (tgt_base_url sample_target) (create_pool 64 (Some 0)) =
      (Some 1, \<lparr>max_per_host = 64, clients = [(''http://p'', 1)], default_client = Some 0\<rparr>)"
    by (simp add: get_client_def create_pool_def sample_transport_def sample_target_def new_target_def)
  have o: "observe_cancellation sample_request sample_transport = sample_transport"
    by (simp add: observe_cancellation_def watched_def sample_request_def sample_transport_def)
  have b: "read_body (fc_max_response_body_size default_forward_config) (body_reads sample_transport) [] = BodyDone ''{}''"
    by (simp add: sample_transport_def default_forward_config_def)
  have q: "\<not> rq_stream sample_request" "rq_has_response_start sample_request" by (simp_all add: sample_request_def)
  have c: "call_result sample_transport sample_call = Responded 200 ''application/json'' sample_headers"
    "body_ms sample_transport = 7" "cancelled_at_end sample_transport = False" "string_to_verb sample_transport = (\<lambda>s. Some s)"
    by (simp_all add: sample_transport_def)
  have f: "finish_body any_json False 7 ''{}'' (new_forward_result\<lparr>fr_status_code := 200, fr_provider_response_received := True,
     fr_provider_status_code := 200, fr_content_type := ''application/json'',
     fr_response_headers := [(''retry-after'', ''3'')], fr_retry_after_ms := 3000\<rparr>) = sample_result"
    by (simp add: finish_body_def sample_result_def has_invalid_success_payload_def any_json_def parse_usage_def
      parse_object_def body_usage_def nested_usage_def object_at_def new_forward_result_def to_int32_def Let_def)
  show ?thesis
    by (simp add: forward_def v create_forwarder_def g o receive_def sample_call_def [symmetric] c sample_head receive_body_def
      b q apply_transport_cancellation_def f)
qed

lemma sample_result_facts: "\<not> fr_stream sample_result" "fr_status_code sample_result = 200" "\<not> fr_malformed_usage sample_result"
  "fr_content_type sample_result = ''application/json''" "fr_body sample_result = ''{}''"
  by (simp_all add: sample_result_def new_forward_result_def)

theorem provider_headers_safe_witness:
  "(''authorization'', ''k'') \<in> set (uc_headers sample_call) \<and> \<not> hop_by_hop ''authorization''"
proof -
  have h: "(''authorization'', ''k'') \<in> set (uc_headers sample_call)"
    by (simp add: sample_call_def upstream_request_def upstream_headers_def sample_target_def)
  then show ?thesis using provider_headers_safe [OF sample_forward _ h] by simp
qed

theorem response_headers_filtered_witness:
  "fr_response_headers sample_result = filtered_headers sample_target sample_headers \<and>
   list_all (\<lambda>h. \<not> hop_by_hop (fst h)) (fr_response_headers sample_result)"
  using response_headers_filtered [OF sample_forward, of sample_call 200 "''application/json''" sample_headers]
  by (auto simp: sample_transport_def)

theorem success_payload_complete_witness:
  "fr_body sample_result \<noteq> [] \<and> Parse any_json (fr_body sample_result) \<noteq> None"
proof -
  have "media_type ''application/json'' = ''application/json''"
    by (simp add: media_type_def lower_literals trim_back_def char_defs)
  then show ?thesis
    using success_payload_complete [OF sample_forward, of sample_result] sample_result_facts by simp
qed

theorem forward_failure_visible_witness: "failure_visible sample_result"
  using forward_failure_visible [OF sample_forward] by simp

theorem forward_counts_sane_witness: "result_counts_ok sample_result"
  using forward_counts_sane [OF sample_forward] sample_result_facts by simp

end
