(* ===== verification/Garnet_Client.thy ===== *)
theory Garnet_Client
  imports Prelude "HOL-Library.Monad_Syntax"
begin

text \<open>
  The client of the Garnet cache (\<^verbatim>\<open>cache/garnet_client.cpp\<close>, \<^verbatim>\<open>cache/garnet_keyspace.h\<close>): one
  connection, the \<^verbatim>\<open>GET\<close> and \<^verbatim>\<open>PING\<close> commands in the RESP protocol, a second try on a fresh
  connection.

  What the network does is a script per connection: whether the name resolves, which addresses
  accept, whether the TLS handshake (OpenSSL) succeeds, the results of the successive writes and of
  the successive reads.  An operation that needs more of a script than there is has not returned yet
  and is \<open>None\<close>.
\<close>

record GarnetResponse =
  gr_found :: bool
  gr_error :: bool
  gr_value :: string

definition kPrefix :: string where "kPrefix = ''scalaapi:v1:''"

definition kInvalidationVersion :: string where
  "kInvalidationVersion = ''scalaapi:v1:invalidation:version''"

definition auth_key :: "string \<Rightarrow> string" where
  "auth_key key_hash = kPrefix @ ''auth:'' @ key_hash"

section \<open>The connection\<close>

datatype net_read = Chunk string | ReadFailed

record conn_script =
  name_resolves :: bool
  address_accepts :: "bool list"
  tls_ok :: bool
  net_writes :: "int list"
  net_reads :: "net_read list"

record garnet_config =
  garnet_password :: string
  garnet_use_tls :: bool

record GarnetClient =
  fd_open :: bool
  script :: conn_script
  dials :: nat
  accum :: string

definition crlf :: string where "crlf = [CHR 0x0D, CHR 0x0A]"

text \<open>\<^verbatim>\<open>write_bytes\<close> until everything is taken.\<close>

fun write_bytes_all :: "nat \<Rightarrow> int list \<Rightarrow> (bool \<times> int list) option" where
  "write_bytes_all n [] = (if n = 0 then Some (True, []) else None)"
| "write_bytes_all n (w # ws) =
     (if n = 0 then Some (True, w # ws)
      else if w \<le> 0 then Some (False, ws) else write_bytes_all (n - nat w) ws)"

text \<open>\<^verbatim>\<open>read_bytes\<close> until the wanted input is there.\<close>

fun fill :: "(string \<Rightarrow> bool) \<Rightarrow> net_read list \<Rightarrow> string \<Rightarrow> (bool \<times> string \<times> net_read list) option" where
  "fill enough rs acc =
     (if enough acc then Some (True, acc, rs)
      else case rs of
             [] \<Rightarrow> None
           | Chunk c # rest \<Rightarrow> if c = [] then Some (False, acc, rest) else fill enough rest (acc @ c)
           | ReadFailed # rest \<Rightarrow> Some (False, acc, rest))"

declare fill.simps [simp del]

definition fill_until :: "nat \<Rightarrow> net_read list \<Rightarrow> string \<Rightarrow> (bool \<times> string \<times> net_read list) option" where
  "fill_until need = fill (\<lambda>acc. need \<le> length acc)"

definition fill_until_crlf :: "net_read list \<Rightarrow> string \<Rightarrow> (bool \<times> string \<times> net_read list) option" where
  "fill_until_crlf = fill (\<lambda>acc. contains acc crlf)"

definition crlf_at :: "string \<Rightarrow> nat" where
  "crlf_at s = (case find_sub crlf s of Some i \<Rightarrow> i | None \<Rightarrow> length s)"

text \<open>The reply, what is left in the buffer and the reads that are left.\<close>

definition reply_from :: "net_read list \<Rightarrow> (string \<times> string \<times> net_read list) option" where
  "reply_from rs0 = do {
     (ok, acc, rs) \<leftarrow> fill_until_crlf rs0 [];
     if \<not> ok then Some ([], acc, rs)
     else let i = crlf_at acc
          in if acc ! 0 = CHR ''$''
             then let len = fst (strtol10 (cstr (take (i - 1) (drop 1 acc))))
                  in if len < 0 then Some (''$-1'' @ crlf, drop (i + 2) acc, rs)
                     else let need = i + 2 + nat len + 2
                          in do {
                            (ok2, acc2, rs2) \<leftarrow> fill_until need rs acc;
                            if \<not> ok2 then Some ([], acc2, rs2)
                            else Some (take need acc2, drop need acc2, rs2)
                          }
             else Some (take (i + 2) acc, drop (i + 2) acc, rs)
   }"

definition read_response :: "GarnetClient \<Rightarrow> (string \<times> GarnetClient) option" where
  "read_response c =
     (if \<not> fd_open c then Some ([], c)
      else do {
        (reply, acc, rs) \<leftarrow> reply_from (net_reads (script c));
        Some (reply, c\<lparr>accum := acc, script := (script c)\<lparr>net_reads := rs\<rparr>\<rparr>)
      })"

definition disconnect :: "GarnetClient \<Rightarrow> GarnetClient" where
  "disconnect c = c\<lparr>fd_open := False, accum := []\<rparr>"

definition send_all :: "string \<Rightarrow> GarnetClient \<Rightarrow> (bool \<times> GarnetClient) option" where
  "send_all cmd c = do {
     (ok, ws) \<leftarrow> write_bytes_all (length cmd) (net_writes (script c));
     Some (ok, c\<lparr>script := (script c)\<lparr>net_writes := ws\<rparr>\<rparr>)
   }"

definition auth_command :: "string \<Rightarrow> string" where
  "auth_command password =
     ''*2'' @ crlf @ ''$4'' @ crlf @ ''AUTH'' @ crlf @ ''$'' @ to_string (length password) @ crlf @ password @ crlf"

text \<open>The part of \<^verbatim>\<open>ensure_connected\<close> after an address accepted.\<close>

definition log_in :: "garnet_config \<Rightarrow> GarnetClient \<Rightarrow> (bool \<times> GarnetClient) option" where
  "log_in cfg c =
     (if garnet_use_tls cfg \<and> \<not> tls_ok (script c) then Some (False, disconnect c)
      else if garnet_password cfg = [] then Some (True, c)
      else do {
        (ok, c1) \<leftarrow> send_all (auth_command (garnet_password cfg)) c;
        if \<not> ok then Some (False, disconnect c1)
        else do {
          (reply, c2) \<leftarrow> read_response c1;
          if starts_with reply ''+OK'' then Some (True, c2) else Some (False, disconnect c2)
        }
      })"

definition ensure_connected :: "garnet_config \<Rightarrow> (nat \<Rightarrow> conn_script) \<Rightarrow> GarnetClient \<Rightarrow> (bool \<times> GarnetClient) option" where
  "ensure_connected cfg net c =
     (if fd_open c then Some (True, c)
      else let sc = net (dials c); c1 = c\<lparr>dials := Suc (dials c)\<rparr>
           in if \<not> name_resolves sc then Some (False, c1)
              else if True \<notin> set (address_accepts sc) then Some (False, disconnect c1)
              else log_in cfg (c1\<lparr>fd_open := True, accum := [], script := sc\<rparr>))"

definition send_command :: "garnet_config \<Rightarrow> (nat \<Rightarrow> conn_script) \<Rightarrow> string \<Rightarrow> GarnetClient \<Rightarrow> (bool \<times> GarnetClient) option" where
  "send_command cfg net cmd c = do {
     (ok, c1) \<leftarrow> ensure_connected cfg net c;
     if \<not> ok then Some (False, c1) else send_all cmd c1
   }"

fun execute_tries :: "nat \<Rightarrow> garnet_config \<Rightarrow> (nat \<Rightarrow> conn_script) \<Rightarrow> string \<Rightarrow> GarnetClient \<Rightarrow> (string \<times> GarnetClient) option" where
  "execute_tries 0 cfg net cmd c = Some ([], c)"
| "execute_tries (Suc n) cfg net cmd c = do {
     (ok, c1) \<leftarrow> send_command cfg net cmd c;
     (reply, c2) \<leftarrow> (if ok then read_response c1 else Some ([], c1));
     if reply \<noteq> [] then Some (reply, c2) else execute_tries n cfg net cmd (disconnect c2)
   }"

definition execute :: "garnet_config \<Rightarrow> (nat \<Rightarrow> conn_script) \<Rightarrow> string \<Rightarrow> GarnetClient \<Rightarrow> (string \<times> GarnetClient) option" where
  "execute = execute_tries 2"

section \<open>Commands\<close>

definition get_command :: "string \<Rightarrow> string" where
  "get_command key =
     ''*2'' @ crlf @ ''$3'' @ crlf @ ''GET'' @ crlf @ ''$'' @ to_string (length key) @ crlf @ key @ crlf"

definition read_reply :: "string \<Rightarrow> GarnetResponse" where
  "read_reply raw =
     (if raw = [] then \<lparr>gr_found = False, gr_error = True, gr_value = []\<rparr>
      else if hd raw = CHR ''$''
      then if length raw \<ge> 3 \<and> raw ! 1 = CHR ''-'' then \<lparr>gr_found = False, gr_error = False, gr_value = []\<rparr>
           else case find_sub crlf raw of
                  None \<Rightarrow> \<lparr>gr_found = False, gr_error = True, gr_value = []\<rparr>
                | Some i \<Rightarrow>
                    let d = drop (i + 2) raw
                    in \<lparr>gr_found = True, gr_error = False,
                        gr_value = (if ends_with d crlf then take (length d - 2) d else d)\<rparr>
      else \<lparr>gr_found = False, gr_error = True, gr_value = []\<rparr>)"

definition garnet_get :: "garnet_config \<Rightarrow> (nat \<Rightarrow> conn_script) \<Rightarrow> string \<Rightarrow> GarnetClient \<Rightarrow> (GarnetResponse \<times> GarnetClient) option" where
  "garnet_get cfg net key c = do {
     (raw, c1) \<leftarrow> execute cfg net (get_command key) c;
     Some (read_reply raw, c1)
   }"

fun mget :: "garnet_config \<Rightarrow> (nat \<Rightarrow> conn_script) \<Rightarrow> string list \<Rightarrow> GarnetClient \<Rightarrow> (GarnetResponse list \<times> GarnetClient) option" where
  "mget cfg net [] c = Some ([], c)"
| "mget cfg net (k # ks) c = do {
     (r, c1) \<leftarrow> garnet_get cfg net k c;
     (rs, c2) \<leftarrow> mget cfg net ks c1;
     Some (r # rs, c2)
   }"

definition ping :: "garnet_config \<Rightarrow> (nat \<Rightarrow> conn_script) \<Rightarrow> GarnetClient \<Rightarrow> (bool \<times> GarnetClient) option" where
  "ping cfg net c = do {
     (raw, c1) \<leftarrow> execute cfg net (''*1'' @ crlf @ ''$4'' @ crlf @ ''PING'' @ crlf) c;
     Some (starts_with raw ''+PONG'', c1)
   }"

end
