(* ===== verification/Fault_Injection.thy ===== *)
theory Fault_Injection
  imports Prelude
begin

text \<open>
  The crash points for recovery tests (\<^verbatim>\<open>platform/fault_injection.cpp\<close>).  The process environment is the
  record \<open>fault_config\<close>; the marker directory is the list of the files in it.  \<open>directory_ok\<close> and
  \<open>open_ok\<close> say whether \<^verbatim>\<open>create_directories\<close> and, for a file that does not exist yet, \<^verbatim>\<open>open\<close> with
  \<^verbatim>\<open>O_CREAT | O_EXCL\<close> succeed.
\<close>

record fault_config =
  fault_hook :: "string option"
  fault_repeat :: "string option"
  fault_marker_dir :: "string option"
  directory_ok :: bool
  open_ok :: bool

definition sanitize :: "string \<Rightarrow> string" where
  "sanitize value = map (\<lambda>c. if is_alnum c then c else CHR ''-'') value"

definition enabled :: "string \<Rightarrow> bool" where
  "enabled value \<longleftrightarrow> value = ''1'' \<or> value = ''true'' \<or> value = ''TRUE''"

definition marker_path :: "fault_config \<Rightarrow> string \<Rightarrow> string" where
  "marker_path cfg point =
     (case fault_marker_dir cfg of
        Some dir \<Rightarrow> if dir \<noteq> [] then dir else ''/tmp/scalaapi-fault-hooks''
      | None \<Rightarrow> ''/tmp/scalaapi-fault-hooks'') @ ''/'' @ sanitize point @ ''.claimed''"

definition claim :: "fault_config \<Rightarrow> string \<Rightarrow> string list \<Rightarrow> bool \<times> string list" where
  "claim cfg point files =
     (if fault_hook cfg \<noteq> Some point then (False, files)
      else if enabled (case fault_repeat cfg of Some v \<Rightarrow> v | None \<Rightarrow> ''false'') then (True, files)
      else if \<not> directory_ok cfg then (False, files)
      else if marker_path cfg point \<in> set files \<or> \<not> open_ok cfg then (False, files)
      else (True, marker_path cfg point # files))"

text \<open>The points reached by a process and the processes after it, until one is claimed.\<close>

fun crash_point :: "fault_config \<Rightarrow> string list \<Rightarrow> string list \<Rightarrow> string option \<times> string list" where
  "crash_point cfg [] files = (None, files)"
| "crash_point cfg (p # ps) files =
     (case claim cfg p files of
        (True, files') \<Rightarrow> (Some p, files')
      | (False, files') \<Rightarrow> crash_point cfg ps files')"

lemma claim_only_configured: "fst (claim cfg p files) \<Longrightarrow> fault_hook cfg = Some p"
  by (auto simp: claim_def split: if_splits)

lemma claim_marks:
  assumes "fst (claim cfg p files)" and "fault_repeat cfg = None"
  shows "marker_path cfg p \<in> set (snd (claim cfg p files))"
  using assms by (auto simp: claim_def enabled_def split: if_splits)

lemma claim_keeps: "set files \<subseteq> set (snd (claim cfg p files))"
  by (auto simp: claim_def)

lemma claim_once:
  assumes "fault_repeat cfg = None" and "marker_path cfg p \<in> set files"
  shows "\<not> fst (claim cfg p files)"
  using assms by (auto simp: claim_def enabled_def)

lemma crash_point_marks:
  "crash_point cfg ps files = (Some p, files') \<Longrightarrow> fault_repeat cfg = None \<Longrightarrow>
     fault_hook cfg = Some p \<and> marker_path cfg p \<in> set files'"
proof (induction cfg ps files rule: crash_point.induct)
  case (2 cfg q ps files)
  then show ?case
    using claim_marks [of cfg q files] claim_only_configured [of cfg q files]
    by (cases "claim cfg q files"; cases "fst (claim cfg q files)") auto
qed simp

lemma crash_point_after_claim:
  "fault_hook cfg = Some p \<Longrightarrow> fault_repeat cfg = None \<Longrightarrow> marker_path cfg p \<in> set files \<Longrightarrow>
     fst (crash_point cfg ps files) = None"
proof (induction cfg ps files rule: crash_point.induct)
  case (2 cfg q ps files)
  have "\<not> fst (claim cfg q files)"
    using 2 claim_once [of cfg p files] claim_only_configured [of cfg q files] by auto
  then show ?case
    using 2 claim_keeps [of files cfg q] by (cases "claim cfg q files") auto
qed simp

text \<open>
  Without the repeat switch a configured crash point fires at most once: after one process was
  terminated at it, no later process sharing the marker directory is terminated, whatever points it
  reaches.
\<close>

theorem fault_fires_once:
  assumes "fault_repeat cfg = None" and "crash_point cfg first files = (Some p, files')"
  shows "fst (crash_point cfg second files') = None"
  using crash_point_marks [OF assms(2,1)] crash_point_after_claim [of cfg p files' second] assms(1)
  by simp

definition example_fault :: fault_config where
  "example_fault = \<lparr>fault_hook = Some ''p'', fault_repeat = None, fault_marker_dir = None,
     directory_ok = True, open_ok = True\<rparr>"

lemma example_fault_claims:
  "crash_point example_fault [''q'', ''p''] [] = (Some ''p'', [marker_path example_fault ''p''])"
  by (simp add: example_fault_def claim_def enabled_def)

theorem fault_fires_once_witness:
  "fst (crash_point example_fault [''p'', ''p''] [marker_path example_fault ''p'']) = None"
  by (rule fault_fires_once [OF _ example_fault_claims]) (simp add: example_fault_def)

end
