(* ===== verification/Gateway_State.thy ===== *)
theory Gateway_State
  imports Usage_Reporter Forwarder Auth Garnet_Client Fault_Injection Capability_Registry
begin

text \<open>
  What the request handler works on: HTTP requests and responses (\<^verbatim>\<open>server/router.h\<close>), the process
  counters (\<^verbatim>\<open>platform/metrics.h\<close>), the state shared by the requests of a core, and the calls to the
  platform service, the cache, the clock and the provider.

  Every call is entered in a log, newest first.  What the outside world answers is given by the
  record \<open>gateway_env\<close>, each answer a function of the log so far, so that it may depend on everything
  the gateway did before; nothing is assumed about it except where a theorem says so.

  An operation of the handler maps a state to a result and a state.  The result \<open>Inl\<close> stands for the
  ways in which the C++ function does not return: an assertion of RapidJSON, an exception of the
  outbox that is not caught, a crash point, a provider that has not answered yet, and the bound on the
  number of forwarding attempts in the model.
\<close>

section \<open>Requests and responses\<close>

record HttpRequest =
  hq_method :: string
  hq_path :: string
  hq_query :: string
  hq_body :: string
  hq_authorization :: string
  hq_x_api_key :: string
  hq_client_ip :: string
  hq_content_type :: string
  hq_accept :: string
  hq_user_agent :: string
  hq_request_id :: string
  hq_idempotency_key :: string
  hq_headers :: headers
  hq_stream_timeout_ms :: nat
  hq_has_set_client_timeout :: bool
  hq_has_client_disconnected :: bool

record HttpResponse =
  rs_status_code :: int
  rs_body :: string
  rs_content_type :: string
  rs_headers :: headers
  rs_stream :: bool
  rs_has_stream_write :: bool
  rs_sink :: sink

definition new_response :: "bool \<Rightarrow> sink \<Rightarrow> HttpResponse" where
  "new_response writer k = \<lparr>rs_status_code = 200, rs_body = [], rs_content_type = ''application/json'',
     rs_headers = [], rs_stream = False, rs_has_stream_write = writer, rs_sink = k\<rparr>"

record Metrics =
  mt_requests_total :: "64 word"
  mt_requests_streaming :: "64 word"
  mt_requests_failed :: "64 word"
  mt_dispatch_calls :: "64 word"
  mt_garnet_hits :: "64 word"
  mt_garnet_misses :: "64 word"
  mt_upstream_errors :: "64 word"
  mt_conversion_failures :: "64 word"
  mt_failovers :: "64 word"
  mt_active_connections :: "64 word"
  mt_usage_events_buffered :: "64 word"
  mt_usage_report_failures :: "64 word"
  mt_dispatch_reconnects :: "64 word"

section \<open>Calls and state\<close>

datatype gateway_call =
    Dispatched DispatchRequest DispatchResult
  | MediaCalled MediaOperationRequest MediaOperationResult
  | BlobUploaded string string BlobUploadResult
  | EvidenceSent string LeaseEvidenceStage string RpcAck
  | Aborted string string LeaseAbortDisposition int RpcAck
  | ErrorReported ErrorReportData
  | UsageReported UsageReportData RpcAck
  | PolicyAsked string string string ContentPolicyResult
  | GarnetRead string GarnetResponse
  | ForwardedTo UpstreamTarget ForwardRequest ForwardResult
  | EvidenceStored string string
  | EvidenceSettled string string
  | UsageStored UsageEvent
  | UsageNotStored UsageEvent
  | ClientTimeoutSet nat
  | ClockRead int
  | Slept nat

record gateway_env =
  e_rj :: rapidjson
  e_sha256 :: "string \<Rightarrow> byte list"
  e_xxh64 :: "string \<Rightarrow> 64 word \<Rightarrow> 64 word"
  e_rng :: "gateway_call list \<Rightarrow> 64 word \<times> 64 word"
  e_now :: "gateway_call list \<Rightarrow> int"
  e_unixepoch :: "gateway_call list \<Rightarrow> int"
  e_db_ok :: "gateway_call list \<Rightarrow> bool"
  e_faults :: fault_config
  e_garnet :: "gateway_call list \<Rightarrow> string \<Rightarrow> GarnetResponse"
  e_dispatch :: "gateway_call list \<Rightarrow> DispatchRequest \<Rightarrow> DispatchResult"
  e_media :: "gateway_call list \<Rightarrow> MediaOperationRequest \<Rightarrow> MediaOperationResult"
  e_upload :: "gateway_call list \<Rightarrow> string \<Rightarrow> string \<Rightarrow> BlobUploadResult"
  e_evidence :: "gateway_call list \<Rightarrow> string \<Rightarrow> LeaseEvidenceStage \<Rightarrow> string \<Rightarrow> RpcAck"
  e_abort :: "gateway_call list \<Rightarrow> string \<Rightarrow> string \<Rightarrow> LeaseAbortDisposition \<Rightarrow> int \<Rightarrow> RpcAck"
  e_policy :: "gateway_call list \<Rightarrow> string \<Rightarrow> string \<Rightarrow> string \<Rightarrow> ContentPolicyResult"
  e_report :: "gateway_call list \<Rightarrow> UsageReportData \<Rightarrow> RpcAck"
  e_transport :: "gateway_call list \<Rightarrow> transport"

record gateway_state =
  gs_log :: "gateway_call list"
  gs_cache :: SpeculativeCache
  gs_collector :: UsageCollector
  gs_metrics :: Metrics
  gs_forwarder :: Forwarder
  gs_markers :: "string list"
  gs_resp :: HttpResponse

datatype halt = RjFailure rj_error | DbException | FaultCrash | ProviderPending | TooManyAttempts

type_synonym 'a gw = "gateway_state \<Rightarrow> (halt + 'a) \<times> gateway_state"

section \<open>Operations on the state\<close>

definition gw_return :: "'a \<Rightarrow> 'a gw" where
  "gw_return a s = (Inr a, s)"

definition gw_halt :: "halt \<Rightarrow> 'a gw" where
  "gw_halt h s = (Inl h, s)"

definition gw_bind :: "'a gw \<Rightarrow> ('a \<Rightarrow> 'b gw) \<Rightarrow> 'b gw" where
  "gw_bind m f s = (case m s of (Inl h, s') \<Rightarrow> (Inl h, s') | (Inr a, s') \<Rightarrow> f a s')"

definition gw_then :: "unit gw \<Rightarrow> 'b gw \<Rightarrow> 'b gw" where
  "gw_then m n = gw_bind m (\<lambda>_. n)"

definition gw_when :: "bool \<Rightarrow> unit gw \<Rightarrow> unit gw" where
  "gw_when b m = (if b then m else gw_return ())"

definition gw_lift :: "rj_error + 'a \<Rightarrow> 'a gw" where
  "gw_lift r = (case r of Inl e \<Rightarrow> gw_halt (RjFailure e) | Inr a \<Rightarrow> gw_return a)"

definition gw_get :: "(gateway_state \<Rightarrow> 'a) \<Rightarrow> 'a gw" where
  "gw_get f s = (Inr (f s), s)"

definition gw_update :: "(gateway_state \<Rightarrow> gateway_state) \<Rightarrow> unit gw" where
  "gw_update f s = (Inr (), f s)"

lemma gw_bind_cong [fundef_cong]:
  "m = m' \<Longrightarrow> (\<And>a. f a = f' a) \<Longrightarrow> gw_bind m f = gw_bind m' f'"
  by presburger

lemma gw_then_cong [fundef_cong]: "m = m' \<Longrightarrow> n = n' \<Longrightarrow> gw_then m n = gw_then m' n'"
  by simp

definition enter :: "gateway_call \<Rightarrow> unit gw" where
  "enter c = gw_update (\<lambda>s. s\<lparr>gs_log := c # gs_log s\<rparr>)"

definition set_resp :: "(HttpResponse \<Rightarrow> HttpResponse) \<Rightarrow> unit gw" where
  "set_resp f = gw_update (\<lambda>s. s\<lparr>gs_resp := f (gs_resp s)\<rparr>)"

definition count :: "(Metrics \<Rightarrow> Metrics) \<Rightarrow> unit gw" where
  "count f = gw_update (\<lambda>s. s\<lparr>gs_metrics := f (gs_metrics s)\<rparr>)"

definition add_header :: "string \<Rightarrow> string \<Rightarrow> HttpResponse \<Rightarrow> HttpResponse" where
  "add_header k v r = r\<lparr>rs_headers := rs_headers r @ [(k, v)]\<rparr>"

abbreviation one_more_failed :: "Metrics \<Rightarrow> Metrics" where
  "one_more_failed m \<equiv> m\<lparr>mt_requests_failed := mt_requests_failed m + 1\<rparr>"

abbreviation one_upstream_error :: "Metrics \<Rightarrow> Metrics" where
  "one_upstream_error m \<equiv> m\<lparr>mt_upstream_errors := mt_upstream_errors m + 1\<rparr>"

abbreviation one_connection_less :: "Metrics \<Rightarrow> Metrics" where
  "one_connection_less m \<equiv> m\<lparr>mt_active_connections := mt_active_connections m - 1\<rparr>"

text \<open>The end of a request that is answered with a status and a body and counted as failed.\<close>

definition refuse :: "int \<Rightarrow> string \<Rightarrow> unit gw" where
  "refuse st payload =
     gw_then (set_resp (\<lambda>r. r\<lparr>rs_status_code := st, rs_body := payload\<rparr>))
     (gw_then (count one_more_failed) (count one_connection_less))"

section \<open>The calls\<close>

definition ask :: "(gateway_call list \<Rightarrow> 'a) \<Rightarrow> ('a \<Rightarrow> gateway_call) \<Rightarrow> 'a gw" where
  "ask answer mk = gw_bind (gw_get (\<lambda>s. answer (gs_log s))) (\<lambda>a. gw_then (enter (mk a)) (gw_return a))"

definition now :: "gateway_env \<Rightarrow> int gw" where
  "now env = ask (e_now env) ClockRead"

definition sleep_us :: "nat \<Rightarrow> unit gw" where
  "sleep_us us = enter (Slept us)"

definition call_garnet :: "gateway_env \<Rightarrow> string \<Rightarrow> GarnetResponse gw" where
  "call_garnet env key = ask (\<lambda>l. e_garnet env l key) (GarnetRead key)"

definition call_dispatch :: "gateway_env \<Rightarrow> DispatchRequest \<Rightarrow> DispatchResult gw" where
  "call_dispatch env rq = ask (\<lambda>l. e_dispatch env l rq) (Dispatched rq)"

definition call_media :: "gateway_env \<Rightarrow> MediaOperationRequest \<Rightarrow> MediaOperationResult gw" where
  "call_media env rq = ask (\<lambda>l. e_media env l rq) (MediaCalled rq)"

definition call_upload :: "gateway_env \<Rightarrow> string \<Rightarrow> string \<Rightarrow> BlobUploadResult gw" where
  "call_upload env blob payload = ask (\<lambda>l. e_upload env l blob payload) (BlobUploaded blob payload)"

definition call_evidence :: "gateway_env \<Rightarrow> string \<Rightarrow> LeaseEvidenceStage \<Rightarrow> string \<Rightarrow> RpcAck gw" where
  "call_evidence env lease stage detail =
     ask (\<lambda>l. e_evidence env l lease stage detail) (EvidenceSent lease stage detail)"

definition call_abort :: "gateway_env \<Rightarrow> string \<Rightarrow> string \<Rightarrow> LeaseAbortDisposition \<Rightarrow> int \<Rightarrow> RpcAck gw" where
  "call_abort env lease reason disp st =
     ask (\<lambda>l. e_abort env l lease reason disp st) (Aborted lease reason disp st)"

definition call_policy :: "gateway_env \<Rightarrow> string \<Rightarrow> string \<Rightarrow> string \<Rightarrow> ContentPolicyResult gw" where
  "call_policy env lease shown_text cap =
     ask (\<lambda>l. e_policy env l lease shown_text cap) (PolicyAsked lease shown_text cap)"

definition call_report :: "gateway_env \<Rightarrow> UsageReportData \<Rightarrow> RpcAck gw" where
  "call_report env rq = ask (\<lambda>l. e_report env l rq) (UsageReported rq)"

definition report_error :: "ErrorReportData \<Rightarrow> unit gw" where
  "report_error er = enter (ErrorReported er)"

text \<open>\<^verbatim>\<open>crash_if_configured\<close>.\<close>

definition crash_if_configured :: "gateway_env \<Rightarrow> string \<Rightarrow> unit gw" where
  "crash_if_configured env point s =
     (case claim (e_faults env) point (gs_markers s) of
        (hit, files) \<Rightarrow> (if hit then Inl FaultCrash else Inr (), s\<lparr>gs_markers := files\<rparr>))"

text \<open>The outbox operations that let an exception through.\<close>

definition outbox_call :: "gateway_env \<Rightarrow> (bool \<Rightarrow> int \<Rightarrow> UsageCollector \<Rightarrow> db_error + UsageCollector) \<Rightarrow> gateway_call \<Rightarrow> unit gw" where
  "outbox_call env f c s =
     (case f (e_db_ok env (gs_log s)) (e_unixepoch env (gs_log s)) (gs_collector s) of
        Inl DbError \<Rightarrow> (Inl DbException, s)
      | Inr col \<Rightarrow> (Inr (), s\<lparr>gs_collector := col, gs_log := c # gs_log s\<rparr>))"

definition store_evidence :: "gateway_env \<Rightarrow> string \<Rightarrow> string \<Rightarrow> string \<Rightarrow> unit gw" where
  "store_evidence env lease stage detail =
     outbox_call env (\<lambda>ok t. record_evidence ok t \<lparr>evidence_lease_token = lease, evidence_stage = stage,
         evidence_source = ''gateway'', evidence_detail = detail\<rparr>) (EvidenceStored lease stage)"

definition settle_stored_evidence :: "gateway_env \<Rightarrow> string \<Rightarrow> string \<Rightarrow> unit gw" where
  "settle_stored_evidence env lease stage =
     outbox_call env (\<lambda>ok t. acknowledge_evidence ok t lease stage) (EvidenceSettled lease stage)"

text \<open>\<^verbatim>\<open>collector_.record\<close> inside its \<^verbatim>\<open>try\<close>: whether the event is stored.\<close>

definition store_usage :: "gateway_env \<Rightarrow> UsageEvent \<Rightarrow> bool gw" where
  "store_usage env ev s =
     (case record_usage (e_db_ok env (gs_log s)) (e_unixepoch env (gs_log s)) ev (gs_collector s) of
        Inl _ \<Rightarrow> (Inr False, s\<lparr>gs_log := UsageNotStored ev # gs_log s\<rparr>)
      | Inr col \<Rightarrow> (Inr True, s\<lparr>gs_collector := col, gs_log := UsageStored ev # gs_log s\<rparr>))"

section \<open>Reasoning about operations\<close>

text \<open>
  \<open>wp m Q E s\<close>: run from \<open>s\<close>, the operation ends in a state satisfying \<open>Q\<close> of its result, or stops for a
  reason and in a state satisfying \<open>E\<close>.
\<close>

definition wp :: "'a gw \<Rightarrow> ('a \<Rightarrow> gateway_state \<Rightarrow> bool) \<Rightarrow> (halt \<Rightarrow> gateway_state \<Rightarrow> bool) \<Rightarrow> gateway_state \<Rightarrow> bool" where
  "wp m Q E s = (case m s of (Inl h, s') \<Rightarrow> E h s' | (Inr a, s') \<Rightarrow> Q a s')"

named_theorems wp_simps "operations under wp"

lemma wp_return [wp_simps]: "wp (gw_return a) Q E s = Q a s"
  by (simp add: wp_def gw_return_def)

lemma wp_halt [wp_simps]: "wp (gw_halt h) Q E s = E h s"
  by (simp add: wp_def gw_halt_def)

lemma wp_bind [wp_simps]: "wp (gw_bind m f) Q E s = wp m (\<lambda>a. wp (f a) Q E) E s"
  by (auto simp: wp_def gw_bind_def split: prod.splits sum.splits)

lemma wp_then [wp_simps]: "wp (gw_then m n) Q E s = wp m (\<lambda>_. wp n Q E) E s"
  by (simp add: gw_then_def wp_bind)

lemma wp_when [wp_simps]: "wp (gw_when b m) Q E s = (if b then wp m Q E s else Q () s)"
  by (simp add: gw_when_def wp_return)

lemma wp_lift [wp_simps]: "wp (gw_lift r) Q E s = (case r of Inl e \<Rightarrow> E (RjFailure e) s | Inr a \<Rightarrow> Q a s)"
  by (simp add: gw_lift_def wp_return wp_halt split: sum.splits)

lemma wp_get [wp_simps]: "wp (gw_get f) Q E s = Q (f s) s"
  by (simp add: wp_def gw_get_def)

lemma wp_update [wp_simps]: "wp (gw_update f) Q E s = Q () (f s)"
  by (simp add: wp_def gw_update_def)

lemma wp_enter [wp_simps]: "wp (enter c) Q E s = Q () (s\<lparr>gs_log := c # gs_log s\<rparr>)"
  by (simp add: enter_def wp_update)

lemma wp_set_resp [wp_simps]: "wp (set_resp f) Q E s = Q () (s\<lparr>gs_resp := f (gs_resp s)\<rparr>)"
  by (simp add: set_resp_def wp_update)

lemma wp_count [wp_simps]: "wp (count f) Q E s = Q () (s\<lparr>gs_metrics := f (gs_metrics s)\<rparr>)"
  by (simp add: count_def wp_update)

lemma wp_ask [wp_simps]:
  "wp (ask answer mk) Q E s =
     (let a = answer (gs_log s) in Q a (s\<lparr>gs_log := mk a # gs_log s\<rparr>))"
  by (simp add: ask_def wp_bind wp_get wp_then wp_enter wp_return Let_def)

lemma wp_if: "wp (if b then m else n) Q E s = (if b then wp m Q E s else wp n Q E s)"
  by simp

lemma wp_crash [wp_simps]:
  "wp (crash_if_configured env point) Q E s =
     (let s' = s\<lparr>gs_markers := snd (claim (e_faults env) point (gs_markers s))\<rparr>
      in if fst (claim (e_faults env) point (gs_markers s)) then E FaultCrash s' else Q () s')"
  by (simp add: wp_def crash_if_configured_def Let_def split: prod.splits)

lemma wp_outbox [wp_simps]:
  "wp (outbox_call env f c) Q E s =
     (case f (e_db_ok env (gs_log s)) (e_unixepoch env (gs_log s)) (gs_collector s) of
        Inl _ \<Rightarrow> E DbException s
      | Inr col \<Rightarrow> Q () (s\<lparr>gs_collector := col, gs_log := c # gs_log s\<rparr>))"
  by (auto simp: wp_def outbox_call_def split: sum.splits db_error.splits)

lemma wp_store_usage [wp_simps]:
  "wp (store_usage env ev) Q E s =
     (case record_usage (e_db_ok env (gs_log s)) (e_unixepoch env (gs_log s)) ev (gs_collector s) of
        Inl _ \<Rightarrow> Q False (s\<lparr>gs_log := UsageNotStored ev # gs_log s\<rparr>)
      | Inr col \<Rightarrow> Q True (s\<lparr>gs_collector := col, gs_log := UsageStored ev # gs_log s\<rparr>))"
  by (auto simp: wp_def store_usage_def split: sum.splits)

lemmas [wp_simps] = now_def sleep_us_def call_garnet_def call_dispatch_def call_media_def call_upload_def
  call_evidence_def call_abort_def call_policy_def call_report_def report_error_def store_evidence_def
  settle_stored_evidence_def

lemma wp_mono:
  assumes "wp m Q E s" and "\<And>a s'. Q a s' \<Longrightarrow> Q' a s'" and "\<And>h s'. E h s' \<Longrightarrow> E' h s'"
  shows "wp m Q' E' s"
  using assms by (auto simp: wp_def split: prod.splits sum.splits)

lemma wp_bind_rule:
  assumes "wp m R E' s" and "\<And>a s'. R a s' \<Longrightarrow> wp (f a) Q E s'" and "\<And>h s'. E' h s' \<Longrightarrow> E h s'"
  shows "wp (gw_bind m f) Q E s"
  unfolding wp_bind by (rule wp_mono [OF assms])

lemma wp_then_rule:
  assumes "wp m R E' s" and "\<And>s'. R () s' \<Longrightarrow> wp n Q E s'" and "\<And>h s'. E' h s' \<Longrightarrow> E h s'"
  shows "wp (gw_then m n) Q E s"
  unfolding wp_then by (rule wp_mono [OF assms(1)]) (use assms in auto)

lemma wp_conj: "wp m Q E s \<Longrightarrow> wp m Q' E' s \<Longrightarrow> wp m (\<lambda>a s'. Q a s' \<and> Q' a s') (\<lambda>h s'. E h s' \<and> E' h s') s"
  by (auto simp: wp_def split: prod.splits sum.splits)

lemma wp_run: "wp m Q E s \<Longrightarrow> m s = (Inr a, s') \<Longrightarrow> Q a s'"
  by (simp add: wp_def)

lemma wp_run_halt: "wp m Q E s \<Longrightarrow> m s = (Inl h, s') \<Longrightarrow> E h s'"
  by (simp add: wp_def)

lemma wp_refuse [wp_simps]:
  "wp (refuse st payload) Q E s =
     Q () (s\<lparr>gs_resp := (gs_resp s)\<lparr>rs_status_code := st, rs_body := payload\<rparr>,
             gs_metrics := one_connection_less (one_more_failed (gs_metrics s))\<rparr>)"
  by (simp add: refuse_def wp_simps)

end
