(* ===== verification/Handler_Requests.thy ===== *)
theory Handler_Requests
  imports Gateway_State Validation Failover
begin

text \<open>
  The functions of \<^verbatim>\<open>server/gateway_handler.cpp\<close> without effects: the readers of request and provider
  documents, the names of media operations, the bodies the handler writes, the API key, the hashes, and
  the checks of a request before it is dispatched.  XXH64 and SHA-256 are parameters (\<open>e_xxh64\<close>,
  \<open>e_sha256\<close>).
\<close>

section \<open>Readers\<close>

definition parse_auth_version :: "rapidjson \<Rightarrow> string \<Rightarrow> int" where
  "parse_auth_version rj payload =
     (case parse_object rj payload of
        None \<Rightarrow> 0
      | Some doc \<Rightarrow>
          (case member doc ''version'' of
             None \<Rightarrow> 0
           | Some v \<Rightarrow> if is_int64 v then get_integer v
                       else if is_uint64 v then to_int64 (get_integer v) else 0))"

definition extract_model :: "rapidjson \<Rightarrow> string \<Rightarrow> string" where
  "extract_model rj payload = (case parse_object rj payload of None \<Rightarrow> [] | Some doc \<Rightarrow> get_str doc ''model'')"

definition is_json_request :: "HttpRequest \<Rightarrow> bool" where
  "is_json_request req \<longleftrightarrow> hq_content_type req = [] \<or> starts_with (hq_content_type req) ''application/json''
     \<or> starts_with (hq_content_type req) ''text/json''"

definition valid_json_object :: "rapidjson \<Rightarrow> string \<Rightarrow> bool" where
  "valid_json_object rj payload \<longleftrightarrow> parse_object rj payload \<noteq> None"

definition error_json :: "rapidjson \<Rightarrow> string \<Rightarrow> string \<Rightarrow> string" where
  "error_json rj ty msg =
     write_text rj (JObject [(''error'', JObject [(''type'', JString ty), (''message'', JString msg)])])"

text \<open>An error body that is a constant of the source.\<close>

definition fixed_error :: "string \<Rightarrow> string \<Rightarrow> string" where
  \<open>fixed_error ty msg = ''{"error":{"type":"'' @ ty @ ''","message":"'' @ msg @ ''"}}''\<close>

definition photon_websocket_url :: "string \<Rightarrow> string" where
  "photon_websocket_url url =
     (if starts_with url ''wss://'' then ''https://'' @ drop 6 url
      else if starts_with url ''ws://'' then ''http://'' @ drop 5 url else url)"

definition format_from_name :: "string \<Rightarrow> Format \<Rightarrow> Format" where
  "format_from_name name fallback =
     (if name = ''anthropic'' \<or> name = ''messages'' then Format.Anthropic
      else if name = ''openai_chat'' \<or> name = ''chat_completions'' then Format.OpenAIChatCompletions
      else if name = ''openai_responses'' \<or> name = ''responses'' then Format.OpenAIResponses
      else if name = ''gemini'' then Format.Gemini
      else if name = ''grok'' \<or> name = ''xai'' then Format.OpenAIChatCompletions
      else fallback)"

definition chat_capability :: "Capability \<Rightarrow> bool" where
  "chat_capability c \<longleftrightarrow> c = Capability.Messages \<or> c = Capability.ChatCompletions \<or> c = Capability.Responses
     \<or> c = Capability.ResponsesSubpath \<or> c = Capability.GeminiGenerate"

section \<open>Media operations\<close>

definition media_action :: "string \<Rightarrow> string" where
  "media_action op_name =
     (if ends_with op_name ''list'' then ''list''
      else if ends_with op_name ''cancel'' then ''cancel''
      else if ends_with op_name ''content'' \<or> ends_with op_name ''download'' then ''content''
      else if ends_with op_name ''delete_outputs'' then ''delete_outputs''
      else if ends_with op_name ''delete'' then ''delete''
      else if ends_with op_name ''items'' then ''items''
      else ''get'')"

definition media_control_operation :: "string \<Rightarrow> bool" where
  "media_control_operation op_name \<longleftrightarrow> op_name \<in> set [''images_task_get'', ''images_batch_get'',
     ''images_batch_list'', ''images_batch_items'', ''images_batch_download'', ''images_batch_cancel'',
     ''images_batch_delete'', ''images_batch_delete_outputs'', ''images_batch_item_content'', ''videos_get'',
     ''videos_content'', ''videos_cancel'', ''videos_delete'', ''videos_delete_outputs'']"

fun media_id_after :: "string \<Rightarrow> string list \<Rightarrow> string" where
  "media_id_after path [] = []"
| "media_id_after path (marker # ms) =
     (case find_sub marker path of
        None \<Rightarrow> media_id_after path ms
      | Some i \<Rightarrow> fst (split_at_char CHR ''/'' (drop (i + length marker) path)))"

definition media_operation_id :: "string \<Rightarrow> string" where
  "media_operation_id path = media_id_after path [''/images/tasks/'', ''/images/batches/'', ''/videos/'']"

definition optional_member :: "string \<Rightarrow> string \<Rightarrow> (string \<times> json) list" where
  "optional_member key value = (if value = [] then [] else [(key, jstr value)])"

definition media_view_json :: "rapidjson \<Rightarrow> MediaOperationResult \<Rightarrow> string" where
  "media_view_json rj r =
     write_text rj (JObject
       ([(''id'', jstr (mr_operation_id r)), (''task_id'', jstr (mr_operation_id r)),
         (''object'', JString ''media.operation''), (''type'', jstr (mr_operation_type r)),
         (''status'', jstr (mr_status r)), (''progress'', JInt (mr_progress r))] @
        optional_member ''upstream_task_id'' (mr_upstream_task_id r) @
        optional_member ''url'' (mr_output_url r) @
        optional_member ''content_type'' (mr_content_type r) @
        (if mr_output_metadata r = [] then []
         else case Parse rj (mr_output_metadata r) of None \<Rightarrow> [] | Some v \<Rightarrow> [(''output'', v)])))"

definition media_items_json :: "rapidjson \<Rightarrow> MediaOperationResult \<Rightarrow> string" where
  "media_items_json rj r =
     (case parse_object rj (mr_output_metadata r) of
        None \<Rightarrow> ''[]''
      | Some doc \<Rightarrow> (case array_at doc ''data'' of None \<Rightarrow> ''[]'' | Some xs \<Rightarrow> write_text rj (JArray xs)))"

fun first_string :: "json \<Rightarrow> string list \<Rightarrow> string option" where
  "first_string doc [] = None"
| "first_string doc (k # ks) = (case string_at doc k of Some v \<Rightarrow> Some (cstr v) | None \<Rightarrow> first_string doc ks)"

definition provider_task_id :: "rapidjson \<Rightarrow> string \<Rightarrow> string" where
  "provider_task_id rj payload =
     (case parse_object rj payload of
        None \<Rightarrow> []
      | Some doc \<Rightarrow> (case first_string doc [''task_id'', ''request_id'', ''id''] of Some v \<Rightarrow> v | None \<Rightarrow> []))"

definition provider_media_status :: "rapidjson \<Rightarrow> string \<Rightarrow> string \<Rightarrow> string" where
  "provider_media_status rj payload task_id =
     (case parse_object rj payload of
        None \<Rightarrow> ''running''
      | Some doc \<Rightarrow>
          let st = (case string_at doc ''status'' of Some v \<Rightarrow> lower (cstr v) | None \<Rightarrow> [])
          in if st = ''succeeded'' \<or> st = ''completed'' then ''succeeded''
             else if st = ''failed'' \<or> st = ''error'' then ''failed''
             else if st = ''canceled'' \<or> st = ''cancelled'' then ''canceled''
             else if task_id = [] \<and> (has_member doc ''data'' \<or> has_member doc ''url'') then ''succeeded''
             else ''running'')"

fun first_url :: "json list \<Rightarrow> string" where
  "first_url [] = []"
| "first_url (v # vs) = (case string_at v ''url'' of Some u \<Rightarrow> cstr u | None \<Rightarrow> first_url vs)"

definition provider_output_url :: "rapidjson \<Rightarrow> string \<Rightarrow> string" where
  "provider_output_url rj payload =
     (case parse_object rj payload of
        None \<Rightarrow> []
      | Some doc \<Rightarrow>
          (case first_string doc [''output_url'', ''url''] of
             Some v \<Rightarrow> v
           | None \<Rightarrow> (case array_at doc ''data'' of None \<Rightarrow> [] | Some xs \<Rightarrow> first_url xs)))"

definition persistent_create :: "string \<Rightarrow> bool" where
  "persistent_create op_name \<longleftrightarrow> op_name \<in> set [''images_generations_async'', ''images_edits_async'',
     ''images_batch_create'', ''videos_generations'', ''videos_edits'', ''videos_extensions'']"

section \<open>Keys and hashes\<close>

definition extract_api_key :: "HttpRequest \<Rightarrow> string" where
  "extract_api_key req =
     (if starts_with (hq_authorization req) ''Bearer '' then drop 7 (hq_authorization req)
      else if hq_x_api_key req \<noteq> [] then hq_x_api_key req else [])"

text \<open>\<^verbatim>\<open>std::format("{:016x}", w)\<close>.\<close>

definition hex16 :: "64 word \<Rightarrow> string" where
  "hex16 w = map (\<lambda>i. hex_digit (unat w div 16 ^ (15 - i) mod 16)) [0..<16]"

text \<open>The eight bytes of a clock value, low byte first.\<close>

definition time_bytes :: "int \<Rightarrow> string" where
  "time_bytes t = map (\<lambda>i. char_of (nat (t mod 2 ^ 64) div 256 ^ i mod 256)) [0..<8]"

definition fresh_request_id :: "gateway_env \<Rightarrow> int \<Rightarrow> string" where
  "fresh_request_id env t = hex16 (e_xxh64 env (time_bytes t) 0)"

definition request_fingerprint :: "gateway_env \<Rightarrow> HttpRequest \<Rightarrow> string" where
  "request_fingerprint env req =
     hex16 (fold (e_xxh64 env)
       [hq_method req, hq_path req, hq_query req, hq_content_type req, hq_body req] 0)"

definition compute_session_hash :: "gateway_env \<Rightarrow> string \<Rightarrow> string \<Rightarrow> string \<Rightarrow> string \<Rightarrow> string" where
  "compute_session_hash env key_hash user payload model =
     hex16 (e_xxh64 env (key_hash @ [CHR 0x0A] @ model @ [CHR 0x0A] @
       (if user \<noteq> [] then user else take 4096 payload)) 0)"

section \<open>Checks of a request\<close>

text \<open>The model named in the path of a Gemini request.\<close>

definition path_model :: "string \<Rightarrow> string option" where
  "path_model path =
     (case find_sub ''/models/'' path of
        None \<Rightarrow> None
      | Some i \<Rightarrow> Some (fst (split_at_char CHR '':'' (drop (i + 8) path))))"

definition parse_inbound :: "rapidjson \<Rightarrow> HttpRequest \<Rightarrow> CapabilitySpec \<Rightarrow> rj_error + ParsedRequest" where
  "parse_inbound rj req sp =
     res_bind
       (if chat_capability (capability sp) \<and> is_json_request req
        then parse rj (hq_body req) (inbound_format sp)
        else let m = extract_model rj (hq_body req)
             in Inr \<lparr>parsed_format = inbound_format sp,
                     parsed_model = (if m = [] \<and> starts_with (hq_content_type req) ''multipart/form-data''
                       then extract_multipart_field (hq_body req) (hq_content_type req) ''model'' else m),
                     parsed_stream = False, parsed_user_id = [], parsed_max_tokens = 0,
                     thinking_enabled = False\<rparr>) (\<lambda>p.
       Inr (if (capability sp = GeminiGenerate \<or> capability sp = GeminiModels) \<and> parsed_model p = []
            then case path_model (hq_path req) of Some m \<Rightarrow> p\<lparr>parsed_model := m\<rparr> | None \<Rightarrow> p
            else p))"

definition needs_model :: "MatchedCapability \<Rightarrow> bool" where
  "needs_model m \<longleftrightarrow>
     (let c = capability (spec m)
      in (chat_capability c \<and> c \<noteq> ResponsesSubpath) \<or> c = Capability.Embeddings \<or> c = Capability.CountTokens \<or>
         operation m \<in> set [''images_generations'', ''images_edits'', ''images_generations_async'',
           ''images_edits_async'', ''images_batch_create'', ''videos_generations'', ''videos_edits'',
           ''videos_extensions'', ''audio_speech'', ''audio_transcriptions''])"

definition invalid_request :: "string \<Rightarrow> string" where
  "invalid_request msg = fixed_error ''invalid_request_error'' msg"

definition search_error :: "rapidjson \<Rightarrow> string \<Rightarrow> string option" where
  "search_error rj payload =
     (case parse_object rj payload of
        None \<Rightarrow> Some (invalid_request ''A JSON object with a query is required'')
      | Some doc \<Rightarrow>
          (case string_at doc ''query'' of
             None \<Rightarrow> Some (invalid_request ''query is required and must be a string'')
           | Some q \<Rightarrow>
               if cstr q = [] \<or> length (cstr q) > 1000
               then Some (invalid_request ''query must be between 1 and 1000 characters'')
               else if has_member doc ''domain'' \<and> string_at doc ''domain'' = None
               then Some (invalid_request ''domain must be a string'')
               else if has_member doc ''recency'' \<and> string_at doc ''recency'' = None
               then Some (invalid_request ''recency must be a string'')
               else None))"

definition tts_format_error :: "json \<Rightarrow> string option" where
  "tts_format_error doc =
     (if \<not> has_member doc ''response_format'' then None
      else case string_at doc ''response_format'' of
             None \<Rightarrow> Some (invalid_request ''response_format must be a string'')
           | Some f \<Rightarrow>
               if cstr f \<in> set [''mp3'', ''opus'', ''aac'', ''flac'', ''wav'', ''pcm''] then None
               else Some (invalid_request ''response_format must be one of: mp3, opus, aac, flac, wav, pcm''))"

definition tts_error :: "rapidjson \<Rightarrow> string \<Rightarrow> string option" where
  "tts_error rj payload =
     (case parse_object rj payload of
        None \<Rightarrow> Some (invalid_request ''A JSON object with input and voice is required'')
      | Some doc \<Rightarrow>
          (case string_at doc ''input'' of
             None \<Rightarrow> Some (invalid_request ''input is required and must be a string'')
           | Some i \<Rightarrow>
               if cstr i = [] \<or> length (cstr i) > 4096
               then Some (invalid_request ''input must be between 1 and 4096 characters'')
               else if string_at doc ''voice'' = None
               then Some (invalid_request ''voice is required and must be a string'')
               else tts_format_error doc))"

definition stt_error :: "rapidjson \<Rightarrow> string \<Rightarrow> string option" where
  "stt_error rj payload =
     (case parse_object rj payload of
        None \<Rightarrow> Some (invalid_request ''A JSON object is required'')
      | Some doc \<Rightarrow>
          if has_member doc ''language'' \<and> string_at doc ''language'' = None
          then Some (invalid_request ''language must be a string'')
          else (case string_at doc ''language'' of
                  None \<Rightarrow> None
                | Some l \<Rightarrow>
                    if length (cstr l) > 5
                    then Some (invalid_request ''language must be a BCP-47 tag of at most 5 characters'')
                    else None))"

text \<open>The body of the 400 answer, if the request is refused.\<close>

definition request_error :: "rapidjson \<Rightarrow> HttpRequest \<Rightarrow> MatchedCapability \<Rightarrow> ParsedRequest \<Rightarrow> string option" where
  "request_error rj req m p =
     (let c = capability (spec m); is_json = is_json_request req;
          e = (if c = Capability.Embeddings \<and> is_json then validate_embeddings_request rj (hq_body req) else accept)
      in if needs_model m \<and> ((is_json \<and> \<not> valid_json_object rj (hq_body req)) \<or> parsed_model p = [])
         then Some (invalid_request ''A JSON object with a model is required'')
         else if \<not> valid e then Some (error_json rj ''invalid_request_error'' (message e))
         else if c = Search \<and> is_json then search_error rj (hq_body req)
         else if c = Capability.AudioTts \<and> is_json then tts_error rj (hq_body req)
         else if c = Capability.AudioStt \<and> is_json then stt_error rj (hq_body req)
         else None)"

definition streaming :: "MatchedCapability \<Rightarrow> ParsedRequest \<Rightarrow> bool" where
  "streaming m p \<longleftrightarrow> can_stream (spec m) \<and> (parsed_stream p \<or> operation m = ''streamGenerateContent'')
     \<and> \<not> realtime (spec m)"

definition format_code :: "Format \<Rightarrow> string" where
  "format_code f = (case f of Format.Anthropic \<Rightarrow> ''0'' | Format.OpenAIChatCompletions \<Rightarrow> ''1''
     | Format.OpenAIResponses \<Rightarrow> ''2'' | Format.Gemini \<Rightarrow> ''3'')"

section \<open>The provider chosen by the platform\<close>

definition provider_format :: "UpstreamTarget \<Rightarrow> Format" where
  "provider_format t = format_from_name (tgt_upstream_format t)
     (if tgt_platform t = ''anthropic'' \<or> tgt_platform t = ''claude'' then Format.Anthropic
      else if tgt_platform t = ''gemini'' \<or> tgt_platform t = ''google'' then Format.Gemini
      else if tgt_platform t = ''grok'' \<or> tgt_platform t = ''xai'' then Format.OpenAIChatCompletions
      else if tgt_upstream_path t = ''/v1/responses'' then Format.OpenAIResponses
      else Format.OpenAIChatCompletions)"

definition reject_status :: "int \<Rightarrow> int" where
  "reject_status c =
     (if c \<le> 1 then 401 else if c = 2 then 402 else if c = 3 \<or> c = 5 \<or> c = 7 then 429
      else if c = 8 then 409 else if c = 10 then 409 else if c = 9 then 403 else if c = 11 then 503
      else if c = 13 then 400 else 503)"

definition reject_type :: "int \<Rightarrow> string" where
  "reject_type c =
     (if c \<le> 1 then ''authentication_error'' else if c = 2 then ''insufficient_quota''
      else if c = 3 \<or> c = 5 \<or> c = 7 then ''rate_limit_error'' else if c = 8 then ''idempotency_conflict''
      else if c = 9 then ''permission_error'' else if c = 10 then ''idempotency_replay''
      else if c = 11 then ''pricing_unavailable'' else if c = 13 then ''content_policy_violation''
      else ''provider_unavailable'')"

definition stream_decision :: "ContentPolicyResult \<Rightarrow> StreamPolicyDecision" where
  "stream_decision p =
     (case content_policy_disposition p of
        Allow \<Rightarrow> \<lparr>disposition = PolicyAllow, decision_code = [], decision_message = []\<rparr>
      | Block \<Rightarrow> \<lparr>disposition = PolicyBlock,
          decision_code = (if cp_error_code p = [] then ''content_policy_blocked'' else cp_error_code p),
          decision_message = ''Provider response was withheld by the active content policy''\<rparr>
      | FailClosed \<Rightarrow> FailedClosed
          (if cp_error_code p = [] then ''content_policy_unavailable'' else cp_error_code p)
          ''Provider response could not be cleared for delivery'')"

end
