(* ===== verification/Gateway_Handler.thy ===== *)
theory Gateway_Handler
  imports Handler_Requests
begin

text \<open>
  The request handler \<^verbatim>\<open>GatewayHandler::handle\<close> (\<^verbatim>\<open>server/gateway_handler.cpp\<close>): authentication, the
  media control operations, the checks of the request, the dispatch with its retries, the forwarding
  with failover, the settlement of the lease, the checks of the response, and the usage record.  Each
  definition is one stretch of the function; local variables that live across stretches are the
  fields of \<open>request_ctx\<close> (set once) and \<open>attempt_state\<close> (updated by the loop).

  The content policy is asked during a stream through the function in the forward request, whose
  answers depend on the log at the start of the forwarding.  The effects of the first write to the
  client follow those of the stream in the log.
\<close>

record request_ctx =
  cx_req :: HttpRequest
  cx_matched :: MatchedCapability
  cx_start :: int
  cx_request_id :: string
  cx_key_hash :: string
  cx_fingerprint :: string
  cx_parsed :: ParsedRequest
  cx_stream :: bool

abbreviation cx_spec :: "request_ctx \<Rightarrow> CapabilitySpec" where
  "cx_spec cx \<equiv> spec (cx_matched cx)"

abbreviation cx_cap :: "request_ctx \<Rightarrow> Capability" where
  "cx_cap cx \<equiv> capability (spec (cx_matched cx))"

record attempt_state =
  at_request :: DispatchRequest
  at_failover :: FailoverController
  at_forward :: ForwardResult
  at_dispatch :: DispatchResult
  at_format :: Format
  at_retries :: nat
  at_waits :: nat
  at_sequence :: nat
  at_aborted :: bool

section \<open>Media control\<close>

definition media_request :: "string \<Rightarrow> string \<Rightarrow> string \<Rightarrow> string \<Rightarrow> HttpRequest \<Rightarrow> string \<Rightarrow> MediaOperationRequest" where
  "media_request key_hash op_id action request_id req fingerprint =
     \<lparr>mq_api_key_hash = key_hash, mq_operation_id = op_id, mq_action = action, mq_request_id = request_id,
      mq_client_ip = hq_client_ip req, mq_idempotency_key = hq_idempotency_key req,
      mq_request_fingerprint = fingerprint, mq_status = [], mq_upstream_task_id = [], mq_output_metadata = [],
      mq_output_url = [], mq_content_type = [], mq_progress = 0\<rparr>"

text \<open>A media operation that is not finished yet.\<close>

definition media_unfinished :: "MediaOperationResult \<Rightarrow> bool" where
  "media_unfinished r \<longleftrightarrow> mr_status r = ''pending'' \<or> mr_status r = ''running''"

definition empty_media_list :: string where
  \<open>empty_media_list = ''{"object":"list","data":[],"has_more":false}''\<close>

definition media_answer :: "rapidjson \<Rightarrow> string \<Rightarrow> MediaOperationResult \<Rightarrow> unit gw" where
  "media_answer rj action r =
     gw_then (set_resp (\<lambda>p. p\<lparr>rs_status_code := mr_status_code r\<rparr>))
     (if \<not> mr_accepted r
      then gw_then (set_resp (\<lambda>p. p\<lparr>rs_body := error_json rj (mr_error_code r) (mr_error_message r)\<rparr>))
             (count one_more_failed)
      else if action = ''list''
      then set_resp (\<lambda>p. add_header ''Cache-Control'' ''no-store'' (add_header ''Content-Type'' ''application/json''
             (p\<lparr>rs_status_code := 200,
                rs_body := (if mr_output_metadata r = [] then empty_media_list
                            else mr_output_metadata r)\<rparr>)))
      else if action = ''items''
      then set_resp (\<lambda>p. add_header ''Cache-Control'' ''no-store'' (add_header ''Content-Type'' ''application/json''
             (p\<lparr>rs_status_code := 200, rs_body := media_items_json rj r\<rparr>)))
      else if action = ''content''
      then if mr_output_url r = []
           then gw_then (set_resp (\<lambda>p. p\<lparr>rs_status_code := 409,
                    rs_body := error_json rj ''output_not_ready'' ''Media output is not available''\<rparr>))
                  (count one_more_failed)
           else set_resp (\<lambda>p. add_header ''Cache-Control'' ''no-store'' (add_header ''Location'' (mr_output_url r)
                  (p\<lparr>rs_status_code := 302\<rparr>)))
      else if mr_status_code r \<noteq> 204
      then set_resp (\<lambda>p. add_header ''Cache-Control'' ''no-store''
             ((if media_unfinished r then add_header ''Retry-After'' ''3'' else id)
               (p\<lparr>rs_body := media_view_json rj r\<rparr>)))
      else gw_return ())"

definition media_control :: "gateway_env \<Rightarrow> HttpRequest \<Rightarrow> MatchedCapability \<Rightarrow> string \<Rightarrow> string \<Rightarrow> string \<Rightarrow> unit gw" where
  "media_control env req m request_id key_hash fingerprint =
     (let action = media_action (operation m)
      in gw_bind (call_media env (media_request key_hash (media_operation_id (hq_path req)) action request_id req fingerprint))
           (\<lambda>r. gw_then (media_answer (e_rj env) action r) (count one_connection_less)))"

text \<open>The answer for an operation that exists already.\<close>

definition media_replay :: "rapidjson \<Rightarrow> MediaOperationResult \<Rightarrow> HttpResponse \<Rightarrow> HttpResponse" where
  "media_replay rj r p =
     (let p1 = add_header ''Cache-Control'' ''no-store''
                 (p\<lparr>rs_status_code := (if media_unfinished r then 202 else 200), rs_body := media_view_json rj r\<rparr>)
      in if media_unfinished r then add_header ''Retry-After'' ''3'' p1 else p1)"

text \<open>Whether the request is answered by the lookup.\<close>

definition lookup_idempotency :: "gateway_env \<Rightarrow> HttpRequest \<Rightarrow> MatchedCapability \<Rightarrow> string \<Rightarrow> string \<Rightarrow> string \<Rightarrow> bool gw" where
  "lookup_idempotency env req m request_id key_hash fingerprint =
     (if persistent_create (operation m) \<and> hq_idempotency_key req \<noteq> []
      then gw_bind (call_media env (media_request key_hash [] ''lookup_idempotency'' request_id req fingerprint)) (\<lambda>r.
             if mr_accepted r
             then gw_then (set_resp (media_replay (e_rj env) r)) (gw_then (count one_connection_less) (gw_return True))
             else if mr_status_code r = 409
             then gw_then (refuse 409 (fixed_error ''idempotency_conflict''
                    ''Idempotency key was already used for a different request'')) (gw_return True)
             else if mr_status_code r \<noteq> 404
             then gw_then (refuse (if mr_status_code r > 0 then mr_status_code r else 503)
                    (fixed_error ''platform_unavailable'' ''Media idempotency lookup failed'')) (gw_return True)
             else gw_return False)
      else gw_return False)"

section \<open>Before the dispatch\<close>

definition cached_auth_version :: "gateway_env \<Rightarrow> string \<Rightarrow> int gw" where
  "cached_auth_version env key_hash =
     gw_bind (gw_get (\<lambda>s. cache_lookup (gs_cache s) key_hash)) (\<lambda>hit.
       case hit of
         Some snap \<Rightarrow> gw_then (count (\<lambda>m. m\<lparr>mt_garnet_hits := mt_garnet_hits m + 1\<rparr>)) (gw_return (version snap))
       | None \<Rightarrow>
           gw_bind (call_garnet env (auth_key key_hash)) (\<lambda>g.
             if gr_found g
             then gw_then (count (\<lambda>m. m\<lparr>mt_garnet_hits := mt_garnet_hits m + 1\<rparr>))
                    (gw_return (parse_auth_version (e_rj env) (gr_value g)))
             else gw_then (count (\<lambda>m. m\<lparr>mt_garnet_misses := mt_garnet_misses m + 1\<rparr>)) (gw_return 0)))"

definition note_streaming :: "request_ctx \<Rightarrow> unit gw" where
  "note_streaming cx =
     gw_when (cx_stream cx)
       (gw_then (count (\<lambda>m. m\<lparr>mt_requests_streaming := mt_requests_streaming m + 1\<rparr>))
         (gw_when (hq_has_set_client_timeout (cx_req cx))
           (enter (ClientTimeoutSet (hq_stream_timeout_ms (cx_req cx) * 1000)))))"

definition kMaxInlineRequestBodyBytes :: nat where
  "kMaxInlineRequestBodyBytes = 512 * 1024"

text \<open>The body as it goes with the dispatch: inline, or the reference of an uploaded blob.\<close>

record body_transfer =
  bt_inline :: string
  bt_ref :: string
  bt_digest :: string
  bt_size :: nat

definition transfer_body :: "gateway_env \<Rightarrow> HttpRequest \<Rightarrow> body_transfer option gw" where
  "transfer_body env req =
     (if length (hq_body req) > kMaxInlineRequestBodyBytes
      then gw_bind (gw_get (\<lambda>s. e_rng env (gs_log s))) (\<lambda>r.
             gw_bind (call_upload env (hex16 (fst r) @ hex16 (snd r)) (hq_body req)) (\<lambda>u.
               if bu_accepted u
               then gw_return (Some \<lparr>bt_inline = [], bt_ref = bu_blob_id u, bt_digest = bu_digest u,
                      bt_size = bu_total_bytes u\<rparr>)
               else gw_then (refuse 503 (error_json (e_rj env) ''provider_unavailable''
                      (''Platform blob upload failed: '' @ bu_error_code u))) (gw_return None)))
      else gw_return (Some \<lparr>bt_inline = hq_body req, bt_ref = [], bt_digest = [], bt_size = 0\<rparr>))"

definition dispatch_request :: "gateway_env \<Rightarrow> request_ctx \<Rightarrow> int \<Rightarrow> body_transfer \<Rightarrow> DispatchRequest" where
  "dispatch_request env cx cached_version bt =
     (let req = cx_req cx; p = cx_parsed cx
      in \<lparr>dq_api_key_hash = cx_key_hash cx, dq_requested_model = parsed_model p,
          dq_session_hash = compute_session_hash env (cx_key_hash cx) (parsed_user_id p) (hq_body req) (parsed_model p),
          dq_client_ip = hq_client_ip req, dq_request_id = cx_request_id cx, dq_excluded_accounts = [],
          dq_cached_auth_version = cached_version, dq_endpoint = endpoint_code (endpoint (cx_spec cx)),
          dq_metadata_user_id = parsed_user_id p, dq_stream = cx_stream cx, dq_operation = operation (cx_matched cx),
          dq_inbound_format = format_code (inbound_format (cx_spec cx)), dq_http_method = hq_method req,
          dq_request_path = hq_path req, dq_content_type = hq_content_type req, dq_capability = spec_name (cx_spec cx),
          dq_idempotency_key = hq_idempotency_key req, dq_realtime_session = realtime (cx_spec cx),
          dq_force_platform = force_platform (cx_matched cx), dq_request_fingerprint = cx_fingerprint cx,
          dq_request_query = hq_query req, dq_request_body = bt_inline bt, dq_request_body_ref = bt_ref bt,
          dq_request_body_digest = bt_digest bt, dq_request_body_size = bt_size bt,
          dq_request_body_truncated = False\<rparr>)"

section \<open>Obtaining a lease\<close>

definition kDispatchDeadline :: int where "kDispatchDeadline = 45 * 1000000000"

text \<open>\<^verbatim>\<open>duration_cast<milliseconds>\<close> of nanoseconds truncates towards zero.\<close>

definition to_ms :: "int \<Rightarrow> int" where
  "to_ms d = (if d < 0 then - ((- d) div 1000000) else d div 1000000)"

text \<open>\<^verbatim>\<open>static_cast<uint64_t>(wait_ms) * 1000\<close>, the argument of \<^verbatim>\<open>thread_usleep\<close>.\<close>

definition usleep_arg :: "int \<Rightarrow> nat" where
  "usleep_arg ms = nat ((ms * 1000) mod 2 ^ 64)"

definition note_auth :: "string \<Rightarrow> DispatchResult \<Rightarrow> unit gw" where
  "note_auth key_hash r =
     (if dr_outcome r = Reauth then gw_update (\<lambda>s. s\<lparr>gs_cache := cache_evict key_hash (gs_cache s)\<rparr>)
      else if dr_auth_version r > 0
      then gw_update (\<lambda>s. s\<lparr>gs_cache := cache_insert key_hash
             (default_snapshot\<lparr>version := dr_auth_version r, user_id := tgt_user_id (dr_upstream r),
                               group_id := tgt_group_id (dr_upstream r)\<rparr>) (gs_cache s)\<rparr>)
      else gw_return ())"

definition media_location :: "MediaOperationResult \<Rightarrow> string" where
  "media_location r =
     (if starts_with (mr_operation_type r) ''images_batch'' then ''/v1/images/batches/''
      else if starts_with (mr_operation_type r) ''videos_'' then ''/v1/videos/'' else ''/v1/images/tasks/'')
     @ mr_operation_id r"

definition reject_finally :: "rapidjson \<Rightarrow> DispatchResult \<Rightarrow> unit gw" where
  "reject_finally rj r =
     (if dr_reject_code r = 10 \<and> dr_replay_status_code r > 0 \<and> dr_replay_body r \<noteq> []
      then gw_then (set_resp (\<lambda>p. add_header ''Cache-Control'' ''no-store''
             (p\<lparr>rs_status_code := dr_replay_status_code r,
                rs_content_type := (if dr_replay_content_type r = [] then ''application/json'' else dr_replay_content_type r),
                rs_body := dr_replay_body r, rs_stream := False\<rparr>))) (count one_connection_less)
      else refuse (reject_status (dr_reject_code r)) (error_json rj (reject_type (dr_reject_code r)) (dr_reject_message r)))"

definition rejected_dispatch :: "gateway_env \<Rightarrow> request_ctx \<Rightarrow> DispatchResult \<Rightarrow> unit gw" where
  "rejected_dispatch env cx r =
     (case (if dr_reject_code r = 10 then find_sub ''Media operation already exists: '' (dr_reject_message r) else None) of
        None \<Rightarrow> reject_finally (e_rj env) r
      | Some i \<Rightarrow>
          gw_bind (call_media env (media_request (cx_key_hash cx) (drop (i + 32) (dr_reject_message r)) ''get''
              (cx_request_id cx) (cx_req cx) (cx_fingerprint cx))) (\<lambda>ex.
            if mr_accepted ex
            then gw_then (set_resp (\<lambda>p. add_header ''Location'' (media_location ex) (media_replay (e_rj env) ex p)))
                   (count one_connection_less)
            else reject_finally (e_rj env) r))"

text \<open>
  The inner loop with its two counters, which are kept over the attempts of a request; \<open>None\<close> when the
  request is answered.
\<close>

function acquire_lease :: "gateway_env \<Rightarrow> request_ctx \<Rightarrow> int \<Rightarrow> DispatchRequest \<Rightarrow> nat \<Rightarrow> nat \<Rightarrow> (DispatchResult \<times> nat \<times> nat) option gw" where
  "acquire_lease env cx deadline rq retries waits =
     gw_bind (call_dispatch env rq) (\<lambda>r.
     gw_then (count (\<lambda>m. m\<lparr>mt_dispatch_calls := mt_dispatch_calls m + 1\<rparr>))
     (case dr_outcome r of
        Ok \<Rightarrow> gw_then (note_auth (cx_key_hash cx) r) (gw_return (Some (r, retries, waits)))
      | Reauth \<Rightarrow> gw_then (note_auth (cx_key_hash cx) r) (gw_return (Some (r, retries, waits)))
      | Rejected \<Rightarrow>
          if is_retryable_platform_dispatch r
          then let give_up = gw_then (refuse 503 (error_json (e_rj env) ''provider_unavailable''
                     ''Platform dispatch was unavailable before the retry deadline'')) (gw_return None)
               in if retries \<ge> 8 then give_up
                  else gw_bind (now env) (\<lambda>t.
                    if t \<ge> deadline then give_up
                    else gw_then (sleep_us (usleep_arg (platform_dispatch_retry_delay_ms (int (retries + 1)))))
                           (acquire_lease env cx deadline rq (retries + 1) waits))
          else gw_then (rejected_dispatch env cx r) (gw_return None)
      | Wait \<Rightarrow>
          let give_up = gw_then (refuse 503 (fixed_error ''provider_unavailable''
                ''No upstream Provider account became available before the deadline'')) (gw_return None)
          in if waits \<ge> 8 then give_up
             else gw_bind (now env) (\<lambda>t.
               if t \<ge> deadline then give_up
               else gw_bind (now env) (\<lambda>t2.
                 gw_then (sleep_us (usleep_arg (min (max (dr_wait_timeout_ms r) 1) (min 1000 (to_ms (deadline - t2))))))
                   (acquire_lease env cx deadline rq retries (waits + 1))))))"
  by pat_completeness auto

termination
  by (relation "measure (\<lambda>(env, cx, deadline, rq, retries, waits). (8 - retries) + (8 - waits))") auto

declare acquire_lease.simps [simp del]

section \<open>One attempt\<close>

text \<open>The body for the provider, or the message of a failed conversion.\<close>

definition upstream_body :: "rapidjson \<Rightarrow> request_ctx \<Rightarrow> UpstreamTarget \<Rightarrow> Format \<Rightarrow> rj_error + (string + string)" where
  "upstream_body rj cx target fmt =
     (let payload = hq_body (cx_req cx)
      in if payload = [] \<or> \<not> chat_capability (cx_cap cx) then Inr (Inr payload)
         else res_bind (convert_request rj payload (inbound_format (cx_spec cx)) fmt (tgt_mapped_model target)) (\<lambda>c.
                Inr (if success c then Inr (body c) else Inl (error c))))"

definition authorize_forwarding :: "gateway_env \<Rightarrow> string \<Rightarrow> bool gw" where
  "authorize_forwarding env lease =
     gw_then (store_evidence env lease ''forwarded'' ''Provider transport authorized'')
     (gw_bind (call_evidence env lease Forwarded ''Provider transport authorized'') (\<lambda>ack.
       if acknowledged ack
       then gw_then (settle_stored_evidence env lease ''forwarded'') (gw_return True)
       else gw_bind (call_abort env lease ''forward_evidence_unavailable'' NoCharge 0) (\<lambda>a.
              gw_then (gw_when (\<not> acknowledged a) (crash_if_configured env ''gateway.forward_evidence_abort_failed''))
                (gw_return False))))"

definition forward_request :: "gateway_env \<Rightarrow> gateway_call list \<Rightarrow> request_ctx \<Rightarrow> string \<Rightarrow> string \<Rightarrow> Format \<Rightarrow> HttpResponse \<Rightarrow> ForwardRequest" where
  "forward_request env l cx lease payload fmt p =
     (let req = cx_req cx
      in \<lparr>rq_method = hq_method req, rq_body = payload, rq_content_type = hq_content_type req,
          rq_accept = hq_accept req, rq_user_agent = hq_user_agent req, rq_request_id = cx_request_id cx,
          rq_idempotency_key = hq_idempotency_key req, rq_headers = hq_headers req, rq_stream = cx_stream cx,
          rq_stream_source = fmt, rq_stream_target = inbound_format (cx_spec cx),
          rq_stream_policy = (if cx_stream cx \<and> chat_capability (cx_cap cx)
            then Some (\<lambda>txt. stream_decision (e_policy env l lease txt (spec_name (cx_spec cx)))) else None),
          rq_has_stream_write = rs_has_stream_write p, rq_has_response_start = True,
          rq_has_client_disconnected = hq_has_client_disconnected req\<rparr>)"

text \<open>The callback \<^verbatim>\<open>response_start\<close>.\<close>

definition start_response :: "request_ctx \<Rightarrow> int \<times> string \<times> headers \<Rightarrow> HttpResponse \<Rightarrow> HttpResponse" where
  "start_response cx h p =
     (case h of (st, ct, hs) \<Rightarrow>
        p\<lparr>rs_status_code := st, rs_content_type := (if ct = [] then ''application/octet-stream'' else ct),
          rs_headers := (if list_ex (\<lambda>x. fst x = ''X-Request-ID'' \<or> fst x = ''x-request-id'') hs then hs
                         else hs @ [(''X-Request-ID'', cx_request_id cx)]),
          rs_stream := cx_stream cx\<rparr>)"

definition stream_mode :: "request_ctx \<Rightarrow> Format \<Rightarrow> ProtocolMode" where
  "stream_mode cx fmt = (if cx_stream cx \<and> inbound_format (cx_spec cx) \<noteq> fmt then CrossProtocol else Passthrough)"

definition call_forwarder :: "gateway_env \<Rightarrow> request_ctx \<Rightarrow> DispatchResult \<Rightarrow> string \<Rightarrow> Format \<Rightarrow> ForwardResult gw" where
  "call_forwarder env cx dr payload fmt s =
     (let rq = forward_request env (gs_log s) cx (dr_lease_token dr) payload fmt (gs_resp s)
      in case forward (e_rj env) (dr_upstream dr) rq (stream_mode cx fmt) (e_transport env (gs_log s))
                (rs_sink (gs_resp s)) (gs_forwarder s) of
           Inl e \<Rightarrow> (Inl (RjFailure e), s)
         | Inr (Waiting, fw) \<Rightarrow> (Inl ProviderPending, s\<lparr>gs_forwarder := fw\<rparr>)
         | Inr (Returned f, fw) \<Rightarrow>
             (Inr (fwd_result f),
              s\<lparr>gs_forwarder := fw,
                gs_resp := (fold (start_response cx) (fwd_starts f) (gs_resp s))\<lparr>rs_sink := fwd_sink f\<rparr>,
                gs_log := ForwardedTo (dr_upstream dr) rq (fwd_result f) # gs_log s\<rparr>))"

text \<open>The callback \<^verbatim>\<open>output_started\<close>.\<close>

definition note_output :: "gateway_env \<Rightarrow> string \<Rightarrow> unit gw" where
  "note_output env lease =
     gw_then (store_evidence env lease ''output_started'' ''first response bytes written to client'')
     (gw_bind (call_evidence env lease OutputStarted ''first response bytes written to client'') (\<lambda>ack.
       gw_then (gw_when (acknowledged ack) (settle_stored_evidence env lease ''output_started''))
         (crash_if_configured env ''gateway.after_output_started'')))"

definition forward_once :: "gateway_env \<Rightarrow> request_ctx \<Rightarrow> DispatchResult \<Rightarrow> string \<Rightarrow> Format \<Rightarrow> ForwardResult gw" where
  "forward_once env cx dr payload fmt =
     gw_bind (call_forwarder env cx dr payload fmt) (\<lambda>fr.
     gw_then (gw_when (fr_output_started fr) (note_output env (dr_lease_token dr)))
     (gw_then (crash_if_configured env ''gateway.after_provider_completion'') (gw_return fr)))"

definition stream_abort_reason :: "ForwardResult \<Rightarrow> string" where
  "stream_abort_reason fr =
     (if fr_policy_blocked fr then ''response_content_policy_blocked''
      else if fr_policy_failed_closed fr then ''response_content_policy_fail_closed''
      else if fr_client_disconnect fr then ''client_disconnect'' else ''incomplete_provider_stream'')"

text \<open>A cancelled or incomplete forwarding; whether the lease was aborted here.\<close>

definition settle_cancelled :: "gateway_env \<Rightarrow> string \<Rightarrow> ForwardResult \<Rightarrow> bool gw" where
  "settle_cancelled env lease fr =
     (if (fr_client_disconnect fr \<and> \<not> fr_output_started fr) \<or> fr_stream_incomplete fr
      then gw_then (crash_if_configured env ''gateway.during_cancellation'')
           (gw_bind (call_abort env lease (stream_abort_reason fr) UnknownCharge (fr_provider_status_code fr)) (\<lambda>a.
             gw_then (count one_upstream_error)
             (gw_then (count one_more_failed)
             (gw_then (gw_when (fr_stream_incomplete fr \<and> \<not> fr_output_started fr)
                         (set_resp (\<lambda>p. p\<lparr>rs_content_type := ''application/json''\<rparr>)))
               (gw_return True)))))
      else gw_return False)"

definition settle_malformed :: "gateway_env \<Rightarrow> request_ctx \<Rightarrow> DispatchResult \<Rightarrow> ForwardResult \<Rightarrow> ForwardResult gw" where
  "settle_malformed env cx dr fr =
     (if fr_malformed_usage fr
      then gw_then (report_error \<lparr>er_account_id = tgt_account_id (dr_upstream dr), er_status_code = 502,
               er_retry_after_ms = 0, er_request_id = cx_request_id cx, er_error_message = []\<rparr>)
           (gw_bind (call_abort env (dr_lease_token dr) ''malformed_provider_usage'' UnknownCharge (fr_provider_status_code fr)) (\<lambda>a.
             gw_then (count one_upstream_error)
             (gw_then (count one_more_failed) (gw_return (fr\<lparr>fr_status_code := 502\<rparr>)))))
      else gw_return fr)"

text \<open>
  The answer to a failed forwarding: whether to try again, and the controller.  The excluded accounts
  are a set; their order in the next request has no meaning and is ascending here.
\<close>

definition settle_failure :: "gateway_env \<Rightarrow> request_ctx \<Rightarrow> DispatchResult \<Rightarrow> ForwardResult \<Rightarrow> FailoverController \<Rightarrow> (bool \<times> FailoverController) gw" where
  "settle_failure env cx dr fr fo =
     gw_bind (now env) (\<lambda>t.
     let elapsed = to_ms (t - cx_start cx);
         rejection = is_explicit_provider_rejection fr;
         retry = (rejection \<and> can_failover (cx_spec cx) \<and> \<not> fr_output_started fr
                  \<and> elapsed < int (unat (max_elapsed_ms default_retry_policy)) \<and> is_retryable_status (fr_status_code fr));
         account = tgt_account_id (dr_upstream dr);
         decided = (if retry then handle_error account (fr_status_code fr) fo else (Exhausted, fo))
     in gw_then (gw_when retry (report_error \<lparr>er_account_id = account, er_status_code = fr_status_code fr,
               er_retry_after_ms = fr_retry_after_ms fr, er_request_id = cx_request_id cx, er_error_message = []\<rparr>))
        (gw_bind (call_abort env (dr_lease_token dr) ''upstream_failure''
             (if rejection then NoCharge else UnknownCharge) (fr_provider_status_code fr)) (\<lambda>a.
          gw_then (count one_upstream_error)
            (gw_return (fst decided = SwitchAccount \<or> fst decided = Continue, snd decided)))))"

definition retry_delay_us :: "FailoverController \<Rightarrow> nat" where
  "retry_delay_us fo =
     (case compute_delay default_retry_policy (switch_count fo) of Some d \<Rightarrow> unat d * 1000 | None \<Rightarrow> 0)"

definition next_attempt :: "request_ctx \<Rightarrow> FailoverController \<Rightarrow> attempt_state \<Rightarrow> attempt_state" where
  "next_attempt cx fo st =
     st\<lparr>at_failover := fo, at_sequence := at_sequence st + 1,
        at_request := (at_request st)\<lparr>
          dq_request_id := cx_request_id cx @ '':retry:'' @ to_string (at_sequence st + 1),
          dq_excluded_accounts := sorted_list_of_set (failed_accounts fo)\<rparr>\<rparr>"

text \<open>After a forwarding: whether the loop goes on.\<close>

definition settle_attempt :: "gateway_env \<Rightarrow> request_ctx \<Rightarrow> ForwardResult \<Rightarrow> attempt_state \<Rightarrow> (bool \<times> attempt_state) gw" where
  "settle_attempt env cx fr0 st =
     (let dr = at_dispatch st
      in gw_bind (settle_cancelled env (dr_lease_token dr) fr0) (\<lambda>cancelled.
         gw_bind (settle_malformed env cx dr fr0) (\<lambda>fr.
         let aborted = (at_aborted st \<or> cancelled \<or> fr_malformed_usage fr0);
             st1 = st\<lparr>at_forward := fr, at_aborted := aborted\<rparr>
         in if fr_status_code fr \<ge> 400 \<and> \<not> fr_malformed_usage fr0 \<and> \<not> aborted
            then gw_bind (settle_failure env cx dr fr (at_failover st1)) (\<lambda>(again, fo).
                   if again
                   then gw_then (count (\<lambda>m. m\<lparr>mt_failovers := mt_failovers m + 1\<rparr>))
                        (gw_then (sleep_us (retry_delay_us fo)) (gw_return (True, next_attempt cx fo st1)))
                   else gw_return (False, st1\<lparr>at_failover := fo, at_aborted := True\<rparr>))
            else gw_return (False, st1))))"

text \<open>An answer of the gateway in place of a forward result.\<close>

definition stopped_with :: "int \<Rightarrow> string \<Rightarrow> attempt_state \<Rightarrow> attempt_state" where
  "stopped_with code payload st =
     st\<lparr>at_forward := (at_forward st)\<lparr>fr_status_code := code, fr_content_type := ''application/json'', fr_body := payload\<rparr>,
        at_aborted := True\<rparr>"

definition attempt :: "gateway_env \<Rightarrow> request_ctx \<Rightarrow> attempt_state \<Rightarrow> (bool \<times> attempt_state) gw" where
  "attempt env cx st0 =
     gw_then (crash_if_configured env ''gateway.before_provider_dispatch'')
     (let dr = at_dispatch st0; fmt = provider_format (dr_upstream dr); st = st0\<lparr>at_format := fmt\<rparr>
      in gw_bind (gw_lift (upstream_body (e_rj env) cx (dr_upstream dr) fmt)) (\<lambda>b.
         case b of
           Inl err \<Rightarrow>
             gw_then (count one_more_failed)
               (gw_return (False, stopped_with 400 (fixed_error ''invalid_request_error'' err) st))
         | Inr payload \<Rightarrow>
             gw_bind (authorize_forwarding env (dr_lease_token dr)) (\<lambda>ok.
               if \<not> ok
               then gw_then (count one_more_failed)
                      (gw_return (False, stopped_with 503 (fixed_error ''platform_unavailable''
                         ''Unable to persist Provider dispatch evidence'') st))
               else gw_bind (forward_once env cx dr payload fmt) (\<lambda>fr. settle_attempt env cx fr st))))"

text \<open>The outer loop, for at most \<open>fuel\<close> attempts; \<open>None\<close> when the request is answered.\<close>

primrec attempts :: "nat \<Rightarrow> gateway_env \<Rightarrow> request_ctx \<Rightarrow> int \<Rightarrow> attempt_state \<Rightarrow> attempt_state option gw" where
  "attempts 0 = (\<lambda>env cx deadline st. gw_halt TooManyAttempts)"
| "attempts (Suc fuel) = (\<lambda>env cx deadline st.
     gw_bind (acquire_lease env cx deadline (at_request st) (at_retries st) (at_waits st)) (\<lambda>x.
       case x of
         None \<Rightarrow> gw_return None
       | Some (dr, retries, waits) \<Rightarrow>
           gw_bind (attempt env cx (st\<lparr>at_dispatch := dr, at_retries := retries, at_waits := waits\<rparr>)) (\<lambda>(again, st1).
             if again then attempts fuel env cx deadline st1 else gw_return (Some st1))))"

section \<open>The response\<close>

definition ok_status :: "ForwardResult \<Rightarrow> bool" where
  "ok_status fr \<longleftrightarrow> 200 \<le> fr_status_code fr \<and> fr_status_code fr < 400"

text \<open>A response the gateway does not deliver: the lease is aborted and the answer is 502.\<close>

definition withdraw_response :: "gateway_env \<Rightarrow> string \<Rightarrow> bool \<Rightarrow> string \<Rightarrow> string \<Rightarrow> attempt_state \<Rightarrow> attempt_state gw" where
  "withdraw_response env reason set_type ty msg st =
     gw_bind (call_abort env (dr_lease_token (at_dispatch st)) reason UnknownCharge (fr_provider_status_code (at_forward st))) (\<lambda>a.
     gw_then (set_resp (\<lambda>p. p\<lparr>rs_status_code := 502, rs_body := error_json (e_rj env) ty msg,
         rs_content_type := (if set_type then ''application/json'' else rs_content_type p)\<rparr>))
     (gw_then (count one_more_failed)
       (gw_return (st\<lparr>at_aborted := True, at_forward := (at_forward st)\<lparr>fr_status_code := 502\<rparr>\<rparr>))))"

definition convert_error_body :: "gateway_env \<Rightarrow> request_ctx \<Rightarrow> attempt_state \<Rightarrow> unit gw" where
  "convert_error_body env cx st =
     (let fr = at_forward st;
          provider_error = (fr_provider_response_received fr \<and> fr_provider_status_code fr \<ge> 400);
          src = (if provider_error then at_format st else Format.OpenAIChatCompletions);
          inbound = inbound_format (cx_spec cx)
      in gw_when (fr_status_code fr \<ge> 400 \<and> inbound \<noteq> src)
           (set_resp (\<lambda>p. p\<lparr>rs_body := convert_error (e_rj env) (rs_body p)
                (if provider_error then fr_provider_status_code fr else fr_status_code fr) src inbound,
              rs_content_type := ''application/json''\<rparr>)))"

definition convert_response_body :: "gateway_env \<Rightarrow> request_ctx \<Rightarrow> attempt_state \<Rightarrow> attempt_state gw" where
  "convert_response_body env cx st =
     (if fr_status_code (at_forward st) < 400 \<and> chat_capability (cx_cap cx) \<and> inbound_format (cx_spec cx) \<noteq> at_format st
      then gw_bind (gw_get (\<lambda>s. rs_body (gs_resp s))) (\<lambda>b.
           gw_bind (gw_lift (convert_response_checked (e_rj env) b (at_format st) (inbound_format (cx_spec cx))
                (parsed_model (cx_parsed cx)))) (\<lambda>c.
             if success c
             then gw_then (set_resp (\<lambda>p. p\<lparr>rs_body := body c\<rparr>)) (gw_return st)
             else gw_then (count (\<lambda>m. m\<lparr>mt_conversion_failures := mt_conversion_failures m + 1\<rparr>))
                    (withdraw_response env ''response_conversion_failed'' False ''response_conversion_error'' (error c) st)))
      else gw_return st)"

definition check_response :: "gateway_env \<Rightarrow> bool \<Rightarrow> (string \<Rightarrow> rj_error + ValidationResult) \<Rightarrow> string \<Rightarrow> attempt_state \<Rightarrow> attempt_state gw" where
  "check_response env wanted check reason st =
     (if ok_status (at_forward st) \<and> wanted
      then gw_bind (gw_get (\<lambda>s. rs_body (gs_resp s))) (\<lambda>b.
           gw_bind (gw_lift (check b)) (\<lambda>v.
             if valid v then gw_return st
             else withdraw_response env reason True ''provider_protocol_error'' (message v) st))
      else gw_return st)"

definition deliver_body :: "gateway_env \<Rightarrow> request_ctx \<Rightarrow> attempt_state \<Rightarrow> attempt_state gw" where
  "deliver_body env cx st =
     (let rj = e_rj env; fr = at_forward st; c = cx_cap cx
      in if (\<not> cx_stream cx \<or> fr_status_code fr \<ge> 400) \<and> fr_body fr \<noteq> []
         then gw_then (set_resp (\<lambda>p. p\<lparr>rs_body := fr_body fr\<rparr>))
              (gw_then (convert_error_body env cx st)
              (gw_bind (convert_response_body env cx st) (\<lambda>st1.
               gw_bind (check_response env (c = Capability.Embeddings)
                   (\<lambda>b. Inr (validate_embeddings_response rj (hq_body (cx_req cx)) b)) ''embeddings_response_invalid'' st1) (\<lambda>st2.
               gw_bind (check_response env (c = Capability.Models \<or> c = GeminiModels \<or> c = Capability.CountTokens)
                   (\<lambda>b. Inr (if c = Capability.CountTokens then validate_count_tokens_response rj b
                             else validate_models_response rj b (inbound_format (cx_spec cx))))
                   ''catalog_response_invalid'' st2) (\<lambda>st3.
               check_response env (\<not> cx_stream cx \<and> c = Capability.Responses)
                 (validate_responses_response rj) ''responses_response_invalid'' st3)))))
         else gw_return st)"

text \<open>An answer that replaces a response for reasons of policy.\<close>

definition withhold :: "rapidjson \<Rightarrow> int \<Rightarrow> string \<Rightarrow> string \<Rightarrow> unit gw" where
  "withhold rj code ty msg =
     gw_then (set_resp (\<lambda>p. add_header ''Cache-Control'' ''no-store''
         (p\<lparr>rs_status_code := code, rs_content_type := ''application/json'', rs_body := error_json rj ty msg\<rparr>)))
       (count one_more_failed)"

definition media_capability :: "Capability \<Rightarrow> bool" where
  "media_capability c \<longleftrightarrow> c = ImagesSync \<or> c = ImagesAsync \<or> c = ImagesBatch \<or> c = Capability.Videos
     \<or> c = Capability.AudioTts \<or> c = Capability.AudioStt"

text \<open>Whether the answer was replaced.\<close>

definition apply_response_policy :: "gateway_env \<Rightarrow> request_ctx \<Rightarrow> attempt_state \<Rightarrow> bool gw" where
  "apply_response_policy env cx st =
     (let rj = e_rj env; c = cx_cap cx
      in gw_bind (gw_get (\<lambda>s. rs_body (gs_resp s))) (\<lambda>b.
         if \<not> cx_stream cx \<and> \<not> at_aborted st \<and> \<not> fr_malformed_usage (at_forward st) \<and> ok_status (at_forward st) \<and> b \<noteq> []
         then if chat_capability c
              then gw_bind (call_policy env (dr_lease_token (at_dispatch st)) b (spec_name (cx_spec cx))) (\<lambda>p.
                     case content_policy_disposition p of
                       Allow \<Rightarrow> gw_return False
                     | Block \<Rightarrow> gw_then (withhold rj 400 ''content_policy_violation''
                           ''Provider response was withheld by the active content policy'') (gw_return True)
                     | FailClosed \<Rightarrow> gw_then (withhold rj 503 ''content_policy_unavailable''
                           ''Provider response could not be cleared for delivery'') (gw_return True))
              else if c = Capability.Models \<or> c = Capability.CountTokens \<or> c = GeminiModels \<or> c = Capability.Embeddings
              then gw_return False
              else if media_capability c
              then gw_then (withhold rj 400 ''content_policy_unavailable''
                     ''Media content policy classifier not yet implemented for this capability'') (gw_return True)
              else gw_then (withhold rj 503 ''content_policy_unavailable''
                     ''Content policy decision unavailable for this capability'') (gw_return True)
         else gw_return False))"

definition answer_malformed :: "rapidjson \<Rightarrow> attempt_state \<Rightarrow> unit gw" where
  "answer_malformed rj st =
     gw_when (fr_malformed_usage (at_forward st))
       (set_resp (\<lambda>p. p\<lparr>rs_status_code := 502, rs_content_type := ''application/json'',
          rs_body := error_json rj ''provider_error'' ''Provider returned malformed usage''\<rparr>))"

section \<open>Media operations of the provider\<close>

definition poll_location :: "Capability \<Rightarrow> string \<Rightarrow> string" where
  "poll_location c op_id =
     (if c = ImagesAsync then ''/v1/images/tasks/'' else if c = ImagesBatch then ''/v1/images/batches/''
      else ''/v1/videos/'') @ op_id"

definition media_attach :: "rapidjson \<Rightarrow> request_ctx \<Rightarrow> attempt_state \<Rightarrow> string \<Rightarrow> MediaOperationRequest" where
  "media_attach rj cx st b =
     (let fr = at_forward st; task_id = provider_task_id rj b;
          ms = (if at_aborted st \<or> fr_status_code fr \<ge> 400 then ''failed'' else provider_media_status rj b task_id)
      in (media_request (cx_key_hash cx) (tgt_media_operation_id (dr_upstream (at_dispatch st)))
            (if ms = ''failed'' then ''fail'' else ''attach'') (cx_request_id cx) (cx_req cx) (cx_fingerprint cx))
         \<lparr>mq_status := ms, mq_upstream_task_id := task_id,
          mq_output_metadata := (if length b \<le> 512 * 1024 then b else []),
          mq_output_url := provider_output_url rj b, mq_content_type := fr_content_type fr,
          mq_progress := (if ms = ''running'' then 0 else 100)\<rparr>)"

text \<open>Whether the answer was replaced, whether the usage is deferred, and the state.\<close>

definition persist_media :: "gateway_env \<Rightarrow> request_ctx \<Rightarrow> attempt_state \<Rightarrow> (bool \<times> bool \<times> attempt_state) gw" where
  "persist_media env cx st =
     (if persistent_create (operation (cx_matched cx)) \<and> tgt_media_operation_id (dr_upstream (at_dispatch st)) \<noteq> []
      then gw_bind (gw_get (\<lambda>s. rs_body (gs_resp s))) (\<lambda>b.
           let rq = media_attach (e_rj env) cx st b
           in gw_bind (call_media env rq) (\<lambda>r.
                if \<not> mr_accepted r
                then gw_bind (call_abort env (dr_lease_token (at_dispatch st)) ''media_operation_persist_failed'' UnknownCharge
                         (fr_provider_status_code (at_forward st))) (\<lambda>a.
                       gw_then (set_resp (\<lambda>p. p\<lparr>rs_status_code := (if mr_status_code r > 0 then mr_status_code r else 503),
                           rs_body := fixed_error ''media_operation_error'' ''Unable to persist media operation state''\<rparr>))
                         (gw_return (True, False, st\<lparr>at_aborted := True\<rparr>)))
                else let defer = (mq_status rq = ''running'')
                     in gw_then (set_resp (\<lambda>p. add_header ''Location'' (poll_location (cx_cap cx) (mr_operation_id r))
                            ((if defer then add_header ''Retry-After'' ''3'' else id)
                              (add_header ''Cache-Control'' ''no-store''
                                (p\<lparr>rs_status_code := (if defer then 202 else 200),
                                   rs_body := media_view_json (e_rj env) r\<rparr>)))))
                          (gw_return (True, defer, st))))
      else gw_return (False, False, st))"

section \<open>Settlement\<close>

definition non_billable_control :: "Capability \<Rightarrow> bool" where
  "non_billable_control c \<longleftrightarrow> c = Capability.Models \<or> c = GeminiModels \<or> c = Capability.CountTokens \<or> c = ResponsesSubpath"

definition release_control :: "gateway_env \<Rightarrow> request_ctx \<Rightarrow> attempt_state \<Rightarrow> attempt_state gw" where
  "release_control env cx st =
     (if non_billable_control (cx_cap cx) \<and> \<not> at_aborted st \<and> ok_status (at_forward st)
      then gw_bind (call_abort env (dr_lease_token (at_dispatch st)) ''non_billable_control'' NoCharge
               (fr_provider_status_code (at_forward st))) (\<lambda>a.
             gw_return (if acknowledged a then st\<lparr>at_aborted := True\<rparr> else st))
      else gw_return st)"

definition late_usage_candidate :: "request_ctx \<Rightarrow> ForwardResult \<Rightarrow> bool" where
  "late_usage_candidate cx fr \<longleftrightarrow> cx_stream cx \<and> fr_stream_incomplete fr \<and> \<not> fr_malformed_usage fr
     \<and> fr_provider_usage_json fr \<noteq> []
     \<and> (fr_input_tokens fr > 0 \<or> fr_output_tokens fr > 0 \<or> fr_cache_create_tokens fr > 0
        \<or> fr_cache_read_tokens fr > 0 \<or> fr_reasoning_tokens fr > 0)"

definition persist_response :: "request_ctx \<Rightarrow> attempt_state \<Rightarrow> bool \<Rightarrow> bool \<Rightarrow> HttpResponse \<Rightarrow> bool" where
  "persist_response cx st overridden defer p \<longleftrightarrow> \<not> cx_stream cx \<and> \<not> at_aborted st \<and> \<not> defer \<and> \<not> overridden
     \<and> ok_status (at_forward st) \<and> length (rs_body p) \<le> 4 * 1024 * 1024"

definition usage_event :: "rapidjson \<Rightarrow> request_ctx \<Rightarrow> attempt_state \<Rightarrow> int \<Rightarrow> bool \<Rightarrow> HttpResponse \<Rightarrow> UsageEvent" where
  "usage_event rj cx st elapsed_ns persist p =
     (let dr = at_dispatch st; up = dr_upstream dr; fr = at_forward st;
          mreq = parse_media_request rj (hq_body (cx_req cx)) (hq_content_type (cx_req cx)) (operation (cx_matched cx));
          mres = parse_media_response rj (rs_body p) (operation (cx_matched cx))
      in \<lparr>ue_lease_token = dr_lease_token dr, ue_request_id = cx_request_id cx, ue_api_key_id = dr_api_key_id dr,
          ue_user_id = tgt_user_id up, ue_account_id = tgt_account_id up, ue_group_id = tgt_group_id up,
          ue_model = parsed_model (cx_parsed cx), ue_upstream_model = tgt_mapped_model up,
          ue_input_tokens = fr_input_tokens fr, ue_output_tokens = fr_output_tokens fr,
          ue_cache_create_tokens = fr_cache_create_tokens fr, ue_cache_read_tokens = fr_cache_read_tokens fr,
          ue_duration_ms = to_int32 (to_ms elapsed_ns), ue_first_token_ms = fr_first_token_ms fr, ue_stream = cx_stream cx,
          ue_client_disconnect = fr_client_disconnect fr, ue_status_code = fr_status_code fr,
          ue_input_image_count = input_image_count mreq,
          ue_output_image_count = (if output_image_count mres > 0 then output_image_count mres else output_image_count mreq),
          ue_image_size = (if image_size mres \<noteq> [] then image_size mres else image_size mreq),
          ue_video_count = (if video_count mres > 0 then video_count mres else video_count mreq),
          ue_video_resolution = (if video_resolution mres \<noteq> [] then video_resolution mres else video_resolution mreq),
          ue_video_duration_seconds = (if video_duration_seconds mres > 0 then video_duration_seconds mres
             else video_duration_seconds mreq),
          ue_realtime_duration_ms = 0, ue_realtime_frames = 0, ue_disconnect_reason = fr_disconnect_reason fr,
          ue_provider_usage_json = fr_provider_usage_json fr, ue_reasoning_tokens = fr_reasoning_tokens fr,
          ue_service_tier = fr_service_tier fr, ue_upstream_endpoint = tgt_upstream_path up,
          ue_cancellation_reason = fr_cancellation_reason fr, ue_media_operation_id = tgt_media_operation_id up,
          ue_pricing_version = ''v1'', ue_response_status_code = (if persist then rs_status_code p else 0),
          ue_response_content_type = (if persist then rs_content_type p else []),
          ue_response_body = (if persist then rs_body p else [])\<rparr>)"

definition record_or_report :: "gateway_env \<Rightarrow> UsageEvent \<Rightarrow> unit gw" where
  "record_or_report env ev =
     gw_bind (store_usage env ev) (\<lambda>stored.
       if stored then count (\<lambda>m. m\<lparr>mt_usage_events_buffered := mt_usage_events_buffered m + 1\<rparr>)
       else gw_bind (call_report env (usage_report ev)) (\<lambda>ack.
              gw_when (\<not> acknowledged ack)
                (count (\<lambda>m. m\<lparr>mt_usage_report_failures := mt_usage_report_failures m + 1\<rparr>))))"

definition settle_usage :: "gateway_env \<Rightarrow> request_ctx \<Rightarrow> attempt_state \<Rightarrow> bool \<Rightarrow> bool \<Rightarrow> unit gw" where
  "settle_usage env cx st overridden defer =
     gw_bind (now env) (\<lambda>t.
     gw_bind (gw_get gs_resp) (\<lambda>p.
       gw_when ((\<not> at_aborted st \<or> late_usage_candidate cx (at_forward st)) \<and> \<not> defer)
         (record_or_report env (usage_event (e_rj env) cx st (t - cx_start cx) (persist_response cx st overridden defer p) p))))"

definition finish_status :: "bool \<Rightarrow> bool \<Rightarrow> attempt_state \<Rightarrow> unit gw" where
  "finish_status media_overridden policy_overridden st =
     gw_then (gw_when (\<not> media_overridden \<and> \<not> policy_overridden)
         (set_resp (\<lambda>p. p\<lparr>rs_status_code := (if fr_status_code (at_forward st) > 0 then fr_status_code (at_forward st) else 200)\<rparr>)))
       (count one_connection_less)"

definition complete :: "gateway_env \<Rightarrow> request_ctx \<Rightarrow> attempt_state \<Rightarrow> unit gw" where
  "complete env cx st0 =
     gw_bind (deliver_body env cx st0) (\<lambda>st1.
     gw_bind (apply_response_policy env cx st1) (\<lambda>policy_overridden.
     gw_then (answer_malformed (e_rj env) st1)
     (gw_bind (persist_media env cx st1) (\<lambda>(media_overridden, defer, st2).
      gw_bind (release_control env cx st2) (\<lambda>st3.
      gw_then (settle_usage env cx st3 media_overridden defer)
        (finish_status media_overridden policy_overridden st3))))))"

section \<open>The handler\<close>

definition first_attempt :: "gateway_env \<Rightarrow> request_ctx \<Rightarrow> int \<Rightarrow> body_transfer \<Rightarrow> attempt_state" where
  "first_attempt env cx cached_version bt =
     \<lparr>at_request = dispatch_request env cx cached_version bt, at_failover = default_failover,
      at_forward = new_forward_result, at_dispatch = new_dispatch_result,
      at_format = inbound_format (cx_spec cx), at_retries = 0, at_waits = 0, at_sequence = 0, at_aborted = False\<rparr>"

text \<open>From the dispatch on.\<close>

definition serve :: "nat \<Rightarrow> gateway_env \<Rightarrow> request_ctx \<Rightarrow> int \<Rightarrow> unit gw" where
  "serve fuel env cx cached_version =
     gw_then (note_streaming cx)
     (gw_bind (transfer_body env (cx_req cx)) (\<lambda>x.
       case x of
         None \<Rightarrow> gw_return ()
       | Some bt \<Rightarrow>
           gw_bind (now env) (\<lambda>t.
           gw_bind (attempts fuel env cx (t + kDispatchDeadline) (first_attempt env cx cached_version bt)) (\<lambda>y.
             case y of None \<Rightarrow> gw_return () | Some st \<Rightarrow> complete env cx st))))"

definition authenticated :: "nat \<Rightarrow> gateway_env \<Rightarrow> HttpRequest \<Rightarrow> MatchedCapability \<Rightarrow> int \<Rightarrow> string \<Rightarrow> string \<Rightarrow> string \<Rightarrow> unit gw" where
  "authenticated fuel env req m start request_id key_hash fingerprint =
     (if media_control_operation (operation m)
      then media_control env req m request_id key_hash fingerprint
      else gw_bind (lookup_idempotency env req m request_id key_hash fingerprint) (\<lambda>answered.
        if answered then gw_return ()
        else gw_bind (cached_auth_version env key_hash) (\<lambda>cached_version.
             gw_bind (gw_lift (parse_inbound (e_rj env) req (spec m))) (\<lambda>p.
               case request_error (e_rj env) req m p of
                 Some payload \<Rightarrow> refuse 400 payload
               | None \<Rightarrow>
                   serve fuel env \<lparr>cx_req = req, cx_matched = m, cx_start = start, cx_request_id = request_id,
                      cx_key_hash = key_hash, cx_fingerprint = fingerprint, cx_parsed = p,
                      cx_stream = streaming m p\<rparr> cached_version))))"

definition handle :: "nat \<Rightarrow> gateway_env \<Rightarrow> HttpRequest \<Rightarrow> MatchedCapability \<Rightarrow> unit gw" where
  "handle fuel env req m =
     gw_then (count (\<lambda>t. t\<lparr>mt_requests_total := mt_requests_total t + 1,
                          mt_active_connections := mt_active_connections t + 1\<rparr>))
     (gw_bind (now env) (\<lambda>start.
       let request_id = (if hq_request_id req = [] then fresh_request_id env start else hq_request_id req);
           raw_key = extract_api_key req
       in gw_then (set_resp (add_header ''X-Request-ID'' request_id))
          (if \<not> is_safe_query_string (hq_query req)
           then refuse 400 (fixed_error ''invalid_request_error'' ''Malformed query string'')
           else if raw_key = []
           then refuse 401 (fixed_error ''authentication_error'' ''Missing API key'')
           else authenticated fuel env req m start request_id (hash_key (e_sha256 env) raw_key)
                  (request_fingerprint env req))))"

end
