(* ===== verification/Handler_Example.thy ===== *)
theory Handler_Example
  imports Gateway_Handler
begin

text \<open>
  A run of the request handler on a concrete environment, used by the witnesses of the theorems about
  the handler: a provider rejects a request with status 429, its lease is aborted, and the platform
  grants no second one; and a second run in which a chat request is served.
\<close>

section \<open>The environment\<close>

definition ack_ok :: RpcAck where
  "ack_ok = \<lparr>accepted = True, duplicate = False, retryable = False, error_code = []\<rparr>"

definition ex_target :: UpstreamTarget where
  "ex_target = new_target\<lparr>tgt_base_url := ''u''\<rparr>"

definition ex_grant :: DispatchResult where
  "ex_grant = new_dispatch_result\<lparr>dr_outcome := Ok, dr_lease_token := ''lease'', dr_upstream := ex_target\<rparr>"

definition ex_denial :: DispatchResult where
  "ex_denial = new_dispatch_result\<lparr>dr_reject_code := 2\<rparr>"

fun is_abort :: "gateway_call \<Rightarrow> bool" where
  "is_abort (Aborted _ _ _ _ _) = True"
| "is_abort _ = False"

definition ex_transport :: transport where
  "ex_transport = \<lparr>string_to_verb = (\<lambda>_. None), new_client = Some 0, call_result = (\<lambda>_. Responded 429 [] []),
     body_reads = [Closed], body_ms = 0, stream_started_ms = 0, stream_rounds = [], cancelled_after_call = False,
     cancelled_after_stream = False, cancelled_at_end = False\<rparr>"

definition ex_env :: gateway_env where
  "ex_env = \<lparr>e_rj = \<lparr>Parse = (\<lambda>_. None), Write = (\<lambda>_. [])\<rparr>, e_sha256 = (\<lambda>_. []), e_xxh64 = (\<lambda>_ _. 0),
     e_rng = (\<lambda>_. (0, 0)), e_now = (\<lambda>_. 0), e_unixepoch = (\<lambda>_. 0), e_db_ok = (\<lambda>_. True),
     e_faults = \<lparr>fault_hook = None, fault_repeat = None, fault_marker_dir = None, directory_ok = True, open_ok = True\<rparr>,
     e_garnet = (\<lambda>_ _. \<lparr>gr_found = False, gr_error = False, gr_value = []\<rparr>),
     e_dispatch = (\<lambda>l _. if list_ex is_abort l then ex_denial else ex_grant),
     e_media = (\<lambda>_ _. \<lparr>mr_accepted = False, mr_status_code = 404, mr_operation_id = [], mr_operation_type = [],
       mr_status = [], mr_progress = 0, mr_upstream_task_id = [], mr_output_metadata = [], mr_output_url = [],
       mr_content_type = [], mr_error_code = [], mr_error_message = []\<rparr>),
     e_upload = (\<lambda>_ _ _. \<lparr>bu_accepted = False, bu_error_code = [], bu_blob_id = [], bu_digest = [], bu_total_bytes = 0\<rparr>),
     e_evidence = (\<lambda>_ _ _ _. ack_ok), e_abort = (\<lambda>_ _ _ _ _. ack_ok),
     e_policy = (\<lambda>_ _ _ _. \<lparr>evaluated = True, allowed = True, cp_retryable = False, cp_error_code = [],
       cp_matched_rule_id = 0, cp_message = []\<rparr>),
     e_report = (\<lambda>_ _. ack_ok), e_transport = (\<lambda>_. ex_transport)\<rparr>"

definition ex_request :: HttpRequest where
  "ex_request = \<lparr>hq_method = ''POST'', hq_path = ''/v1/search'', hq_query = [], hq_body = [], hq_authorization = [],
     hq_x_api_key = ''k'', hq_client_ip = [], hq_content_type = ''text/plain'', hq_accept = [], hq_user_agent = [],
     hq_request_id = ''id'', hq_idempotency_key = [], hq_headers = [], hq_stream_timeout_ms = 300000,
     hq_has_set_client_timeout = False, hq_has_client_disconnected = False\<rparr>"

definition ex_matched :: MatchedCapability where
  "ex_matched = \<lparr>spec = kSearch, operation = ''search'', force_platform = []\<rparr>"

definition no_metrics :: Metrics where
  "no_metrics = \<lparr>mt_requests_total = 0, mt_requests_streaming = 0, mt_requests_failed = 0, mt_dispatch_calls = 0,
     mt_garnet_hits = 0, mt_garnet_misses = 0, mt_upstream_errors = 0, mt_conversion_failures = 0, mt_failovers = 0,
     mt_active_connections = 0, mt_usage_events_buffered = 0, mt_usage_report_failures = 0, mt_dispatch_reconnects = 0\<rparr>"

definition ex_state :: gateway_state where
  "ex_state = \<lparr>gs_log = [], gs_cache = create_cache 10, gs_collector = memory_collector, gs_metrics = no_metrics,
     gs_forwarder = create_forwarder default_forward_config (Some 0), gs_markers = [],
     gs_resp = new_response True \<lparr>sent = [], replies = []\<rparr>\<rparr>"

definition ex_rejected :: ForwardResult where
  "ex_rejected = new_forward_result\<lparr>fr_status_code := 429, fr_provider_response_received := True, fr_provider_status_code := 429\<rparr>"

section \<open>The run\<close>

lemma ex_forward:
  "\<not> rq_stream rq \<Longrightarrow> rq_has_response_start rq \<Longrightarrow> \<exists>fw'. forward (e_rj ex_env) ex_target rq mode ex_transport k
      (create_forwarder default_forward_config (Some 0)) =
     Inr (Returned \<lparr>fwd_result = ex_rejected,
            fwd_call = Some (upstream_request (\<lambda>_. None) default_forward_config ex_target rq),
            fwd_starts = [(429, [], [])], fwd_sink = k\<rparr>, fw')"
  by (simp add: forward_def precheck_def ex_target_def new_target_def validate_target_auth_headers_def upstream_url_def
      create_forwarder_def create_pool_def get_client_def ex_transport_def receive_def observe_cancellation_def watched_def
      response_head_def receive_body_def finish_body_def apply_transport_cancellation_def Let_def ex_rejected_def
      ex_env_def has_invalid_success_payload_def parse_usage_def parse_object_def to_int32_def new_forward_result_def)

lemmas ex_defs = ex_env_def ex_request_def ex_matched_def ex_state_def ex_target_def ex_grant_def ex_denial_def
  new_dispatch_result_def ack_ok_def

lemma ex_crash [simp]: "claim (e_faults ex_env) point files = (False, files)"
  by (simp add: ex_env_def claim_def)

lemma ex_env_simps [simp]:
  "e_now ex_env l = 0" "e_garnet ex_env l k = \<lparr>gr_found = False, gr_error = False, gr_value = []\<rparr>"
  "e_dispatch ex_env l rq = (if list_ex is_abort l then ex_denial else ex_grant)"
  "e_evidence ex_env l a b c = ack_ok" "e_abort ex_env l t reason disp code = ack_ok" "e_transport ex_env l = ex_transport"
  by (simp_all add: ex_env_def)

lemma ex_values [simp]:
  "dr_outcome ex_grant = Ok" "dr_outcome ex_denial = Rejected" "dr_reject_code ex_denial = 2"
  "dr_lease_token ex_grant = ''lease''" "dr_upstream ex_grant = ex_target" "dr_auth_version ex_grant = 0"
  "acknowledged ack_ok"
  by (simp_all add: ex_defs acknowledged_def)

lemma ex_parsed:
  "parse_inbound (e_rj ex_env) ex_request (spec ex_matched) =
     Inr \<lparr>parsed_format = Format.OpenAIResponses, parsed_model = [], parsed_stream = False, parsed_user_id = [],
          parsed_max_tokens = 0, thinking_enabled = False\<rparr>"
  by (simp add: parse_inbound_def ex_matched_def spec_defs chat_capability_def ex_env_def extract_model_def parse_object_def
      ex_request_def starts_with_def)

lemma ex_no_error: "request_error (e_rj ex_env) ex_request ex_matched p = None"
  by (simp add: request_error_def needs_model_def ex_matched_def spec_defs chat_capability_def is_json_request_def
      ex_request_def starts_with_def accept_def Let_def)

definition ex_cx :: request_ctx where
  "ex_cx = \<lparr>cx_req = ex_request, cx_matched = ex_matched, cx_start = 0, cx_request_id = ''id'',
     cx_key_hash = hash_key (e_sha256 ex_env) ''k'', cx_fingerprint = request_fingerprint ex_env ex_request,
     cx_parsed = \<lparr>parsed_format = Format.OpenAIResponses, parsed_model = [], parsed_stream = False, parsed_user_id = [],
          parsed_max_tokens = 0, thinking_enabled = False\<rparr>, cx_stream = False\<rparr>"

lemma ex_front:
  "wp (handle fuel ex_env ex_request ex_matched) Q E ex_state =
   wp (serve fuel ex_env ex_cx 0) Q E
     (ex_state\<lparr>gs_log := [GarnetRead (auth_key (cx_key_hash ex_cx)) \<lparr>gr_found = False, gr_error = False, gr_value = []\<rparr>, ClockRead 0],
        gs_resp := add_header ''X-Request-ID'' ''id'' (gs_resp ex_state),
        gs_metrics := no_metrics\<lparr>mt_requests_total := 1, mt_active_connections := 1, mt_garnet_misses := 1\<rparr>\<rparr>)"
proof -
  have key: "extract_api_key ex_request = ''k''" by (simp add: extract_api_key_def ex_request_def starts_with_def)
  have q: "is_safe_query_string (hq_query ex_request)" by (simp add: ex_request_def is_safe_query_string_def)
  have op: "\<not> media_control_operation (operation ex_matched)" "\<not> persistent_create (operation ex_matched)"
    by (simp_all add: ex_matched_def media_control_operation_def persistent_create_def)
  have id: "hq_request_id ex_request = ''id''" by (simp add: ex_request_def)
  have no_stream: "streaming ex_matched \<lparr>parsed_format = Format.OpenAIResponses, parsed_model = [], parsed_stream = False,
      parsed_user_id = [], parsed_max_tokens = 0, thinking_enabled = False\<rparr> = False"
    by (simp add: streaming_def ex_matched_def)
  show ?thesis
    by (simp add: handle_def wp_simps Let_def authenticated_def ex_parsed ex_no_error key q op id no_stream
        lookup_idempotency_def cached_auth_version_def cache_lookup_def create_cache_def ex_state_def ex_cx_def no_metrics_def)
qed

lemma ex_call_forwarder:
  assumes "gs_forwarder s = create_forwarder default_forward_config (Some 0)"
    and "\<And>fq s'. gs_log s' = ForwardedTo ex_target fq ex_rejected # gs_log s \<Longrightarrow> gs_collector s' = gs_collector s \<Longrightarrow>
       gs_markers s' = gs_markers s \<Longrightarrow> Q ex_rejected s'"
  shows "wp (call_forwarder ex_env ex_cx ex_grant payload fmt) Q E s"
proof -
  let ?rq = "forward_request ex_env (gs_log s) ex_cx (dr_lease_token ex_grant) payload fmt (gs_resp s)"
  obtain fw' where "forward (e_rj ex_env) ex_target ?rq (stream_mode ex_cx fmt) ex_transport (rs_sink (gs_resp s))
      (create_forwarder default_forward_config (Some 0)) =
     Inr (Returned \<lparr>fwd_result = ex_rejected,
            fwd_call = Some (upstream_request (\<lambda>_. None) default_forward_config ex_target ?rq),
            fwd_starts = [(429, [], [])], fwd_sink = rs_sink (gs_resp s)\<rparr>, fw')"
    using ex_forward [of ?rq "stream_mode ex_cx fmt" "rs_sink (gs_resp s)"]
    by (auto simp: forward_request_def ex_cx_def Let_def)
  then show ?thesis using assms by (simp add: call_forwarder_def wp_def Let_def)
qed

lemma ex_failure: "wp (settle_failure ex_env ex_cx ex_grant ex_rejected default_failover)
    (\<lambda>(again, fo) s'. again \<and> (\<exists>er. gs_log s' = Aborted ''lease'' ''upstream_failure'' NoCharge 429 ack_ok # ErrorReported er # ClockRead 0 # gs_log s))
    (\<lambda>_ _. False) s"
  by (simp add: settle_failure_def wp_simps Let_def ex_cx_def ex_matched_def spec_defs is_explicit_provider_rejection_def
      ex_rejected_def new_forward_result_def to_ms_def default_retry_policy_def is_retryable_status_def handle_error_def
      give_up_account_def default_failover_def new_failover_def mark_failed_def)

lemma ex_attempt:
  assumes "gs_forwarder s = create_forwarder default_forward_config (Some 0)" and "gs_collector s = memory_collector"
    and "at_dispatch st = ex_grant" and "\<not> at_aborted st" and "at_failover st = default_failover"
  shows "wp (attempt ex_env ex_cx st)
     (\<lambda>(again, st') s'. again \<and> (\<exists>fq er us d. gs_log s' =
         [Slept us, Aborted ''lease'' ''upstream_failure'' NoCharge 429 ack_ok, ErrorReported er, ClockRead 0,
          ForwardedTo ex_target fq ex_rejected, EvidenceSettled ''lease'' ''forwarded'',
          EvidenceSent ''lease'' Forwarded d ack_ok, EvidenceStored ''lease'' ''forwarded''] @ gs_log s))
     (\<lambda>_ _. False) s"
proof -
  have body: "upstream_body (e_rj ex_env) ex_cx ex_target fmt = Inr (Inr [])" for fmt
    by (simp add: upstream_body_def ex_cx_def ex_request_def Let_def)
  have rejected: "\<not> fr_client_disconnect ex_rejected" "\<not> fr_stream_incomplete ex_rejected" "\<not> fr_output_started ex_rejected"
     "\<not> fr_malformed_usage ex_rejected" "fr_status_code ex_rejected = 429"
    by (simp_all add: ex_rejected_def new_forward_result_def)
  show ?thesis
    using assms
    apply (simp add: attempt_def wp_simps Let_def body authorize_forwarding_def record_evidence_def acknowledge_evidence_def
        memory_collector_def forward_once_def)
    apply (rule ex_call_forwarder)
     apply simp
    apply (simp add: wp_simps rejected settle_attempt_def settle_cancelled_def settle_malformed_def Let_def)
    apply (rule wp_mono [OF ex_failure])
     apply (auto simp: wp_simps)
    done
qed

lemma ex_acquire:
  "\<not> list_ex is_abort (gs_log s) \<Longrightarrow> (\<And>s'. gs_log s' = Dispatched rq ex_grant # gs_log s \<Longrightarrow> gs_collector s' = gs_collector s \<Longrightarrow>
       gs_forwarder s' = gs_forwarder s \<Longrightarrow> Q (Some (ex_grant, a, b)) s') \<Longrightarrow> wp (acquire_lease ex_env cx dl rq a b) Q E s"
  "list_ex is_abort (gs_log s) \<Longrightarrow> (\<And>s'. gs_log s' = Dispatched rq ex_denial # gs_log s \<Longrightarrow> Q None s') \<Longrightarrow>
     wp (acquire_lease ex_env cx dl rq a b) Q E s"
  by (subst acquire_lease.simps, simp add: wp_simps Let_def note_auth_def is_retryable_platform_dispatch_def
      kPlatformUnavailableRejectCode_def rejected_dispatch_def reject_finally_def)+

lemma ex_run:
  "wp (handle 2 ex_env ex_request ex_matched)
     (\<lambda>_ s'. \<exists>rq rq2 fq er us d g. gs_log s' =
         [Dispatched rq2 ex_denial, Slept us, Aborted ''lease'' ''upstream_failure'' NoCharge 429 ack_ok, ErrorReported er, ClockRead 0,
          ForwardedTo ex_target fq ex_rejected, EvidenceSettled ''lease'' ''forwarded'',
          EvidenceSent ''lease'' Forwarded d ack_ok, EvidenceStored ''lease'' ''forwarded'', Dispatched rq ex_grant,
          ClockRead 0, GarnetRead g \<lparr>gr_found = False, gr_error = False, gr_value = []\<rparr>, ClockRead 0])
     (\<lambda>_ _. False) ex_state"
proof -
  have stream: "\<not> cx_stream ex_cx" by (simp add: ex_cx_def)
  have tb: "transfer_body ex_env (cx_req ex_cx) = gw_return (Some \<lparr>bt_inline = [], bt_ref = [], bt_digest = [], bt_size = 0\<rparr>)"
    by (simp add: transfer_body_def ex_cx_def ex_request_def kMaxInlineRequestBodyBytes_def)
  show ?thesis
    unfolding ex_front
    apply (simp add: serve_def note_streaming_def wp_simps Let_def tb stream numeral_2_eq_2)
    apply (rule ex_acquire(1))
     apply (simp add: ex_state_def)
    apply simp
    apply (simp add: wp_simps)
    apply (rule wp_mono [OF ex_attempt])
    apply (simp_all add: ex_state_def first_attempt_def)
    apply (auto simp: wp_simps intro!: ex_acquire(2))
    done
qed

lemma ex_runs:
  obtains s' rq rq2 fq er us d g where "handle 2 ex_env ex_request ex_matched ex_state = (Inr (), s')"
    and "gs_log s' =
         [Dispatched rq2 ex_denial, Slept us, Aborted ''lease'' ''upstream_failure'' NoCharge 429 ack_ok, ErrorReported er, ClockRead 0,
          ForwardedTo ex_target fq ex_rejected, EvidenceSettled ''lease'' ''forwarded'',
          EvidenceSent ''lease'' Forwarded d ack_ok, EvidenceStored ''lease'' ''forwarded'', Dispatched rq ex_grant,
          ClockRead 0, GarnetRead g \<lparr>gr_found = False, gr_error = False, gr_value = []\<rparr>, ClockRead 0]"
  using ex_run by (cases "handle 2 ex_env ex_request ex_matched ex_state") (auto simp: wp_def split: sum.splits)

lemma ex_state_log: "gs_log ex_state = []"
  by (simp add: ex_state_def)

section \<open>A run that is served\<close>

text \<open>A chat request that the provider answers and the content policy clears.\<close>

definition ok_transport :: transport where
  "ok_transport = ex_transport\<lparr>call_result := (\<lambda>_. Responded 200 ''text/plain'' []), body_reads := [Data ''ok'', Closed]\<rparr>"

definition ok_env :: gateway_env where
  "ok_env = ex_env\<lparr>e_rj := \<lparr>Parse = (\<lambda>_. Some (JObject [(''model'', JString ''m'')])), Write = (\<lambda>_. [])\<rparr>,
     e_transport := (\<lambda>_. ok_transport)\<rparr>"

definition ok_request :: HttpRequest where
  "ok_request = ex_request\<lparr>hq_path := ''/v1/chat/completions''\<rparr>"

definition ok_matched :: MatchedCapability where
  "ok_matched = \<lparr>spec = kChat, operation = ''chat_completions'', force_platform = []\<rparr>"

definition ok_result :: ForwardResult where
  "ok_result = new_forward_result\<lparr>fr_status_code := 200, fr_content_type := ''text/plain'', fr_body := ''ok'',
     fr_provider_response_received := True, fr_provider_status_code := 200\<rparr>"

lemma ok_forward:
  "\<not> rq_stream rq \<Longrightarrow> rq_has_response_start rq \<Longrightarrow> \<exists>fw'. forward (e_rj ok_env) ex_target rq mode ok_transport k
      (create_forwarder default_forward_config (Some 0)) =
     Inr (Returned \<lparr>fwd_result = ok_result,
            fwd_call = Some (upstream_request (\<lambda>_. None) default_forward_config ex_target rq),
            fwd_starts = [(200, ''text/plain'', [])], fwd_sink = k\<rparr>, fw')"
  by (simp add: forward_def precheck_def ex_target_def new_target_def validate_target_auth_headers_def upstream_url_def
      create_forwarder_def create_pool_def get_client_def ok_transport_def ex_transport_def receive_def observe_cancellation_def watched_def
      response_head_def receive_body_def finish_body_def apply_transport_cancellation_def Let_def ok_result_def
      ok_env_def has_invalid_success_payload_def parse_usage_def parse_object_def to_int32_def new_forward_result_def
      default_forward_config_def body_usage_def object_at_def nested_usage_def)

definition ok_parsed :: ParsedRequest where
  "ok_parsed = \<lparr>parsed_format = Format.OpenAIChatCompletions, parsed_model = ''m'', parsed_stream = False,
     parsed_user_id = [], parsed_max_tokens = 0, thinking_enabled = False\<rparr>"

definition ok_cx :: request_ctx where
  "ok_cx = \<lparr>cx_req = ok_request, cx_matched = ok_matched, cx_start = 0, cx_request_id = ''id'',
     cx_key_hash = hash_key (e_sha256 ok_env) ''k'', cx_fingerprint = request_fingerprint ok_env ok_request,
     cx_parsed = ok_parsed, cx_stream = False\<rparr>"

lemma ok_crash [simp]: "claim (e_faults ok_env) point files = (False, files)"
  by (simp add: ok_env_def)

lemma ok_env_simps [simp]:
  "e_now ok_env l = 0" "e_garnet ok_env l k = \<lparr>gr_found = False, gr_error = False, gr_value = []\<rparr>"
  "e_dispatch ok_env l rq = (if list_ex is_abort l then ex_denial else ex_grant)"
  "e_evidence ok_env l a b c = ack_ok" "e_transport ok_env l = ok_transport"
  by (simp_all add: ok_env_def)

lemma ok_parse: "parse_inbound (e_rj ok_env) ok_request (spec ok_matched) = Inr ok_parsed"
  by (simp add: parse_inbound_def ok_matched_def spec_defs chat_capability_def ok_env_def extract_model_def parse_object_def
      ok_request_def ex_request_def is_json_request_def starts_with_def get_str_def string_at_def cstr_def ok_parsed_def Let_def)

lemma ok_no_error: "request_error (e_rj ok_env) ok_request ok_matched ok_parsed = None"
  by (simp add: request_error_def needs_model_def ok_matched_def spec_defs chat_capability_def is_json_request_def
      ok_request_def ex_request_def starts_with_def accept_def Let_def ok_parsed_def)

lemma ok_not_streaming: "\<not> streaming ok_matched ok_parsed"
  by (simp add: streaming_def ok_matched_def ok_parsed_def)

lemma ok_front:
  "wp (handle fuel ok_env ok_request ok_matched) Q E ex_state =
   wp (serve fuel ok_env ok_cx 0) Q E
     (ex_state\<lparr>gs_log := [GarnetRead (auth_key (cx_key_hash ok_cx)) \<lparr>gr_found = False, gr_error = False, gr_value = []\<rparr>, ClockRead 0],
        gs_resp := add_header ''X-Request-ID'' ''id'' (gs_resp ex_state),
        gs_metrics := no_metrics\<lparr>mt_requests_total := 1, mt_active_connections := 1, mt_garnet_misses := 1\<rparr>\<rparr>)"
proof -
  have key: "extract_api_key ok_request = ''k''" by (simp add: extract_api_key_def ok_request_def ex_request_def starts_with_def)
  have q: "is_safe_query_string (hq_query ok_request)" by (simp add: ok_request_def ex_request_def is_safe_query_string_def)
  have op: "\<not> media_control_operation (operation ok_matched)" "\<not> persistent_create (operation ok_matched)"
    by (simp_all add: ok_matched_def media_control_operation_def persistent_create_def)
  have id: "hq_request_id ok_request = ''id''" by (simp add: ok_request_def ex_request_def)
  show ?thesis
    by (simp add: handle_def wp_simps Let_def authenticated_def ok_parse ok_no_error key q op id ok_not_streaming
        lookup_idempotency_def cached_auth_version_def cache_lookup_def create_cache_def ex_state_def ok_cx_def no_metrics_def)
qed

lemma ok_call_forwarder:
  assumes "gs_forwarder s = create_forwarder default_forward_config (Some 0)"
    and "\<And>fq s'. gs_log s' = ForwardedTo ex_target fq ok_result # gs_log s \<Longrightarrow> gs_collector s' = gs_collector s \<Longrightarrow>
       Q ok_result s'"
  shows "wp (call_forwarder ok_env ok_cx ex_grant payload fmt) Q E s"
proof -
  let ?rq = "forward_request ok_env (gs_log s) ok_cx (dr_lease_token ex_grant) payload fmt (gs_resp s)"
  obtain fw' where "forward (e_rj ok_env) ex_target ?rq (stream_mode ok_cx fmt) ok_transport (rs_sink (gs_resp s))
      (create_forwarder default_forward_config (Some 0)) =
     Inr (Returned \<lparr>fwd_result = ok_result,
            fwd_call = Some (upstream_request (\<lambda>_. None) default_forward_config ex_target ?rq),
            fwd_starts = [(200, ''text/plain'', [])], fwd_sink = rs_sink (gs_resp s)\<rparr>, fw')"
    using ok_forward [of ?rq "stream_mode ok_cx fmt" "rs_sink (gs_resp s)"]
    by (auto simp: forward_request_def ok_cx_def Let_def)
  then show ?thesis using assms by (simp add: call_forwarder_def wp_def Let_def)
qed

lemma ok_acquire:
  "\<not> list_ex is_abort (gs_log s) \<Longrightarrow> (\<And>s'. gs_log s' = Dispatched rq ex_grant # gs_log s \<Longrightarrow> gs_collector s' = gs_collector s \<Longrightarrow>
       gs_forwarder s' = gs_forwarder s \<Longrightarrow> Q (Some (ex_grant, a, b)) s') \<Longrightarrow> wp (acquire_lease ok_env cx dl rq a b) Q E s"
  by (subst acquire_lease.simps, simp add: wp_simps Let_def note_auth_def)

lemma ok_attempt:
  assumes "gs_forwarder s = create_forwarder default_forward_config (Some 0)" and "gs_collector s = memory_collector"
    and "at_dispatch st = ex_grant" and "\<not> at_aborted st"
  shows "wp (attempt ok_env ok_cx st)
     (\<lambda>(again, st') s'. \<not> again \<and> st' = st\<lparr>at_format := Format.OpenAIChatCompletions, at_forward := ok_result, at_aborted := False\<rparr> \<and>
        gs_collector s' = memory_collector \<and> (\<exists>fq d. gs_log s' =
         [ForwardedTo ex_target fq ok_result, EvidenceSettled ''lease'' ''forwarded'',
          EvidenceSent ''lease'' Forwarded d ack_ok, EvidenceStored ''lease'' ''forwarded''] @ gs_log s))
     (\<lambda>_ _. False) s"
proof -
  have body: "upstream_body (e_rj ok_env) ok_cx ex_target fmt = Inr (Inr [])" for fmt
    by (simp add: upstream_body_def ok_cx_def ok_request_def ex_request_def Let_def)
  have fine: "\<not> fr_client_disconnect ok_result" "\<not> fr_stream_incomplete ok_result" "\<not> fr_output_started ok_result"
     "\<not> fr_malformed_usage ok_result" "fr_status_code ok_result = 200"
    by (simp_all add: ok_result_def new_forward_result_def)
  have fmt: "provider_format ex_target = Format.OpenAIChatCompletions"
    by (simp add: provider_format_def ex_target_def new_target_def format_from_name_def)
  show ?thesis
    using assms
    apply (simp add: attempt_def wp_simps Let_def body authorize_forwarding_def record_evidence_def acknowledge_evidence_def
        memory_collector_def forward_once_def fmt)
    apply (rule ok_call_forwarder)
     apply simp
    apply (simp add: wp_simps fine settle_attempt_def settle_cancelled_def settle_malformed_def Let_def)
    done
qed

lemma ok_complete:
  assumes "at_forward st = ok_result" "at_format st = Format.OpenAIChatCompletions" "\<not> at_aborted st"
    "at_dispatch st = ex_grant" "gs_collector s = memory_collector"
  shows "wp (complete ok_env ok_cx st)
     (\<lambda>_ s'. rs_status_code (gs_resp s') = 200 \<and> rs_body (gs_resp s') = ''ok'' \<and>
        (\<exists>ev p. gs_log s' = [UsageStored ev, ClockRead 0, PolicyAsked ''lease'' ''ok'' ''chat_completions'' p] @ gs_log s))
     (\<lambda>_ _. False) s"
proof -
  have r: "fr_status_code ok_result = 200" "fr_body ok_result = ''ok''" "\<not> fr_malformed_usage ok_result"
    by (simp_all add: ok_result_def new_forward_result_def)
  have cx: "\<not> cx_stream ok_cx" "cx_cap ok_cx = Capability.ChatCompletions" "spec_name (cx_spec ok_cx) = ''chat_completions''"
    "inbound_format (cx_spec ok_cx) = Format.OpenAIChatCompletions" "chat_capability Capability.ChatCompletions"
    "\<not> persistent_create (operation (cx_matched ok_cx))" "\<not> non_billable_control Capability.ChatCompletions"
    by (simp_all add: ok_cx_def ok_matched_def spec_defs chat_capability_def persistent_create_def non_billable_control_def)
  have pol: "content_policy_disposition (e_policy ok_env l a b c) = Allow" for l a b c
    by (simp add: ok_env_def ex_env_def content_policy_disposition_def)
  show ?thesis
    using assms
    by (simp add: complete_def deliver_body_def convert_error_body_def convert_response_body_def check_response_def
        apply_response_policy_def answer_malformed_def persist_media_def release_control_def settle_usage_def
        record_or_report_def finish_status_def wp_simps Let_def r cx pol ok_status_def record_usage_def memory_collector_def)
qed

lemma ok_run:
  "wp (handle 1 ok_env ok_request ok_matched)
     (\<lambda>_ s'. rs_status_code (gs_resp s') = 200 \<and> rs_body (gs_resp s') = ''ok'' \<and> (\<exists>rq fq ev p d g. gs_log s' =
         [UsageStored ev, ClockRead 0, PolicyAsked ''lease'' ''ok'' ''chat_completions'' p,
          ForwardedTo ex_target fq ok_result, EvidenceSettled ''lease'' ''forwarded'',
          EvidenceSent ''lease'' Forwarded d ack_ok, EvidenceStored ''lease'' ''forwarded'', Dispatched rq ex_grant,
          ClockRead 0, GarnetRead g \<lparr>gr_found = False, gr_error = False, gr_value = []\<rparr>, ClockRead 0]))
     (\<lambda>_ _. False) ex_state"
proof -
  have stream: "\<not> cx_stream ok_cx" by (simp add: ok_cx_def)
  have tb: "transfer_body ok_env (cx_req ok_cx) = gw_return (Some \<lparr>bt_inline = [], bt_ref = [], bt_digest = [], bt_size = 0\<rparr>)"
    by (simp add: transfer_body_def ok_cx_def ok_request_def ex_request_def kMaxInlineRequestBodyBytes_def)
  show ?thesis
    unfolding ok_front
    apply (simp add: serve_def note_streaming_def wp_simps Let_def tb stream)
    apply (rule ok_acquire)
     apply (simp add: ex_state_def)
    apply simp
    apply (simp add: wp_simps)
    apply (rule wp_mono [OF ok_attempt])
    apply (simp_all add: ex_state_def first_attempt_def)
    apply (clarsimp simp: wp_simps)
    apply (rule wp_mono [OF ok_complete])
    apply auto
    done
qed

lemma ok_runs:
  obtains s' rq fq ev p d g where "handle 1 ok_env ok_request ok_matched ex_state = (Inr (), s')"
    and "rs_status_code (gs_resp s') = 200" and "rs_body (gs_resp s') = ''ok''"
    and "gs_log s' =
         [UsageStored ev, ClockRead 0, PolicyAsked ''lease'' ''ok'' ''chat_completions'' p,
          ForwardedTo ex_target fq ok_result, EvidenceSettled ''lease'' ''forwarded'',
          EvidenceSent ''lease'' Forwarded d ack_ok, EvidenceStored ''lease'' ''forwarded'', Dispatched rq ex_grant,
          ClockRead 0, GarnetRead g \<lparr>gr_found = False, gr_error = False, gr_value = []\<rparr>, ClockRead 0]"
  using ok_run by (cases "handle 1 ok_env ok_request ok_matched ex_state") (auto simp: wp_def split: sum.splits)

end
