(* ===== verification/Lease_Protocol.thy ===== *)
theory Lease_Protocol
  imports Handler_Example
begin

text \<open>
  The protocol between the gateway and the platform about leases, as an automaton over the calls of a
  request, and the proof that every run of the request handler keeps it.  The proof follows the
  stretches of the handler: each lemma \<open>..._phase\<close> says how one of them moves the automaton.
\<close>

section \<open>The lease protocol\<close>

text \<open>
  What the platform expects of a gateway that holds leases, as an automaton over the calls of one
  request.  A granted dispatch gives a lease; the provider may be called only after the platform
  acknowledged the evidence for that lease, and only the provider that came with it; the lease is then
  settled by an abort, a usage record or report, or by handing it to a running media operation.  After
  a settled lease (\<open>Over\<close>) a further dispatch is allowed only when the provider rejected the request
  explicitly, nothing was written to the client, and the one settlement was an abort without charge.
\<close>

datatype lease_phase =
    Idle
  | Leased DispatchResult
  | Cleared DispatchResult
  | Answered DispatchResult ForwardResult
  | Over DispatchResult bool

definition granted :: "DispatchResult \<Rightarrow> bool" where
  "granted r \<longleftrightarrow> dr_outcome r = Ok \<or> dr_outcome r = Reauth"

definition retry_safe :: "ForwardResult \<Rightarrow> bool" where
  "retry_safe fr \<longleftrightarrow> is_explicit_provider_rejection fr \<and> \<not> fr_output_started fr \<and> is_retryable_status (fr_status_code fr)"

definition deferred_to :: "DispatchResult \<Rightarrow> MediaOperationRequest \<Rightarrow> MediaOperationResult \<Rightarrow> bool" where
  "deferred_to r rq res \<longleftrightarrow> mr_accepted res \<and> mq_status rq = ''running''
     \<and> mq_operation_id rq = tgt_media_operation_id (dr_upstream r)"

text \<open>The token a call carries.\<close>

fun call_lease :: "gateway_call \<Rightarrow> string option" where
  "call_lease (Aborted t _ _ _ _) = Some t"
| "call_lease (UsageStored ev) = Some (ue_lease_token ev)"
| "call_lease (UsageReported rep _) = Some (ur_lease_token rep)"
| "call_lease (PolicyAsked t _ _ _) = Some t"
| "call_lease (EvidenceSent t _ _ _) = Some t"
| "call_lease _ = None"

fun settling :: "gateway_call \<Rightarrow> bool" where
  "settling (Aborted _ _ _ _ _) = True"
| "settling (UsageStored _) = True"
| "settling (UsageReported _ _) = True"
| "settling _ = False"

definition own_lease :: "DispatchResult \<Rightarrow> gateway_call \<Rightarrow> bool" where
  "own_lease r c \<longleftrightarrow> (case call_lease c of Some t \<Rightarrow> t = dr_lease_token r | None \<Rightarrow> True)"

fun lease_step :: "lease_phase \<Rightarrow> gateway_call \<Rightarrow> lease_phase option" where
  "lease_step Idle c =
     (case c of
        Dispatched rq r \<Rightarrow> Some (if granted r then Leased r else Idle)
      | ForwardedTo _ _ _ \<Rightarrow> None
      | _ \<Rightarrow> if call_lease c = None then Some Idle else None)"
| "lease_step (Leased r) c =
     (case c of
        Dispatched _ _ \<Rightarrow> None
      | ForwardedTo _ _ _ \<Rightarrow> None
      | EvidenceSent t Forwarded _ a \<Rightarrow>
          if t = dr_lease_token r then Some (if acknowledged a then Cleared r else Leased r) else None
      | _ \<Rightarrow> if \<not> own_lease r c then None else Some (if settling c then Over r False else Leased r))"
| "lease_step (Cleared r) c =
     (case c of
        Dispatched _ _ \<Rightarrow> None
      | ForwardedTo tg _ fr \<Rightarrow> if tg = dr_upstream r then Some (Answered r fr) else None
      | _ \<Rightarrow> if \<not> own_lease r c then None else Some (if settling c then Over r False else Cleared r))"
| "lease_step (Answered r fr) c =
     (case c of
        Dispatched _ _ \<Rightarrow> None
      | ForwardedTo _ _ _ \<Rightarrow> None
      | Aborted t _ d code _ \<Rightarrow>
          if t = dr_lease_token r \<and> code = fr_provider_status_code fr
          then Some (Over r (retry_safe fr \<and> d = NoCharge)) else None
      | MediaCalled rq res \<Rightarrow> Some (if deferred_to r rq res then Over r False else Answered r fr)
      | _ \<Rightarrow> if \<not> own_lease r c then None else Some (if settling c then Over r False else Answered r fr))"
| "lease_step (Over r again) c =
     (case c of
        Dispatched _ r' \<Rightarrow> if again then Some (if granted r' then Leased r' else Over r again) else None
      | ForwardedTo _ _ _ \<Rightarrow> None
      | _ \<Rightarrow> if \<not> own_lease r c then None else Some (if settling c then Over r False else Over r again))"

text \<open>The phase after a log, newest call first; \<open>None\<close> when the protocol was violated.\<close>

fun phase_of :: "gateway_call list \<Rightarrow> lease_phase option" where
  "phase_of [] = Some Idle"
| "phase_of (c # l) = (case phase_of l of None \<Rightarrow> None | Some p \<Rightarrow> lease_step p c)"

abbreviation phase :: "gateway_state \<Rightarrow> lease_phase option" where
  "phase s \<equiv> phase_of (gs_log s)"

text \<open>Calls that leave every phase alone.\<close>

fun neutral :: "gateway_call \<Rightarrow> bool" where
  "neutral (ErrorReported _) = True"
| "neutral (GarnetRead _ _) = True"
| "neutral (EvidenceStored _ _) = True"
| "neutral (EvidenceSettled _ _) = True"
| "neutral (UsageNotStored _) = True"
| "neutral (ClientTimeoutSet _) = True"
| "neutral (ClockRead _) = True"
| "neutral (Slept _) = True"
| "neutral (BlobUploaded _ _ _) = True"
| "neutral _ = False"

lemma neutral_step [simp]: "neutral c \<Longrightarrow> lease_step p c = Some p"
  by (cases c; cases p) (auto simp: own_lease_def)

declare lease_step.simps [simp del]

lemma phase_neutral [simp]: "neutral c \<Longrightarrow> phase_of (c # l) = phase_of l"
  by (simp split: option.splits)

lemma idle_step [simp]:
  "lease_step Idle (MediaCalled rq res) = Some Idle"
  "lease_step Idle (Dispatched dq r) = Some (if granted r then Leased r else Idle)"
  by (simp_all add: lease_step.simps)

lemma leased_step [simp]:
  "lease_step (Leased r) (EvidenceSent (dr_lease_token r) Forwarded d a) = Some (if acknowledged a then Cleared r else Leased r)"
  "lease_step (Leased r) (Aborted (dr_lease_token r) reason disp code a) = Some (Over r False)"
  "lease_step (Leased r) (MediaCalled rq res) = Some (Leased r)"
  by (simp_all add: lease_step.simps own_lease_def)

lemma cleared_step [simp]:
  "lease_step (Cleared r) (ForwardedTo (dr_upstream r) rq fr) = Some (Answered r fr)"
  by (simp_all add: lease_step.simps)

lemma answered_step [simp]:
  "lease_step (Answered r fr) (EvidenceSent (dr_lease_token r) OutputStarted d a) = Some (Answered r fr)"
  "fr_provider_status_code fr = code \<Longrightarrow> lease_step (Answered r fr) (Aborted (dr_lease_token r) reason disp code a) =
     Some (Over r (retry_safe fr \<and> disp = NoCharge))"
  "lease_step (Answered r fr) (PolicyAsked (dr_lease_token r) txt cap p) = Some (Answered r fr)"
  "lease_step (Answered r fr) (MediaCalled rq res) = Some (if deferred_to r rq res then Over r False else Answered r fr)"
  by (simp_all add: lease_step.simps own_lease_def)

lemma over_step [simp]:
  "lease_step (Over r True) (Dispatched dq r') = Some (if granted r' then Leased r' else Over r True)"
  "lease_step (Over r b) (Aborted (dr_lease_token r) reason disp code a) = Some (Over r False)"
  "lease_step (Over r b) (MediaCalled rq res) = Some (Over r b)"
  by (simp_all add: lease_step.simps own_lease_def)

text \<open>Whoever holds the lease, a usage record or report with its token settles it.\<close>

definition holder :: "lease_phase \<Rightarrow> DispatchResult option" where
  "holder p = (case p of Idle \<Rightarrow> None | Leased r \<Rightarrow> Some r | Cleared r \<Rightarrow> Some r | Answered r _ \<Rightarrow> Some r | Over r _ \<Rightarrow> Some r)"

lemma usage_phase_step [simp]:
  "holder p = Some r \<Longrightarrow> ue_lease_token ev = dr_lease_token r \<Longrightarrow> lease_step p (UsageStored ev) = Some (Over r False)"
  "holder p = Some r \<Longrightarrow> ur_lease_token rep = dr_lease_token r \<Longrightarrow> lease_step p (UsageReported rep a) = Some (Over r False)"
  by (cases p; simp add: lease_step.simps own_lease_def holder_def)+

definition ready :: "lease_phase \<Rightarrow> bool" where
  "ready p \<longleftrightarrow> p = Idle \<or> (\<exists>r. p = Over r True)"

lemma ready_step [simp]:
  "ready p \<Longrightarrow> lease_step p (Dispatched dq r) = Some (if granted r then Leased r else p)"
  "ready p \<Longrightarrow> lease_step p (MediaCalled rq res) = Some p"
  by (auto simp: ready_def)

lemma ready_simps [simp]: "ready Idle" "ready (Over r True)"
  by (simp_all add: ready_def)

abbreviation in_phase :: "lease_phase \<Rightarrow> gateway_state \<Rightarrow> bool" where
  "in_phase p s \<equiv> phase s = Some p"

lemma media_answer_log: "wp (media_answer rj action r) (\<lambda>_ s'. gs_log s' = gs_log s) (\<lambda>_ _. False) s"
  by (auto simp: media_answer_def wp_simps)

lemma media_control_phase:
  "in_phase Idle s \<Longrightarrow> wp (media_control env req m rid kh fp) (\<lambda>_. in_phase Idle) (\<lambda>_ _. False) s"
  unfolding media_control_def Let_def
  by (simp add: wp_simps Let_def, rule wp_mono [OF media_answer_log]) (auto simp: wp_simps)

lemma lookup_idempotency_phase:
  "in_phase Idle s \<Longrightarrow> wp (lookup_idempotency env req m rid kh fp) (\<lambda>_. in_phase Idle) (\<lambda>_ _. False) s"
  by (simp add: lookup_idempotency_def wp_simps Let_def)

lemma cached_auth_version_phase:
  "in_phase Idle s \<Longrightarrow> wp (cached_auth_version env kh) (\<lambda>_. in_phase Idle) (\<lambda>_ _. False) s"
  by (simp add: cached_auth_version_def wp_simps Let_def split: option.splits)

lemma note_streaming_phase:
  "in_phase Idle s \<Longrightarrow> wp (note_streaming cx) (\<lambda>_. in_phase Idle) (\<lambda>_ _. False) s"
  by (simp add: note_streaming_def wp_simps)

lemma transfer_body_phase:
  "in_phase Idle s \<Longrightarrow> wp (transfer_body env req) (\<lambda>_. in_phase Idle) (\<lambda>_ _. False) s"
  by (simp add: transfer_body_def wp_simps Let_def)

lemma reject_finally_log: "wp (reject_finally rj r) (\<lambda>_ s'. gs_log s' = gs_log s) (\<lambda>_ _. False) s"
  by (simp add: reject_finally_def wp_simps)

lemma rejected_dispatch_phase:
  assumes "in_phase p s" and "ready p"
  shows "wp (rejected_dispatch env cx r) (\<lambda>_. in_phase p) (\<lambda>_ _. False) s"
  using assms wp_mono [OF reject_finally_log]
  by (auto simp: rejected_dispatch_def wp_simps Let_def split: option.splits)

lemma note_auth_log: "wp (note_auth kh r) (\<lambda>_ s'. gs_log s' = gs_log s) (\<lambda>_ _. False) s"
  by (simp add: note_auth_def wp_simps)

definition leased_or :: "lease_phase \<Rightarrow> (DispatchResult \<times> nat \<times> nat) option \<Rightarrow> gateway_state \<Rightarrow> bool" where
  "leased_or p x s \<longleftrightarrow> (case x of None \<Rightarrow> in_phase p s | Some (r, _) \<Rightarrow> in_phase (Leased r) s)"

lemma leased_or_simps [simp]:
  "leased_or p None s = in_phase p s"
  "leased_or p (Some (r, x)) s = in_phase (Leased r) s"
  by (simp_all add: leased_or_def)

lemma acquire_lease_phase:
  "in_phase p s \<Longrightarrow> ready p \<Longrightarrow>
     wp (acquire_lease env cx deadline rq retries waits) (leased_or p) (\<lambda>_ _. False) s"
proof (induction env cx deadline rq retries waits arbitrary: s rule: acquire_lease.induct)
  case (1 env cx deadline rq retries waits)
  let ?r = "e_dispatch env (gs_log s) rq"
  show ?case
  proof (cases "granted ?r")
    case True
    then show ?thesis
      using "1.prems" wp_mono [OF note_auth_log]
      by (subst acquire_lease.simps)
        (auto simp: wp_simps Let_def granted_def)
  next
    case False
    then show ?thesis
      using "1.prems" "1.IH" wp_mono [OF rejected_dispatch_phase]
      by (subst acquire_lease.simps)
        (auto simp: wp_simps Let_def granted_def split: Outcome.splits)
  qed
qed

text \<open>Whatever stops the handler, the protocol was kept.\<close>

definition conforms :: "halt \<Rightarrow> gateway_state \<Rightarrow> bool" where
  "conforms h s \<longleftrightarrow> phase s \<noteq> None"

lemma conformsI [simp]: "in_phase p s \<Longrightarrow> conforms h s"
  by (simp add: conforms_def)

definition conversion_failed :: "gateway_env \<Rightarrow> HttpRequest \<Rightarrow> MatchedCapability \<Rightarrow> DispatchResult \<Rightarrow> bool" where
  "conversion_failed env req m r \<longleftrightarrow>
     (case convert_request (e_rj env) (hq_body req) (inbound_format (spec m)) (provider_format (dr_upstream r))
             (tgt_mapped_model (dr_upstream r)) of
        Inr c \<Rightarrow> \<not> success c | Inl _ \<Rightarrow> False)"

lemma upstream_body_failed:
  "upstream_body (e_rj env) cx (dr_upstream r) (provider_format (dr_upstream r)) = Inr (Inl err) \<Longrightarrow>
     conversion_failed env (cx_req cx) (cx_matched cx) r"
  by (auto simp: upstream_body_def conversion_failed_def Let_def res_bind_Inr_iff split: if_splits)

text \<open>Where the lease of an attempt stands when the loop is left.\<close>

definition left_loop :: "gateway_env \<Rightarrow> request_ctx \<Rightarrow> attempt_state \<Rightarrow> gateway_state \<Rightarrow> bool" where
  "left_loop env cx st s \<longleftrightarrow>
     (let r = at_dispatch st
      in (\<exists>b. in_phase (Over r b) s) \<or>
         (in_phase (Leased r) s \<and> at_aborted st \<and> conversion_failed env (cx_req cx) (cx_matched cx) r \<and> fr_status_code (at_forward st) = 400) \<or>
         (\<exists>fr. in_phase (Answered r fr) s \<and> \<not> at_aborted st
            \<and> fr_provider_status_code fr = fr_provider_status_code (at_forward st)))"

definition after_attempt :: "gateway_env \<Rightarrow> request_ctx \<Rightarrow> DispatchResult \<Rightarrow> bool \<times> attempt_state \<Rightarrow> gateway_state \<Rightarrow> bool" where
  "after_attempt env cx r x s \<longleftrightarrow>
     (case x of (again, st) \<Rightarrow> at_dispatch st = r \<and>
        (if again then in_phase (Over r True) s \<and> \<not> at_aborted st else left_loop env cx st s))"

lemma authorize_forwarding_phase:
  "in_phase (Leased r) s \<Longrightarrow>
     wp (authorize_forwarding env (dr_lease_token r)) (\<lambda>ok. in_phase (if ok then Cleared r else Over r False)) conforms s"
  by (auto simp: authorize_forwarding_def wp_simps Let_def split: sum.splits)

lemma call_forwarder_phase:
  "in_phase (Cleared r) s \<Longrightarrow>
     wp (call_forwarder env cx r payload fmt) (\<lambda>fr. in_phase (Answered r fr)) conforms s"
  by (auto simp: call_forwarder_def wp_def Let_def split: sum.splits prod.splits forward_outcome.splits)

lemma note_output_phase:
  "in_phase (Answered r fr) s \<Longrightarrow>
     wp (note_output env (dr_lease_token r)) (\<lambda>_. in_phase (Answered r fr)) conforms s"
  by (auto simp: note_output_def wp_simps Let_def split: sum.splits)

lemma forward_once_phase:
  assumes "in_phase (Cleared r) s"
  shows "wp (forward_once env cx r payload fmt) (\<lambda>fr. in_phase (Answered r fr)) conforms s"
proof -
  have rest: "wp (gw_then (gw_when (fr_output_started fr) (note_output env (dr_lease_token r)))
       (gw_then (crash_if_configured env ''gateway.after_provider_completion'') (gw_return fr)))
       (\<lambda>fr. in_phase (Answered r fr)) conforms s'" if "in_phase (Answered r fr) s'" for fr s'
    using that by (auto simp: wp_simps Let_def intro!: wp_mono [OF note_output_phase [OF that]])
  show ?thesis
    unfolding forward_once_def by (rule wp_bind_rule [OF call_forwarder_phase [OF assms] rest]) auto
qed

lemma settle_cancelled_phase:
  "in_phase (Answered r fr) s \<Longrightarrow>
     wp (settle_cancelled env (dr_lease_token r) fr)
       (\<lambda>c. in_phase (if c then Over r False else Answered r fr)) conforms s"
  by (auto simp: settle_cancelled_def wp_simps Let_def)

lemma settle_malformed_phase:
  assumes "in_phase (if c then Over r False else Answered r fr) s"
  shows "wp (settle_malformed env cx r fr)
     (\<lambda>fr' s'. fr' = (if fr_malformed_usage fr then fr\<lparr>fr_status_code := 502\<rparr> else fr) \<and>
        in_phase (if c \<or> fr_malformed_usage fr then Over r False else Answered r fr) s') conforms s"
  using assms by (cases c) (auto simp: settle_malformed_def wp_simps Let_def)

lemma settle_failure_phase:
  assumes "in_phase (Answered r fr) s"
  shows "wp (settle_failure env cx r fr fo)
     (\<lambda>(again, fo') s'. \<exists>b. in_phase (Over r b) s' \<and> (again \<longrightarrow> b)) conforms s"
  using assms by (auto simp: settle_failure_def wp_simps Let_def retry_safe_def)

lemma settle_attempt_phase:
  assumes "in_phase (Answered (at_dispatch st) fr0) s" and "\<not> at_aborted st"
  shows "wp (settle_attempt env cx fr0 st) (after_attempt env cx (at_dispatch st)) conforms s"
  unfolding settle_attempt_def Let_def
  apply (rule wp_bind_rule [OF settle_cancelled_phase [OF assms(1)]])
   apply (rule wp_bind_rule [OF settle_malformed_phase], assumption)
  subgoal for c s1 fr s2
    using assms(2)
    by (auto simp: wp_simps after_attempt_def left_loop_def next_attempt_def split: if_splits
        intro!: wp_mono [OF settle_failure_phase [where r = "at_dispatch st" and fr = fr0]])
   apply simp_all
  done

lemma attempt_phase:
  assumes "in_phase (Leased (at_dispatch st)) s" and "\<not> at_aborted st"
  shows "wp (attempt env cx st) (after_attempt env cx (at_dispatch st)) conforms s"
proof -
  let ?r = "at_dispatch st" and ?fmt = "provider_format (dr_upstream (at_dispatch st))"
  let ?st = "st\<lparr>at_format := ?fmt\<rparr>"
  let ?Q = "after_attempt env cx ?r"
  have forwarded: "wp (gw_bind (forward_once env cx ?r payload ?fmt) (\<lambda>fr. settle_attempt env cx fr ?st)) ?Q conforms s'"
    if "in_phase (Cleared ?r) s'" for s' payload
    using assms(2) settle_attempt_phase [where st = ?st]
    by (intro wp_bind_rule [OF forward_once_phase [OF that]]) auto
  have authorized: "wp (gw_bind (authorize_forwarding env (dr_lease_token ?r)) (\<lambda>ok.
       if \<not> ok
       then gw_then (count one_more_failed)
              (gw_return (False, stopped_with 503 (fixed_error ''platform_unavailable''
                 ''Unable to persist Provider dispatch evidence'') ?st))
       else gw_bind (forward_once env cx ?r payload ?fmt) (\<lambda>fr. settle_attempt env cx fr ?st))) ?Q conforms s'"
    if "in_phase (Leased ?r) s'" for s' payload
    by (rule wp_bind_rule [OF authorize_forwarding_phase [OF that]])
      (auto simp: wp_simps after_attempt_def left_loop_def stopped_with_def split: if_splits intro: forwarded [unfolded wp_bind])
  have "wp (gw_bind (gw_lift (upstream_body (e_rj env) cx (dr_upstream ?r) ?fmt)) (\<lambda>b.
         case b of
           Inl err \<Rightarrow> gw_then (count one_more_failed)
               (gw_return (False, stopped_with 400 (fixed_error ''invalid_request_error'' err) ?st))
         | Inr payload \<Rightarrow> gw_bind (authorize_forwarding env (dr_lease_token ?r)) (\<lambda>ok.
               if \<not> ok
               then gw_then (count one_more_failed)
                      (gw_return (False, stopped_with 503 (fixed_error ''platform_unavailable''
                         ''Unable to persist Provider dispatch evidence'') ?st))
               else gw_bind (forward_once env cx ?r payload ?fmt) (\<lambda>fr. settle_attempt env cx fr ?st)))) ?Q conforms s'"
    if "in_phase (Leased ?r) s'" for s'
    using that authorized [OF that, unfolded wp_bind]
    by (auto simp: wp_simps after_attempt_def left_loop_def stopped_with_def upstream_body_failed split: sum.splits)
  then show ?thesis
    using assms(1) unfolding attempt_def Let_def wp_then wp_crash by auto
qed

lemma attempts_phase:
  "in_phase p s \<Longrightarrow> ready p \<Longrightarrow> \<not> at_aborted st \<Longrightarrow>
     wp (attempts fuel env cx deadline st)
       (\<lambda>x s'. case x of None \<Rightarrow> \<exists>q. in_phase q s' \<and> ready q | Some st' \<Rightarrow> left_loop env cx st' s') conforms s"
proof (induction fuel arbitrary: p s st)
  case 0
  then show ?case by (simp add: wp_simps)
next
  case (Suc fuel)
  show ?case
    unfolding attempts.simps
  proof (rule wp_bind_rule [OF acquire_lease_phase [OF Suc.prems(1,2)]])
    fix x s'
    assume x: "leased_or p x s'"
    show "wp (case x of None \<Rightarrow> gw_return None
         | Some (dr, retries, waits) \<Rightarrow>
             gw_bind (attempt env cx (st\<lparr>at_dispatch := dr, at_retries := retries, at_waits := waits\<rparr>)) (\<lambda>(again, st1).
               if again then attempts fuel env cx deadline st1 else gw_return (Some st1)))
       (\<lambda>x s'. case x of None \<Rightarrow> \<exists>q. in_phase q s' \<and> ready q | Some st' \<Rightarrow> left_loop env cx st' s') conforms s'"
    proof (cases x)
      case None
      with x Suc.prems show ?thesis by (auto simp: wp_simps)
    next
      case (Some y)
      obtain dr retries waits where y: "y = (dr, retries, waits)" by (cases y)
      let ?st = "st\<lparr>at_dispatch := dr, at_retries := retries, at_waits := waits\<rparr>"
      have leased: "in_phase (Leased (at_dispatch ?st)) s'" using x Some y by simp
      have "wp (gw_bind (attempt env cx ?st) (\<lambda>(again, st1).
               if again then attempts fuel env cx deadline st1 else gw_return (Some st1)))
         (\<lambda>x s'. case x of None \<Rightarrow> \<exists>q. in_phase q s' \<and> ready q | Some st' \<Rightarrow> left_loop env cx st' s') conforms s'"
        using Suc.prems(3)
        by (intro wp_bind_rule [OF attempt_phase [OF leased]])
          (auto simp: wp_simps after_attempt_def split: if_splits intro!: Suc.IH [where p = "Over dr True"])
      then show ?thesis using Some y by simp
    qed
  qed simp
qed

definition kept :: "gateway_env \<Rightarrow> request_ctx \<Rightarrow> DispatchResult \<Rightarrow> attempt_state \<Rightarrow> gateway_state \<Rightarrow> bool" where
  "kept env cx r st s \<longleftrightarrow> at_dispatch st = r \<and> left_loop env cx st s"

lemma kept_log: "gs_log s' = gs_log s \<Longrightarrow> kept env cx r st s \<Longrightarrow> kept env cx r st s'"
  by (auto simp: kept_def left_loop_def Let_def)

lemma kept_resp [simp]:
  "kept env cx r st (s\<lparr>gs_resp := p\<rparr>) = kept env cx r st s"
  "kept env cx r st (s\<lparr>gs_metrics := m\<rparr>) = kept env cx r st s"
  by (simp_all add: kept_def left_loop_def)

lemma kept_conforms [simp]: "kept env cx r st s \<Longrightarrow> conforms h s"
  by (auto simp: kept_def left_loop_def Let_def conforms_def)

lemma withdraw_response_phase:
  assumes "kept env cx r st s" and "fr_status_code (at_forward st) < 400"
  shows "wp (withdraw_response env reason b ty msg st) (kept env cx r) conforms s"
  using assms by (auto simp: withdraw_response_def wp_simps Let_def kept_def left_loop_def)

lemma convert_response_body_phase:
  assumes "kept env cx r st s"
  shows "wp (convert_response_body env cx st) (kept env cx r) conforms s"
  using assms withdraw_response_phase
  by (auto simp: convert_response_body_def wp_simps split: sum.splits)

lemma check_response_phase:
  assumes "kept env cx r st s"
  shows "wp (check_response env wanted check reason st) (kept env cx r) conforms s"
  using assms withdraw_response_phase
  by (auto simp: check_response_def wp_simps ok_status_def split: sum.splits)

lemma convert_error_body_phase:
  assumes "kept env cx r st s"
  shows "wp (convert_error_body env cx st) (\<lambda>_. kept env cx r st) conforms s"
  using assms by (auto simp: convert_error_body_def Let_def wp_simps)

lemma deliver_body_phase:
  assumes "kept env cx r st s"
  shows "wp (deliver_body env cx st) (kept env cx r) conforms s"
  unfolding deliver_body_def Let_def
  using assms
  by (auto simp: wp_return wp_set_resp wp_then
      intro!: wp_mono [OF convert_error_body_phase] wp_bind_rule [OF convert_response_body_phase]
        wp_bind_rule [OF check_response_phase] check_response_phase)

lemma kept_policy:
  assumes "kept env cx r st s" and "\<not> at_aborted st"
  shows "kept env cx r st (s\<lparr>gs_log := PolicyAsked (dr_lease_token (at_dispatch st)) txt cap p # gs_log s\<rparr>)"
proof -
  have "lease_step (Over x b) (PolicyAsked (dr_lease_token x) txt cap p) = Some (Over x b)" for x b
    by (simp add: lease_step.simps own_lease_def)
  then show ?thesis using assms by (auto simp: kept_def left_loop_def Let_def)
qed

lemma apply_response_policy_phase:
  assumes "kept env cx r st s"
  shows "wp (apply_response_policy env cx st) (\<lambda>_. kept env cx r st) conforms s"
  using assms
  by (auto simp: apply_response_policy_def wp_simps Let_def withhold_def kept_policy
      split: ContentPolicyDisposition.splits)

lemma answer_malformed_phase:
  "kept env cx r st s \<Longrightarrow> wp (answer_malformed rj st) (\<lambda>_. kept env cx r st) conforms s"
  by (auto simp: answer_malformed_def wp_simps)

lemma media_attach_simps [simp]:
  "mq_operation_id (media_attach rj cx st b) = tgt_media_operation_id (dr_upstream (at_dispatch st))"
  "mq_status (media_attach rj cx st b) = ''running'' \<Longrightarrow> \<not> at_aborted st"
  by (auto simp: media_attach_def media_request_def Let_def split: if_splits)

lemma persist_media_phase:
  assumes "kept env cx r st s"
  shows "wp (persist_media env cx st)
     (\<lambda>(_, defer, st') s'. kept env cx r st' s' \<and> (defer \<longrightarrow> (\<exists>b. in_phase (Over r b) s'))) conforms s"
  using assms
  by (auto simp: persist_media_def wp_simps Let_def kept_def left_loop_def deferred_to_def split: if_splits)

lemma release_control_phase:
  assumes "kept env cx r st s" and "defer \<longrightarrow> (\<exists>b. in_phase (Over r b) s)"
  shows "wp (release_control env cx st)
     (\<lambda>st' s'. kept env cx r st' s' \<and> (defer \<longrightarrow> (\<exists>b. in_phase (Over r b) s'))) conforms s"
  using assms
  by (auto simp: release_control_def wp_simps Let_def kept_def left_loop_def)

definition ended :: "gateway_env \<Rightarrow> HttpRequest \<Rightarrow> MatchedCapability \<Rightarrow> gateway_state \<Rightarrow> bool" where
  "ended env req m s \<longleftrightarrow> (\<exists>p. in_phase p s \<and> (p = Idle \<or> (\<exists>r b. p = Over r b) \<or> (\<exists>r. p = Leased r \<and> conversion_failed env req m r)))"

lemma kept_usage:
  assumes "kept env cx r st s" and "ue_lease_token ev = dr_lease_token r"
  shows "in_phase (Over r False) (s\<lparr>gs_log := UsageStored ev # gs_log s, gs_collector := c\<rparr>)"
    "in_phase (Over r False) (s\<lparr>gs_log := UsageReported (usage_report ev) a # UsageNotStored ev # gs_log s\<rparr>)"
  using assms by (auto simp: kept_def left_loop_def Let_def holder_def usage_report_def)

lemma settle_usage_phase:
  assumes k: "kept env cx r st s" and d: "defer \<longrightarrow> (\<exists>b. in_phase (Over r b) s)"
  shows "wp (settle_usage env cx st overridden defer) (\<lambda>_. ended env (cx_req cx) (cx_matched cx)) conforms s"
proof -
  have token [simp]: "ue_lease_token (usage_event rj cx st t b p) = dr_lease_token r" for rj t b p
    using k by (simp add: usage_event_def kept_def Let_def)
  have k1: "kept env cx r st (s\<lparr>gs_log := ClockRead t # gs_log s\<rparr>)" for t
    using k by (auto simp: kept_def left_loop_def Let_def)
  have over: "\<exists>b. in_phase (Over r b) s \<Longrightarrow> ended env (cx_req cx) (cx_matched cx) (s\<lparr>gs_log := ClockRead t # gs_log s\<rparr>)" for t
    by (auto simp: ended_def)
  have aborted: "at_aborted st \<Longrightarrow> ended env (cx_req cx) (cx_matched cx) (s\<lparr>gs_log := ClockRead t # gs_log s\<rparr>)" for t
    using k by (auto simp: kept_def left_loop_def ended_def Let_def)
  show ?thesis
    using kept_usage [OF k1 token] d over aborted
    by (auto simp: settle_usage_def record_or_report_def wp_simps Let_def ended_def split: sum.splits)
qed

lemma finish_status_log: "wp (finish_status a b st) (\<lambda>_ s'. gs_log s' = gs_log s) (\<lambda>_ _. False) s"
  by (simp add: finish_status_def wp_simps)

lemma complete_phase:
  assumes "left_loop env cx st s"
  shows "wp (complete env cx st) (\<lambda>_. ended env (cx_req cx) (cx_matched cx)) conforms s"
proof -
  let ?r = "at_dispatch st"
  have fin: "wp (finish_status a b st') (\<lambda>_. ended env (cx_req cx) (cx_matched cx)) conforms s'"
    if "ended env (cx_req cx) (cx_matched cx) s'" for a b st' s'
    by (rule wp_mono [OF finish_status_log]) (use that in \<open>auto simp: ended_def\<close>)
  have usage: "wp (gw_then (settle_usage env cx st' a d) (finish_status a b st')) (\<lambda>_. ended env (cx_req cx) (cx_matched cx)) conforms s'"
    if "kept env cx ?r st' s' \<and> (d \<longrightarrow> (\<exists>b. in_phase (Over ?r b) s'))" for st' s' a b d
    using that by (intro wp_then_rule [OF settle_usage_phase]) (auto intro: fin)
  have media: "wp (gw_bind (persist_media env cx st1) (\<lambda>(a, d, st2).
        gw_bind (release_control env cx st2) (\<lambda>st3.
        gw_then (settle_usage env cx st3 a d) (finish_status a b st3)))) (\<lambda>_. ended env (cx_req cx) (cx_matched cx)) conforms s'"
    if "kept env cx ?r st1 s'" for st1 s' b
    by (rule wp_bind_rule [OF persist_media_phase [OF that]])
      (auto intro!: wp_bind_rule [OF release_control_phase] usage)
  show ?thesis
    unfolding complete_def
    using assms
    by (intro wp_bind_rule [OF deliver_body_phase] wp_bind_rule [OF apply_response_policy_phase]
        wp_then_rule [OF answer_malformed_phase] media) (auto simp: kept_def)
qed

lemma ended_Idle [simp]: "in_phase Idle s \<Longrightarrow> ended env req m s"
  by (simp add: ended_def)

lemma ended_ready: "in_phase p s \<Longrightarrow> ready p \<Longrightarrow> ended env req m s"
  by (auto simp: ended_def ready_def)

lemma serve_phase:
  assumes "in_phase Idle s"
  shows "wp (serve fuel env cx v) (\<lambda>_. ended env (cx_req cx) (cx_matched cx)) conforms s"
proof -
  have tail: "wp (gw_bind (now env) (\<lambda>t.
         gw_bind (attempts fuel env cx (t + kDispatchDeadline) (first_attempt env cx v bt)) (\<lambda>y.
           case y of None \<Rightarrow> gw_return () | Some st \<Rightarrow> complete env cx st)))
      (\<lambda>_. ended env (cx_req cx) (cx_matched cx)) conforms s'" if "in_phase Idle s'" for bt s'
  proof (rule wp_bind_rule [where R = "\<lambda>_. in_phase Idle" and E' = conforms], goal_cases)
    case (2 t s1)
    then show ?case
      by (intro wp_bind_rule [OF attempts_phase [OF 2]])
        (auto simp: wp_simps first_attempt_def split: option.splits intro: ended_ready complete_phase)
  qed (use that in \<open>auto simp: wp_simps Let_def\<close>)
  show ?thesis
    unfolding serve_def
    using assms tail
    by (intro wp_then_rule [OF note_streaming_phase] wp_bind_rule [OF transfer_body_phase])
      (auto simp: wp_simps split: option.splits)
qed

lemma authenticated_phase:
  assumes "in_phase Idle s"
  shows "wp (authenticated fuel env req m start rid kh fp) (\<lambda>_. ended env req m) conforms s"
proof (cases "media_control_operation (operation m)")
  case True
  then show ?thesis
    by (simp add: authenticated_def) (rule wp_mono [OF media_control_phase [OF assms]], auto)
next
  case False
  have tail: "wp (gw_bind (cached_auth_version env kh) (\<lambda>v.
      gw_bind (gw_lift (parse_inbound (e_rj env) req (spec m))) (\<lambda>p.
        case request_error (e_rj env) req m p of
          Some payload \<Rightarrow> refuse 400 payload
        | None \<Rightarrow> serve fuel env \<lparr>cx_req = req, cx_matched = m, cx_start = start, cx_request_id = rid,
              cx_key_hash = kh, cx_fingerprint = fp, cx_parsed = p, cx_stream = streaming m p\<rparr> v)))
      (\<lambda>_. ended env req m) conforms s'" if "in_phase Idle s'" for s'
  proof (rule wp_bind_rule [OF cached_auth_version_phase [OF that]], goal_cases)
    case (1 v s1)
    have "wp (serve fuel env \<lparr>cx_req = req, cx_matched = m, cx_start = start, cx_request_id = rid,
              cx_key_hash = kh, cx_fingerprint = fp, cx_parsed = p, cx_stream = streaming m p\<rparr> v)
        (\<lambda>_. ended env req m) conforms s1" for p
      using serve_phase [OF 1, of fuel env "\<lparr>cx_req = req, cx_matched = m, cx_start = start, cx_request_id = rid,
              cx_key_hash = kh, cx_fingerprint = fp, cx_parsed = p, cx_stream = streaming m p\<rparr>" v] by simp
    with 1 show ?case by (auto simp: wp_simps split: sum.splits option.splits)
  qed simp
  show ?thesis
    using False assms tail
    by (simp add: authenticated_def)
      (rule wp_bind_rule [OF lookup_idempotency_phase [OF assms]], auto simp: wp_simps)
qed

lemma handle_phase:
  assumes "in_phase Idle s"
  shows "wp (handle fuel env req m) (\<lambda>_. ended env req m) conforms s"
  using assms by (auto simp: handle_def wp_simps Let_def intro!: authenticated_phase)

lemma ended_conforms: "ended env req m s \<Longrightarrow> phase s \<noteq> None"
  by (auto simp: ended_def)

text \<open>
  C2.  Every run of the handler, returning or stopped at any point, keeps the lease protocol: the
  sequence of its calls is a run of the automaton \<open>lease_step\<close>.
\<close>

theorem lease_protocol_kept:
  assumes "gs_log s = []"
  shows "phase_of (gs_log (snd (handle fuel env req m s))) \<noteq> None"
proof -
  have "in_phase Idle s" using assms by simp
  from handle_phase [OF this, of fuel env req m] show ?thesis
    by (auto simp: wp_def conforms_def dest: ended_conforms split: prod.splits sum.splits)
qed

theorem lease_protocol_kept_witness:
  "gs_log ex_state = [] \<and> phase_of (gs_log (snd (handle 2 ex_env ex_request ex_matched ex_state))) \<noteq> None"
  using lease_protocol_kept [OF ex_state_log] ex_state_log by blast

section \<open>What the protocol guarantees\<close>

definition settles :: "DispatchResult \<Rightarrow> gateway_call \<Rightarrow> bool" where
  "settles r c \<longleftrightarrow> settling c \<and> call_lease c = Some (dr_lease_token r) \<or>
     (case c of MediaCalled rq res \<Rightarrow> deferred_to r rq res | _ \<Rightarrow> False)"

text \<open>The lease that is not settled yet.\<close>

definition outstanding :: "lease_phase \<Rightarrow> DispatchResult option" where
  "outstanding p = (case p of Leased r \<Rightarrow> Some r | Cleared r \<Rightarrow> Some r | Answered r _ \<Rightarrow> Some r | _ \<Rightarrow> None)"

lemma lease_step_settles:
  assumes "lease_step p c = Some q" and "outstanding p = Some r"
  shows "outstanding q = Some r \<or> settles r c"
  using assms
  by (cases p; cases c)
    (auto simp: lease_step.simps outstanding_def settles_def own_lease_def deferred_to_def
      split: if_splits LeaseEvidenceStage.splits)

lemma granted_is_settled:
  assumes "phase_of (post @ Dispatched rq r # pre) = Some p" and "granted r"
  shows "outstanding p = Some r \<or> list_ex (settles r) post"
  using assms(1)
proof (induction post arbitrary: p)
  case Nil
  then obtain q where "lease_step q (Dispatched rq r) = Some p" by (auto split: option.splits)
  with assms(2) show ?case by (cases q) (auto simp: lease_step.simps outstanding_def split: if_splits)
next
  case (Cons c post)
  then obtain q where q: "phase_of (post @ Dispatched rq r # pre) = Some q" "lease_step q c = Some p"
    by (auto split: option.splits)
  from Cons.IH [OF q(1)] lease_step_settles [OF q(2)] show ?case by auto
qed

text \<open>
  C3.  When the handler returns, every lease it was granted was settled afterwards: aborted, recorded or
  reported as usage, or handed to a media operation that is still running.  The only exception is a
  lease whose request could not be converted to the provider's format.
\<close>

theorem leases_settled:
  assumes "gs_log s = []" and "handle fuel env req m s = (Inr (), s')"
    and "gs_log s' = post @ Dispatched rq r # pre" and "granted r"
  shows "list_ex (settles r) post \<or> conversion_failed env req m r"
proof -
  have "in_phase Idle s" using assms(1) by simp
  from wp_run [OF handle_phase [OF this] assms(2)] obtain p where p: "phase s' = Some p"
    "p = Idle \<or> (\<exists>r b. p = Over r b) \<or> (\<exists>r. p = Leased r \<and> conversion_failed env req m r)"
    by (auto simp: ended_def)
  from granted_is_settled [of post rq r pre p] p assms(3,4) show ?thesis
    by (auto simp: outstanding_def)
qed

theorem leases_settled_witness:
  "\<exists>s' post rq pre. handle 2 ex_env ex_request ex_matched ex_state = (Inr (), s') \<and>
     gs_log s' = post @ Dispatched rq ex_grant # pre \<and> granted ex_grant \<and>
     (list_ex (settles ex_grant) post \<or> conversion_failed ex_env ex_request ex_matched ex_grant)"
proof (rule ex_runs)
  fix s' rq rq2 fq er us d g
  assume run: "handle 2 ex_env ex_request ex_matched ex_state = (Inr (), s')"
    and l: "gs_log s' =
         [Dispatched rq2 ex_denial, Slept us, Aborted ''lease'' ''upstream_failure'' NoCharge 429 ack_ok, ErrorReported er, ClockRead 0,
          ForwardedTo ex_target fq ex_rejected, EvidenceSettled ''lease'' ''forwarded'',
          EvidenceSent ''lease'' Forwarded d ack_ok, EvidenceStored ''lease'' ''forwarded'', Dispatched rq ex_grant,
          ClockRead 0, GarnetRead g \<lparr>gr_found = False, gr_error = False, gr_value = []\<rparr>, ClockRead 0]"
  obtain post pre where split: "gs_log s' = post @ Dispatched rq ex_grant # pre"
    unfolding l by (metis append_Cons append_Nil)
  moreover have "granted ex_grant" by (simp add: granted_def)
  ultimately show ?thesis using leases_settled [OF ex_state_log run split] run by blast
qed

text \<open>The calls between the grant of a lease and its clearance.\<close>

lemma leased_origin:
  "phase_of l = Some (Leased r) \<Longrightarrow> \<exists>mid rq pre. l = mid @ Dispatched rq r # pre \<and> granted r"
proof (induction l)
  case (Cons c l)
  then obtain q where q: "phase_of l = Some q" "lease_step q c = Some (Leased r)" by (auto split: option.splits)
  show ?case
  proof (cases "q = Leased r")
    case True
    with Cons.IH q show ?thesis by (metis append_Cons)
  next
    case False
    with q(2) obtain rq where "c = Dispatched rq r \<and> granted r"
      by (cases q; cases c) (auto simp: lease_step.simps split: if_splits LeaseEvidenceStage.splits)
    then show ?thesis by (intro exI [of _ "[]"]) auto
  qed
qed simp

lemma cleared_by_evidence:
  "phase_of l = Some (Cleared r) \<Longrightarrow> \<exists>mid rq pre d a. l = mid @ Dispatched rq r # pre \<and> granted r \<and>
     EvidenceSent (dr_lease_token r) Forwarded d a \<in> set mid \<and> acknowledged a"
proof (induction l)
  case (Cons c l)
  then obtain q where q: "phase_of l = Some q" "lease_step q c = Some (Cleared r)" by (auto split: option.splits)
  show ?case
  proof (cases "q = Cleared r")
    case True
    with Cons.IH q show ?thesis by (metis append_Cons list.set_intros(2))
  next
    case False
    with q(2) obtain d a where "c = EvidenceSent (dr_lease_token r) Forwarded d a" "acknowledged a" "q = Leased r"
      by (cases q; cases c) (auto simp: lease_step.simps split: if_splits LeaseEvidenceStage.splits)
    with leased_origin [of l r] q(1) show ?thesis by (metis append_Cons list.set_intros(1))
  qed
qed simp

lemma phase_of_suffix: "phase_of (post @ l) \<noteq> None \<Longrightarrow> phase_of l \<noteq> None"
  by (induction post) (auto split: option.splits)

text \<open>
  C7.  A provider is called only with a lease: every forwarding goes to the provider of a granted
  dispatch, after the platform acknowledged the forwarding evidence for that lease.
\<close>

theorem forwarding_authorized:
  assumes "gs_log s = []" and "gs_log (snd (handle fuel env req m s)) = post @ ForwardedTo tg fq fr # l"
  shows "\<exists>mid rq r pre d a. l = mid @ Dispatched rq r # pre \<and> granted r \<and> tg = dr_upstream r \<and>
     EvidenceSent (dr_lease_token r) Forwarded d a \<in> set mid \<and> acknowledged a"
proof -
  have "in_phase Idle s" using assms(1) by simp
  from handle_phase [OF this, of fuel env req m] have "phase_of (post @ ForwardedTo tg fq fr # l) \<noteq> None"
    using assms(2) by (auto simp: wp_def conforms_def dest: ended_conforms split: prod.splits sum.splits)
  from phase_of_suffix [OF this] obtain p q where "phase_of l = Some p" "lease_step p (ForwardedTo tg fq fr) = Some q"
    by (auto split: option.splits)
  then obtain r where "phase_of l = Some (Cleared r)" "tg = dr_upstream r"
    by (cases p) (auto simp: lease_step.simps split: if_splits)
  with cleared_by_evidence show ?thesis by blast
qed

theorem forwarding_authorized_witness:
  "\<exists>post fq l. gs_log (snd (handle 2 ex_env ex_request ex_matched ex_state)) = post @ ForwardedTo ex_target fq ex_rejected # l \<and>
     (\<exists>mid rq r pre d a. l = mid @ Dispatched rq r # pre \<and> granted r \<and> ex_target = dr_upstream r \<and>
        EvidenceSent (dr_lease_token r) Forwarded d a \<in> set mid \<and> acknowledged a)"
proof (rule ex_runs)
  fix s' rq rq2 fq er us d g
  assume run: "handle 2 ex_env ex_request ex_matched ex_state = (Inr (), s')"
    and l: "gs_log s' =
         [Dispatched rq2 ex_denial, Slept us, Aborted ''lease'' ''upstream_failure'' NoCharge 429 ack_ok, ErrorReported er, ClockRead 0,
          ForwardedTo ex_target fq ex_rejected, EvidenceSettled ''lease'' ''forwarded'',
          EvidenceSent ''lease'' Forwarded d ack_ok, EvidenceStored ''lease'' ''forwarded'', Dispatched rq ex_grant,
          ClockRead 0, GarnetRead g \<lparr>gr_found = False, gr_error = False, gr_value = []\<rparr>, ClockRead 0]"
  obtain post k where split: "gs_log (snd (handle 2 ex_env ex_request ex_matched ex_state)) = post @ ForwardedTo ex_target fq ex_rejected # k"
    unfolding run snd_conv l by (metis append_Cons append_Nil)
  from forwarding_authorized [OF ex_state_log split] split show ?thesis by blast
qed

text \<open>All forwardings of a log, but the one that is being settled, could be repeated.\<close>

definition forwards_safe :: "gateway_call list \<Rightarrow> bool" where
  "forwards_safe l \<longleftrightarrow> (\<forall>tg rq fr. ForwardedTo tg rq fr \<in> set l \<longrightarrow> retry_safe fr)"

definition safe_so_far :: "lease_phase \<Rightarrow> gateway_call list \<Rightarrow> bool" where
  "safe_so_far p l \<longleftrightarrow> (case p of
       Answered r fr \<Rightarrow> retry_safe fr \<longrightarrow> forwards_safe l
     | Over r b \<Rightarrow> b \<longrightarrow> forwards_safe l
     | _ \<Rightarrow> forwards_safe l)"

lemma phase_safe_so_far: "phase_of l = Some p \<Longrightarrow> safe_so_far p l"
proof (induction l arbitrary: p)
  case Nil
  then show ?case by (auto simp: safe_so_far_def forwards_safe_def)
next
  case (Cons c l)
  then obtain q where q: "phase_of l = Some q" "lease_step q c = Some p" by (auto split: option.splits)
  from Cons.IH [OF q(1)] q(2) show ?case
    by (cases q; cases c)
      (auto simp: lease_step.simps safe_so_far_def forwards_safe_def split: if_splits LeaseEvidenceStage.splits)
qed

text \<open>
  C8.  The handler asks for another lease only when that cannot repeat an effect: every forwarding before
  a dispatch was rejected explicitly by its provider with a retryable status, and no byte of a response
  had been written to the client.
\<close>

theorem retry_only_when_safe:
  assumes "gs_log s = []" and "gs_log (snd (handle fuel env req m s)) = post @ Dispatched rq r # l"
    and "ForwardedTo tg fq fr \<in> set l"
  shows "retry_safe fr"
proof -
  have "in_phase Idle s" using assms(1) by simp
  from handle_phase [OF this, of fuel env req m] have "phase_of (post @ Dispatched rq r # l) \<noteq> None"
    using assms(2) by (auto simp: wp_def conforms_def dest: ended_conforms split: prod.splits sum.splits)
  from phase_of_suffix [OF this] obtain p q where p: "phase_of l = Some p" "lease_step p (Dispatched rq r) = Some q"
    by (auto split: option.splits)
  then have "p = Idle \<or> (\<exists>x. p = Over x True)"
    by (cases p) (auto simp: lease_step.simps split: if_splits)
  with phase_safe_so_far [OF p(1)] assms(3) show ?thesis by (auto simp: safe_so_far_def forwards_safe_def)
qed

theorem retry_only_when_safe_witness:
  "\<exists>post rq l fq. gs_log (snd (handle 2 ex_env ex_request ex_matched ex_state)) = post @ Dispatched rq ex_denial # l \<and>
     ForwardedTo ex_target fq ex_rejected \<in> set l \<and> retry_safe ex_rejected"
proof (rule ex_runs)
  fix s' rq rq2 fq er us d g
  assume run: "handle 2 ex_env ex_request ex_matched ex_state = (Inr (), s')"
    and l: "gs_log s' =
         [Dispatched rq2 ex_denial, Slept us, Aborted ''lease'' ''upstream_failure'' NoCharge 429 ack_ok, ErrorReported er, ClockRead 0,
          ForwardedTo ex_target fq ex_rejected, EvidenceSettled ''lease'' ''forwarded'',
          EvidenceSent ''lease'' Forwarded d ack_ok, EvidenceStored ''lease'' ''forwarded'', Dispatched rq ex_grant,
          ClockRead 0, GarnetRead g \<lparr>gr_found = False, gr_error = False, gr_value = []\<rparr>, ClockRead 0]"
  let ?l = "tl (gs_log s')"
  have split: "gs_log (snd (handle 2 ex_env ex_request ex_matched ex_state)) = [] @ Dispatched rq2 ex_denial # ?l"
    by (simp add: run l)
  have fwd: "ForwardedTo ex_target fq ex_rejected \<in> set ?l" by (simp add: l)
  from retry_only_when_safe [OF ex_state_log split fwd] split fwd show ?thesis by blast
qed

end
