(* ===== verification/Handler_Properties.thy ===== *)
theory Handler_Properties
  imports Lease_Protocol
begin

text \<open>
  Properties of the request handler that range over a whole request: the gauge of active connections
  (every request that returns leaves it where it was), the number of attempts (the deadline of the
  dispatch bounds it, on a steady clock), and the request identifiers of the retries (never reused).
  Each has a small calculus of its own, one rule per operation of \<open>gw\<close>: \<open>gauged\<close>, \<open>adds\<close> for what
  an operation adds to the log, \<open>bounded\<close> for how it can end.
\<close>

section \<open>The gauge of active connections\<close>

abbreviation gauge :: "gateway_state \<Rightarrow> 64 word" where
  "gauge s \<equiv> mt_active_connections (gs_metrics s)"

text \<open>\<open>gauged d m\<close>: the operation lowers the gauge by \<open>d\<close> of its result, when it returns.\<close>

definition gauged :: "('a \<Rightarrow> 64 word) \<Rightarrow> 'a gw \<Rightarrow> bool" where
  "gauged d m \<longleftrightarrow> (\<forall>s. wp m (\<lambda>a s'. gauge s' = gauge s - d a) (\<lambda>_ _. True) s)"

lemma gauged_bind:
  assumes "gauged d1 m" and "\<And>a. gauged (\<lambda>b. d b - d1 a) (f a)"
  shows "gauged d (gw_bind m f)"
  unfolding gauged_def
proof
  fix s
  show "wp (gw_bind m f) (\<lambda>a s'. gauge s' = gauge s - d a) (\<lambda>_ _. True) s"
  proof (rule wp_bind_rule)
    show "wp m (\<lambda>a s'. gauge s' = gauge s - d1 a) (\<lambda>_ _. True) s" using assms(1) by (simp add: gauged_def)
    show "wp (f a) (\<lambda>a s'. gauge s' = gauge s - d a) (\<lambda>_ _. True) s'" if "gauge s' = gauge s - d1 a" for a s'
    proof (rule wp_mono)
      show "wp (f a) (\<lambda>b s''. gauge s'' = gauge s' - (d b - d1 a)) (\<lambda>_ _. True) s'"
        using assms(2) by (simp add: gauged_def)
    qed (auto simp: that)
  qed simp
qed

lemma gauged_bind0: "gauged (\<lambda>_. 0) m \<Longrightarrow> (\<And>a. gauged d (f a)) \<Longrightarrow> gauged d (gw_bind m f)"
  by (rule gauged_bind) auto

lemma gauged_then: "gauged (\<lambda>_. d1) m \<Longrightarrow> gauged (\<lambda>b. d b - d1) n \<Longrightarrow> gauged d (gw_then m n)"
  unfolding gw_then_def by (rule gauged_bind)

lemma gauged_then0: "gauged (\<lambda>_. 0) m \<Longrightarrow> gauged d n \<Longrightarrow> gauged d (gw_then m n)"
  unfolding gw_then_def by (rule gauged_bind0)

text \<open>One unit when the request is answered.\<close>

abbreviation answered :: "'a option \<Rightarrow> 64 word" where
  "answered x \<equiv> (if x = None then 1 else 0)"

lemmas gauge_simps = gauged_def wp_simps Let_def

lemma gauged_basic:
  "gauged (\<lambda>_. 0) (now env)" "gauged (\<lambda>_. 0) (call_dispatch env rq)" "gauged (\<lambda>_. 0) (gw_lift r)"
  "gauged (\<lambda>_. 0) (crash_if_configured env point)" "gauged (\<lambda>_. 0) (sleep_us us)"
  by (auto simp: gauge_simps split: sum.splits)

lemma media_answer_gauged: "gauged (\<lambda>_. 0) (media_answer rj action r)"
  by (simp add: media_answer_def gauge_simps)

lemma media_control_gauged: "gauged (\<lambda>_. 1) (media_control env req m rid kh fp)"
  unfolding media_control_def Let_def
  by (intro gauged_bind0 gauged_then0 media_answer_gauged) (simp_all add: gauge_simps)

lemma lookup_idempotency_gauged: "gauged (\<lambda>b. if b then 1 else 0) (lookup_idempotency env req m rid kh fp)"
  by (simp add: lookup_idempotency_def gauge_simps)

lemma cached_auth_version_gauged: "gauged (\<lambda>_. 0) (cached_auth_version env kh)"
  by (simp add: cached_auth_version_def gauge_simps split: option.splits)

lemma note_streaming_gauged: "gauged (\<lambda>_. 0) (note_streaming cx)"
  by (simp add: note_streaming_def gauge_simps)

lemma transfer_body_gauged: "gauged answered (transfer_body env req)"
  by (simp add: transfer_body_def gauge_simps)

lemma note_auth_gauged: "gauged (\<lambda>_. 0) (note_auth kh r)"
  by (simp add: note_auth_def gauge_simps)

lemma reject_finally_gauged: "gauged (\<lambda>_. 1) (reject_finally rj r)"
  by (simp add: reject_finally_def gauge_simps add_header_def)

lemma rejected_dispatch_gauged: "gauged (\<lambda>_. 1) (rejected_dispatch env cx r)"
  by (simp add: rejected_dispatch_def reject_finally_def gauge_simps split: option.splits)

lemma acquire_lease_gauge:
  "gauge s = g \<Longrightarrow> wp (acquire_lease env cx deadline rq retries waits) (\<lambda>a s'. gauge s' = g - answered a) (\<lambda>_ _. True) s"
proof (induction env cx deadline rq retries waits arbitrary: s rule: acquire_lease.induct)
  case (1 env cx deadline rq retries waits)
  have rej: "wp (rejected_dispatch env cx r) (\<lambda>_ s'. gauge s' = gauge s - 1) (\<lambda>_ _. True) s" for r s
    using rejected_dispatch_gauged [of env cx r] by (simp add: gauged_def)
  have auth: "wp (note_auth (cx_key_hash cx) r) (\<lambda>_ s'. gauge s' = gauge s) (\<lambda>_ _. True) s" for r s
    using note_auth_gauged [of "cx_key_hash cx" r] by (simp add: gauged_def)
  show ?case
    using 1 wp_mono [OF rej] wp_mono [OF auth]
    by (subst acquire_lease.simps) (auto simp: wp_simps Let_def split: Outcome.splits)
qed

lemma acquire_lease_gauged: "gauged answered (acquire_lease env cx deadline rq retries waits)"
  using acquire_lease_gauge by (auto simp: gauged_def)

text \<open>An attempt leaves the gauge alone.\<close>

lemma authorize_forwarding_gauged: "gauged (\<lambda>_. 0) (authorize_forwarding env lease)"
  by (auto simp: authorize_forwarding_def gauge_simps split: sum.splits)

lemma call_forwarder_gauged: "gauged (\<lambda>_. 0) (call_forwarder env cx dr payload fmt)"
  by (auto simp: call_forwarder_def gauged_def wp_def Let_def split: sum.splits prod.splits forward_outcome.splits)

lemma note_output_gauged: "gauged (\<lambda>_. 0) (note_output env lease)"
  by (auto simp: note_output_def gauge_simps split: sum.splits)

lemma gauged_when: "gauged (\<lambda>_. 0) m \<Longrightarrow> gauged (\<lambda>_. 0) (gw_when b m)"
  by (simp add: gauge_simps)

lemma forward_once_gauged: "gauged (\<lambda>_. 0) (forward_once env cx dr payload fmt)"
  unfolding forward_once_def
  by (intro gauged_bind0 gauged_then0 call_forwarder_gauged gauged_when note_output_gauged gauged_basic)
    (simp add: gauge_simps)

lemma settle_gauged:
  "gauged (\<lambda>_. 0) (settle_cancelled env lease fr)" "gauged (\<lambda>_. 0) (settle_malformed env cx dr fr)"
  "gauged (\<lambda>_. 0) (settle_failure env cx dr fr fo)"
  by (simp_all add: settle_cancelled_def settle_malformed_def settle_failure_def gauge_simps)

lemma settle_attempt_gauged: "gauged (\<lambda>_. 0) (settle_attempt env cx fr st)"
  unfolding settle_attempt_def Let_def
  by (intro gauged_bind0 settle_gauged) (auto intro!: gauged_bind0 settle_gauged, auto simp: gauge_simps)

lemma attempt_gauged: "gauged (\<lambda>_. 0) (attempt env cx st)"
  unfolding attempt_def Let_def
  apply (intro gauged_then0 gauged_bind0 gauged_basic)
  apply (auto split: sum.splits intro!: gauged_bind0 authorize_forwarding_gauged forward_once_gauged settle_attempt_gauged)
  apply (simp_all add: gauge_simps)
  done

lemma attempts_gauged: "gauged answered (attempts fuel env cx deadline st)"
proof (induction fuel arbitrary: st)
  case (Suc fuel)
  show ?case
    unfolding attempts.simps
    apply (rule gauged_bind [OF acquire_lease_gauged])
    subgoal for x
      apply (cases x)
       apply (simp add: gauge_simps)
      using Suc.IH
      apply (auto intro!: gauged_bind0 attempt_gauged)
      apply (simp add: gauge_simps)
      done
    done
qed (simp add: gauge_simps)

lemma deliver_gauged:
  "gauged (\<lambda>_. 0) (withdraw_response env reason b ty msg st)"
  "gauged (\<lambda>_. 0) (convert_error_body env cx st)"
  by (simp_all add: withdraw_response_def convert_error_body_def gauge_simps)

lemma convert_response_body_gauged: "gauged (\<lambda>_. 0) (convert_response_body env cx st)"
  by (auto simp: convert_response_body_def withdraw_response_def gauge_simps split: sum.splits)

lemma check_response_gauged: "gauged (\<lambda>_. 0) (check_response env wanted check reason st)"
  by (auto simp: check_response_def withdraw_response_def gauge_simps split: sum.splits)

lemma deliver_body_gauged: "gauged (\<lambda>_. 0) (deliver_body env cx st)"
  unfolding deliver_body_def Let_def
  apply (auto intro!: gauged_then0 gauged_bind0 deliver_gauged convert_response_body_gauged check_response_gauged)
   apply (simp_all add: gauge_simps)
  done

lemma respond_gauged:
  "gauged (\<lambda>_. 0) (apply_response_policy env cx st)" "gauged (\<lambda>_. 0) (answer_malformed rj st)"
  "gauged (\<lambda>_. 0) (persist_media env cx st)" "gauged (\<lambda>_. 0) (release_control env cx st)"
  "gauged (\<lambda>_. 0) (settle_usage env cx st ov defer)" "gauged (\<lambda>_. 1) (finish_status a b st)"
  by (auto simp: apply_response_policy_def answer_malformed_def persist_media_def release_control_def settle_usage_def
      record_or_report_def finish_status_def withhold_def gauge_simps split: sum.splits ContentPolicyDisposition.splits)

lemma complete_gauged: "gauged (\<lambda>_. 1) (complete env cx st)"
  unfolding complete_def
  by (intro gauged_bind0 gauged_then0 deliver_body_gauged respond_gauged)
    (auto intro!: gauged_bind0 gauged_then0 respond_gauged)

lemma serve_gauged: "gauged (\<lambda>_. 1) (serve fuel env cx v)"
  unfolding serve_def
  apply (rule gauged_then0 [OF note_streaming_gauged])
  apply (rule gauged_bind [OF transfer_body_gauged])
  apply (auto split: option.splits)
    apply (simp add: gauge_simps)
  apply (rule gauged_bind0 [OF gauged_basic(1)])
  apply (rule gauged_bind [OF attempts_gauged])
  apply (auto split: option.splits intro: complete_gauged)
  apply (simp add: gauge_simps)
  done

lemma authenticated_gauged: "gauged (\<lambda>_. 1) (authenticated fuel env req m start rid kh fp)"
  unfolding authenticated_def
  apply (auto intro: media_control_gauged)
  apply (rule gauged_bind [OF lookup_idempotency_gauged])
  apply auto
   apply (simp add: gauge_simps)
  apply (intro gauged_bind0 cached_auth_version_gauged gauged_basic)
  apply (auto split: option.splits intro: serve_gauged)
  apply (simp add: gauge_simps)
  done

text \<open>
  C24.  A request that returns leaves the gauge of active connections as it found it, whatever path the
  handler took.
\<close>

theorem active_connections_balanced:
  assumes "handle fuel env req m s = (Inr (), s')"
  shows "mt_active_connections (gs_metrics s') = mt_active_connections (gs_metrics s)"
proof -
  have auth: "wp (authenticated fuel env req m start rid kh fp) (\<lambda>_ s1. gauge s1 = g) (\<lambda>_ _. True) s0"
    if "gauge s0 = g + 1" for start rid kh fp g s0
    using authenticated_gauged [of fuel env req m start rid kh fp, unfolded gauged_def, rule_format, of s0] that by simp
  have "wp (handle fuel env req m) (\<lambda>_ s'. gauge s' = gauge s) (\<lambda>_ _. True) s"
    by (auto simp: handle_def wp_simps Let_def intro!: auth)
  from wp_run [OF this assms] show ?thesis .
qed

theorem active_connections_balanced_witness:
  "\<exists>s'. handle 2 ex_env ex_request ex_matched ex_state = (Inr (), s') \<and>
     mt_active_connections (gs_metrics s') = mt_active_connections (gs_metrics ex_state)"
  using active_connections_balanced ex_runs by metis

section \<open>What the stretches of the handler add to the log\<close>

definition adds :: "(gateway_call \<Rightarrow> bool) \<Rightarrow> 'a gw \<Rightarrow> bool" where
  "adds P m \<longleftrightarrow> (\<forall>s. \<exists>new. gs_log (snd (m s)) = new @ gs_log s \<and> list_all P new)"

lemma adds_wp:
  "adds P m \<longleftrightarrow> (\<forall>s. wp m (\<lambda>_ s'. \<exists>new. gs_log s' = new @ gs_log s \<and> list_all P new)
     (\<lambda>_ s'. \<exists>new. gs_log s' = new @ gs_log s \<and> list_all P new) s)"
  by (auto simp: adds_def wp_def split: prod.splits sum.splits) (metis snd_conv sum.exhaust surj_pair)+

lemma adds_bind:
  assumes "adds P m" and "\<And>a. adds P (f a)"
  shows "adds P (gw_bind m f)"
  unfolding adds_wp
proof
  fix s
  show "wp (gw_bind m f) (\<lambda>_ s'. \<exists>new. gs_log s' = new @ gs_log s \<and> list_all P new)
     (\<lambda>_ s'. \<exists>new. gs_log s' = new @ gs_log s \<and> list_all P new) s"
  proof (rule wp_bind_rule [OF assms(1) [unfolded adds_wp, rule_format]])
    fix a and s' :: gateway_state
    assume "\<exists>new. gs_log s' = new @ gs_log s \<and> list_all P new"
    then obtain new where "gs_log s' = new @ gs_log s" "list_all P new" by blast
    then show "wp (f a) (\<lambda>_ s'. \<exists>new. gs_log s' = new @ gs_log s \<and> list_all P new)
         (\<lambda>_ s'. \<exists>new. gs_log s' = new @ gs_log s \<and> list_all P new) s'"
      by (intro wp_mono [OF assms(2) [unfolded adds_wp, rule_format]]) (metis append.assoc list_all_append)+
  qed
qed

lemma adds_then: "adds P m \<Longrightarrow> adds P n \<Longrightarrow> adds P (gw_then m n)"
  unfolding gw_then_def by (rule adds_bind)

lemma adds_when: "adds P m \<Longrightarrow> adds P (gw_when b m)"
  by (auto simp: gw_when_def adds_def gw_return_def)

lemma adds_nothing:
  "adds P (gw_return a)" "adds P (gw_halt h)" "adds P (gw_get f)" "adds P (gw_lift r)" "adds P (set_resp g)" "adds P (count g2)"
  "adds P (crash_if_configured env point)" "adds P (refuse code payload)"
  by (auto simp: adds_wp wp_simps Let_def split: sum.splits)

lemma adds_call: "P c \<Longrightarrow> adds P (enter c)" "(\<And>a. P (mk a)) \<Longrightarrow> adds P (ask ans mk)"
  by (auto simp: adds_wp wp_simps Let_def)

lemma adds_outbox: "P c \<Longrightarrow> adds P (outbox_call env f c)"
  by (auto simp: adds_wp wp_simps split: sum.splits)

lemma adds_store_usage: "P (UsageStored ev) \<Longrightarrow> P (UsageNotStored ev) \<Longrightarrow> adds P (store_usage env ev)"
  by (auto simp: adds_wp wp_simps split: sum.splits)

lemma adds_if: "(b \<Longrightarrow> adds P m) \<Longrightarrow> (\<not> b \<Longrightarrow> adds P n) \<Longrightarrow> adds P (if b then m else n)"
  by simp

lemma adds_option: "(x = None \<Longrightarrow> adds P m) \<Longrightarrow> (\<And>y. x = Some y \<Longrightarrow> adds P (f y)) \<Longrightarrow> adds P (case x of None \<Rightarrow> m | Some y \<Rightarrow> f y)"
  by (cases x) auto

lemma adds_sum: "(\<And>y. x = Inl y \<Longrightarrow> adds P (f y)) \<Longrightarrow> (\<And>y. x = Inr y \<Longrightarrow> adds P (g y)) \<Longrightarrow>
    adds P (case x of Inl y \<Rightarrow> f y | Inr y \<Rightarrow> g y)"
  by (cases x) auto

lemma adds_prod: "(\<And>a b. x = (a, b) \<Longrightarrow> adds P (f a b)) \<Longrightarrow> adds P (case x of (a, b) \<Rightarrow> f a b)"
  by (cases x) auto

lemma adds_disposition: "(d = Allow \<Longrightarrow> adds P m) \<Longrightarrow> (d = Block \<Longrightarrow> adds P n) \<Longrightarrow> (d = FailClosed \<Longrightarrow> adds P k) \<Longrightarrow>
    adds P (case d of Allow \<Rightarrow> m | Block \<Rightarrow> n | FailClosed \<Rightarrow> k)"
  by (cases d) auto

lemma adds_let: "adds P (f x) \<Longrightarrow> adds P (let y = x in f y)"
  by simp

lemmas adds_rules = adds_bind adds_then adds_when adds_nothing adds_call adds_outbox adds_store_usage adds_if adds_option
  adds_sum adds_prod adds_disposition

text \<open>The calls of the handler as questions and entries.\<close>

lemmas call_defs = now_def sleep_us_def call_garnet_def call_dispatch_def call_media_def call_upload_def
  call_evidence_def call_abort_def call_policy_def call_report_def report_error_def store_evidence_def
  settle_stored_evidence_def

lemma adds_call_forwarder:
  assumes "\<And>rq fr. P (ForwardedTo (dr_upstream dr) rq fr)"
  shows "adds P (call_forwarder env cx dr payload fmt)"
  using assms
  by (auto simp: adds_def call_forwarder_def Let_def split: sum.splits prod.splits forward_outcome.splits)

fun is_dispatch :: "gateway_call \<Rightarrow> bool" where
  "is_dispatch (Dispatched _ _) = True"
| "is_dispatch _ = False"

abbreviation other :: "gateway_call \<Rightarrow> bool" where
  "other c \<equiv> \<not> is_dispatch c"

lemma before_dispatch_other:
  "adds other (media_control env req m rid kh fp)"
  "adds other (lookup_idempotency env req m rid kh fp)"
  "adds other (cached_auth_version env kh)"
  "adds other (note_streaming cx)"
  "adds other (transfer_body env req)"
  "adds other (rejected_dispatch env cx r)"
  "adds other (note_auth kh r)"
  unfolding media_control_def media_answer_def lookup_idempotency_def cached_auth_version_def note_streaming_def
    transfer_body_def rejected_dispatch_def reject_finally_def Let_def call_defs
  by ((intro adds_rules; simp)+, simp add: note_auth_def adds_wp wp_simps)


lemma attempt_other:
  "adds other (authorize_forwarding env lease)"
  "adds other (forward_once env cx dr payload fmt)"
  "adds other (settle_cancelled env lease fr)"
  "adds other (settle_malformed env cx dr fr)"
  "adds other (settle_failure env cx dr fr fo)"
  unfolding authorize_forwarding_def forward_once_def note_output_def settle_cancelled_def settle_malformed_def
    settle_failure_def Let_def call_defs
  by (intro adds_rules adds_call_forwarder; simp)+

lemma settle_attempt_other: "adds other (settle_attempt env cx fr st)"
  unfolding settle_attempt_def Let_def sleep_us_def by (intro adds_rules attempt_other) simp

lemma attempt_adds_other: "adds other (attempt env cx st)"
  unfolding attempt_def Let_def by (intro adds_rules attempt_other settle_attempt_other)

lemma withdraw_other: "adds other (withdraw_response env reason b ty msg st)"
  unfolding withdraw_response_def call_defs by (intro adds_rules) simp

lemma complete_parts_other:
  "adds other (deliver_body env cx st)"
  "adds other (apply_response_policy env cx st)"
  "adds other (answer_malformed rj st)"
  "adds other (persist_media env cx st)"
  "adds other (release_control env cx st)"
  "adds other (settle_usage env cx st ov defer)"
  "adds other (finish_status a b st)"
  unfolding deliver_body_def convert_error_body_def convert_response_body_def check_response_def apply_response_policy_def
    withhold_def answer_malformed_def persist_media_def release_control_def settle_usage_def record_or_report_def
    finish_status_def Let_def call_defs
  by (intro adds_rules withdraw_other; simp)+

lemma complete_other: "adds other (complete env cx st)"
  unfolding complete_def by (intro adds_rules complete_parts_other)

section \<open>The number of attempts\<close>

text \<open>
  The steady clock: a reading is never before an earlier one, and the sleeps in between have passed.
\<close>

fun slept :: "gateway_call list \<Rightarrow> nat" where
  "slept [] = 0"
| "slept (Slept us # l) = us + slept l"
| "slept (c # l) = slept l"

definition steady_clock :: "gateway_env \<Rightarrow> bool" where
  "steady_clock env \<longleftrightarrow> (\<forall>mid t l. t + 1000 * int (slept mid) \<le> e_now env (mid @ ClockRead t # l))"

definition now_from :: "gateway_env \<Rightarrow> int \<Rightarrow> gateway_call list \<Rightarrow> bool" where
  "now_from env t l \<longleftrightarrow> (\<forall>mid. t + 1000 * int (slept mid) \<le> e_now env (mid @ l))"

lemma slept_append [simp]: "slept (a @ b) = slept a + slept b"
  by (induction a rule: slept.induct) auto

lemma now_from_grows: "now_from env t l \<Longrightarrow> now_from env (t + 1000 * int (slept new)) (new @ l)"
  unfolding now_from_def
proof
  fix mid
  assume "\<forall>mid. t + 1000 * int (slept mid) \<le> e_now env (mid @ l)"
  then have "t + 1000 * int (slept (mid @ new)) \<le> e_now env ((mid @ new) @ l)" by blast
  then show "t + 1000 * int (slept new) + 1000 * int (slept mid) \<le> e_now env (mid @ new @ l)" by simp
qed

lemma now_from_le: "now_from env t l \<Longrightarrow> u \<le> t \<Longrightarrow> now_from env u l"
  by (auto simp: now_from_def intro: order_trans [rotated])

lemma now_from_keeps: "now_from env t l \<Longrightarrow> now_from env t (new @ l)"
  by (rule now_from_le [OF now_from_grows [where new = new]]) auto

lemma now_from_adds:
  assumes "adds P m" and "now_from env t (gs_log s)"
  shows "wp m (\<lambda>_ s'. now_from env t (gs_log s')) (\<lambda>_ s'. now_from env t (gs_log s')) s"
  using assms(1) [unfolded adds_wp, rule_format, of s] assms(2)
  by (auto elim!: wp_mono intro: now_from_keeps)

text \<open>Operations that do not run out of attempts.\<close>

definition bounded :: "'a gw \<Rightarrow> bool" where
  "bounded m \<longleftrightarrow> (\<forall>s. fst (m s) \<noteq> Inl TooManyAttempts)"

lemma bounded_wp: "bounded m \<longleftrightarrow> (\<forall>s. wp m (\<lambda>_ _. True) (\<lambda>h _. h \<noteq> TooManyAttempts) s)"
proof -
  have "fst (m s) \<noteq> Inl TooManyAttempts \<longleftrightarrow> wp m (\<lambda>_ _. True) (\<lambda>h _. h \<noteq> TooManyAttempts) s" for s
    by (cases "m s") (auto simp: wp_def split: sum.splits)
  then show ?thesis by (simp add: bounded_def)
qed

lemma bounded_bind: "bounded m \<Longrightarrow> (\<And>a. bounded (f a)) \<Longrightarrow> bounded (gw_bind m f)"
  by (auto simp: bounded_wp intro: wp_bind_rule)

lemma bounded_then: "bounded m \<Longrightarrow> bounded n \<Longrightarrow> bounded (gw_then m n)"
  unfolding gw_then_def by (rule bounded_bind)

lemma bounded_when: "bounded m \<Longrightarrow> bounded (gw_when b m)"
  by (simp add: bounded_wp wp_simps)

lemma bounded_basic:
  "bounded (gw_return a)" "bounded (gw_get f)" "bounded (gw_lift r)" "bounded (set_resp g)" "bounded (count g2)"
  "bounded (crash_if_configured env point)" "bounded (refuse code payload)" "bounded (enter c)" "bounded (ask ans mk)"
  "bounded (outbox_call env g3 c)" "bounded (store_usage env ev)" "bounded (gw_update g4)"
  by (auto simp: bounded_wp wp_simps Let_def split: sum.splits)

lemma bounded_cases:
  "(b \<Longrightarrow> bounded m) \<Longrightarrow> (\<not> b \<Longrightarrow> bounded n) \<Longrightarrow> bounded (if b then m else n)"
  "bounded m \<Longrightarrow> (\<And>y. bounded (f y)) \<Longrightarrow> bounded (case x of None \<Rightarrow> m | Some y \<Rightarrow> f y)"
  "(\<And>y. bounded (f1 y)) \<Longrightarrow> (\<And>z. bounded (f2 z)) \<Longrightarrow> bounded (case u of Inl y \<Rightarrow> f1 y | Inr z \<Rightarrow> f2 z)"
  "(\<And>y z. bounded (f3 y z)) \<Longrightarrow> bounded (case v of (y, z) \<Rightarrow> f3 y z)"
  "bounded m1 \<Longrightarrow> bounded m2 \<Longrightarrow> bounded m3 \<Longrightarrow> bounded (case d of Allow \<Rightarrow> m1 | Block \<Rightarrow> m2 | FailClosed \<Rightarrow> m3)"
  by (simp_all split: option.splits sum.splits prod.splits ContentPolicyDisposition.splits)

lemma bounded_call_forwarder: "bounded (call_forwarder env cx dr payload fmt)"
  by (auto simp: bounded_def call_forwarder_def Let_def split: sum.splits prod.splits forward_outcome.splits)

lemmas bounded_rules = bounded_bind bounded_then bounded_when bounded_basic bounded_cases bounded_call_forwarder

lemma attempt_parts_bounded:
  "bounded (authorize_forwarding env lease)"
  "bounded (forward_once env cx dr payload fmt)"
  "bounded (settle_cancelled env lease fr)"
  "bounded (settle_malformed env cx dr fr)"
  unfolding authorize_forwarding_def forward_once_def note_output_def settle_cancelled_def settle_malformed_def call_defs
  by (intro bounded_rules)+

lemma before_dispatch_bounded:
  "bounded (media_control env req m rid kh fp)"
  "bounded (lookup_idempotency env req m rid kh fp)"
  "bounded (cached_auth_version env kh)"
  "bounded (note_streaming cx)"
  "bounded (transfer_body env req)"
  "bounded (rejected_dispatch env cx r)"
  "bounded (note_auth kh r)"
  unfolding media_control_def media_answer_def lookup_idempotency_def cached_auth_version_def note_streaming_def
    transfer_body_def rejected_dispatch_def reject_finally_def note_auth_def Let_def call_defs
  by (intro bounded_rules)+

lemma complete_bounded: "bounded (complete env cx st)"
  unfolding complete_def deliver_body_def convert_error_body_def convert_response_body_def check_response_def
    apply_response_policy_def withhold_def answer_malformed_def persist_media_def release_control_def settle_usage_def
    record_or_report_def finish_status_def withdraw_response_def Let_def call_defs
  by (intro bounded_rules)

lemma acquire_lease_bounded: "bounded (acquire_lease env cx deadline rq retries waits)"
proof (induction env cx deadline rq retries waits rule: acquire_lease.induct)
  case (1 env cx deadline rq retries waits)
  then show ?case
    by (subst acquire_lease.simps)
      (auto simp: Let_def call_defs split: Outcome.splits intro!: bounded_rules before_dispatch_bounded)
qed

text \<open>The dispatches of one attempt all carry the same request.\<close>

fun dispatches :: "DispatchRequest \<Rightarrow> gateway_call \<Rightarrow> bool" where
  "dispatches rq (Dispatched rq' _) = (rq' = rq)"
| "dispatches rq _ = True"

lemma adds_weaken: "adds P m \<Longrightarrow> (\<And>c. P c \<Longrightarrow> P' c) \<Longrightarrow> adds P' m"
  unfolding adds_def list_all_iff by meson

lemma other_dispatches: "adds other m \<Longrightarrow> adds (dispatches rq) m"
proof (erule adds_weaken)
  show "other c \<Longrightarrow> dispatches rq c" for c by (cases c) auto
qed

lemma acquire_lease_adds: "adds (dispatches rq) (acquire_lease env cx deadline rq retries waits)"
proof (induction env cx deadline rq retries waits rule: acquire_lease.induct)
  case (1 env cx deadline rq retries waits)
  then show ?case
    by (subst acquire_lease.simps)
      (auto simp: Let_def call_defs split: Outcome.splits
        intro!: adds_bind adds_then adds_nothing adds_call other_dispatches [OF before_dispatch_other(6)]
          other_dispatches [OF before_dispatch_other(7)])
qed

lemma now_from_bounded:
  assumes "adds P m" and "bounded m" and "now_from env t (gs_log s)"
  shows "wp m (\<lambda>_ s'. now_from env t (gs_log s')) (\<lambda>h _. h \<noteq> TooManyAttempts) s"
  using wp_conj [OF now_from_adds [OF assms(1,3)] assms(2) [unfolded bounded_wp, rule_format, of s]]
  by (rule wp_mono) auto

text \<open>After \<open>k\<close> retries at least \<open>k\<close> times 300 milliseconds have passed.\<close>

abbreviation passed :: "gateway_env \<Rightarrow> request_ctx \<Rightarrow> nat \<Rightarrow> gateway_state \<Rightarrow> bool" where
  "passed env cx k s \<equiv> now_from env (cx_start cx + 300000000 * int k) (gs_log s)"

lemma handle_error_switches: "0 \<le> switch_count fo \<Longrightarrow> 0 \<le> switch_count (snd (handle_error a c fo))"
  by (simp add: handle_error_def give_up_account_def mark_failed_def Let_def)

lemma retry_delay_at_least:
  assumes "0 \<le> switch_count fo"
  shows "300000 \<le> retry_delay_us fo"
proof -
  obtain d where d: "compute_delay default_retry_policy (switch_count fo) = Some d"
    "unat d = min (300 * 2 ^ nat (min (switch_count fo) 10)) 3000"
    using compute_delay_exact [of default_retry_policy "switch_count fo"] assms by (auto simp: default_retry_policy_def)
  have "1 \<le> (2::nat) ^ nat (min (switch_count fo) 10)" by simp
  then have "300 \<le> unat d" unfolding d(2) by (simp only: min_def) (auto split: if_splits)
  with d(1) show ?thesis by (simp add: retry_delay_us_def)
qed

lemma clock_after: "now_from env t l \<Longrightarrow> t \<le> e_now env l"
  using now_from_def [of env t l] by (auto dest: spec [of _ "[]"])

lemma settle_failure_time:
  assumes t: "passed env cx k s" and sw: "0 \<le> switch_count fo"
  shows "wp (settle_failure env cx dr fr fo)
     (\<lambda>(again, fo') s'. passed env cx k s' \<and> 0 \<le> switch_count fo' \<and> (again \<longrightarrow> k \<le> 33)) (\<lambda>_ _. False) s"
proof -
  have late: "to_ms (e_now env (gs_log s) - cx_start cx) < 10000 \<Longrightarrow> k \<le> 33"
    using clock_after [OF t] by (auto simp: to_ms_def split: if_splits)
  have grown: "now_from env (cx_start cx + 300000000 * int k) (a # b # c # gs_log s)"
    "now_from env (cx_start cx + 300000000 * int k) (a # b # gs_log s)" for a b c
    using now_from_keeps [OF t, of "[a, b, c]"] now_from_keeps [OF t, of "[a, b]"] by simp_all
  show ?thesis
    using late grown sw handle_error_switches [OF sw]
    by (auto simp: settle_failure_def wp_simps Let_def default_retry_policy_def)
qed

definition after_retry :: "gateway_env \<Rightarrow> request_ctx \<Rightarrow> nat \<Rightarrow> bool \<times> attempt_state \<Rightarrow> gateway_state \<Rightarrow> bool" where
  "after_retry env cx k x s \<longleftrightarrow>
     (fst x \<longrightarrow> passed env cx (Suc k) s \<and> k \<le> 33 \<and> 0 \<le> switch_count (at_failover (snd x)))"

lemma after_retry_stop [simp]: "after_retry env cx k (False, st) s"
  by (simp add: after_retry_def)

lemma settle_attempt_time:
  assumes t: "passed env cx k s" and sw: "0 \<le> switch_count (at_failover st)"
  shows "wp (settle_attempt env cx fr st)
     (after_retry env cx k) (\<lambda>h _. h \<noteq> TooManyAttempts) s"
proof -
  have sleep: "now_from env (cx_start cx + (300000000 + 300000000 * int k)) (Slept (retry_delay_us fo) # gs_log s')"
    if "passed env cx k s'" "0 \<le> switch_count fo" for s' :: gateway_state and fo
  proof -
    have "now_from env (cx_start cx + 300000000 * int k + 1000 * int (retry_delay_us fo)) ([Slept (retry_delay_us fo)] @ gs_log s')"
      using now_from_grows [OF that(1), of "[Slept (retry_delay_us fo)]"] by simp
    from now_from_le [OF this, of "cx_start cx + (300000000 + 300000000 * int k)"] retry_delay_at_least [OF that(2)]
    show ?thesis by simp
  qed
  show ?thesis
    unfolding settle_attempt_def Let_def
    apply (rule wp_bind_rule [OF now_from_bounded [OF attempt_other(3) attempt_parts_bounded(3) t]])
     apply (rule wp_bind_rule [OF now_from_bounded [OF attempt_other(4) attempt_parts_bounded(4)]], assumption)
      apply (auto simp: wp_simps)
    apply (rule wp_mono [OF settle_failure_time [OF _ sw]])
    apply (auto simp: wp_simps sleep next_attempt_def after_retry_def)
    done
qed

lemma attempt_time:
  assumes t: "passed env cx k s" and sw: "0 \<le> switch_count (at_failover st)"
  shows "wp (attempt env cx st)
     (after_retry env cx k) (\<lambda>h _. h \<noteq> TooManyAttempts) s"
proof -
  have forwarded: "wp (gw_bind (forward_once env cx dr payload fmt) (\<lambda>fr. settle_attempt env cx fr st')) (after_retry env cx k) (\<lambda>h _. h \<noteq> TooManyAttempts) s'"
    if "passed env cx k s'" "0 \<le> switch_count (at_failover st')" for dr payload fmt st' s'
    by (rule wp_bind_rule [OF now_from_bounded [OF attempt_other(2) attempt_parts_bounded(2) that(1)]])
      (auto intro: settle_attempt_time that(2))
  show ?thesis
    unfolding attempt_def Let_def
    apply (rule wp_then_rule [OF now_from_bounded [OF adds_nothing(7) bounded_basic(6) t]])
     apply (rule wp_bind_rule [OF now_from_bounded [OF adds_nothing(4) bounded_basic(3)]], assumption)
    subgoal for s1 b s2
      apply (cases b)
       apply (simp add: wp_simps)
      apply simp
      apply (rule wp_bind_rule [OF now_from_bounded [OF attempt_other(1) attempt_parts_bounded(1)]], assumption)
       apply (auto simp: wp_simps intro!: forwarded [unfolded wp_bind] sw)
      done
      apply simp_all
    done
qed

lemma attempts_time:
  "passed env cx k s \<Longrightarrow> 0 \<le> switch_count (at_failover st) \<Longrightarrow> k \<le> 34 \<Longrightarrow> 35 \<le> fuel + k \<Longrightarrow>
     wp (attempts fuel env cx deadline st) (\<lambda>_ _. True) (\<lambda>h _. h \<noteq> TooManyAttempts) s"
proof (induction fuel arbitrary: k s st)
  case (Suc fuel)
  show ?case
    unfolding attempts.simps
    apply (rule wp_bind_rule [OF now_from_bounded [OF acquire_lease_adds acquire_lease_bounded Suc.prems(1)]])
    subgoal for x s1
      apply (cases x)
       apply (simp add: wp_simps)
      apply (auto simp: wp_bind)
      apply (rule wp_mono [OF attempt_time])
         apply assumption
        apply (simp add: Suc.prems)
       using Suc.prems(4) by (auto simp: wp_simps after_retry_def intro!: Suc.IH [where k = "Suc k"])
    apply simp
    done
qed simp

lemma serve_time:
  assumes "passed env cx 0 s" and "35 \<le> fuel"
  shows "wp (serve fuel env cx v) (\<lambda>_ _. True) (\<lambda>h _. h \<noteq> TooManyAttempts) s"
proof -
  have tail: "wp (gw_bind (now env) (\<lambda>t.
         gw_bind (attempts fuel env cx (t + kDispatchDeadline) (first_attempt env cx v bt)) (\<lambda>y.
           case y of None \<Rightarrow> gw_return () | Some st \<Rightarrow> complete env cx st)))
      (\<lambda>_ _. True) (\<lambda>h _. h \<noteq> TooManyAttempts) s'" if "passed env cx 0 s'" for bt s'
  proof (rule wp_bind_rule [OF now_from_bounded [OF _ _ that]])
    show "adds (\<lambda>_. True) (now env)" "bounded (now env)"
      by (auto simp: now_def intro!: adds_call bounded_basic)
    fix t s1
    assume s1: "passed env cx 0 s1"
    show "wp (gw_bind (attempts fuel env cx (t + kDispatchDeadline) (first_attempt env cx v bt)) (\<lambda>y.
           case y of None \<Rightarrow> gw_return () | Some st \<Rightarrow> complete env cx st)) (\<lambda>_ _. True) (\<lambda>h _. h \<noteq> TooManyAttempts) s1"
      using complete_bounded assms(2)
      by (intro wp_bind_rule [OF attempts_time [OF s1]])
        (auto simp: first_attempt_def default_failover_def new_failover_def wp_simps bounded_wp split: option.splits)
  qed simp
  show ?thesis
    unfolding serve_def
    apply (rule wp_then_rule [OF now_from_bounded [OF before_dispatch_other(4) before_dispatch_bounded(4) assms(1)]])
     apply (rule wp_bind_rule [OF now_from_bounded [OF before_dispatch_other(5) before_dispatch_bounded(5)]], assumption)
    subgoal for s1 x s2 using tail by (cases x) (auto simp: wp_simps)
     apply simp_all
    done
qed

lemma authenticated_time:
  assumes "now_from env start (gs_log s)" and "35 \<le> fuel"
  shows "wp (authenticated fuel env req m start rid kh fp) (\<lambda>_ _. True) (\<lambda>h _. h \<noteq> TooManyAttempts) s"
proof (cases "media_control_operation (operation m)")
  case True
  then show ?thesis
    using before_dispatch_bounded(1) by (simp add: authenticated_def bounded_wp)
next
  case False
  have last: "wp (gw_bind (gw_lift (parse_inbound (e_rj env) req (spec m))) (\<lambda>p.
        case request_error (e_rj env) req m p of
          Some payload \<Rightarrow> refuse 400 payload
        | None \<Rightarrow> serve fuel env \<lparr>cx_req = req, cx_matched = m, cx_start = start, cx_request_id = rid,
              cx_key_hash = kh, cx_fingerprint = fp, cx_parsed = p, cx_stream = streaming m p\<rparr> v))
      (\<lambda>_ _. True) (\<lambda>h _. h \<noteq> TooManyAttempts) s'" if "now_from env start (gs_log s')" for v s'
    using that assms(2) by (auto simp: wp_simps split: sum.splits option.splits intro!: serve_time)
  show ?thesis
    unfolding authenticated_def
    using False
    apply simp
    apply (rule wp_bind_rule [OF now_from_bounded [OF before_dispatch_other(2) before_dispatch_bounded(2) assms(1)]])
    subgoal for b s1
      apply (cases b)
       apply (simp add: wp_simps)
      apply simp
      apply (rule wp_bind_rule [OF now_from_bounded [OF before_dispatch_other(3) before_dispatch_bounded(3)]], assumption)
       apply (auto intro: last)
      done
    apply simp
    done
qed

lemma handle_time:
  assumes "steady_clock env" and "35 \<le> fuel"
  shows "wp (handle fuel env req m) (\<lambda>_ _. True) (\<lambda>h _. h \<noteq> TooManyAttempts) s"
proof -
  have "now_from env t (ClockRead t # l)" for t l
    using assms(1) by (simp add: now_from_def steady_clock_def)
  then show ?thesis
    using assms(2) by (auto simp: handle_def wp_simps Let_def intro!: authenticated_time)
qed

text \<open>
  C22.  The retry loop ends: with a steady clock on which sleeps take their time, the time limit of ten
  seconds and the delays between attempts bound the number of forwardings, so that 35 attempts are
  enough for every request.
\<close>

theorem attempts_suffice:
  assumes "steady_clock env" and "35 \<le> fuel"
  shows "fst (handle fuel env req m s) \<noteq> Inl TooManyAttempts"
  using handle_time [OF assms, of req m s] by (auto simp: wp_def split: prod.splits sum.splits)

text \<open>A clock that advances with the sleeps.\<close>

fun sleep_clock :: "gateway_call list \<Rightarrow> int" where
  "sleep_clock [] = 0"
| "sleep_clock (ClockRead t # l) = max t (sleep_clock l)"
| "sleep_clock (Slept us # l) = sleep_clock l + 1000 * int us"
| "sleep_clock (c # l) = sleep_clock l"

lemma sleep_clock_steady: "t + 1000 * int (slept mid) \<le> sleep_clock (mid @ ClockRead t # l)"
  by (induction mid rule: sleep_clock.induct) auto

theorem attempts_suffice_witness:
  "steady_clock (ex_env\<lparr>e_now := sleep_clock\<rparr>) \<and>
     fst (handle 35 (ex_env\<lparr>e_now := sleep_clock\<rparr>) ex_request ex_matched ex_state) \<noteq> Inl TooManyAttempts"
proof
  show clock: "steady_clock (ex_env\<lparr>e_now := sleep_clock\<rparr>)"
    using sleep_clock_steady by (simp add: steady_clock_def)
  show "fst (handle 35 (ex_env\<lparr>e_now := sleep_clock\<rparr>) ex_request ex_matched ex_state) \<noteq> Inl TooManyAttempts"
    by (rule attempts_suffice [OF clock]) simp
qed

section \<open>The identifiers of the attempts\<close>

text \<open>No dispatch repeats the request identifier of an earlier granted one.\<close>

definition granted_ids :: "gateway_call list \<Rightarrow> string set" where
  "granted_ids l = {dq_request_id rq | rq r. Dispatched rq r \<in> set l \<and> granted r}"

fun fresh_ids :: "gateway_call list \<Rightarrow> bool" where
  "fresh_ids [] = True"
| "fresh_ids (Dispatched rq r # l) = (dq_request_id rq \<notin> granted_ids l \<and> fresh_ids l)"
| "fresh_ids (c # l) = fresh_ids l"

definition same_key :: "string \<Rightarrow> gateway_call \<Rightarrow> bool" where
  "same_key k c \<longleftrightarrow> (case c of Dispatched rq _ \<Rightarrow> dq_idempotency_key rq = k | _ \<Rightarrow> True)"

lemma fresh_ids_other: "list_all other new \<Longrightarrow> fresh_ids (new @ l) = fresh_ids l \<and> granted_ids (new @ l) = granted_ids l"
proof (induction new)
  case (Cons c new)
  then show ?case by (cases c) (auto simp: granted_ids_def)
qed simp

definition attempt_id :: "request_ctx \<Rightarrow> nat \<Rightarrow> string" where
  "attempt_id cx n = (if n = 0 then cx_request_id cx else cx_request_id cx @ '':retry:'' @ to_string n)"

lemma attempt_id_inj: "attempt_id cx a = attempt_id cx b \<Longrightarrow> a = b"
  by (auto simp: attempt_id_def to_string_inj split: if_splits)

text \<open>A log in which the identifiers are fresh and those of the granted dispatches lie in a set.\<close>

definition ids_in :: "string set \<Rightarrow> gateway_call list \<Rightarrow> bool" where
  "ids_in S l \<longleftrightarrow> fresh_ids l \<and> granted_ids l \<subseteq> S"

lemma ids_in_Cons [simp]:
  "ids_in S (Slept us # l) = ids_in S l"
  "ids_in S (ClockRead t # l) = ids_in S l"
  "ids_in S (MediaCalled rq res # l) = ids_in S l"
  by (simp_all add: ids_in_def granted_ids_def)

lemma ids_in_Dispatched:
  "ids_in S l \<Longrightarrow> dq_request_id rq \<notin> S \<Longrightarrow> \<not> granted r \<Longrightarrow> ids_in S (Dispatched rq r # l)"
  "ids_in S l \<Longrightarrow> dq_request_id rq \<notin> S \<Longrightarrow> ids_in (insert (dq_request_id rq) S) (Dispatched rq r # l)"
  by (auto simp: ids_in_def granted_ids_def)

lemma ids_in_adds:
  assumes "adds other m" and "ids_in S (gs_log s)"
  shows "wp m (\<lambda>_ s'. ids_in S (gs_log s')) (\<lambda>_ s'. ids_in S (gs_log s')) s"
  using assms(1) [unfolded adds_wp, rule_format, of s] assms(2) fresh_ids_other
  by (auto simp: ids_in_def elim!: wp_mono)

definition lease_ids :: "string set \<Rightarrow> string \<Rightarrow> 'a option \<Rightarrow> gateway_call list \<Rightarrow> bool" where
  "lease_ids S i x l \<longleftrightarrow> ids_in (case x of None \<Rightarrow> S | Some _ \<Rightarrow> insert i S) l"

lemma lease_ids_simps [simp]: "lease_ids S i None l = ids_in S l" "lease_ids S i (Some y) l = ids_in (insert i S) l"
  by (simp_all add: lease_ids_def)

lemma acquire_lease_ids:
  "ids_in S (gs_log s) \<Longrightarrow> dq_request_id rq \<notin> S \<Longrightarrow>
     wp (acquire_lease env cx deadline rq retries waits)
       (\<lambda>x s'. lease_ids S (dq_request_id rq) x (gs_log s')) (\<lambda>_ _. False) s"
proof (induction env cx deadline rq retries waits arbitrary: s rule: acquire_lease.induct)
  case (1 env cx deadline rq retries waits)
  have rej: "ids_in S (gs_log s) \<Longrightarrow> wp (rejected_dispatch env cx r) (\<lambda>_ s'. ids_in S (gs_log s')) (\<lambda>_ _. False) s"
    for r and s :: gateway_state
    by (auto simp: rejected_dispatch_def reject_finally_def wp_simps Let_def split: option.splits)
  show ?case
    using "1.prems" "1.IH" wp_mono [OF rej] wp_mono [OF note_auth_log]
    by (subst acquire_lease.simps)
      (auto simp: wp_simps Let_def granted_def ids_in_Dispatched split: Outcome.splits)
qed

lemma wp_any: "wp m (\<lambda>_ _. True) (\<lambda>_ _. True) s"
  by (simp add: wp_def split: prod.splits sum.splits)

definition next_id :: "request_ctx \<Rightarrow> attempt_state \<Rightarrow> bool \<times> attempt_state \<Rightarrow> bool" where
  "next_id cx st x \<longleftrightarrow> (fst x \<longrightarrow> at_sequence (snd x) = Suc (at_sequence st)
     \<and> dq_request_id (at_request (snd x)) = attempt_id cx (Suc (at_sequence st))
     \<and> dq_idempotency_key (at_request (snd x)) = dq_idempotency_key (at_request st))"

lemma next_id_simps [simp]: "next_id cx st (False, st')"
  by (simp add: next_id_def)

lemma settle_attempt_next_id: "wp (settle_attempt env cx fr st) (\<lambda>x _. next_id cx st x) (\<lambda>_ _. True) s"
proof -
  have last: "wp (gw_bind (settle_failure env cx dr fr' fo) (\<lambda>(again, fo).
         if again
         then gw_then (count (\<lambda>m. m\<lparr>mt_failovers := mt_failovers m + 1\<rparr>))
              (gw_then (sleep_us (retry_delay_us fo)) (gw_return (True, next_attempt cx fo st1)))
         else gw_return (False, st1\<lparr>at_failover := fo, at_aborted := True\<rparr>))) (\<lambda>x _. next_id cx st x) (\<lambda>_ _. True) s'"
    if "at_sequence st1 = at_sequence st" "at_request st1 = at_request st" for dr fr' fo st1 s'
    using that by (intro wp_bind_rule [OF wp_any]) (auto simp: wp_simps next_id_def next_attempt_def attempt_id_def)
  show ?thesis
    unfolding settle_attempt_def Let_def
    by (intro wp_bind_rule [OF wp_any]) (auto simp: wp_simps intro!: last [unfolded wp_bind])
qed

lemma attempt_next_id: "wp (attempt env cx st) (\<lambda>x _. next_id cx st x) (\<lambda>_ _. True) s"
proof -
  have same: "next_id cx (st\<lparr>at_format := f\<rparr>) x = next_id cx st x" for f x
    by (simp add: next_id_def)
  have fwd: "wp (gw_bind (forward_once env cx dr payload fmt) (\<lambda>fr. settle_attempt env cx fr (st\<lparr>at_format := f\<rparr>)))
      (\<lambda>x _. next_id cx st x) (\<lambda>_ _. True) s'" for dr payload fmt f s'
    using settle_attempt_next_id [where st = "st\<lparr>at_format := f\<rparr>" and cx = cx]
    by (intro wp_bind_rule [OF wp_any]) (auto simp: same)
  show ?thesis
    unfolding attempt_def Let_def
    apply (rule wp_then_rule [OF wp_any])
     apply (rule wp_bind_rule [OF wp_any])
    subgoal for s1 b s2
      apply (cases b)
       apply (simp add: wp_simps)
      apply simp
      apply (rule wp_bind_rule [OF wp_any])
       apply (auto simp: wp_simps intro!: fwd [unfolded wp_bind])
      done
    apply simp_all
    done
qed

abbreviation ids_before :: "request_ctx \<Rightarrow> nat \<Rightarrow> string set" where
  "ids_before cx n \<equiv> attempt_id cx ` {..<n}"

lemma ids_before_Suc: "insert (attempt_id cx n) (ids_before cx n) = ids_before cx (Suc n)"
  by (auto simp: lessThan_Suc)

lemma ids_in_fresh: "ids_in S l \<Longrightarrow> fresh_ids l"
  by (simp add: ids_in_def)

lemma attempts_ids:
  "ids_in (ids_before cx (at_sequence st)) (gs_log s) \<Longrightarrow> dq_request_id (at_request st) = attempt_id cx (at_sequence st) \<Longrightarrow>
     wp (attempts fuel env cx deadline st) (\<lambda>_ s'. fresh_ids (gs_log s')) (\<lambda>_ s'. fresh_ids (gs_log s')) s"
proof (induction fuel arbitrary: s st)
  case 0
  then show ?case by (simp add: wp_simps ids_in_def)
next
  case (Suc fuel)
  let ?n = "at_sequence st"
  have new: "dq_request_id (at_request st) \<notin> ids_before cx ?n"
    using Suc.prems(2) by (auto dest: attempt_id_inj)
  show ?case
    unfolding attempts.simps
  proof (rule wp_bind_rule [OF acquire_lease_ids [OF Suc.prems(1) new]])
    fix x :: "(DispatchResult \<times> nat \<times> nat) option" and s1 :: gateway_state
    assume x: "lease_ids (ids_before cx ?n) (dq_request_id (at_request st)) x (gs_log s1)"
    show "wp (case x of None \<Rightarrow> gw_return None
         | Some (dr, retries, waits) \<Rightarrow>
             gw_bind (attempt env cx (st\<lparr>at_dispatch := dr, at_retries := retries, at_waits := waits\<rparr>)) (\<lambda>(again, st1).
               if again then attempts fuel env cx deadline st1 else gw_return (Some st1)))
       (\<lambda>_ s'. fresh_ids (gs_log s')) (\<lambda>_ s'. fresh_ids (gs_log s')) s1"
    proof (cases x)
      case None
      with x show ?thesis by (simp add: wp_simps ids_in_def)
    next
      case (Some y)
      obtain dr retries waits where y: "y = (dr, retries, waits)" by (cases y)
      let ?st = "st\<lparr>at_dispatch := dr, at_retries := retries, at_waits := waits\<rparr>"
      have ids: "ids_in (ids_before cx (Suc ?n)) (gs_log s1)"
        using x Some Suc.prems(2) by (simp flip: ids_before_Suc)
      have "wp (gw_bind (attempt env cx ?st) (\<lambda>(again, st1).
               if again then attempts fuel env cx deadline st1 else gw_return (Some st1)))
         (\<lambda>_ s'. fresh_ids (gs_log s')) (\<lambda>_ s'. fresh_ids (gs_log s')) s1"
        by (rule wp_bind_rule [OF wp_conj [OF ids_in_adds [OF attempt_adds_other ids] attempt_next_id]])
          (auto simp: wp_simps next_id_def ids_in_fresh intro!: Suc.IH)
      then show ?thesis using Some y by simp
    qed
  qed simp
qed


lemma serve_ids:
  assumes "ids_in {} (gs_log s)"
  shows "wp (serve fuel env cx v) (\<lambda>_ s'. fresh_ids (gs_log s')) (\<lambda>_ s'. fresh_ids (gs_log s')) s"
proof -
  have rest: "wp (complete env cx st) (\<lambda>_ s'. fresh_ids (gs_log s')) (\<lambda>_ s'. fresh_ids (gs_log s')) s'"
    if "fresh_ids (gs_log s')" for st and s' :: gateway_state
    using ids_in_adds [OF complete_other [of env cx st], of UNIV s'] that
    by (auto simp: ids_in_def)
  have tail: "wp (gw_bind (now env) (\<lambda>t.
         gw_bind (attempts fuel env cx (t + kDispatchDeadline) (first_attempt env cx v bt)) (\<lambda>y.
           case y of None \<Rightarrow> gw_return () | Some st \<Rightarrow> complete env cx st)))
      (\<lambda>_ s'. fresh_ids (gs_log s')) (\<lambda>_ s'. fresh_ids (gs_log s')) s'" if "ids_in {} (gs_log s')" for bt s'
  proof (rule wp_bind_rule [where R = "\<lambda>_ s'. ids_in {} (gs_log s')" and E' = "\<lambda>_ s'. fresh_ids (gs_log s')"], goal_cases)
    case (2 t s1)
    then show ?case
      by (intro wp_bind_rule [OF attempts_ids])
        (auto simp: first_attempt_def dispatch_request_def Let_def attempt_id_def wp_simps split: option.splits intro: rest)
  qed (use that in \<open>auto simp: wp_simps Let_def\<close>)
  show ?thesis
    unfolding serve_def
    apply (rule wp_then_rule [OF ids_in_adds [OF before_dispatch_other(4) assms]])
     apply (rule wp_bind_rule [OF ids_in_adds [OF before_dispatch_other(5)]], assumption)
    subgoal for s1 x s2 using tail by (cases x) (auto simp: wp_simps ids_in_fresh)
     apply (simp_all add: ids_in_fresh)
    done
qed

lemma authenticated_ids:
  assumes "ids_in {} (gs_log s)"
  shows "wp (authenticated fuel env req m start rid kh fp) (\<lambda>_ s'. fresh_ids (gs_log s')) (\<lambda>_ s'. fresh_ids (gs_log s')) s"
proof (cases "media_control_operation (operation m)")
  case True
  then show ?thesis
    by (simp add: authenticated_def)
      (rule wp_mono [OF ids_in_adds [OF before_dispatch_other(1) assms]], auto simp: ids_in_fresh)
next
  case False
  show ?thesis
    unfolding authenticated_def
    using False
    apply simp
    apply (rule wp_bind_rule [OF ids_in_adds [OF before_dispatch_other(2) assms]])
    subgoal for b s1
      apply (cases b)
       apply (simp add: wp_simps ids_in_fresh)
      apply simp
      apply (rule wp_bind_rule [OF ids_in_adds [OF before_dispatch_other(3)]], assumption)
       apply (auto simp: wp_simps ids_in_fresh split: sum.splits option.splits intro!: serve_ids)
      done
    apply (simp add: ids_in_fresh)
    done
qed

lemma handle_ids:
  assumes "gs_log s = []"
  shows "fresh_ids (gs_log (snd (handle fuel env req m s)))"
proof -
  have "ids_in {} (gs_log s)" using assms by (simp add: ids_in_def granted_ids_def)
  then have "wp (handle fuel env req m) (\<lambda>_ s'. fresh_ids (gs_log s')) (\<lambda>_ s'. fresh_ids (gs_log s')) s"
    by (auto simp: handle_def wp_simps Let_def ids_in_fresh intro!: authenticated_ids)
  then show ?thesis by (auto simp: wp_def split: prod.splits sum.splits)
qed

lemma fresh_ids_split:
  "fresh_ids (post @ Dispatched rq r # mid @ Dispatched rq' r' # pre) \<Longrightarrow> granted r' \<Longrightarrow> dq_request_id rq \<noteq> dq_request_id rq'"
proof (induction post)
  case Nil
  then show ?case by (auto simp: granted_ids_def)
next
  case (Cons c post)
  then show ?case by (cases c) auto
qed

text \<open>
  C23.  After a granted lease, every further dispatch of the request carries a new request identifier, so
  that the platform never takes a retry for the attempt before it.
\<close>

theorem retry_ids_fresh:
  assumes "gs_log s = []"
    and "gs_log (snd (handle fuel env req m s)) = post @ Dispatched rq r # mid @ Dispatched rq' r' # pre"
    and "granted r'"
  shows "dq_request_id rq \<noteq> dq_request_id rq'"
  using handle_ids [OF assms(1), of fuel env req m] assms(2,3) fresh_ids_split by metis

theorem retry_ids_fresh_witness:
  "\<exists>post rq mid rq' pre. gs_log (snd (handle 2 ex_env ex_request ex_matched ex_state)) =
       post @ Dispatched rq ex_denial # mid @ Dispatched rq' ex_grant # pre \<and> granted ex_grant \<and> dq_request_id rq \<noteq> dq_request_id rq'"
proof (rule ex_runs)
  fix s' rq rq2 fq er us d g
  assume run: "handle 2 ex_env ex_request ex_matched ex_state = (Inr (), s')"
    and l: "gs_log s' =
         [Dispatched rq2 ex_denial, Slept us, Aborted ''lease'' ''upstream_failure'' NoCharge 429 ack_ok, ErrorReported er, ClockRead 0,
          ForwardedTo ex_target fq ex_rejected, EvidenceSettled ''lease'' ''forwarded'',
          EvidenceSent ''lease'' Forwarded d ack_ok, EvidenceStored ''lease'' ''forwarded'', Dispatched rq ex_grant,
          ClockRead 0, GarnetRead g \<lparr>gr_found = False, gr_error = False, gr_value = []\<rparr>, ClockRead 0]"
  let ?mid = "take 8 (tl (gs_log s'))" and ?pre = "drop 10 (gs_log s')"
  have split: "gs_log (snd (handle 2 ex_env ex_request ex_matched ex_state)) =
      [] @ Dispatched rq2 ex_denial # ?mid @ Dispatched rq ex_grant # ?pre"
    by (simp add: run l)
  have g: "granted ex_grant" by (simp add: granted_def)
  from retry_ids_fresh [OF ex_state_log split g] split g show ?thesis by blast
qed

end
