(* ===== verification/Handler_Policy.thy ===== *)
theory Handler_Policy
  imports Handler_Properties
begin

text \<open>
  The content policy on the way from the provider to the client: a body that reaches the client of a
  chat request with a success was cleared by the policy, or is an answer of the platform.  The proof
  follows the body of the response through the stretches of the handler; the status of every failed
  forwarding is an error because the forwarder shows its failures.
\<close>

section \<open>The content policy\<close>

definition cleared :: "gateway_call list \<Rightarrow> string \<Rightarrow> bool" where
  "cleared l b \<longleftrightarrow> (\<exists>lease cap p. PolicyAsked lease b cap p \<in> set l \<and> content_policy_disposition p = Allow)"

text \<open>An answer the platform gave: a stored response, or the state of a media operation.\<close>

definition platform_answer :: "rapidjson \<Rightarrow> gateway_call list \<Rightarrow> string \<Rightarrow> bool" where
  "platform_answer rj l b \<longleftrightarrow> (\<exists>rq r. Dispatched rq r \<in> set l \<and> b = dr_replay_body r)
     \<or> (\<exists>rq r. MediaCalled rq r \<in> set l \<and> mr_accepted r \<and> b = media_view_json rj r)"

abbreviation resp_body :: "gateway_state \<Rightarrow> string" where
  "resp_body s \<equiv> rs_body (gs_resp s)"

definition body_vetted :: "rapidjson \<Rightarrow> gateway_state \<Rightarrow> bool" where
  "body_vetted rj s \<longleftrightarrow> (200 \<le> rs_status_code (gs_resp s) \<and> rs_status_code (gs_resp s) < 400 \<longrightarrow>
     resp_body s = [] \<or> cleared (gs_log s) (resp_body s) \<or> platform_answer rj (gs_log s) (resp_body s))"

definition vetted_or :: "rapidjson \<Rightarrow> string \<Rightarrow> 'a option \<Rightarrow> gateway_state \<Rightarrow> bool" where
  "vetted_or rj b x s \<longleftrightarrow> (case x of None \<Rightarrow> body_vetted rj s | Some _ \<Rightarrow> resp_body s = b)"

lemma vetted_or_None [simp]: "vetted_or rj b None s = body_vetted rj s"
  by (simp add: vetted_or_def)

definition body_is :: "string \<Rightarrow> gateway_state \<Rightarrow> bool" where
  "body_is b s \<longleftrightarrow> resp_body s = b"

lemma body_is_frame [simp]:
  "body_is b (s\<lparr>gs_log := l\<rparr>) = body_is b s" "body_is b (s\<lparr>gs_metrics := mt\<rparr>) = body_is b s"
  "body_is b (s\<lparr>gs_collector := col\<rparr>) = body_is b s" "body_is b (s\<lparr>gs_markers := ms\<rparr>) = body_is b s"
  by (simp_all add: body_is_def)

lemma vetted_or_body [simp]: "vetted_or rj b (Some y) s = body_is b s"
  by (simp add: vetted_or_def body_is_def)

lemma vetted_error: "400 \<le> rs_status_code (gs_resp s) \<Longrightarrow> body_vetted rj s"
  by (simp add: body_vetted_def)

lemma reject_status_error: "400 \<le> reject_status c"
  by (simp add: reject_status_def)

lemma vetted_metrics [simp]: "body_vetted rj (s\<lparr>gs_metrics := mt\<rparr>) = body_vetted rj s"
  by (simp add: body_vetted_def)

lemma platform_answerI:
  "Dispatched rq r \<in> set l \<Longrightarrow> platform_answer rj l (dr_replay_body r)"
  "MediaCalled rq' r' \<in> set l \<Longrightarrow> mr_accepted r' \<Longrightarrow> platform_answer rj l (media_view_json rj r')"
  by (auto simp: platform_answer_def)

lemma transfer_body_vetted: "body_is b s \<Longrightarrow> wp (transfer_body env req) (vetted_or rj b) (\<lambda>_ _. True) s"
  by (auto simp: body_is_def transfer_body_def wp_simps Let_def intro!: vetted_error)

lemma reject_finally_vetted:
  "Dispatched rq r \<in> set (gs_log s) \<Longrightarrow> wp (reject_finally rj r) (\<lambda>_. body_vetted rj) (\<lambda>_ _. True) s"
  using reject_status_error [of "dr_reject_code r"]
  by (auto simp: reject_finally_def wp_simps add_header_def body_vetted_def intro!: platform_answerI)

lemma rejected_dispatch_vetted:
  "Dispatched rq r \<in> set (gs_log s) \<Longrightarrow> wp (rejected_dispatch env cx r) (\<lambda>_. body_vetted (e_rj env)) (\<lambda>_ _. True) s"
  by (auto simp: rejected_dispatch_def wp_simps add_header_def body_vetted_def media_replay_def Let_def intro!: platform_answerI
        reject_finally_vetted split: option.splits)

lemma note_auth_body: "wp (note_auth kh r) (\<lambda>_ s'. gs_resp s' = gs_resp s \<and> gs_log s' = gs_log s) (\<lambda>_ _. True) s"
  by (auto simp: note_auth_def wp_simps)

lemma acquire_lease_vetted:
  "body_is b s \<Longrightarrow>
     wp (acquire_lease env cx deadline rq retries waits) (vetted_or (e_rj env) b) (\<lambda>_ _. True) s"
proof (induction env cx deadline rq retries waits arbitrary: s rule: acquire_lease.induct)
  case (1 env cx deadline rq retries waits)
  let ?r = "e_dispatch env (gs_log s) rq"
  show ?case
  proof (cases "granted ?r")
    case True
    then show ?thesis
      using "1.prems" wp_mono [OF note_auth_body]
      by (subst acquire_lease.simps) (auto simp: wp_simps Let_def granted_def body_is_def)
  next
    case False
    then show ?thesis
      using "1.prems" "1.IH"
      by (subst acquire_lease.simps)
        (auto simp: wp_simps Let_def granted_def body_is_def vetted_error intro!: wp_mono [OF rejected_dispatch_vetted]
          split: Outcome.splits)
  qed
qed

text \<open>A forward result that was received, and that shows its failures.\<close>

definition received :: "string \<Rightarrow> ForwardResult \<Rightarrow> gateway_state \<Rightarrow> bool" where
  "received b fr s \<longleftrightarrow> body_is b s \<and> failure_visible fr
     \<and> (\<exists>tg rq. ForwardedTo tg rq fr \<in> set (gs_log s))"

definition settled_result :: "string \<Rightarrow> attempt_state \<Rightarrow> gateway_state \<Rightarrow> bool" where
  "settled_result b st s \<longleftrightarrow> body_is b s
     \<and> (if at_aborted st then 400 \<le> fr_status_code (at_forward st)
        else \<not> fr_malformed_usage (at_forward st)
          \<and> (\<exists>tg rq. ForwardedTo tg rq (at_forward st) \<in> set (gs_log s)))"

definition attempt_result :: "string \<Rightarrow> bool \<times> attempt_state \<Rightarrow> gateway_state \<Rightarrow> bool" where
  "attempt_result b x s \<longleftrightarrow> (if fst x then body_is b s \<and> \<not> at_aborted (snd x) else settled_result b (snd x) s)"

lemma start_responses_body [simp]: "rs_body (fold (start_response cx) hs p) = rs_body p"
  by (induction hs arbitrary: p) (auto simp: start_response_def split: prod.splits)

lemma call_forwarder_received:
  "body_is b s \<Longrightarrow> wp (call_forwarder env cx dr payload fmt) (received b) (\<lambda>_ _. True) s"
  by (auto simp: call_forwarder_def wp_def Let_def received_def body_is_def split: sum.splits prod.splits forward_outcome.splits
      intro: forward_failure_visible)

lemma note_output_received: "received b fr s \<Longrightarrow> wp (note_output env lease) (\<lambda>_. received b fr) (\<lambda>_ _. True) s"
  by (auto simp: note_output_def wp_simps Let_def received_def body_is_def split: sum.splits)

lemma forward_once_received:
  assumes "body_is b s"
  shows "wp (forward_once env cx dr payload fmt) (received b) (\<lambda>_ _. True) s"
proof -
  have rest: "wp (gw_then (gw_when (fr_output_started fr) (note_output env (dr_lease_token dr)))
       (gw_then (crash_if_configured env ''gateway.after_provider_completion'') (gw_return fr)))
       (received b) (\<lambda>_ _. True) s'" if "received b fr s'" for fr s'
    using that wp_mono [OF note_output_received [OF that]]
    by (auto simp: wp_simps Let_def received_def body_is_def)
  show ?thesis
    unfolding forward_once_def by (rule wp_bind_rule [OF call_forwarder_received [OF assms] rest]) auto
qed

lemma authorize_forwarding_body:
  "body_is b s \<Longrightarrow> wp (authorize_forwarding env lease) (\<lambda>_ s'. body_is b s') (\<lambda>_ _. True) s"
  by (auto simp: authorize_forwarding_def wp_simps Let_def body_is_def split: sum.splits)

lemma settle_cancelled_received:
  "received b fr s \<Longrightarrow> wp (settle_cancelled env lease fr) (\<lambda>c s'. received b fr s' \<and> (c \<longrightarrow> 400 \<le> fr_status_code fr)) (\<lambda>_ _. True) s"
  by (auto simp: settle_cancelled_def wp_simps Let_def received_def body_is_def failure_visible_def)

lemma settle_malformed_received:
  "received b fr s \<Longrightarrow> wp (settle_malformed env cx dr fr)
     (\<lambda>fr' s'. received b fr s' \<and> fr' = (if fr_malformed_usage fr then fr\<lparr>fr_status_code := 502\<rparr> else fr)) (\<lambda>_ _. True) s"
  by (auto simp: settle_malformed_def wp_simps Let_def received_def body_is_def)

lemma settle_failure_received:
  "received b fr s \<Longrightarrow> wp (settle_failure env cx dr fr fo) (\<lambda>_. received b fr) (\<lambda>_ _. True) s"
  by (auto simp: settle_failure_def wp_simps Let_def received_def body_is_def)

lemma settle_attempt_result:
  assumes "received b fr s" and "\<not> at_aborted st"
  shows "wp (settle_attempt env cx fr st) (attempt_result b) (\<lambda>_ _. True) s"
  unfolding settle_attempt_def Let_def
proof (rule wp_bind_rule [OF settle_cancelled_received [OF assms(1)]])
  fix c and s' :: gateway_state
  assume c: "received b fr s' \<and> (c \<longrightarrow> 400 \<le> fr_status_code fr)"
  let ?st = "\<lambda>fr'. st\<lparr>at_forward := fr', at_aborted := at_aborted st \<or> c \<or> fr_malformed_usage fr\<rparr>"
  have fail: "wp (gw_bind (settle_failure env cx (at_dispatch st) fr fo) (\<lambda>(again, fo).
       if again then gw_then (count (\<lambda>m. m\<lparr>mt_failovers := mt_failovers m + 1\<rparr>))
                       (gw_then (sleep_us (retry_delay_us fo)) (gw_return (True, next_attempt cx fo (?st fr))))
       else gw_return (False, (?st fr)\<lparr>at_failover := fo, at_aborted := True\<rparr>)))
     (attempt_result b) (\<lambda>_ _. True) s''"
    if "received b fr s''" "400 \<le> fr_status_code fr" "\<not> c" "\<not> fr_malformed_usage fr" for fo s''
    by (rule wp_bind_rule [OF settle_failure_received [OF that(1)]])
      (use that assms(2) in \<open>auto simp: wp_simps attempt_result_def settled_result_def received_def body_is_def next_attempt_def\<close>)
  show "wp (gw_bind (settle_malformed env cx (at_dispatch st) fr) (\<lambda>fr'.
       if fr_status_code fr' \<ge> 400 \<and> \<not> fr_malformed_usage fr \<and> \<not> (at_aborted st \<or> c \<or> fr_malformed_usage fr)
       then gw_bind (settle_failure env cx (at_dispatch st) fr' (at_failover (?st fr'))) (\<lambda>(again, fo).
              if again then gw_then (count (\<lambda>m. m\<lparr>mt_failovers := mt_failovers m + 1\<rparr>))
                              (gw_then (sleep_us (retry_delay_us fo)) (gw_return (True, next_attempt cx fo (?st fr'))))
              else gw_return (False, (?st fr')\<lparr>at_failover := fo, at_aborted := True\<rparr>))
       else gw_return (False, ?st fr')))
     (attempt_result b) (\<lambda>_ _. True) s'"
    by (rule wp_bind_rule [OF settle_malformed_received [OF conjunct1 [OF c]]])
      (use c fail assms(2) in \<open>auto simp: wp_simps attempt_result_def settled_result_def received_def body_is_def\<close>)
qed simp

lemma attempt_vetted:
  assumes "body_is b s" and "\<not> at_aborted st"
  shows "wp (attempt env cx st) (attempt_result b) (\<lambda>_ _. True) s"
proof -
  let ?fmt = "provider_format (dr_upstream (at_dispatch st))"
  let ?st = "st\<lparr>at_format := ?fmt\<rparr>"
  have send: "wp (gw_bind (forward_once env cx (at_dispatch st) payload ?fmt) (\<lambda>fr. settle_attempt env cx fr ?st))
     (attempt_result b) (\<lambda>_ _. True) s'" if "body_is b s'" for payload s'
    by (rule wp_bind_rule [OF forward_once_received [OF that]]) (use assms(2) in \<open>auto intro: settle_attempt_result\<close>)
  have go: "wp (gw_bind (authorize_forwarding env (dr_lease_token (at_dispatch st))) (\<lambda>ok.
       if \<not> ok then gw_then (count one_more_failed) (gw_return (False, stopped_with 503 (fixed_error ''platform_unavailable''
                      ''Unable to persist Provider dispatch evidence'') ?st))
       else gw_bind (forward_once env cx (at_dispatch st) payload ?fmt) (\<lambda>fr. settle_attempt env cx fr ?st)))
     (attempt_result b) (\<lambda>_ _. True) s'" if "body_is b s'" for payload s'
    by (rule wp_bind_rule [OF authorize_forwarding_body [OF that]])
      (simp_all add: send wp_then wp_count wp_return attempt_result_def settled_result_def stopped_with_def)
  show ?thesis
    using assms(1) unfolding attempt_def
    by (auto simp: Let_def wp_then wp_crash wp_bind wp_lift wp_count wp_return attempt_result_def settled_result_def stopped_with_def
        intro!: go [unfolded wp_bind] split: sum.splits)
qed

definition loop_result :: "rapidjson \<Rightarrow> string \<Rightarrow> attempt_state option \<Rightarrow> gateway_state \<Rightarrow> bool" where
  "loop_result rj b x s \<longleftrightarrow> (case x of None \<Rightarrow> body_vetted rj s | Some st \<Rightarrow> settled_result b st s)"

lemma loop_result_simps [simp]:
  "loop_result rj b None s = body_vetted rj s" "loop_result rj b (Some st) s = settled_result b st s"
  by (simp_all add: loop_result_def)

lemma attempts_vetted:
  "body_is b s \<Longrightarrow> \<not> at_aborted st \<Longrightarrow>
     wp (attempts fuel env cx deadline st) (loop_result (e_rj env) b) (\<lambda>_ _. True) s"
proof (induction fuel arbitrary: st s)
  case 0
  then show ?case by (simp add: wp_simps)
next
  case (Suc fuel)
  have next_round: "wp (case x of (again, st1) \<Rightarrow> if again then attempts fuel env cx deadline st1 else gw_return (Some st1))
      (loop_result (e_rj env) b) (\<lambda>_ _. True) s'" if "attempt_result b x s'" for x s'
    using that Suc.IH by (cases x) (auto simp: attempt_result_def wp_return)
  have one: "wp (gw_bind (attempt env cx (st\<lparr>at_dispatch := dr, at_retries := retries, at_waits := waits\<rparr>)) (\<lambda>(again, st1).
         if again then attempts fuel env cx deadline st1 else gw_return (Some st1)))
      (loop_result (e_rj env) b) (\<lambda>_ _. True) s'" if "body_is b s'" for dr retries waits s'
    by (rule wp_bind_rule [OF attempt_vetted [OF that] next_round]) (use Suc.prems in auto)
  show ?case
    unfolding attempts.simps
    by (rule wp_bind_rule [OF acquire_lease_vetted [OF Suc.prems(1)]])
      (auto simp: wp_return one split: option.split)
qed

text \<open>The check of a response of the provider that goes to the client as a whole.\<close>

lemma withdraw_response_error:
  "wp (withdraw_response env reason set_type ty msg st)
     (\<lambda>st' s'. at_aborted st' \<and> 400 \<le> fr_status_code (at_forward st')) (\<lambda>_ _. True) s"
  by (auto simp: withdraw_response_def wp_simps Let_def)

text \<open>After the delivery: an error, or the result as it was received.\<close>

definition deliverable :: "attempt_state \<Rightarrow> gateway_call list \<Rightarrow> attempt_state \<Rightarrow> gateway_state \<Rightarrow> bool" where
  "deliverable st l st' s \<longleftrightarrow> 400 \<le> fr_status_code (at_forward st') \<or> st' = st \<and> gs_log s = l"

lemma withdraw_response_deliverable:
  "wp (withdraw_response env reason set_type ty msg st1) (deliverable st l) (\<lambda>_ _. True) s"
  by (rule wp_mono [OF withdraw_response_error]) (auto simp: deliverable_def)

lemma convert_error_body_log: "wp (convert_error_body env cx st) (\<lambda>_ s'. gs_log s' = gs_log s) (\<lambda>_ _. True) s"
  by (auto simp: convert_error_body_def wp_simps Let_def)

lemma convert_response_deliverable:
  "gs_log s = l \<Longrightarrow> wp (convert_response_body env cx st) (deliverable st l) (\<lambda>_ _. True) s"
  by (auto simp: convert_response_body_def wp_simps Let_def deliverable_def
      intro!: withdraw_response_deliverable split: sum.splits)

lemma check_response_deliverable:
  "deliverable st l st1 s \<Longrightarrow> wp (check_response env wanted check reason st1) (deliverable st l) (\<lambda>_ _. True) s"
  by (auto simp: check_response_def wp_simps intro!: withdraw_response_deliverable split: sum.splits)

lemma deliver_body_deliverable:
  "wp (deliver_body env cx st) (deliverable st (gs_log s)) (\<lambda>_ _. True) s"
proof -
  let ?D = "deliverable st (gs_log s)"
  have checks: "wp (gw_bind (convert_response_body env cx st) (\<lambda>st1. gw_bind (check_response env w1 c1 r1 st1)
      (\<lambda>st2. gw_bind (check_response env w2 c2 r2 st2) (\<lambda>st3. check_response env w3 c3 r3 st3)))) ?D (\<lambda>_ _. True) s'"
    if "gs_log s' = gs_log s" for w1 c1 r1 w2 c2 r2 w3 c3 r3 s'
    by (intro wp_bind_rule [OF convert_response_deliverable [OF that]] wp_bind_rule [OF check_response_deliverable]
        check_response_deliverable) auto
  show ?thesis
    unfolding deliver_body_def Let_def
    by (auto simp: wp_return wp_then wp_set_resp deliverable_def intro!: wp_mono [OF convert_error_body_log]
        checks)
qed

text \<open>What is left of the answer after the policy.\<close>

definition final_status :: "ForwardResult \<Rightarrow> int" where
  "final_status fr = (if fr_status_code fr > 0 then fr_status_code fr else 200)"

definition answered_as :: "attempt_state \<Rightarrow> bool \<Rightarrow> gateway_state \<Rightarrow> gateway_state \<Rightarrow> bool" where
  "answered_as st overridden s s' \<longleftrightarrow>
     (\<not> overridden \<longrightarrow> rs_status_code (gs_resp s') = final_status (at_forward st)) \<and>
     (\<not> fr_malformed_usage (at_forward st) \<longrightarrow> resp_body s' = resp_body s
        \<and> (overridden \<longrightarrow> rs_status_code (gs_resp s') = rs_status_code (gs_resp s))) \<and>
     set (gs_log s) \<subseteq> set (gs_log s')"

definition same_answer :: "gateway_state \<Rightarrow> gateway_state \<Rightarrow> bool" where
  "same_answer s s' \<longleftrightarrow> gs_resp s' = gs_resp s \<and> set (gs_log s) \<subseteq> set (gs_log s')"

lemma same_answer_log: "same_answer s0 s \<Longrightarrow> same_answer s0 (s\<lparr>gs_log := c # gs_log s\<rparr>)"
  by (auto simp: same_answer_def)

lemma cleared_mono: "cleared l b \<Longrightarrow> set l \<subseteq> set l' \<Longrightarrow> cleared l' b"
  by (auto simp: cleared_def)

lemma release_control_answer:
  "wp (release_control env cx st) (\<lambda>st' s'. at_forward st' = at_forward st \<and> same_answer s s') (\<lambda>_ _. True) s"
  by (auto simp: release_control_def wp_simps Let_def same_answer_def)

lemma record_or_report_answer: "same_answer s0 s \<Longrightarrow> wp (record_or_report env ev) (\<lambda>_. same_answer s0) (\<lambda>_ _. True) s"
  by (auto simp: record_or_report_def wp_simps Let_def same_answer_def split: sum.splits)

lemma settle_usage_answer: "same_answer s0 s \<Longrightarrow> wp (settle_usage env cx st mo d) (\<lambda>_. same_answer s0) (\<lambda>_ _. True) s"
  unfolding settle_usage_def now_def wp_bind wp_ask wp_get wp_when Let_def
  by (auto intro: record_or_report_answer same_answer_log)

lemma complete_tail_answers:
  assumes "\<not> persistent_create (operation (cx_matched cx))"
  shows "wp (gw_then (answer_malformed (e_rj env) st)
     (gw_bind (persist_media env cx st) (\<lambda>(media_overridden, defer, st2).
      gw_bind (release_control env cx st2) (\<lambda>st3.
      gw_then (settle_usage env cx st3 media_overridden defer)
        (finish_status media_overridden overridden st3))))) (\<lambda>_. answered_as st overridden s) (\<lambda>_ _. True) s"
proof -
  have fin: "wp (gw_then (settle_usage env cx st3 False False) (finish_status False overridden st3))
      (\<lambda>_. answered_as st overridden s) (\<lambda>_ _. True) s2"
    if "same_answer s1 s2" "at_forward st3 = at_forward st" "set (gs_log s) \<subseteq> set (gs_log s1)"
      "\<not> fr_malformed_usage (at_forward st) \<longrightarrow> gs_resp s1 = gs_resp s" for s1 s2 st3
    by (rule wp_then_rule [OF settle_usage_answer [OF that(1)]])
      (use that in \<open>auto simp: finish_status_def wp_simps same_answer_def answered_as_def final_status_def\<close>)
  have rel: "wp (gw_bind (release_control env cx st) (\<lambda>st3. gw_then (settle_usage env cx st3 False False) (finish_status False overridden st3)))
      (\<lambda>_. answered_as st overridden s) (\<lambda>_ _. True) s1"
    if "set (gs_log s) \<subseteq> set (gs_log s1)" "\<not> fr_malformed_usage (at_forward st) \<longrightarrow> gs_resp s1 = gs_resp s" for s1
    by (rule wp_bind_rule [OF release_control_answer fin]) (use that in auto)
  show ?thesis
    using assms by (simp add: answer_malformed_def persist_media_def wp_then wp_when wp_set_resp wp_return wp_bind [of "gw_return _"] rel)
qed

lemma apply_response_policy_chat:
  assumes "chat_capability (cx_cap cx)" and "\<not> cx_stream cx"
  shows "wp (apply_response_policy env cx st) (\<lambda>over s'.
       set (gs_log s) \<subseteq> set (gs_log s') \<and>
       (if over then 400 \<le> rs_status_code (gs_resp s') \<and> \<not> fr_malformed_usage (at_forward st)
        else resp_body s' = resp_body s \<and>
          (at_aborted st \<or> fr_malformed_usage (at_forward st) \<or> \<not> ok_status (at_forward st) \<or> resp_body s = []
           \<or> cleared (gs_log s') (resp_body s)))) (\<lambda>_ _. True) s"
  using assms
  by (auto simp: apply_response_policy_def withhold_def wp_simps Let_def cleared_def add_header_def split: ContentPolicyDisposition.splits)

lemma complete_vetted:
  assumes "chat_capability (cx_cap cx)" "\<not> cx_stream cx" "\<not> persistent_create (operation (cx_matched cx))"
    and "settled_result [] st s"
    and "\<And>tg rq fr. ForwardedTo tg rq fr \<in> set (gs_log s) \<Longrightarrow> 0 < fr_status_code fr"
  shows "wp (complete env cx st) (\<lambda>_. body_vetted rj) (\<lambda>_ _. True) s"
  unfolding complete_def
proof (rule wp_bind_rule [OF deliver_body_deliverable])
  fix st1 and s1 :: gateway_state
  assume d: "deliverable st (gs_log s) st1 s1"
  show "wp (gw_bind (apply_response_policy env cx st1) (\<lambda>policy_overridden.
     gw_then (answer_malformed (e_rj env) st1)
     (gw_bind (persist_media env cx st1) (\<lambda>(media_overridden, defer, st2).
      gw_bind (release_control env cx st2) (\<lambda>st3.
      gw_then (settle_usage env cx st3 media_overridden defer)
        (finish_status media_overridden policy_overridden st3)))))) (\<lambda>_. body_vetted rj) (\<lambda>_ _. True) s1"
  proof (rule wp_bind_rule [OF apply_response_policy_chat [OF assms(1,2)]], rule wp_mono [OF complete_tail_answers [OF assms(3)]])
    fix over s2 u s3
    assume p: "set (gs_log s1) \<subseteq> set (gs_log s2) \<and>
       (if over then 400 \<le> rs_status_code (gs_resp s2) \<and> \<not> fr_malformed_usage (at_forward st1)
        else resp_body s2 = resp_body s1 \<and>
          (at_aborted st1 \<or> fr_malformed_usage (at_forward st1) \<or> \<not> ok_status (at_forward st1) \<or> resp_body s1 = []
           \<or> cleared (gs_log s2) (resp_body s1)))"
      and a: "answered_as st1 over s2 s3"
    show "body_vetted rj s3"
    proof (cases "over \<or> 400 \<le> fr_status_code (at_forward st1)")
      case True
      then show ?thesis using p a by (intro vetted_error) (auto simp: answered_as_def final_status_def split: if_splits)
    next
      case False
      with d have same: "st1 = st" "gs_log s1 = gs_log s" by (auto simp: deliverable_def)
      with False assms(4) have ok: "\<not> at_aborted st1" "\<not> fr_malformed_usage (at_forward st1)"
        by (auto simp: settled_result_def split: if_splits)
      with same assms(4,5) have pos: "0 < fr_status_code (at_forward st1)"
        by (auto simp: settled_result_def)
      show ?thesis
        using p a False ok pos by (auto simp: body_vetted_def answered_as_def final_status_def ok_status_def intro: cleared_mono)
    qed
  qed simp_all
qed simp

text \<open>The statuses of the providers are positive.\<close>

definition proper_statuses :: "gateway_call list \<Rightarrow> bool" where
  "proper_statuses l \<longleftrightarrow> (\<forall>tg rq fr. ForwardedTo tg rq fr \<in> set l \<longrightarrow> 0 < fr_status_code fr)"

definition vetted_if :: "rapidjson \<Rightarrow> gateway_state \<Rightarrow> bool" where
  "vetted_if rj s \<longleftrightarrow> (proper_statuses (gs_log s) \<longrightarrow> body_vetted rj s)"

lemma complete_vetted_if:
  assumes "chat_capability (cx_cap cx)" "\<not> cx_stream cx" "\<not> persistent_create (operation (cx_matched cx))"
    and "settled_result [] st s"
  shows "wp (complete env cx st) (\<lambda>_. vetted_if rj) (\<lambda>_ _. True) s"
proof (cases "proper_statuses (gs_log s)")
  case True
  show ?thesis
    by (rule wp_mono [OF complete_vetted [OF assms]]) (use True in \<open>auto simp: vetted_if_def proper_statuses_def\<close>)
next
  case False
  have "wp (complete env cx st) (\<lambda>_ s'. \<exists>new. gs_log s' = new @ gs_log s \<and> list_all other new) (\<lambda>_ _. True) s"
    using complete_other [of env cx st] unfolding adds_wp by (blast intro: wp_mono)
  then show ?thesis
    by (rule wp_mono) (use False in \<open>auto simp: vetted_if_def proper_statuses_def\<close>)
qed

lemma note_streaming_body: "body_is b s \<Longrightarrow> wp (note_streaming cx) (\<lambda>_. body_is b) (\<lambda>_ _. True) s"
  by (auto simp: note_streaming_def wp_simps)

lemma serve_vetted:
  assumes "chat_capability (cx_cap cx)" "\<not> cx_stream cx" "\<not> persistent_create (operation (cx_matched cx))"
    and "body_is [] s"
  shows "wp (serve fuel env cx v) (\<lambda>_. vetted_if (e_rj env)) (\<lambda>_ _. True) s"
proof -
  have answered: "wp (case y of None \<Rightarrow> gw_return () | Some st \<Rightarrow> complete env cx st) (\<lambda>_. vetted_if (e_rj env)) (\<lambda>_ _. True) s'"
    if "loop_result (e_rj env) [] y s'" for y s'
    using that complete_vetted_if [OF assms(1-3)] by (cases y) (auto simp: wp_return vetted_if_def)
  have tail: "wp (gw_bind (now env) (\<lambda>t.
         gw_bind (attempts fuel env cx (t + kDispatchDeadline) (first_attempt env cx v bt)) (\<lambda>y.
           case y of None \<Rightarrow> gw_return () | Some st \<Rightarrow> complete env cx st))) (\<lambda>_. vetted_if (e_rj env)) (\<lambda>_ _. True) s'"
    if "body_is [] s'" for bt s'
    unfolding now_def wp_bind [of "ask _ _"] wp_ask Let_def
    by (rule wp_bind_rule [OF attempts_vetted answered]) (use that in \<open>auto simp: first_attempt_def\<close>)
  show ?thesis
    unfolding serve_def
  proof (rule wp_then_rule [OF note_streaming_body [OF assms(4)]], rule wp_bind_rule [OF transfer_body_vetted])
    fix s1 s2 and x :: "body_transfer option"
    assume "vetted_or (e_rj env) [] x s2"
    then show "wp (case x of None \<Rightarrow> gw_return () | Some bt \<Rightarrow> gw_bind (now env) (\<lambda>t.
           gw_bind (attempts fuel env cx (t + kDispatchDeadline) (first_attempt env cx v bt)) (\<lambda>y.
             case y of None \<Rightarrow> gw_return () | Some st \<Rightarrow> complete env cx st))) (\<lambda>_. vetted_if (e_rj env)) (\<lambda>_ _. True) s2"
      using tail by (cases x) (auto simp: wp_return vetted_if_def)
  qed auto
qed

lemma cached_auth_version_body: "body_is b s \<Longrightarrow> wp (cached_auth_version env kh) (\<lambda>_. body_is b) (\<lambda>_ _. True) s"
  by (auto simp: cached_auth_version_def wp_simps Let_def split: option.splits)

lemma authenticated_vetted:
  assumes "chat_capability (capability (spec m))" "\<not> media_control_operation (operation m)" "\<not> persistent_create (operation m)"
    and "\<And>p. parse_inbound (e_rj env) req (spec m) = Inr p \<Longrightarrow> \<not> streaming m p" and "body_is [] s"
  shows "wp (authenticated fuel env req m start rid kh fp) (\<lambda>_. vetted_if (e_rj env)) (\<lambda>_ _. True) s"
proof -
  have go: "wp (case request_error (e_rj env) req m p of
          Some payload \<Rightarrow> refuse 400 payload
        | None \<Rightarrow> serve fuel env \<lparr>cx_req = req, cx_matched = m, cx_start = start, cx_request_id = rid,
                   cx_key_hash = kh, cx_fingerprint = fp, cx_parsed = p, cx_stream = streaming m p\<rparr> v)
      (\<lambda>_. vetted_if (e_rj env)) (\<lambda>_ _. True) s1"
    if "parse_inbound (e_rj env) req (spec m) = Inr p" "body_is [] s1" for p v s1
    using that assms by (auto simp: wp_refuse vetted_if_def vetted_error intro!: serve_vetted [unfolded body_is_def] simp: body_is_def split: option.split)
  show ?thesis
    using assms(2,3) unfolding authenticated_def lookup_idempotency_def
    by (simp add: wp_bind [of "gw_return _"] wp_return)
      (rule wp_bind_rule [OF cached_auth_version_body [OF assms(5)]], auto simp: wp_bind wp_lift go split: sum.split)
qed

lemma handle_vetted:
  assumes "chat_capability (capability (spec m))" "\<not> media_control_operation (operation m)" "\<not> persistent_create (operation m)"
    and "\<And>p. parse_inbound (e_rj env) req (spec m) = Inr p \<Longrightarrow> \<not> streaming m p" and "body_is [] s"
  shows "wp (handle fuel env req m) (\<lambda>_. vetted_if (e_rj env)) (\<lambda>_ _. True) s"
  using assms(5) unfolding handle_def
  by (auto simp: wp_then wp_count now_def wp_bind [of "ask _ _"] wp_ask Let_def wp_set_resp wp_refuse vetted_if_def [abs_def] vetted_error
      add_header_def body_is_def intro!: authenticated_vetted [OF assms(1-4), unfolded vetted_if_def [abs_def] body_is_def])

text \<open>
  C4.  The content policy cannot be passed by on the way to the client: when a chat request that does
  not stream is answered with a success or a redirect and a body, then the active content policy was
  asked about exactly that body and allowed it, or the body is an answer the platform itself stored.
\<close>

theorem response_policy_enforced:
  assumes "handle fuel env req m s = (Inr (), s')" and "gs_log s = []" and "rs_body (gs_resp s) = []"
    and "chat_capability (capability (spec m))" "\<not> media_control_operation (operation m)" "\<not> persistent_create (operation m)"
    and "\<And>p. parse_inbound (e_rj env) req (spec m) = Inr p \<Longrightarrow> \<not> streaming m p"
    and "proper_statuses (gs_log s')"
    and "200 \<le> rs_status_code (gs_resp s')" "rs_status_code (gs_resp s') < 400" "rs_body (gs_resp s') \<noteq> []"
  shows "cleared (gs_log s') (rs_body (gs_resp s')) \<or> platform_answer (e_rj env) (gs_log s') (rs_body (gs_resp s'))"
  using wp_run [OF handle_vetted [OF assms(4-7)] assms(1)] assms(3,8-11)
  by (auto simp: vetted_if_def body_vetted_def body_is_def)

theorem response_policy_enforced_witness:
  "\<exists>s'. handle 1 ok_env ok_request ok_matched ex_state = (Inr (), s') \<and>
     (cleared (gs_log s') (rs_body (gs_resp s')) \<or> platform_answer (e_rj ok_env) (gs_log s') (rs_body (gs_resp s')))"
proof (rule ok_runs)
  fix s' rq fq ev p d g
  assume run: "handle 1 ok_env ok_request ok_matched ex_state = (Inr (), s')"
    and r: "rs_status_code (gs_resp s') = 200" "rs_body (gs_resp s') = ''ok''"
    and l: "gs_log s' =
         [UsageStored ev, ClockRead 0, PolicyAsked ''lease'' ''ok'' ''chat_completions'' p,
          ForwardedTo ex_target fq ok_result, EvidenceSettled ''lease'' ''forwarded'',
          EvidenceSent ''lease'' Forwarded d ack_ok, EvidenceStored ''lease'' ''forwarded'', Dispatched rq ex_grant,
          ClockRead 0, GarnetRead g \<lparr>gr_found = False, gr_error = False, gr_value = []\<rparr>, ClockRead 0]"
  have m: "chat_capability (capability (spec ok_matched))" "\<not> media_control_operation (operation ok_matched)"
    "\<not> persistent_create (operation ok_matched)"
    by (simp_all add: ok_matched_def spec_defs chat_capability_def media_control_operation_def persistent_create_def)
  have "proper_statuses (gs_log s')"
    unfolding l by (auto simp: proper_statuses_def ok_result_def new_forward_result_def)
  then have "cleared (gs_log s') (rs_body (gs_resp s')) \<or> platform_answer (e_rj ok_env) (gs_log s') (rs_body (gs_resp s'))"
    using r by (intro response_policy_enforced [OF run ex_state_log _ m])
      (auto simp: ok_parse ok_not_streaming ex_state_def new_response_def)
  with run show ?thesis by blast
qed

end
