(* ===== verification/Handler_Accounting.thy ===== *)
theory Handler_Accounting
  imports Handler_Policy
begin

text \<open>
  The usage events of the request handler are well typed: the counts come from forward results whose
  counts are in range, or no event is made.
\<close>

section \<open>What reaches the accounting\<close>

definition counts_typed :: "UsageEvent \<Rightarrow> bool" where
  "counts_typed ev \<longleftrightarrow> in_range (ue_input_tokens ev) \<and> in_range (ue_output_tokens ev) \<and> in_range (ue_cache_create_tokens ev)
     \<and> in_range (ue_cache_read_tokens ev) \<and> in_range (ue_reasoning_tokens ev)
     \<and> in_int32 (ue_duration_ms ev)"

fun typed_call :: "gateway_call \<Rightarrow> bool" where
  "typed_call (UsageStored ev) = counts_typed ev"
| "typed_call (UsageNotStored ev) = counts_typed ev"
| "typed_call (UsageReported rep _) = (\<exists>ev. rep = usage_report ev \<and> counts_typed ev)"
| "typed_call _ = True"

definition typed_log :: "gateway_state \<Rightarrow> bool" where
  "typed_log s \<longleftrightarrow> list_all typed_call (gs_log s)"

text \<open>A state of the loop whose counts may be recorded: sound, or malformed and settled already.\<close>

definition counted :: "attempt_state \<Rightarrow> bool" where
  "counted st \<longleftrightarrow> (if fr_malformed_usage (at_forward st) then at_aborted st else result_counts_ok (at_forward st))"

lemma adds_typed: "adds typed_call m \<Longrightarrow> typed_log s \<Longrightarrow> wp m (\<lambda>_. typed_log) (\<lambda>_. typed_log) s"
  unfolding adds_wp typed_log_def by (rule wp_mono, blast) auto

lemma before_dispatch_typed:
  "adds typed_call (media_control env req m rid kh fp)"
  "adds typed_call (lookup_idempotency env req m rid kh fp)"
  "adds typed_call (cached_auth_version env kh)"
  "adds typed_call (note_streaming cx)"
  "adds typed_call (transfer_body env req)"
  "adds typed_call (rejected_dispatch env cx r)"
  "adds typed_call (note_auth kh r)"
  unfolding media_control_def media_answer_def lookup_idempotency_def cached_auth_version_def note_streaming_def
    transfer_body_def rejected_dispatch_def reject_finally_def Let_def call_defs
  by ((intro adds_rules; simp)+, simp add: note_auth_def adds_wp wp_simps)

lemma acquire_lease_typed: "adds typed_call (acquire_lease env cx deadline rq retries waits)"
proof (induction env cx deadline rq retries waits rule: acquire_lease.induct)
  case (1 env cx deadline rq retries waits)
  then show ?case
    by (subst acquire_lease.simps)
      (auto simp: Let_def call_defs split: Outcome.splits
        intro!: adds_bind adds_then adds_nothing adds_call before_dispatch_typed(6,7))
qed

lemma attempt_parts_typed:
  "adds typed_call (authorize_forwarding env lease)"
  "adds typed_call (forward_once env cx dr payload fmt)"
  "adds typed_call (settle_cancelled env lease fr)"
  "adds typed_call (settle_malformed env cx dr fr)"
  "adds typed_call (settle_failure env cx dr fr fo)"
  unfolding authorize_forwarding_def forward_once_def note_output_def settle_cancelled_def settle_malformed_def
    settle_failure_def Let_def call_defs
  by (intro adds_rules adds_call_forwarder; simp)+

lemma withdraw_typed: "adds typed_call (withdraw_response env reason b ty msg st)"
  unfolding withdraw_response_def call_defs by (intro adds_rules) simp

lemma complete_parts_typed:
  "adds typed_call (deliver_body env cx st)"
  "adds typed_call (apply_response_policy env cx st)"
  "adds typed_call (answer_malformed rj st)"
  "adds typed_call (persist_media env cx st)"
  "adds typed_call (release_control env cx st)"
  "adds typed_call (finish_status a b st)"
  unfolding deliver_body_def convert_error_body_def convert_response_body_def check_response_def apply_response_policy_def
    withhold_def answer_malformed_def persist_media_def release_control_def
    finish_status_def Let_def call_defs
  by (intro adds_rules withdraw_typed; simp)+

lemma usage_event_typed:
  "result_counts_ok (at_forward st) \<Longrightarrow> counts_typed (usage_event rj cx st t p resp)"
  using to_int32_range by (simp add: counts_typed_def usage_event_def result_counts_ok_def Let_def)

lemma settle_usage_typed:
  assumes "counted st"
  shows "adds typed_call (settle_usage env cx st ov defer)"
proof -
  have ok: "result_counts_ok (at_forward st)" if "\<not> at_aborted st \<or> late_usage_candidate cx (at_forward st)"
    using assms that by (auto simp: counted_def late_usage_candidate_def split: if_splits)
  show ?thesis
    unfolding settle_usage_def record_or_report_def call_defs gw_when_def
    by (intro adds_rules) (use ok usage_event_typed in auto)
qed

lemma settle_attempt_typed: "adds typed_call (settle_attempt env cx fr st)"
  unfolding settle_attempt_def Let_def sleep_us_def by (intro adds_rules attempt_parts_typed) simp

lemma attempt_typed: "adds typed_call (attempt env cx st)"
  unfolding attempt_def Let_def by (intro adds_rules attempt_parts_typed settle_attempt_typed)

text \<open>The counts along the loop.\<close>

definition sound_counts :: "ForwardResult \<Rightarrow> bool" where
  "sound_counts fr \<longleftrightarrow> (\<not> fr_malformed_usage fr \<longrightarrow> result_counts_ok fr)"

lemma wp_bind_any: "(\<And>a s'. wp (f a) Q (\<lambda>_ _. True) s') \<Longrightarrow> wp (gw_bind m f) Q (\<lambda>_ _. True) s"
  by (rule wp_bind_rule [OF wp_any])

lemma wp_then_any: "(\<And>s'. wp n Q (\<lambda>_ _. True) s') \<Longrightarrow> wp (gw_then m n) Q (\<lambda>_ _. True) s"
  unfolding gw_then_def by (rule wp_bind_any)

lemma forward_once_counts: "wp (forward_once env cx dr payload fmt) (\<lambda>fr _. sound_counts fr) (\<lambda>_ _. True) s"
proof -
  have "wp (call_forwarder env cx dr payload fmt) (\<lambda>fr _. sound_counts fr) (\<lambda>_ _. True) s"
    by (auto simp: call_forwarder_def wp_def Let_def sound_counts_def split: sum.splits prod.splits forward_outcome.splits
        intro: forward_counts_sane)
  then show ?thesis
    unfolding forward_once_def
    by (rule wp_bind_rule) (auto simp: wp_return intro!: wp_then_any)
qed

lemma settle_malformed_counts:
  "wp (settle_malformed env cx dr fr) (\<lambda>fr' _. fr' = (if fr_malformed_usage fr then fr\<lparr>fr_status_code := 502\<rparr> else fr)) (\<lambda>_ _. True) s"
  by (auto simp: settle_malformed_def wp_simps Let_def)

lemma settle_attempt_counted:
  assumes "sound_counts fr"
  shows "wp (settle_attempt env cx fr st) (\<lambda>x _. counted (snd x)) (\<lambda>_ _. True) s"
  unfolding settle_attempt_def Let_def
  by (rule wp_bind_any, rule wp_bind_rule [OF settle_malformed_counts])
    (use assms in \<open>auto simp: wp_return counted_def sound_counts_def next_attempt_def intro!: wp_bind_any wp_then_any\<close>)

lemma attempt_counted:
  assumes "counted st"
  shows "wp (attempt env cx st) (\<lambda>x _. counted (snd x)) (\<lambda>_ _. True) s"
proof -
  have send: "wp (gw_bind (forward_once env cx dr payload fmt) (\<lambda>fr. settle_attempt env cx fr st1)) (\<lambda>x _. counted (snd x)) (\<lambda>_ _. True) s1"
    for dr payload fmt st1 s1
    by (rule wp_bind_rule [OF forward_once_counts settle_attempt_counted]) auto
  have stop: "counted (stopped_with code payload (st\<lparr>at_format := fmt\<rparr>))" for code payload fmt
    using assms by (auto simp: stopped_with_def counted_def result_counts_ok_def split: if_splits)
  show ?thesis
    unfolding attempt_def Let_def
    by (rule wp_then_any, rule wp_bind_any, split sum.split)
      (auto simp: wp_return stop intro!: wp_bind_any wp_then_any send)
qed

lemma withdraw_counted:
  "counted st \<Longrightarrow> wp (withdraw_response env reason b ty msg st) (\<lambda>st' _. counted st') (\<lambda>_ _. True) s"
  by (auto simp: withdraw_response_def wp_return counted_def result_counts_ok_def split: if_splits intro!: wp_bind_any wp_then_any)

lemma convert_response_counted:
  "counted st \<Longrightarrow> wp (convert_response_body env cx st) (\<lambda>st' _. counted st') (\<lambda>_ _. True) s"
  by (auto simp: convert_response_body_def wp_return intro!: wp_bind_any wp_then_any withdraw_counted)

lemma check_response_counted:
  "counted st \<Longrightarrow> wp (check_response env wanted check reason st) (\<lambda>st' _. counted st') (\<lambda>_ _. True) s"
  by (auto simp: check_response_def wp_return intro!: wp_bind_any wp_then_any withdraw_counted)

lemma deliver_body_counted:
  assumes "counted st"
  shows "wp (deliver_body env cx st) (\<lambda>st' _. counted st') (\<lambda>_ _. True) s"
proof -
  have "wp (gw_bind (convert_response_body env cx st) (\<lambda>st1. gw_bind (check_response env w1 c1 r1 st1)
      (\<lambda>st2. gw_bind (check_response env w2 c2 r2 st2) (\<lambda>st3. check_response env w3 c3 r3 st3)))) (\<lambda>st' _. counted st') (\<lambda>_ _. True) s'"
    for w1 c1 r1 w2 c2 r2 w3 c3 r3 s'
    by (intro wp_bind_rule [OF convert_response_counted [OF assms]] wp_bind_rule [OF check_response_counted]
        check_response_counted) auto
  then show ?thesis
    unfolding deliver_body_def Let_def by (auto simp: wp_return assms intro!: wp_then_any)
qed

lemma persist_media_counted:
  "counted st \<Longrightarrow> wp (persist_media env cx st) (\<lambda>x _. counted (snd (snd x))) (\<lambda>_ _. True) s"
  by (auto simp: persist_media_def wp_return Let_def counted_def intro!: wp_bind_any wp_then_any)

lemma release_control_counted:
  "counted st \<Longrightarrow> wp (release_control env cx st) (\<lambda>st' _. counted st') (\<lambda>_ _. True) s"
  by (auto simp: release_control_def wp_return Let_def counted_def intro!: wp_bind_any)

lemma typed_result:
  assumes "adds typed_call m" and "typed_log s" and "wp m (\<lambda>a _. Q a) (\<lambda>_ _. True) s"
  shows "wp m (\<lambda>a s'. typed_log s' \<and> Q a) (\<lambda>_. typed_log) s"
  by (rule wp_mono [OF wp_conj [OF adds_typed [OF assms(1,2)] assms(3)]]) auto

lemma complete_typed:
  assumes "counted st" and "typed_log s"
  shows "wp (complete env cx st) (\<lambda>_. typed_log) (\<lambda>_. typed_log) s"
proof -
  have settle: "wp (gw_bind (release_control env cx st2) (\<lambda>st3.
      gw_then (settle_usage env cx st3 mo df) (finish_status mo po st3))) (\<lambda>_. typed_log) (\<lambda>_. typed_log) s2"
    if "counted st2" "typed_log s2" for st2 s2 mo po df
    by (rule wp_bind_rule [OF typed_result [OF complete_parts_typed(5) that(2) release_control_counted [OF that(1)]]])
      (auto intro!: adds_typed adds_rules settle_usage_typed complete_parts_typed)
  have media: "wp (gw_bind (persist_media env cx st1) (\<lambda>(mo, df, st2).
      gw_bind (release_control env cx st2) (\<lambda>st3.
      gw_then (settle_usage env cx st3 mo df) (finish_status mo po st3)))) (\<lambda>_. typed_log) (\<lambda>_. typed_log) s1"
    if "counted st1" "typed_log s1" for st1 s1 po
    by (rule wp_bind_rule [OF typed_result [OF complete_parts_typed(4) that(2) persist_media_counted [OF that(1)]]])
      (auto intro!: settle)
  have policy: "wp (gw_bind (apply_response_policy env cx st1) (\<lambda>po. gw_then (answer_malformed (e_rj env) st1)
     (gw_bind (persist_media env cx st1) (\<lambda>(mo, df, st2).
      gw_bind (release_control env cx st2) (\<lambda>st3.
      gw_then (settle_usage env cx st3 mo df) (finish_status mo po st3)))))) (\<lambda>_. typed_log) (\<lambda>_. typed_log) s1"
    if "counted st1" "typed_log s1" for st1 s1
    by (rule wp_bind_rule [OF adds_typed [OF complete_parts_typed(2) that(2)]],
        rule wp_then_rule [OF adds_typed [OF complete_parts_typed(3)]]) (auto intro: media that)
  show ?thesis
    unfolding complete_def
    by (rule wp_bind_rule [OF typed_result [OF complete_parts_typed(1) assms(2) deliver_body_counted [OF assms(1)]]])
      (auto intro: policy)
qed

definition typed_loop :: "attempt_state option \<Rightarrow> gateway_state \<Rightarrow> bool" where
  "typed_loop x s \<longleftrightarrow> typed_log s \<and> (\<forall>st. x = Some st \<longrightarrow> counted st)"

lemma attempts_typed:
  "counted st \<Longrightarrow> typed_log s \<Longrightarrow> wp (attempts fuel env cx deadline st) typed_loop (\<lambda>_. typed_log) s"
proof (induction fuel arbitrary: st s)
  case 0
  then show ?case by (simp add: wp_halt)
next
  case (Suc fuel)
  have one: "wp (gw_bind (attempt env cx st1) (\<lambda>(again, st2).
       if again then attempts fuel env cx deadline st2 else gw_return (Some st2))) typed_loop (\<lambda>_. typed_log) s'"
    if "counted st1" "typed_log s'" for st1 s'
    by (rule wp_bind_rule [OF typed_result [OF attempt_typed that(2) attempt_counted [OF that(1)]]])
      (use Suc.IH in \<open>auto simp: wp_return typed_loop_def [of "Some _"]\<close>)
  have keep: "counted (st\<lparr>at_dispatch := dr, at_retries := a, at_waits := b\<rparr>)" for dr a b
    using Suc.prems(1) by (simp add: counted_def)
  show ?case
    unfolding attempts.simps
    by (rule wp_bind_rule [OF adds_typed [OF acquire_lease_typed Suc.prems(2)]])
      (auto simp: wp_return typed_loop_def [of None] one keep split: option.split)
qed

lemma serve_typed:
  assumes "typed_log s"
  shows "wp (serve fuel env cx v) (\<lambda>_. typed_log) (\<lambda>_. typed_log) s"
proof -
  have first: "counted (first_attempt env cx v bt)" for bt
    by (simp add: counted_def first_attempt_def new_result_counts)
  have tail: "wp (gw_bind (attempts fuel env cx d (first_attempt env cx v bt)) (\<lambda>y.
        case y of None \<Rightarrow> gw_return () | Some st \<Rightarrow> complete env cx st)) (\<lambda>_. typed_log) (\<lambda>_. typed_log) s'"
    if "typed_log s'" for d bt s'
    by (rule wp_bind_rule [OF attempts_typed [OF first that]])
      (auto simp: typed_loop_def wp_return complete_typed split: option.split)
  have clock: "adds typed_call (now env)" by (simp add: now_def adds_call)
  have go: "wp (gw_bind (now env) (\<lambda>t. gw_bind (attempts fuel env cx (t + kDispatchDeadline) (first_attempt env cx v bt)) (\<lambda>y.
        case y of None \<Rightarrow> gw_return () | Some st \<Rightarrow> complete env cx st))) (\<lambda>_. typed_log) (\<lambda>_. typed_log) s'"
    if "typed_log s'" for bt s'
    by (rule wp_bind_rule [OF adds_typed [OF clock that] tail])
  show ?thesis
    unfolding serve_def
    by (rule wp_then_rule [OF adds_typed [OF before_dispatch_typed(4) assms]],
        rule wp_bind_rule [OF adds_typed [OF before_dispatch_typed(5)]]) (auto simp: wp_return go split: option.split)
qed

lemma handle_typed:
  assumes "typed_log s"
  shows "wp (handle fuel env req m) (\<lambda>_. typed_log) (\<lambda>_. typed_log) s"
proof -
  have go: "wp (authenticated fuel env req m start rid kh fp) (\<lambda>_. typed_log) (\<lambda>_. typed_log) s1"
    if "typed_log s1" for start rid kh fp s1
  proof -
    have parsed: "wp (gw_bind (gw_lift (parse_inbound (e_rj env) req (spec m))) (\<lambda>p.
               case request_error (e_rj env) req m p of
                 Some payload \<Rightarrow> refuse 400 payload
               | None \<Rightarrow>
                   serve fuel env \<lparr>cx_req = req, cx_matched = m, cx_start = start, cx_request_id = rid,
                      cx_key_hash = kh, cx_fingerprint = fp, cx_parsed = p,
                      cx_stream = streaming m p\<rparr> v)) (\<lambda>_. typed_log) (\<lambda>_. typed_log) s2" if "typed_log s2" for v s2
      using that adds_typed [OF adds_nothing(8) that]
      by (auto simp: wp_bind wp_lift serve_typed split: sum.split option.split)
    have looked: "wp (gw_bind (cached_auth_version env kh) f) (\<lambda>_. typed_log) (\<lambda>_. typed_log) s2"
      if "typed_log s2" "\<And>v s3. typed_log s3 \<Longrightarrow> wp (f v) (\<lambda>_. typed_log) (\<lambda>_. typed_log) s3" for f s2
      by (rule wp_bind_rule [OF adds_typed [OF before_dispatch_typed(3) that(1)] that(2)])
    show ?thesis
      unfolding authenticated_def
      by (auto intro!: adds_typed [OF before_dispatch_typed(1) that]
          wp_bind_rule [OF adds_typed [OF before_dispatch_typed(2) that]] looked parsed simp: wp_return)
  qed
  show ?thesis
    using assms go unfolding handle_def
    by (auto simp: wp_then wp_count now_def wp_bind wp_ask Let_def wp_set_resp wp_refuse typed_log_def)
qed

text \<open>
  C16.  The accounting gets well-typed numbers: every usage event that a request stores, fails to store
  or reports directly has token counts between 0 and the largest 32-bit integer and a duration that
  fits the 32-bit field it is sent in, whatever the provider, the platform and the clients send and in
  whichever way the request ends.
\<close>

theorem usage_events_typed:
  assumes "snd (handle fuel env req m s) = s'" and "gs_log s = []"
  shows "list_all typed_call (gs_log s')"
  using handle_typed [of s fuel env req m] assms
  by (auto simp: typed_log_def wp_def split: prod.splits sum.splits)

theorem usage_events_typed_witness:
  "\<exists>s' ev. snd (handle 1 ok_env ok_request ok_matched ex_state) = s' \<and> UsageStored ev \<in> set (gs_log s') \<and> counts_typed ev"
proof (rule ok_runs)
  fix s' rq fq ev p d g
  assume run: "handle 1 ok_env ok_request ok_matched ex_state = (Inr (), s')"
    and l: "gs_log s' =
         [UsageStored ev, ClockRead 0, PolicyAsked ''lease'' ''ok'' ''chat_completions'' p,
          ForwardedTo ex_target fq ok_result, EvidenceSettled ''lease'' ''forwarded'',
          EvidenceSent ''lease'' Forwarded d ack_ok, EvidenceStored ''lease'' ''forwarded'', Dispatched rq ex_grant,
          ClockRead 0, GarnetRead g \<lparr>gr_found = False, gr_error = False, gr_value = []\<rparr>, ClockRead 0]"
  have "list_all typed_call (gs_log s')"
    by (rule usage_events_typed [of 1 ok_env ok_request ok_matched, OF _ ex_state_log]) (simp add: run [unfolded One_nat_def])
  then have "counts_typed ev" "UsageStored ev \<in> set (gs_log s')" by (simp_all add: l)
  with run show ?thesis by auto
qed

end
