(* ===== verification/Handler_Defects.thy ===== *)
theory Handler_Defects
  imports Handler_Policy
begin

text \<open>
  Two behaviours of the request handler that it does not mean to have, each with a concrete run: the
  task identifier of a media provider is lost, and a wait can wrap around.
\<close>

section \<open>The lost task\<close>

text \<open>The body that replaces a media response.\<close>

definition media_refusal :: "string \<times> string" where
  "media_refusal = (''content_policy_unavailable'', ''Media content policy classifier not yet implemented for this capability'')"

definition refusal_document :: "string \<times> string \<Rightarrow> json" where
  "refusal_document x = JObject [(''error'', JObject [(''type'', JString (fst x)), (''message'', JString (snd x))])]"

lemma refusal_has_no_task:
  assumes "Parse rj b = Some (refusal_document x)"
  shows "provider_task_id rj b = []" and "provider_media_status rj b [] = ''running''"
  using assms
  by (simp_all add: provider_task_id_def provider_media_status_def parse_object_def refusal_document_def string_at_def
      has_member_def Let_def)

lemma media_not_checked:
  assumes "media_capability c"
  shows "\<not> chat_capability c" "c \<noteq> Capability.Embeddings" "c \<noteq> Capability.Models" "c \<noteq> GeminiModels"
    "c \<noteq> Capability.CountTokens" "c \<noteq> Capability.Responses"
  using assms by (auto simp: media_capability_def chat_capability_def)

lemma deliver_media_body:
  assumes "media_capability (cx_cap cx)" "\<not> cx_stream cx" "ok_status (at_forward st)" "fr_body (at_forward st) \<noteq> []"
  shows "wp (deliver_body env cx st) Q E s = Q st (s\<lparr>gs_resp := (gs_resp s)\<lparr>rs_body := fr_body (at_forward st)\<rparr>\<rparr>)"
proof -
  note n = media_not_checked [OF assms(1)]
  have "\<not> 400 \<le> fr_status_code (at_forward st)" using assms(3) by (simp add: ok_status_def)
  with n assms(2,4) show ?thesis
    by (simp add: deliver_body_def convert_error_body_def convert_response_body_def check_response_def Let_def
        wp_then wp_bind wp_set_resp wp_when wp_return)
qed

lemma withhold_media:
  assumes "media_capability (cx_cap cx)" "\<not> cx_stream cx" "\<not> at_aborted st" "\<not> fr_malformed_usage (at_forward st)"
    "ok_status (at_forward st)" "resp_body s \<noteq> []"
  shows "wp (apply_response_policy env cx st) (\<lambda>over s'. over \<and>
     resp_body s' = error_json (e_rj env) (fst media_refusal) (snd media_refusal)) (\<lambda>_ _. False) s"
  using assms
  by (auto simp: apply_response_policy_def media_capability_def chat_capability_def withhold_def wp_simps Let_def
      add_header_def media_refusal_def)

definition attached_without_task :: "MediaOperationRequest \<Rightarrow> bool" where
  "attached_without_task rq \<longleftrightarrow> mq_action rq = ''attach'' \<and> mq_status rq = ''running'' \<and> mq_upstream_task_id rq = []"

lemma media_attach_idle:
  "provider_task_id rj b = [] \<Longrightarrow> provider_media_status rj b [] = ''running'' \<Longrightarrow> \<not> at_aborted st \<Longrightarrow>
     \<not> 400 \<le> fr_status_code (at_forward st) \<Longrightarrow> attached_without_task (media_attach rj cx st b)"
  unfolding attached_without_task_def media_attach_def Let_def by (simp only: if_False simp_thms) (simp add: media_request_def)

definition task_lost :: "gateway_state \<Rightarrow> bool" where
  "task_lost s \<longleftrightarrow> (\<exists>rq r. MediaCalled rq r \<in> set (gs_log s) \<and> attached_without_task rq)"

lemma task_lost_stays: "adds P m \<Longrightarrow> task_lost s \<Longrightarrow> wp m (\<lambda>_. task_lost) (\<lambda>_. task_lost) s"
  unfolding adds_wp task_lost_def by (rule wp_mono, blast) (metis Un_iff set_append)+

lemma task_lost_frame [simp]:
  "task_lost (s\<lparr>gs_resp := p\<rparr>) = task_lost s" "task_lost (s\<lparr>gs_log := c # l\<rparr>) =
     ((\<exists>rq r. c = MediaCalled rq r \<and> attached_without_task rq) \<or> task_lost (s\<lparr>gs_log := l\<rparr>))"
  by (auto simp: task_lost_def)

lemma persist_media_lost:
  assumes "persistent_create (operation (cx_matched cx))" "tgt_media_operation_id (dr_upstream (at_dispatch st)) \<noteq> []"
    and "attached_without_task (media_attach (e_rj env) cx st (resp_body s))"
  shows "wp (persist_media env cx st) (\<lambda>_. task_lost) (\<lambda>_. task_lost) s"
  using assms by (simp add: persist_media_def wp_simps Let_def)

text \<open>
  C39.  The task identifier of a media provider is lost: the answer to a request that creates a media
  operation is replaced by the refusal of the missing media policy before its task identifier is read,
  so the operation is attached as running with no upstream task, whatever the provider answered.
\<close>

theorem media_task_id_lost:
  assumes "media_capability (cx_cap cx)" "persistent_create (operation (cx_matched cx))" "\<not> cx_stream cx"
    and "tgt_media_operation_id (dr_upstream (at_dispatch st)) \<noteq> []"
    and "\<not> at_aborted st" "\<not> fr_malformed_usage (at_forward st)" "ok_status (at_forward st)" "fr_body (at_forward st) \<noteq> []"
    and "Parse (e_rj env) (error_json (e_rj env) (fst media_refusal) (snd media_refusal)) = Some (refusal_document media_refusal)"
  shows "\<exists>rq r. MediaCalled rq r \<in> set (gs_log (snd (complete env cx st s))) \<and> attached_without_task rq"
proof -
  have attach: "wp (gw_bind (persist_media env cx st) (\<lambda>(mo, df, st2).
      gw_bind (release_control env cx st2) (\<lambda>st3.
      gw_then (settle_usage env cx st3 mo df) (finish_status mo po st3)))) (\<lambda>_. task_lost) (\<lambda>_. task_lost) s1"
    if "resp_body s1 = error_json (e_rj env) (fst media_refusal) (snd media_refusal)" for s1 po
  proof (rule wp_bind_rule [OF persist_media_lost [OF assms(2,4)]])
    have b: "Parse (e_rj env) (resp_body s1) = Some (refusal_document media_refusal)" using assms(9) that by simp
    show "attached_without_task (media_attach (e_rj env) cx st (resp_body s1))"
      by (rule media_attach_idle [OF refusal_has_no_task [OF b] assms(5)]) (use assms(7) in \<open>simp add: ok_status_def\<close>)
    have rest: "adds other (gw_bind (release_control env cx st2) (\<lambda>st3.
        gw_then (settle_usage env cx st3 mo df) (finish_status mo po st3)))" for mo df st2
      by (intro adds_rules complete_parts_other)
    show "wp (case x of (mo, df, st2) \<Rightarrow> gw_bind (release_control env cx st2) (\<lambda>st3.
      gw_then (settle_usage env cx st3 mo df) (finish_status mo po st3))) (\<lambda>_. task_lost) (\<lambda>_. task_lost) s2"
      if "task_lost s2" for x s2
      by (cases x) (simp add: task_lost_stays [OF rest that])
  qed
  have "wp (complete env cx st) (\<lambda>_. task_lost) (\<lambda>_. task_lost) s"
    unfolding complete_def wp_bind [of "deliver_body _ _ _"] deliver_media_body [OF assms(1,3,7,8)]
    by (rule wp_bind_rule [OF withhold_media [OF assms(1,3,5,6,7)]])
      (use assms(6,8) in \<open>simp_all add: answer_malformed_def wp_then wp_when attach\<close>)
  then have "task_lost (snd (complete env cx st s))" by (simp add: wp_def split: prod.splits sum.splits)
  then show ?thesis by (simp add: task_lost_def)
qed

definition lost_env :: gateway_env where
  "lost_env = ok_env\<lparr>e_rj := \<lparr>Parse = (\<lambda>b. if b = ''answer'' then Some (JObject [(''task_id'', JString ''t1'')])
     else Some (refusal_document media_refusal)), Write = (\<lambda>_. ''w'')\<rparr>\<rparr>"

definition lost_cx :: request_ctx where
  "lost_cx = ok_cx\<lparr>cx_matched := \<lparr>spec = kVideos, operation = ''videos_generations'', force_platform = []\<rparr>\<rparr>"

definition lost_attempt :: attempt_state where
  "lost_attempt = (first_attempt lost_env lost_cx 0 \<lparr>bt_inline = [], bt_ref = [], bt_digest = [], bt_size = 0\<rparr>)
     \<lparr>at_dispatch := ex_grant\<lparr>dr_upstream := ex_target\<lparr>tgt_media_operation_id := ''op''\<rparr>\<rparr>,
      at_forward := ok_result\<lparr>fr_body := ''answer''\<rparr>\<rparr>"

theorem media_task_id_lost_witness:
  "provider_task_id (e_rj lost_env) (fr_body (at_forward lost_attempt)) = ''t1'' \<and>
   (\<exists>rq r. MediaCalled rq r \<in> set (gs_log (snd (complete lost_env lost_cx lost_attempt ex_state))) \<and> attached_without_task rq)"
proof
  show "provider_task_id (e_rj lost_env) (fr_body (at_forward lost_attempt)) = ''t1''"
    by (simp add: provider_task_id_def lost_env_def lost_attempt_def parse_object_def string_at_def cstr_def)
  show "\<exists>rq r. MediaCalled rq r \<in> set (gs_log (snd (complete lost_env lost_cx lost_attempt ex_state))) \<and> attached_without_task rq"
    by (rule media_task_id_lost)
      (simp_all add: lost_cx_def lost_attempt_def lost_env_def ok_cx_def ok_result_def new_forward_result_def first_attempt_def
        media_capability_def persistent_create_def spec_defs ok_status_def error_json_def write_text_def media_refusal_def
        cstr_def)
qed

section \<open>The wait that wraps\<close>

lemma past_deadline_sleep:
  assumes "d < t" "1000000 \<le> t - d" "t - d < 2 ^ 62" "1 \<le> w"
  shows "2 ^ 63 \<le> usleep_arg (min w (min 1000 (to_ms (d - t))))"
proof -
  let ?k = "(t - d) div 1000000"
  have "1000000 div 1000000 \<le> ?k" using assms(2) by (intro zdiv_mono1) auto
  then have k: "1 \<le> ?k" by simp
  have m: "min w (min 1000 (to_ms (d - t))) = - ?k" using assms k by (simp add: to_ms_def)
  have "?k * 1000000 \<le> t - d" using minus_mod_eq_div_mult [of "t - d" 1000000] pos_mod_sign [of 1000000 "t - d"] by linarith
  with assms(3) k have "?k * 1000 < 2 ^ 62" by linarith
  then have "(- ?k * 1000) mod 2 ^ 64 = 2 ^ 64 - ?k * 1000"
    using k by (simp add: zmod_zminus1_eq_if)
  then show ?thesis unfolding usleep_arg_def m using \<open>?k * 1000 < 2 ^ 62\<close> by simp
qed

text \<open>
  A wait can last practically for ever: when the deadline passes between the two readings of the
  clock, the remaining time is negative and its conversion to an unsigned number of microseconds wraps,
  so the request sleeps for more than 2^63 microseconds.
\<close>

theorem wait_sleep_wraps:
  assumes "l1 = Dispatched rq (e_dispatch env (gs_log s) rq) # gs_log s" and "l2 = ClockRead (e_now env l1) # l1"
    and "dr_outcome (e_dispatch env (gs_log s) rq) = Wait" and "waits < 8"
    and "e_now env l1 < deadline" and "deadline + 1000000 \<le> e_now env l2" "e_now env l2 < deadline + 2 ^ 62"
  shows "\<exists>us. Slept us \<in> set (gs_log (snd (acquire_lease env cx deadline rq retries waits s))) \<and> 2 ^ 63 \<le> us"
proof -
  let ?us = "usleep_arg (min (max (dr_wait_timeout_ms (e_dispatch env (gs_log s) rq)) 1) (min 1000 (to_ms (deadline - e_now env l2))))"
  have big: "2 ^ 63 \<le> ?us" by (rule past_deadline_sleep) (use assms(6,7) in auto)
  have keep: "wp (acquire_lease env cx deadline rq retries (waits + 1)) (\<lambda>_ s'. Slept ?us \<in> set (gs_log s'))
      (\<lambda>_ s'. Slept ?us \<in> set (gs_log s')) s1" if "Slept ?us \<in> set (gs_log s1)" for s1
    using acquire_lease_adds [of rq env cx deadline retries "waits + 1"] that unfolding adds_wp
    by (elim allE [of _ s1] wp_mono) auto
  have "wp (acquire_lease env cx deadline rq retries waits) (\<lambda>_ s'. Slept ?us \<in> set (gs_log s'))
      (\<lambda>_ s'. Slept ?us \<in> set (gs_log s')) s"
    using assms(3-5) unfolding acquire_lease.simps [of env cx deadline rq retries waits] assms(1,2)
    by (simp add: wp_simps Let_def keep [unfolded assms(1,2), simplified])
  then have "Slept ?us \<in> set (gs_log (snd (acquire_lease env cx deadline rq retries waits s)))"
    by (simp add: wp_def split: prod.splits sum.splits)
  with big show ?thesis by blast
qed

text \<open>A clock of which the second reading is 46 seconds after the first.\<close>

fun clock_reads :: "gateway_call list \<Rightarrow> nat" where
  "clock_reads [] = 0"
| "clock_reads (ClockRead _ # l) = Suc (clock_reads l)"
| "clock_reads (_ # l) = clock_reads l"

definition slow_env :: gateway_env where
  "slow_env = ex_env\<lparr>e_now := (\<lambda>l. if clock_reads l = 0 then 0 else 46000000000),
     e_dispatch := (\<lambda>_ _. new_dispatch_result\<lparr>dr_outcome := Wait\<rparr>)\<rparr>"

theorem wait_sleep_wraps_witness:
  "\<exists>us. Slept us \<in> set (gs_log (snd (acquire_lease slow_env ex_cx kDispatchDeadline
     (at_request (first_attempt slow_env ex_cx 0 \<lparr>bt_inline = [], bt_ref = [], bt_digest = [], bt_size = 0\<rparr>)) 0 0 ex_state))) \<and> 2 ^ 63 \<le> us"
  by (rule wait_sleep_wraps [OF refl refl]) (simp_all add: slow_env_def ex_state_def kDispatchDeadline_def)

end
