(* ===== verification/Dispatch_Client.thy ===== *)
theory Dispatch_Client
  imports Usage_Reporter Garnet_Client
begin

text \<open>
  The RPC client of the platform service (\<^verbatim>\<open>dispatch/capnp_dispatch_client.cpp\<close>): frames over a Unix
  socket, reconnection with a growing delay, the two tries of a call, and the eight calls with their
  checks of the answer.  The socket is a script of outcomes per connection, the clock a sequence of
  readings, Cap'n Proto a record of functions.  The record of the frames sent is not in the code; it
  lets the theorems speak about what was asked.  A script that is shorter than what the code asks of
  it gives \<open>None\<close>.
\<close>

unbundle bit_operations_syntax

section \<open>Frames\<close>

text \<open>
  A frame is the length of the rest as four bytes, low byte first, then one byte for the method and
  the message.
\<close>

definition length_header :: "32 word \<Rightarrow> byte list" where
  "length_header len =
     [ucast (len AND 0xFF), ucast (drop_bit 8 len AND 0xFF), ucast (drop_bit 16 len AND 0xFF),
      ucast (drop_bit 24 len AND 0xFF)]"

definition header_length :: "byte list \<Rightarrow> 32 word" where
  "header_length hdr =
     ucast (hdr ! 0) OR push_bit 8 (ucast (hdr ! 1)) OR push_bit 16 (ucast (hdr ! 2)) OR push_bit 24 (ucast (hdr ! 3))"

definition frame_bytes :: "byte \<Rightarrow> byte list \<Rightarrow> byte list" where
  "frame_bytes m msg = length_header (of_nat (length msg + 1)) @ m # msg"

definition kMaxFrame :: "32 word" where "kMaxFrame = 1024 * 1024"

section \<open>The socket\<close>

text \<open>
  What a connection does is a script: the results of the successive peeks (\<^verbatim>\<open>recv\<close> with
  \<^verbatim>\<open>MSG_PEEK | MSG_DONTWAIT\<close>), of the writes, and the bytes that arrive.  A read takes what it asked
  for and leaves the rest; a failed read is an error, a closed peer or the time limit of three seconds.
\<close>

datatype sock_peek = PeekData | PeekNothing | PeekClosed

datatype sock_read = Got "byte list" | NoMore

record sock_script =
  sk_accepts :: bool
  sk_peeks :: "sock_peek list"
  sk_writes :: "int list"
  sk_reads :: "sock_read list"

record CapnpClient =
  cc_open :: bool
  cc_script :: sock_script
  cc_dials :: nat
  cc_ticks :: nat
  cc_delay_ms :: "32 word"
  cc_after :: int
  cc_reconnects :: "64 word"
  cc_sent :: "(byte \<times> byte list) list"

record capnp_world =
  cw_net :: "nat \<Rightarrow> sock_script"
  cw_now :: "nat \<Rightarrow> int"

definition no_script :: sock_script where
  "no_script = \<lparr>sk_accepts = False, sk_peeks = [], sk_writes = [], sk_reads = []\<rparr>"

definition fresh_client :: CapnpClient where
  "fresh_client = \<lparr>cc_open = False, cc_script = no_script, cc_dials = 0, cc_ticks = 0, cc_delay_ms = 50, cc_after = 0,
     cc_reconnects = 0, cc_sent = []\<rparr>"

definition client_now :: "capnp_world \<Rightarrow> CapnpClient \<Rightarrow> int \<times> CapnpClient" where
  "client_now w c = (cw_now w (cc_ticks c), c\<lparr>cc_ticks := Suc (cc_ticks c)\<rparr>)"

text \<open>The next reconnection: after the current delay, which doubles up to three seconds.\<close>

definition back_off :: "capnp_world \<Rightarrow> CapnpClient \<Rightarrow> CapnpClient" where
  "back_off w c =
     (case client_now w c of (t, c1) \<Rightarrow>
        c1\<lparr>cc_after := t + 1000000 * int (unat (cc_delay_ms c1)), cc_delay_ms := min (cc_delay_ms c1 * 2) 3000\<rparr>)"

definition client_disconnect :: "capnp_world \<Rightarrow> CapnpClient \<Rightarrow> CapnpClient" where
  "client_disconnect w c = (if \<not> cc_open c then c else back_off w (c\<lparr>cc_open := False\<rparr>))"

definition dial :: "capnp_world \<Rightarrow> CapnpClient \<Rightarrow> bool \<times> CapnpClient" where
  "dial w c =
     (case client_now w c of (t, c1) \<Rightarrow>
        if t < cc_after c1 then (False, c1)
        else let sc = cw_net w (cc_dials c1); c2 = c1\<lparr>cc_dials := Suc (cc_dials c1)\<rparr>
             in if \<not> sk_accepts sc then (False, back_off w c2)
                else (True, c2\<lparr>cc_open := True, cc_script := sc, cc_delay_ms := 50, cc_reconnects := cc_reconnects c2 + 1\<rparr>))"

definition client_ensure :: "capnp_world \<Rightarrow> CapnpClient \<Rightarrow> (bool \<times> CapnpClient) option" where
  "client_ensure w c =
     (if cc_open c
      then case sk_peeks (cc_script c) of
             [] \<Rightarrow> None
           | p # ps \<Rightarrow>
               let c1 = c\<lparr>cc_script := (cc_script c)\<lparr>sk_peeks := ps\<rparr>\<rparr>
               in if p = PeekClosed then Some (dial w (client_disconnect w c1)) else Some (True, c1)
      else Some (dial w c))"

definition write_all_bytes :: "nat \<Rightarrow> CapnpClient \<Rightarrow> (bool \<times> CapnpClient) option" where
  "write_all_bytes n c = do {
     (ok, ws) \<leftarrow> write_bytes_all n (sk_writes (cc_script c));
     Some (ok, c\<lparr>cc_script := (cc_script c)\<lparr>sk_writes := ws\<rparr>\<rparr>)
   }"

definition send_frame :: "byte \<Rightarrow> byte list \<Rightarrow> CapnpClient \<Rightarrow> (bool \<times> CapnpClient) option" where
  "send_frame m msg c =
     (if \<not> cc_open c then Some (False, c)
      else do {
        (ok, c1) \<leftarrow> write_all_bytes (length (length_header (of_nat (length msg + 1)))) c;
        if \<not> ok then Some (False, c1)
        else do {
          (ok2, c2) \<leftarrow> write_all_bytes 1 c1;
          if \<not> ok2 then Some (False, c2)
          else do {
            (ok3, c3) \<leftarrow> write_all_bytes (length msg) c2;
            Some (ok3, if ok3 then c3\<lparr>cc_sent := cc_sent c3 @ [(m, msg)]\<rparr> else c3)
          }
        }
      })"

text \<open>Reads until \<open>n\<close> bytes are there.\<close>

fun read_exact :: "nat \<Rightarrow> sock_read list \<Rightarrow> (byte list option \<times> sock_read list) option" where
  "read_exact n [] = (if n = 0 then Some (Some [], []) else None)"
| "read_exact n (NoMore # rs) = (if n = 0 then Some (Some [], NoMore # rs) else Some (None, rs))"
| "read_exact n (Got b # rs) =
     (if n = 0 then Some (Some [], Got b # rs)
      else if b = [] then Some (None, rs)
      else if n < length b then Some (Some (take n b), Got (drop n b) # rs)
      else case read_exact (n - length b) rs of
             None \<Rightarrow> None
           | Some (None, rest) \<Rightarrow> Some (None, rest)
           | Some (Some x, rest) \<Rightarrow> Some (Some (b @ x), rest))"

definition receive_frame :: "sock_read list \<Rightarrow> (byte list \<times> sock_read list) option" where
  "receive_frame rs0 = do {
     (hdr, rs) \<leftarrow> read_exact 4 rs0;
     case hdr of
       None \<Rightarrow> Some ([], rs)
     | Some h \<Rightarrow>
         let len = header_length h
         in if len = 0 \<or> len > kMaxFrame then Some ([], rs)
            else do {
              (msg, rs2) \<leftarrow> read_exact (unat len) rs;
              Some (case msg of None \<Rightarrow> [] | Some b \<Rightarrow> b, rs2)
            }
   }"

definition recv_frame :: "CapnpClient \<Rightarrow> (byte list \<times> CapnpClient) option" where
  "recv_frame c =
     (if \<not> cc_open c then Some ([], c)
      else do {
        (msg, rs) \<leftarrow> receive_frame (sk_reads (cc_script c));
        Some (msg, c\<lparr>cc_script := (cc_script c)\<lparr>sk_reads := rs\<rparr>\<rparr>)
      })"

text \<open>Both tries of a call; the sleep of 50 milliseconds before the second is in the clock.\<close>

fun exchange_tries :: "nat \<Rightarrow> capnp_world \<Rightarrow> byte \<Rightarrow> byte list \<Rightarrow> CapnpClient \<Rightarrow> (byte list \<times> CapnpClient) option" where
  "exchange_tries 0 w m msg c = Some ([], c)"
| "exchange_tries (Suc n) w m msg c = do {
     (ok, c1) \<leftarrow> client_ensure w c;
     if \<not> ok then Some ([], c1)
     else do {
       (sent, c2) \<leftarrow> send_frame m msg c1;
       (answer, c3) \<leftarrow> (if sent then recv_frame c2 else Some ([], c2));
       if answer \<noteq> [] then Some (answer, c3) else exchange_tries n w m msg (client_disconnect w c3)
     }
   }"

definition exchange :: "capnp_world \<Rightarrow> byte \<Rightarrow> byte list \<Rightarrow> CapnpClient \<Rightarrow> (byte list \<times> CapnpClient) option" where
  "exchange = exchange_tries 2"

definition connect_client :: "capnp_world \<Rightarrow> CapnpClient option" where
  "connect_client w = map_option snd (client_ensure w fresh_client)"

definition is_connected :: "capnp_world \<Rightarrow> CapnpClient \<Rightarrow> (bool \<times> CapnpClient) option" where
  "is_connected w c = client_ensure w c"

section \<open>Messages\<close>

text \<open>
  The values set in a message before it is written and read from it after it was received, by the
  schema (\<^verbatim>\<open>proto/dispatch.capnp\<close>, \<^verbatim>\<open>proto/types.capnp\<close>).  Turning them into words and back is the work
  of the Cap'n Proto library, a parameter; a message it refuses makes it throw, which is \<open>None\<close> here.
\<close>

datatype Method = Dispatch | ReportUsage | Abort | ReportUpstreamError | MediaOperation | RecordLeaseEvidence
  | EvaluateContent | UploadBlob

fun method_code :: "Method \<Rightarrow> byte" where
  "method_code Dispatch = 1"
| "method_code ReportUsage = 2"
| "method_code Abort = 3"
| "method_code ReportUpstreamError = 4"
| "method_code MediaOperation = 5"
| "method_code RecordLeaseEvidence = 6"
| "method_code EvaluateContent = 7"
| "method_code UploadBlob = 8"

text \<open>The first byte of the answer to a method.\<close>

definition answer_code :: "Method \<Rightarrow> byte" where
  "answer_code m = method_code m OR 0x80"

record WireUsageReport =
  wu_lease_token :: string
  wu_input_tokens :: int
  wu_output_tokens :: int
  wu_cache_create_tokens :: int
  wu_cache_read_tokens :: int
  wu_duration_ms :: int
  wu_first_token_ms :: int
  wu_stream :: bool
  wu_client_disconnect :: bool
  wu_status_code :: int
  wu_input_image_count :: int
  wu_output_image_count :: int
  wu_image_size :: string
  wu_video_count :: int
  wu_video_resolution :: string
  wu_video_duration_seconds :: int
  wu_realtime_duration_ms :: int
  wu_realtime_frames :: int
  wu_disconnect_reason :: string
  wu_provider_usage_json :: string
  wu_reasoning_tokens :: int
  wu_service_tier :: string
  wu_upstream_endpoint :: string
  wu_cancellation_reason :: string
  wu_media_operation_id :: string
  wu_pricing_version :: string
  wu_response_status_code :: int
  wu_response_content_type :: string
  wu_response_body :: string

definition usage_message :: "UsageReportData \<Rightarrow> WireUsageReport" where
  "usage_message r =
     \<lparr>wu_lease_token = ur_lease_token r, wu_input_tokens = ur_input_tokens r,
      wu_output_tokens = ur_output_tokens r, wu_cache_create_tokens = ur_cache_create_tokens r,
      wu_cache_read_tokens = ur_cache_read_tokens r, wu_duration_ms = ur_duration_ms r,
      wu_first_token_ms = ur_first_token_ms r, wu_stream = ur_stream r,
      wu_client_disconnect = ur_client_disconnect r, wu_status_code = ur_status_code r,
      wu_input_image_count = ur_input_image_count r, wu_output_image_count = ur_output_image_count r,
      wu_image_size = ur_image_size r, wu_video_count = ur_video_count r,
      wu_video_resolution = ur_video_resolution r, wu_video_duration_seconds = ur_video_duration_seconds r,
      wu_realtime_duration_ms = ur_realtime_duration_ms r, wu_realtime_frames = ur_realtime_frames r,
      wu_disconnect_reason = ur_disconnect_reason r, wu_provider_usage_json = ur_provider_usage_json r,
      wu_reasoning_tokens = ur_reasoning_tokens r, wu_service_tier = ur_service_tier r,
      wu_upstream_endpoint = ur_upstream_endpoint r, wu_cancellation_reason = ur_cancellation_reason r,
      wu_media_operation_id = ur_media_operation_id r, wu_pricing_version = ur_pricing_version r,
      wu_response_status_code = ur_response_status_code r, wu_response_content_type = ur_response_content_type r,
      wu_response_body = ur_response_body r\<rparr>"

record WireProxy =
  wp_enabled :: bool
  wp_url :: string
  wp_username :: string
  wp_password :: string

record WireBilling =
  wb_rate_multiplier :: int
  wb_hold_handle :: string

record WireUpstream =
  wt_account_id :: int
  wt_platform :: string
  wt_base_url :: string
  wt_upstream_path :: string
  wt_auth_headers :: headers
  wt_mapped_model :: string
  wt_proxy :: "WireProxy option"
  wt_user_id :: int
  wt_group_id :: int
  wt_billing :: "WireBilling option"
  wt_tls_fingerprint :: bool
  wt_http_method :: string
  wt_upstream_format :: string
  wt_request_headers :: headers
  wt_allowed_response_headers :: "string list"
  wt_websocket_url :: string
  wt_websocket_protocol :: string
  wt_tls_fingerprint_profile_id :: string
  wt_capability_flags :: "string list"
  wt_media_operation_id :: string
  wt_upstream_task_id :: string
  wt_polling_supported :: bool
  wt_content_download_supported :: bool

record WireDispatchResponse =
  wd_outcome :: nat
  wd_auth_version :: int
  wd_auth_api_key_id :: "int option"
  wd_upstream :: "WireUpstream option"
  wd_wait_timeout_ms :: "int option"
  wd_reject :: "(nat \<times> string) option"
  wd_lease_token :: string
  wd_protocol_version :: nat
  wd_replay_status_code :: int
  wd_replay_content_type :: string
  wd_replay_body :: string

record BlobChunk =
  bc_blob_id :: string
  bc_seq :: "32 word"
  bc_index :: "32 word"
  bc_data :: string
  bc_is_last :: bool

record BlobChunkAck =
  ba_accepted :: bool
  ba_error_code :: string
  ba_digest :: string
  ba_total_bytes :: nat

datatype message =
    DispatchMessage nat DispatchRequest
  | UsageMessage WireUsageReport
  | AbortMessage string string nat int
  | ErrorMessage ErrorReportData
  | MediaMessage MediaOperationRequest
  | EvidenceMessage string nat string string
  | PolicyMessage string string string nat
  | BlobMessage BlobChunk

record capnp_codec =
  cp_write :: "message \<Rightarrow> byte list"
  cp_read_dispatch :: "byte list \<Rightarrow> WireDispatchResponse option"
  cp_read_media :: "byte list \<Rightarrow> MediaOperationResult option"
  cp_read_ack :: "byte list \<Rightarrow> RpcAck option"
  cp_read_policy :: "byte list \<Rightarrow> ContentPolicyResult option"
  cp_read_blob :: "byte list \<Rightarrow> BlobChunkAck option"
  cp_double :: "rat \<Rightarrow> double"

datatype kj_error = KjException

text \<open>An answer that is worth decoding: the right first byte and a whole number of words.\<close>

definition well_framed :: "Method \<Rightarrow> byte list \<Rightarrow> bool" where
  "well_framed m answer \<longleftrightarrow> answer \<noteq> [] \<and> hd answer = answer_code m \<and> (length answer - 1) mod 8 = 0"

definition decoded :: "'a option \<Rightarrow> kj_error + 'a" where
  "decoded x = (case x of None \<Rightarrow> Inl KjException | Some a \<Rightarrow> Inr a)"

section \<open>Dispatch\<close>

definition read_upstream :: "capnp_codec \<Rightarrow> WireUpstream \<Rightarrow> UpstreamTarget" where
  "read_upstream cp up =
     new_target\<lparr>tgt_account_id := wt_account_id up, tgt_platform := wt_platform up,
       tgt_base_url := wt_base_url up, tgt_upstream_path := wt_upstream_path up,
       tgt_auth_headers := wt_auth_headers up, tgt_mapped_model := wt_mapped_model up,
       tgt_user_id := wt_user_id up, tgt_group_id := wt_group_id up, tgt_tls_fingerprint := wt_tls_fingerprint up,
       tgt_http_method := wt_http_method up, tgt_upstream_format := wt_upstream_format up,
       tgt_request_headers := wt_request_headers up,
       tgt_allowed_response_headers := wt_allowed_response_headers up, tgt_websocket_url := wt_websocket_url up,
       tgt_websocket_protocol := wt_websocket_protocol up,
       tgt_tls_fingerprint_profile_id := wt_tls_fingerprint_profile_id up,
       tgt_capability_flags := wt_capability_flags up, tgt_media_operation_id := wt_media_operation_id up,
       tgt_upstream_task_id := wt_upstream_task_id up, tgt_polling_supported := wt_polling_supported up,
       tgt_content_download_supported := wt_content_download_supported up,
       tgt_proxy_url := (case wt_proxy up of Some p \<Rightarrow> wp_url p | None \<Rightarrow> []),
       tgt_proxy_username := (case wt_proxy up of Some p \<Rightarrow> wp_username p | None \<Rightarrow> []),
       tgt_proxy_password := (case wt_proxy up of Some p \<Rightarrow> wp_password p | None \<Rightarrow> []),
       tgt_rate_multiplier := (case wt_billing up of Some b \<Rightarrow> cp_double cp (of_int (wb_rate_multiplier b) / 100000000)
          | None \<Rightarrow> tgt_rate_multiplier new_target),
       tgt_hold_handle := (case wt_billing up of Some b \<Rightarrow> wb_hold_handle b | None \<Rightarrow> [])\<rparr>"

definition outcome_of_wire :: "nat \<Rightarrow> Outcome" where
  "outcome_of_wire n = (if n = 0 then Ok else if n = 1 then Wait else if n = 3 then Reauth else Rejected)"

definition platform_unavailable :: "string \<Rightarrow> DispatchResult" where
  "platform_unavailable msg =
     new_dispatch_result\<lparr>dr_reject_message := msg, dr_reject_code := kPlatformUnavailableRejectCode\<rparr>"

definition read_dispatch :: "capnp_codec \<Rightarrow> WireDispatchResponse \<Rightarrow> DispatchResult" where
  "read_dispatch cp wd =
     (if wd_protocol_version wd \<noteq> 3 then platform_unavailable ''dispatch protocol version mismatch''
      else \<lparr>dr_outcome = outcome_of_wire (wd_outcome wd), dr_auth_version = wd_auth_version wd,
            dr_api_key_id = (case wd_auth_api_key_id wd of Some i \<Rightarrow> i | None \<Rightarrow> 0),
            dr_lease_token = wd_lease_token wd,
            dr_upstream = (case wd_upstream wd of Some up \<Rightarrow> read_upstream cp up | None \<Rightarrow> new_target),
            dr_reject_message = (case wd_reject wd of Some (_, msg) \<Rightarrow> msg | None \<Rightarrow> []),
            dr_reject_code = (case wd_reject wd of Some (code, _) \<Rightarrow> int code | None \<Rightarrow> 0),
            dr_wait_timeout_ms = (case wd_wait_timeout_ms wd of Some t \<Rightarrow> t | None \<Rightarrow> 0),
            dr_replay_status_code = wd_replay_status_code wd,
            dr_replay_content_type = wd_replay_content_type wd, dr_replay_body = wd_replay_body wd\<rparr>)"

definition dispatch_answer :: "capnp_codec \<Rightarrow> byte list \<Rightarrow> kj_error + DispatchResult" where
  "dispatch_answer cp answer =
     (if answer = [] then Inr (platform_unavailable ''platform unavailable; retry may be safe'')
      else if \<not> well_framed Dispatch answer then Inr (platform_unavailable ''invalid platform dispatch response'')
      else res_bind (decoded (cp_read_dispatch cp (tl answer))) (\<lambda>wd. Inr (read_dispatch cp wd)))"

type_synonym 'a rpc = "CapnpClient \<Rightarrow> ((kj_error + 'a) \<times> CapnpClient) option"

definition call :: "capnp_codec \<Rightarrow> capnp_world \<Rightarrow> Method \<Rightarrow> message \<Rightarrow> CapnpClient \<Rightarrow> (byte list \<times> CapnpClient) option" where
  "call cp w m msg = exchange w (method_code m) (cp_write cp msg)"

definition rpc_dispatch :: "capnp_codec \<Rightarrow> capnp_world \<Rightarrow> DispatchRequest \<Rightarrow> DispatchResult rpc" where
  "rpc_dispatch cp w req c = do {
     (answer, c1) \<leftarrow> call cp w Dispatch (DispatchMessage 3 req) c;
     Some (dispatch_answer cp answer, c1)
   }"

section \<open>Media operations\<close>

definition no_media_service :: MediaOperationResult where
  "no_media_service = \<lparr>mr_accepted = False, mr_status_code = 500, mr_operation_id = [], mr_operation_type = [],
     mr_status = [], mr_progress = 0, mr_upstream_task_id = [], mr_output_metadata = [], mr_output_url = [],
     mr_content_type = [], mr_error_code = ''platform_unavailable'',
     mr_error_message = ''Platform media operation service unavailable''\<rparr>"

definition rpc_media_operation :: "capnp_codec \<Rightarrow> capnp_world \<Rightarrow> MediaOperationRequest \<Rightarrow> MediaOperationResult rpc" where
  "rpc_media_operation cp w req c = do {
     (answer, c1) \<leftarrow> call cp w MediaOperation (MediaMessage req) c;
     Some (if well_framed MediaOperation answer then decoded (cp_read_media cp (tl answer)) else Inr no_media_service, c1)
   }"

section \<open>Acknowledged writes\<close>

definition invalid_ack :: RpcAck where
  "invalid_ack = \<lparr>accepted = False, duplicate = False, retryable = True, error_code = ''invalid_ack''\<rparr>"

definition parse_ack :: "capnp_codec \<Rightarrow> byte list \<Rightarrow> Method \<Rightarrow> kj_error + RpcAck" where
  "parse_ack cp answer m =
     (if length answer \<le> 1 \<or> \<not> well_framed m answer then Inr invalid_ack else decoded (cp_read_ack cp (tl answer)))"

definition rpc_report_usage :: "capnp_codec \<Rightarrow> capnp_world \<Rightarrow> UsageReportData \<Rightarrow> RpcAck rpc" where
  "rpc_report_usage cp w report c = do {
     (answer, c1) \<leftarrow> call cp w ReportUsage (UsageMessage (usage_message report)) c;
     case parse_ack cp answer ReportUsage of
       Inl e \<Rightarrow> Some (Inl e, c1)
     | Inr ack \<Rightarrow> Some (Inr ack, if error_code ack = ''invalid_ack'' then client_disconnect w c1 else c1)
   }"

definition stage_code :: "LeaseEvidenceStage \<Rightarrow> nat" where
  "stage_code s = (if s = OutputStarted then 1 else 0)"

definition rpc_record_lease_evidence :: "capnp_codec \<Rightarrow> capnp_world \<Rightarrow> string \<Rightarrow> LeaseEvidenceStage \<Rightarrow> string \<Rightarrow> RpcAck rpc" where
  "rpc_record_lease_evidence cp w lease stage detail c = do {
     (answer, c1) \<leftarrow> call cp w RecordLeaseEvidence (EvidenceMessage lease (stage_code stage) ''gateway'' detail) c;
     Some (parse_ack cp answer RecordLeaseEvidence, c1)
   }"

definition disposition_code :: "LeaseAbortDisposition \<Rightarrow> nat" where
  "disposition_code d = (if d = UnknownCharge then 1 else if d = Safe then 2 else 0)"

definition rpc_abort :: "capnp_codec \<Rightarrow> capnp_world \<Rightarrow> string \<Rightarrow> string \<Rightarrow> LeaseAbortDisposition \<Rightarrow> int \<Rightarrow> RpcAck rpc" where
  "rpc_abort cp w lease reason disp code c = do {
     (answer, c1) \<leftarrow> call cp w Abort (AbortMessage lease reason (disposition_code disp) code) c;
     Some (parse_ack cp answer Abort, c1)
   }"

definition rpc_report_upstream_error :: "capnp_codec \<Rightarrow> capnp_world \<Rightarrow> ErrorReportData \<Rightarrow> RpcAck rpc" where
  "rpc_report_upstream_error cp w er c = do {
     (answer, c1) \<leftarrow> call cp w ReportUpstreamError (ErrorMessage er) c;
     Some (parse_ack cp answer ReportUpstreamError, c1)
   }"

section \<open>Content policy\<close>

definition no_policy_answer :: ContentPolicyResult where
  "no_policy_answer = \<lparr>evaluated = False, allowed = False, cp_retryable = False, cp_error_code = ''platform_unavailable'',
     cp_matched_rule_id = 0, cp_message = []\<rparr>"

definition rpc_evaluate_response_content :: "capnp_codec \<Rightarrow> capnp_world \<Rightarrow> string \<Rightarrow> string \<Rightarrow> string \<Rightarrow> ContentPolicyResult rpc" where
  "rpc_evaluate_response_content cp w lease shown_text cap c = do {
     (answer, c1) \<leftarrow> call cp w EvaluateContent (PolicyMessage lease shown_text cap 1) c;
     if length answer \<le> 1 \<or> \<not> well_framed EvaluateContent answer
     then Some (Inr no_policy_answer, client_disconnect w c1)
     else Some (decoded (cp_read_policy cp (tl answer)), c1)
   }"

section \<open>Large bodies\<close>

definition kBlobChunkBytes :: nat where "kBlobChunkBytes = 512 * 1024"

definition blob_chunk :: "string \<Rightarrow> string \<Rightarrow> nat \<Rightarrow> 32 word \<Rightarrow> BlobChunk" where
  "blob_chunk blob payload offset index =
     (let n = min kBlobChunkBytes (length payload - offset)
      in \<lparr>bc_blob_id = blob, bc_seq = 0, bc_index = index, bc_data = take n (drop offset payload),
          bc_is_last = (offset + n \<ge> length payload)\<rparr>)"

text \<open>The loop of \<^verbatim>\<open>upload_blob\<close> with its offset and index and the answer so far.\<close>

function upload_from :: "capnp_codec \<Rightarrow> capnp_world \<Rightarrow> string \<Rightarrow> string \<Rightarrow> nat \<Rightarrow> 32 word \<Rightarrow> BlobUploadResult \<Rightarrow> BlobUploadResult rpc" where
  "upload_from cp w blob payload offset index res c =
     (if \<not> (offset < length payload \<or> index = 0) then Some (Inr (res\<lparr>bu_accepted := True\<rparr>), c)
      else do {
        (answer, c1) \<leftarrow> call cp w UploadBlob (BlobMessage (blob_chunk blob payload offset index)) c;
        if length answer \<le> 1 \<or> \<not> well_framed UploadBlob answer
        then Some (Inr (res\<lparr>bu_error_code := ''platform_unavailable''\<rparr>), c1)
        else case cp_read_blob cp (tl answer) of
               None \<Rightarrow> Some (Inl KjException, c1)
             | Some a \<Rightarrow>
                 if \<not> ba_accepted a then Some (Inr (res\<lparr>bu_error_code := ba_error_code a\<rparr>), c1)
                 else upload_from cp w blob payload (offset + min kBlobChunkBytes (length payload - offset)) (index + 1)
                        (res\<lparr>bu_digest := ba_digest a, bu_total_bytes := ba_total_bytes a\<rparr>) c1
      })"
  by pat_completeness auto

termination
  by (relation "measure (\<lambda>(cp, w, blob, payload, offset, index, res, c).
        2 * (length payload - offset) + (if index = 0 then 1 else 0))") (auto simp: kBlobChunkBytes_def)

declare upload_from.simps [simp del]

definition rpc_upload_blob :: "capnp_codec \<Rightarrow> capnp_world \<Rightarrow> string \<Rightarrow> string \<Rightarrow> BlobUploadResult rpc" where
  "rpc_upload_blob cp w blob payload =
     upload_from cp w blob payload 0 0
       \<lparr>bu_accepted = False, bu_error_code = [], bu_blob_id = blob, bu_digest = [], bu_total_bytes = 0\<rparr>"

section \<open>Frames survive any delivery\<close>

lemma below_32_cases: "n < 32 \<Longrightarrow> n < 8 \<or> (8 \<le> n \<and> n < 16) \<or> (16 \<le> n \<and> n < 24) \<or> (24 \<le> n \<and> n < (32::nat))"
  by auto

lemma low_byte_mask: "(255 :: 32 word) = mask 8"
  by (simp add: mask_eq_exp_minus_1)

lemma bit_header_byte:
  "bit (ucast (ucast (drop_bit k len AND 255) :: byte) :: 32 word) n \<longleftrightarrow> n < 8 \<and> bit (len :: 32 word) (k + n)"
  unfolding low_byte_mask by (auto simp: bit_simps)

lemma header_bits:
  "bit (header_length (length_header len)) n \<longleftrightarrow>
     n < 8 \<and> bit len n \<or> (8 \<le> n \<and> n < 16) \<and> bit len n \<or> (16 \<le> n \<and> n < 24) \<and> bit len n \<or>
     (24 \<le> n \<and> n < 32) \<and> bit len n"
proof -
  have 0: "length_header len ! 0 = ucast (drop_bit 0 len AND 255)" by (simp add: length_header_def)
  have idx: "length_header len ! 1 = ucast (drop_bit 8 len AND 255)" "length_header len ! 2 = ucast (drop_bit 16 len AND 255)"
    "length_header len ! 3 = ucast (drop_bit 24 len AND 255)" by (simp_all add: length_header_def)
  show ?thesis
    unfolding header_length_def 0 idx bit_or_iff bit_push_bit_iff bit_header_byte
    by (auto dest: bit_imp_le_length)
qed

lemma header_length_inverse: "header_length (length_header len) = len"
proof (rule bit_word_eqI)
  fix n assume "n < LENGTH(32)"
  then have "n < 32" by simp
  with below_32_cases [OF this] show "bit (header_length (length_header len)) n = bit len n"
    unfolding header_bits by blast
qed

lemma length_length_header [simp]: "length (length_header len) = 4"
  by (simp add: length_header_def)

text \<open>The bytes \<open>bs\<close> arrive in pieces, however they were cut.\<close>

definition arrives :: "sock_read list \<Rightarrow> byte list \<Rightarrow> bool" where
  "arrives rs bs \<longleftrightarrow> (\<exists>cs. rs = map Got cs \<and> [] \<notin> set cs \<and> concat cs = bs)"

lemma arrives_Nil [simp]: "arrives [] bs \<longleftrightarrow> bs = []"
  by (auto simp: arrives_def)

lemma arrives_Cons:
  "arrives (r # rs) bs \<longleftrightarrow> (\<exists>b bs'. r = Got b \<and> b \<noteq> [] \<and> bs = b @ bs' \<and> arrives rs bs')"
  unfolding arrives_def by (auto simp: Cons_eq_map_conv) (metis concat.simps(2) list.simps(9) set_ConsD)

lemma read_exact_arrives:
  "arrives rs (x @ rest) \<Longrightarrow> \<exists>rs'. read_exact (length x) rs = Some (Some x, rs') \<and> arrives rs' rest"
proof (induction rs arbitrary: x)
  case Nil
  then show ?case by simp
next
  case (Cons r rs)
  then obtain b bs' where r: "r = Got b" "b \<noteq> []" "x @ rest = b @ bs'" "arrives rs bs'"
    by (auto simp: arrives_Cons)
  consider "x = []" | "x \<noteq> []" "length x < length b" | "x \<noteq> []" "length b \<le> length x" by linarith
  then show ?case
  proof cases
    case 1
    with r Cons.prems show ?thesis by simp
  next
    case 2
    have t: "take (length x) b = x" "drop (length x) b @ bs' = rest"
      using r(3) 2 by (metis append_eq_append_conv_if append_eq_conv_conj less_imp_le_nat)+
    with r 2 show ?thesis by (auto simp: arrives_Cons intro!: exI [of _ "Got (drop (length x) b) # rs"])
  next
    case 3
    obtain x' where x': "x = b @ x'" "bs' = x' @ rest"
      using r(3) 3 by (metis append_eq_append_conv_if append_eq_conv_conj append_take_drop_id)
    from Cons.IH [of x'] r x' obtain rs' where "read_exact (length x') rs = Some (Some x', rs')" "arrives rs' rest"
      by auto
    with r x' 3 show ?thesis by auto
  qed
qed

definition frame_fits :: "byte list \<Rightarrow> bool" where
  "frame_fits msg \<longleftrightarrow> length msg < 1024 * 1024"

lemma frame_fits_length:
  assumes "frame_fits msg"
  shows "unat (of_nat (length msg + 1) :: 32 word) = length msg + 1"
    and "(of_nat (length msg + 1) :: 32 word) \<noteq> 0" and "\<not> (of_nat (length msg + 1) :: 32 word) > kMaxFrame"
proof -
  have small: "length msg + 1 < 2 ^ LENGTH(32)" using assms by (simp add: frame_fits_def)
  then show u: "unat (of_nat (length msg + 1) :: 32 word) = length msg + 1"
    unfolding unat_of_nat by (rule mod_less)
  then show "(of_nat (length msg + 1) :: 32 word) \<noteq> 0" by (metis Suc_eq_plus1 nat.simps(3) unat_0)
  have "unat kMaxFrame = 1024 * 1024" by (simp add: kMaxFrame_def)
  with u assms show "\<not> (of_nat (length msg + 1) :: 32 word) > kMaxFrame"
    unfolding word_less_nat_alt by (simp add: frame_fits_def)
qed

lemma frame_received:
  assumes "frame_fits msg" and "arrives rs (frame_bytes m msg @ rest)"
  shows "\<exists>rs'. receive_frame rs = Some (m # msg, rs') \<and> arrives rs' rest"
proof -
  let ?len = "of_nat (length msg + 1) :: 32 word"
  have "arrives rs (length_header ?len @ (m # msg) @ rest)" using assms(2) by (simp add: frame_bytes_def)
  from read_exact_arrives [OF this] obtain r1
    where r1: "read_exact 4 rs = Some (Some (length_header ?len), r1)" "arrives r1 ((m # msg) @ rest)"
    by auto
  from read_exact_arrives [OF r1(2)] obtain r2
    where r2: "read_exact (length msg + 1) r1 = Some (Some (m # msg), r2)" "arrives r2 rest"
    by auto
  show ?thesis
    using r1 r2 frame_fits_length [OF assms(1)]
    by (simp add: receive_frame_def header_length_inverse del: of_nat_add of_nat_Suc)
qed

text \<open>
  A framing in general: what is put on the wire for a message, and how one message is taken from
  what arrives.  With the law for one message, a sequence of messages is received as it was sent,
  whatever the pieces it arrives in.
\<close>

locale framing =
  fixes put :: "'m \<Rightarrow> 'b list" and take_one :: "'s \<Rightarrow> ('m \<times> 's) option" and arriving :: "'s \<Rightarrow> 'b list \<Rightarrow> bool"
    and fits :: "'m \<Rightarrow> bool"
  assumes one_received: "fits m \<Longrightarrow> arriving s (put m @ rest) \<Longrightarrow> \<exists>s'. take_one s = Some (m, s') \<and> arriving s' rest"
begin

fun take_many :: "nat \<Rightarrow> 's \<Rightarrow> ('m list \<times> 's) option" where
  "take_many 0 s = Some ([], s)"
| "take_many (Suc n) s =
     (case take_one s of None \<Rightarrow> None
      | Some (m, s1) \<Rightarrow> (case take_many n s1 of None \<Rightarrow> None | Some (ms, s2) \<Rightarrow> Some (m # ms, s2)))"

lemma all_received:
  "list_all fits ms \<Longrightarrow> arriving s (concat (map put ms) @ rest) \<Longrightarrow>
     \<exists>s'. take_many (length ms) s = Some (ms, s') \<and> arriving s' rest"
proof (induction ms arbitrary: s)
  case Nil
  then show ?case by simp
next
  case (Cons m ms)
  then obtain s1 where s1: "take_one s = Some (m, s1)" "arriving s1 (concat (map put ms) @ rest)"
    using one_received [of m s "concat (map put ms) @ rest"] by auto
  with Cons.IH [of s1] Cons.prems show ?case by auto
qed

end

text \<open>The frames of the dispatch client: a frame is its method byte and the message.\<close>

definition put_frame :: "byte \<times> byte list \<Rightarrow> byte list" where
  "put_frame f = frame_bytes (fst f) (snd f)"

definition take_frame :: "sock_read list \<Rightarrow> ((byte \<times> byte list) \<times> sock_read list) option" where
  "take_frame rs =
     (case receive_frame rs of Some (b # bs, rs') \<Rightarrow> Some ((b, bs), rs') | _ \<Rightarrow> None)"

interpretation wire: framing put_frame take_frame arrives "\<lambda>f. frame_fits (snd f)"
  by unfold_locales (auto simp: put_frame_def take_frame_def dest!: frame_received)

fun receive_frames :: "nat \<Rightarrow> sock_read list \<Rightarrow> ((byte \<times> byte list) list \<times> sock_read list) option" where
  "receive_frames 0 rs = Some ([], rs)"
| "receive_frames (Suc n) rs = do {
     (f, rs1) \<leftarrow> take_frame rs;
     (fs, rs2) \<leftarrow> receive_frames n rs1;
     Some (f # fs, rs2)
   }"

lemma receive_frames_many: "receive_frames n rs = wire.take_many n rs"
  by (induction n arbitrary: rs) (auto split: option.splits)

text \<open>
  C37.  Whatever the pieces in which the bytes of any number of frames arrive over the dispatch socket,
  reading that many frames gives exactly the methods and messages that were framed, in their order,
  and leaves what follows them unread, for messages below the limit of one megabyte.
\<close>

theorem frames_roundtrip:
  assumes "\<forall>f\<in>set fs. frame_fits (snd f)" and "arrives rs (concat (map put_frame fs) @ rest)"
  shows "\<exists>rs'. receive_frames (length fs) rs = Some (fs, rs') \<and> arrives rs' rest"
  using wire.all_received [of fs rs rest] assms by (simp add: receive_frames_many list_all_iff)

theorem frames_roundtrip_witness:
  "\<exists>rs'. receive_frames 2 [Got [3, 0], Got [0, 0, 1], Got [7, 8, 2, 0, 0], Got [0, 6, 9, 5]] =
           Some ([(1, [7, 8]), (6, [9])], rs') \<and> arrives rs' [5]"
proof -
  have "arrives [Got [3, 0], Got [0, 0, 1], Got [7, 8, 2, 0, 0], Got [0, 6, 9, 5]]
          (concat (map put_frame [(1, [7, 8]), (6, [9])]) @ [5])"
    by (simp add: arrives_Cons put_frame_def frame_bytes_def length_header_def)
  then show ?thesis
    using frames_roundtrip [of "[(1, [7, 8]), (6, [9])]"] by (simp add: frame_fits_def numeral_2_eq_2)
qed

section \<open>One call\<close>

text \<open>
  What is on record as sent after a step: the same request some number of times more, at most \<open>n\<close>;
  the delay before the next connection stays in its range.
\<close>

definition delay_ok :: "CapnpClient \<Rightarrow> bool" where
  "delay_ok c \<longleftrightarrow> 50 \<le> cc_delay_ms c \<and> cc_delay_ms c \<le> 3000"

lemma delay_doubles: "50 \<le> d \<Longrightarrow> d \<le> 3000 \<Longrightarrow> 50 \<le> min (d * 2) 3000 \<and> min (d * 2) (3000 :: 32 word) \<le> 3000"
  unfolding min_def by (auto simp: word_le_nat_alt unat_mult_lem [THEN iffD1])

lemma back_off_delay: "delay_ok c \<Longrightarrow> delay_ok (back_off w c)"
  using delay_doubles [of "cc_delay_ms c"] by (simp add: delay_ok_def back_off_def client_now_def)

lemma back_off_sent [simp]: "cc_sent (back_off w c) = cc_sent c"
  by (simp add: back_off_def client_now_def)

lemma back_off_open [simp]: "cc_open (back_off w c) = cc_open c"
  by (simp add: back_off_def client_now_def)

lemma client_disconnect_sent [simp]: "cc_sent (client_disconnect w c) = cc_sent c"
  by (simp add: client_disconnect_def)

lemma client_disconnect_closed [simp]: "\<not> cc_open (client_disconnect w c)"
  by (simp add: client_disconnect_def)

lemma client_disconnect_delay: "delay_ok c \<Longrightarrow> delay_ok (client_disconnect w c)"
  using back_off_delay [of "c\<lparr>cc_open := False\<rparr>" w] by (auto simp: client_disconnect_def delay_ok_def)

lemma dial_keeps:
  assumes "dial w c = (ok, c')"
  shows "cc_sent c' = cc_sent c" and "delay_ok c \<Longrightarrow> delay_ok c'" and "ok \<longrightarrow> cc_open c'"
  using assms
  by (auto simp: dial_def client_now_def Let_def delay_ok_def back_off_delay [unfolded delay_ok_def] split: if_splits)

lemma client_ensure_keeps:
  assumes "client_ensure w c = Some (ok, c')"
  shows "cc_sent c' = cc_sent c" and "delay_ok c \<Longrightarrow> delay_ok c'" and "ok \<longrightarrow> cc_open c'"
proof -
  consider ps p where "cc_open c" "sk_peeks (cc_script c) = p # ps" "p = PeekClosed"
      "dial w (client_disconnect w (c\<lparr>cc_script := (cc_script c)\<lparr>sk_peeks := ps\<rparr>\<rparr>)) = (ok, c')"
    | ps where "cc_open c" "ok" "c' = c\<lparr>cc_script := (cc_script c)\<lparr>sk_peeks := ps\<rparr>\<rparr>"
    | "dial w c = (ok, c')"
    using assms by (auto simp: client_ensure_def Let_def split: if_splits list.splits)
  then have "cc_sent c' = cc_sent c \<and> (delay_ok c \<longrightarrow> delay_ok c') \<and> (ok \<longrightarrow> cc_open c')"
  proof cases
    case 1
    have "delay_ok c \<Longrightarrow> delay_ok (client_disconnect w (c\<lparr>cc_script := (cc_script c)\<lparr>sk_peeks := ps\<rparr>\<rparr>))"
      by (rule client_disconnect_delay) (simp add: delay_ok_def)
    then show ?thesis using dial_keeps [OF 1(4)] by simp
  next
    case 2
    then show ?thesis by (simp add: delay_ok_def)
  next
    case 3
    then show ?thesis using dial_keeps [OF 3] by simp
  qed
  then show "cc_sent c' = cc_sent c" and "delay_ok c \<Longrightarrow> delay_ok c'" and "ok \<longrightarrow> cc_open c'" by auto
qed

lemma write_all_bytes_keeps:
  assumes "write_all_bytes n c = Some (ok, c')"
  shows "cc_sent c' = cc_sent c \<and> cc_open c' = cc_open c \<and> cc_delay_ms c' = cc_delay_ms c"
  using assms by (auto simp: write_all_bytes_def split: bind_splits)

lemma send_frame_keeps:
  assumes "send_frame m msg c = Some (sent, c')"
  shows "cc_sent c' = cc_sent c @ (if sent then [(m, msg)] else []) \<and> cc_delay_ms c' = cc_delay_ms c"
  using assms by (auto simp: send_frame_def split: bind_splits if_splits dest!: write_all_bytes_keeps)

lemma recv_frame_keeps:
  assumes "recv_frame c = Some (answer, c')"
  shows "cc_sent c' = cc_sent c \<and> cc_delay_ms c' = cc_delay_ms c"
  using assms by (auto simp: recv_frame_def split: bind_splits if_splits)

lemma exchange_step [consumes 1, case_names unreachable replied again]:
  assumes "exchange_tries (Suc n) w m msg c = Some (answer, c')"
  obtains "client_ensure w c = Some (False, c')" and "answer = []"
  | c1 c2 where "client_ensure w c = Some (True, c1)" and "send_frame m msg c1 = Some (True, c2)"
      and "recv_frame c2 = Some (answer, c')" and "answer \<noteq> []"
  | c1 sent c2 c3 where "client_ensure w c = Some (True, c1)" and "send_frame m msg c1 = Some (sent, c2)"
      and "c3 = c2 \<or> recv_frame c2 = Some ([], c3)" and "exchange_tries n w m msg (client_disconnect w c3) = Some (answer, c')"
proof -
  from assms obtain ok c1 where e: "client_ensure w c = Some (ok, c1)" by (auto split: bind_splits)
  show thesis
  proof (cases ok)
    case False
    then show thesis using assms e that(1) by simp
  next
    case True
    have e': "client_ensure w c = Some (True, c1)" using e True by simp
    with assms obtain sent c2 where s: "send_frame m msg c1 = Some (sent, c2)" by (auto split: bind_splits)
    with assms e True obtain a c3 where r: "(if sent then recv_frame c2 else Some ([], c2)) = Some (a, c3)"
      by (auto split: bind_splits)
    show thesis
    proof (cases "a = []")
      case a: True
      then have "c3 = c2 \<or> recv_frame c2 = Some ([], c3)" using r by (auto split: if_splits)
      moreover have "exchange_tries n w m msg (client_disconnect w c3) = Some (answer, c')" using assms e True s r a by simp
      ultimately show thesis using that(3) [OF e' s] by blast
    next
      case a: False
      then have "sent" using r by (auto split: if_splits)
      moreover have "a = answer" "c3 = c'" using assms e True s r a by simp_all
      ultimately show thesis using that(2) [OF e'] s r a by simp
    qed
  qed
qed

lemma exchange_tries_keeps:
  assumes "exchange_tries n w m msg c = Some (answer, c')"
  shows "(\<exists>k\<le>n. cc_sent c' = cc_sent c @ replicate k (m, msg) \<and> (answer \<noteq> [] \<longrightarrow> 0 < k)) \<and> (delay_ok c \<longrightarrow> delay_ok c')"
  using assms
proof (induction n arbitrary: c)
  case 0
  then show ?case by simp
next
  case (Suc n)
  from Suc.prems show ?case
  proof (cases rule: exchange_step)
    case unreachable
    then show ?thesis using client_ensure_keeps [OF unreachable(1)] by (auto intro!: exI [of _ 0])
  next
    case (replied c1 c2)
    then show ?thesis
      using client_ensure_keeps [OF replied(1)] send_frame_keeps [OF replied(2)] recv_frame_keeps [OF replied(3)]
      by (auto simp: delay_ok_def intro!: exI [of _ 1])
  next
    case (again c1 sent c2 c3)
    have c3: "cc_sent c3 = cc_sent c @ (if sent then [(m, msg)] else [])" "delay_ok c \<longrightarrow> delay_ok c3"
      using client_ensure_keeps [OF again(1)] send_frame_keeps [OF again(2)] again(3)
      by (auto simp: delay_ok_def dest!: recv_frame_keeps)
    from Suc.IH [OF again(4)] obtain k where "k \<le> n" "cc_sent c' = cc_sent c3 @ replicate k (m, msg)"
        "answer \<noteq> [] \<longrightarrow> 0 < k" "delay_ok (client_disconnect w c3) \<longrightarrow> delay_ok c'"
      by auto
    then show ?thesis
      using c3 client_disconnect_delay [of c3 w] by (intro conjI exI [of _ "if sent then Suc k else k"]) auto
  qed
qed

lemma call_keeps:
  assumes "call cp w m msg c = Some (answer, c')"
  shows "\<exists>k\<le>2. cc_sent c' = cc_sent c @ replicate k (method_code m, cp_write cp msg) \<and> (answer \<noteq> [] \<longrightarrow> 0 < k)"
    and "delay_ok c \<Longrightarrow> delay_ok c'"
  using exchange_tries_keeps [of 2 w "method_code m" "cp_write cp msg" c answer c'] assms
  by (auto simp: call_def exchange_def)

section \<open>Answers are believed only when they answer the question\<close>

text \<open>A decoded answer to a request that this call sent.\<close>

definition reply_decoded :: "capnp_codec \<Rightarrow> Method \<Rightarrow> message \<Rightarrow> CapnpClient \<Rightarrow> CapnpClient \<Rightarrow> byte list \<Rightarrow> bool" where
  "reply_decoded cp m msg c c' payload \<longleftrightarrow>
     (\<exists>k. k \<in> {1, 2} \<and> cc_sent c' = cc_sent c @ replicate k (method_code m, cp_write cp msg)) \<and>
     length payload mod 8 = 0"

lemma well_framed_reply:
  assumes "call cp w m msg c = Some (answer, c')" and "well_framed m answer"
  shows "reply_decoded cp m msg c c' (tl answer)"
proof -
  from call_keeps(1) [OF assms(1)] assms(2) obtain k where k: "k \<le> 2" "0 < k"
      "cc_sent c' = cc_sent c @ replicate k (method_code m, cp_write cp msg)"
    by (auto simp: well_framed_def)
  then have "k = 1 \<or> k = 2" by auto
  with k(3) assms(2) show ?thesis by (auto simp: reply_decoded_def well_framed_def)
qed



section \<open>Uploads\<close>

text \<open>The chunks on record, each sent once, or twice when its first try got no answer.\<close>

definition chunks_sent :: "capnp_codec \<Rightarrow> BlobChunk list \<Rightarrow> (byte \<times> byte list) list \<Rightarrow> bool" where
  "chunks_sent cp bs out \<longleftrightarrow>
     (\<exists>ks. length ks = length bs \<and> set ks \<subseteq> {1, 2} \<and>
        out = concat (map (\<lambda>(k, b). replicate k (method_code UploadBlob, cp_write cp (BlobMessage b))) (zip ks bs)))"

text \<open>A cut of a text into numbered chunks of at most 512 KiB, the last one flagged and no other.\<close>

definition cuts :: "string \<Rightarrow> string \<Rightarrow> nat \<Rightarrow> BlobChunk list \<Rightarrow> bool" where
  "cuts blob payload i bs \<longleftrightarrow>
     concat (map bc_data bs) = payload \<and> map bc_index bs = map of_nat [i..<i + length bs] \<and>
     (\<forall>b\<in>set bs. bc_blob_id b = blob \<and> length (bc_data b) \<le> kBlobChunkBytes) \<and>
     map bc_is_last bs = replicate (length bs - 1) False @ (if bs = [] then [] else [True])"

lemma chunks_sent_Nil [simp]: "chunks_sent cp [] out \<longleftrightarrow> out = []"
  by (simp add: chunks_sent_def)

lemma chunks_sent_Cons:
  assumes "k \<in> {1, 2}" and "chunks_sent cp bs out"
  shows "chunks_sent cp (b # bs) (replicate k (method_code UploadBlob, cp_write cp (BlobMessage b)) @ out)"
proof -
  from assms(2) obtain ks where "length ks = length bs" "set ks \<subseteq> {1, 2}"
      "out = concat (map (\<lambda>(k, b). replicate k (method_code UploadBlob, cp_write cp (BlobMessage b))) (zip ks bs))"
    by (auto simp: chunks_sent_def)
  with assms(1) show ?thesis unfolding chunks_sent_def by (intro exI [of _ "k # ks"]) auto
qed

lemma cuts_Nil [simp]: "cuts blob payload i [] \<longleftrightarrow> payload = []"
  by (auto simp: cuts_def)

lemma cuts_Cons:
  assumes "cuts blob rest (Suc i) bs" and "bc_blob_id b = blob" and "length (bc_data b) \<le> kBlobChunkBytes"
    and "bc_index b = of_nat i" and "bc_is_last b \<longleftrightarrow> bs = []"
  shows "cuts blob (bc_data b @ rest) i (b # bs)"
proof -
  have r: "[i..<i + length (b # bs)] = i # [Suc i..<Suc i + length bs]" by (simp only: list.size add_Suc_right add_Suc add_0_right upt_rec [of i]) simp
  have l: "bs \<noteq> [] \<Longrightarrow> replicate (length bs) False = False # replicate (length bs - 1) False"
    by (cases bs) simp_all
  show ?thesis using assms l unfolding cuts_def r by auto
qed

lemma word_index_zero: "i < 2 ^ 32 \<Longrightarrow> (of_nat i :: 32 word) = 0 \<longleftrightarrow> i = 0"
  by (auto simp: word_of_nat_eq_0_iff dest: dvd_imp_le)

text \<open>One round of the loop.\<close>

lemma upload_round:
  assumes "upload_from cp w blob payload off idx res c = Some (Inr r, c')" and "off < length payload \<or> idx = 0"
    and "bu_accepted r" and "\<not> bu_accepted res"
  obtains k and a :: BlobChunkAck and c1 where "k \<in> {1, 2}"
    and "cc_sent c1 = cc_sent c @ replicate k (method_code UploadBlob, cp_write cp (BlobMessage (blob_chunk blob payload off idx)))"
    and "upload_from cp w blob payload (off + min kBlobChunkBytes (length payload - off)) (idx + 1)
           (res\<lparr>bu_digest := ba_digest a, bu_total_bytes := ba_total_bytes a\<rparr>) c1 = Some (Inr r, c')"
proof -
  let ?msg = "BlobMessage (blob_chunk blob payload off idx)"
  from assms(1,2) obtain answer c1 where a: "call cp w UploadBlob ?msg c = Some (answer, c1)"
    by (subst (asm) upload_from.simps) (auto split: bind_splits)
  have ok: "\<not> (length answer \<le> 1 \<or> \<not> well_framed UploadBlob answer)"
    using assms a by (subst (asm) upload_from.simps) (auto split: if_splits)
  with assms a obtain ba where ba: "cp_read_blob cp (tl answer) = Some ba" "ba_accepted ba"
    by (subst (asm) upload_from.simps) (auto split: if_splits option.splits)
  from well_framed_reply [OF a] ok obtain k where "k \<in> {1, 2}"
      "cc_sent c1 = cc_sent c @ replicate k (method_code UploadBlob, cp_write cp ?msg)"
    by (auto simp: reply_decoded_def)
  moreover have "upload_from cp w blob payload (off + min kBlobChunkBytes (length payload - off)) (idx + 1)
       (res\<lparr>bu_digest := ba_digest ba, bu_total_bytes := ba_total_bytes ba\<rparr>) c1 = Some (Inr r, c')"
    using assms(1,2) a ok ba by (subst (asm) upload_from.simps) auto
  ultimately show ?thesis by (rule that)
qed

lemma upload_from_cuts:
  assumes "upload_from cp w blob payload off (of_nat i) res c = Some (Inr r, c')" and "bu_accepted r"
    and "\<not> bu_accepted res" and "off \<le> length payload" and "i + (length payload - off) < 2 ^ 32"
  shows "\<exists>bs out. cuts blob (drop off payload) i bs \<and> cc_sent c' = cc_sent c @ out \<and> chunks_sent cp bs out \<and>
           (bs = [] \<longleftrightarrow> off = length payload \<and> i \<noteq> 0)"
  using assms
proof (induction "2 * (length payload - off) + (if i = 0 then 1 else 0)" arbitrary: off i res c rule: less_induct)
  case less
  have i0: "(of_nat i :: 32 word) = 0 \<longleftrightarrow> i = 0" using less.prems(5) by (intro word_index_zero) simp
  show ?case
  proof (cases "off < length payload \<or> i = 0")
    case False
    then show ?thesis using less.prems i0 by (auto simp: upload_from.simps)
  next
    case True
    let ?n = "min kBlobChunkBytes (length payload - off)"
    let ?b = "blob_chunk blob payload off (of_nat i)"
    from True i0 have "off < length payload \<or> (of_nat i :: 32 word) = 0" by simp
    obtain k and a :: BlobChunkAck and c1 where k: "k \<in> {1, 2}"
        "cc_sent c1 = cc_sent c @ replicate k (method_code UploadBlob, cp_write cp (BlobMessage ?b))"
        "upload_from cp w blob payload (off + ?n) (of_nat i + 1)
           (res\<lparr>bu_digest := ba_digest a, bu_total_bytes := ba_total_bytes a\<rparr>) c1 = Some (Inr r, c')"
      by (rule upload_round [OF less.prems(1) \<open>off < length payload \<or> (of_nat i :: 32 word) = 0\<close> less.prems(2,3)])
    have next_index: "(of_nat i + 1 :: 32 word) = of_nat (Suc i)" by simp
    have pos: "0 < kBlobChunkBytes" by (simp add: kBlobChunkBytes_def)
    have dec: "2 * (length payload - (off + ?n)) + (if Suc i = 0 then 1 else 0) <
        2 * (length payload - off) + (if i = 0 then 1 else 0)" using True pos by auto
    have lim: "off + ?n \<le> length payload" "Suc i + (length payload - (off + ?n)) < 2 ^ 32"
      using True pos less.prems(4,5) by (auto simp: min_def)
    from less.hyps [OF dec k(3) [unfolded next_index] less.prems(2) _ lim] less.prems(3) obtain bs out
      where bs: "cuts blob (drop (off + ?n) payload) (Suc i) bs" "cc_sent c' = cc_sent c1 @ out" "chunks_sent cp bs out"
        "bs = [] \<longleftrightarrow> off + ?n = length payload"
      by auto
    have data: "drop off payload = bc_data ?b @ drop (off + ?n) payload"
      by (metis (no_types, lifting) BlobChunk.select_convs(4) add.commute append_take_drop_id blob_chunk_def drop_drop)
    have "cuts blob (drop off payload) i (?b # bs)"
      unfolding data using bs(1,4) lim(1) by (intro cuts_Cons) (auto simp: blob_chunk_def Let_def)
    moreover have "chunks_sent cp (?b # bs) (replicate k (method_code UploadBlob, cp_write cp (BlobMessage ?b)) @ out)"
      by (rule chunks_sent_Cons [OF k(1) bs(3)])
    ultimately show ?thesis using k(2) bs(2) True
      by (intro exI [of _ "?b # bs"] exI conjI) (auto simp: append_assoc)
  qed
qed

text \<open>
  C38.  An upload that is reported as accepted transferred the whole body: the chunk messages sent
  are, each once or twice and in order, a cut of the body into chunks of at most 512 KiB, numbered
  from 0, whose contents joined are the body and of which exactly the last is flagged as last; an
  empty body is one empty chunk.
\<close>

theorem upload_is_complete:
  assumes "rpc_upload_blob cp w blob payload c = Some (Inr r, c')" and "bu_accepted r" and "length payload < 2 ^ 32"
  shows "\<exists>bs out. cuts blob payload 0 bs \<and> bs \<noteq> [] \<and> cc_sent c' = cc_sent c @ out \<and> chunks_sent cp bs out"
  using upload_from_cuts [of cp w blob payload 0 0 _ c r c'] assms by (fastforce simp: rpc_upload_blob_def)

section \<open>A platform that answers\<close>

text \<open>
  A concrete instance of the parameters: a codec that writes one word for every message and reads one
  fixed answer of each kind, and a socket that takes every frame and answers the method \<open>m\<close>.
\<close>

definition demo_word :: "byte list" where
  "demo_word = [0, 0, 0, 0, 0, 0, 0, 0]"

definition demo_grant :: WireDispatchResponse where
  "demo_grant = \<lparr>wd_outcome = 0, wd_auth_version = 7, wd_auth_api_key_id = Some 4, wd_upstream = None,
     wd_wait_timeout_ms = None, wd_reject = None, wd_lease_token = ''lease-1'', wd_protocol_version = 3,
     wd_replay_status_code = 0, wd_replay_content_type = [], wd_replay_body = []\<rparr>"

definition demo_codec :: capnp_codec where
  "demo_codec = \<lparr>cp_write = (\<lambda>_. demo_word), cp_read_dispatch = (\<lambda>_. Some demo_grant),
     cp_read_media = (\<lambda>_. None), cp_read_ack = (\<lambda>_. Some \<lparr>accepted = True, duplicate = False, retryable = False, error_code = []\<rparr>),
     cp_read_policy = (\<lambda>_. Some \<lparr>evaluated = True, allowed = True, cp_retryable = False, cp_error_code = [],
       cp_matched_rule_id = 0, cp_message = []\<rparr>),
     cp_read_blob = (\<lambda>_. Some \<lparr>ba_accepted = True, ba_error_code = [], ba_digest = ''d1'', ba_total_bytes = 2\<rparr>),
     cp_double = (\<lambda>_. Finite 1)\<rparr>"

definition demo_world :: "Method \<Rightarrow> capnp_world" where
  "demo_world m = \<lparr>cw_net = (\<lambda>_. \<lparr>sk_accepts = True, sk_peeks = [PeekClosed], sk_writes = [4, 1, 8],
       sk_reads = [Got [9, 0], Got (0 # 0 # answer_code m # demo_word)]\<rparr>),
     cw_now = (\<lambda>n. 1000000 * int n)\<rparr>"

definition demo_connected :: "Method \<Rightarrow> CapnpClient" where
  "demo_connected m = fresh_client\<lparr>cc_open := True, cc_script := cw_net (demo_world m) 0, cc_dials := 1, cc_ticks := 1,
     cc_reconnects := 1\<rparr>"

lemma demo_ensure: "client_ensure (demo_world m) fresh_client = Some (True, demo_connected m)"
  by (simp add: client_ensure_def dial_def client_now_def Let_def fresh_client_def demo_world_def demo_connected_def)

lemma demo_send:
  "send_frame m0 demo_word (demo_connected m) = Some (True, (demo_connected m)\<lparr>
     cc_script := (cw_net (demo_world m) 0)\<lparr>sk_writes := []\<rparr>, cc_sent := [(m0, demo_word)]\<rparr>)"
  by (simp add: send_frame_def write_all_bytes_def demo_connected_def fresh_client_def demo_world_def demo_word_def)

lemma demo_receive: "\<exists>rs. receive_frame (sk_reads (cw_net (demo_world m) 0)) = Some (answer_code m # demo_word, rs)"
proof -
  have "arrives (sk_reads (cw_net (demo_world m) 0)) (frame_bytes (answer_code m) demo_word @ [])"
    by (simp add: demo_world_def arrives_Cons frame_bytes_def length_header_def demo_word_def)
  from frame_received [OF _ this] show ?thesis by (auto simp: frame_fits_def demo_word_def)
qed

lemma demo_call:
  "\<exists>c'. call demo_codec (demo_world m) m msg fresh_client = Some (answer_code m # demo_word, c')"
proof -
  obtain rs where "receive_frame (sk_reads (cw_net (demo_world m) 0)) = Some (answer_code m # demo_word, rs)"
    using demo_receive by blast
  then show ?thesis
    by (simp add: call_def exchange_def numeral_2_eq_2 demo_ensure demo_codec_def demo_send recv_frame_def)
      (simp add: demo_connected_def)
qed

lemma demo_well_framed: "well_framed m (answer_code m # demo_word)"
  by (simp add: well_framed_def demo_word_def)



lemma demo_read_blob:
  "cp_read_blob demo_codec bytes = Some \<lparr>ba_accepted = True, ba_error_code = [], ba_digest = ''d1'', ba_total_bytes = 2\<rparr>"
  by (simp add: demo_codec_def)

theorem upload_is_complete_witness:
  "\<exists>r c' bs out. rpc_upload_blob demo_codec (demo_world UploadBlob) ''b1'' ''hi'' fresh_client = Some (Inr r, c') \<and>
     bu_accepted r \<and> cuts ''b1'' ''hi'' 0 bs \<and> bs \<noteq> [] \<and> cc_sent c' = out \<and> chunks_sent demo_codec bs out"
proof -
  let ?r = "\<lparr>bu_accepted = True, bu_error_code = [], bu_blob_id = ''b1'', bu_digest = ''d1'', bu_total_bytes = 2\<rparr>"
  obtain c' where "call demo_codec (demo_world UploadBlob) UploadBlob (BlobMessage (blob_chunk ''b1'' ''hi'' 0 0)) fresh_client =
      Some (answer_code UploadBlob # demo_word, c')" using demo_call by blast
  then have run: "rpc_upload_blob demo_codec (demo_world UploadBlob) ''b1'' ''hi'' fresh_client = Some (Inr ?r, c')"
    by (simp add: rpc_upload_blob_def upload_from.simps demo_read_blob demo_well_framed [unfolded demo_word_def]
        demo_word_def kBlobChunkBytes_def)
  show ?thesis
    using run upload_is_complete [OF run] by (auto simp: fresh_client_def)
qed

section \<open>Reconnection\<close>

text \<open>The clients a process can have: one that was connected, used for any calls, and dropped.\<close>

inductive used_client :: "capnp_world \<Rightarrow> CapnpClient \<Rightarrow> bool" for w where
  connected: "connect_client w = Some c \<Longrightarrow> used_client w c"
| called: "used_client w c \<Longrightarrow> exchange w m msg c = Some (answer, c') \<Longrightarrow> used_client w c'"
| asked: "used_client w c \<Longrightarrow> is_connected w c = Some (ok, c') \<Longrightarrow> used_client w c'"
| dropped: "used_client w c \<Longrightarrow> used_client w (client_disconnect w c)"

text \<open>The earliest reconnection is never more than three seconds after the latest time seen.\<close>

definition steady :: "capnp_world \<Rightarrow> bool" where
  "steady w \<longleftrightarrow> mono (cw_now w) \<and> 0 \<le> cw_now w 0"

definition wait_ok :: "capnp_world \<Rightarrow> CapnpClient \<Rightarrow> bool" where
  "wait_ok w c \<longleftrightarrow> delay_ok c \<and> cc_after c \<le> cw_now w (cc_ticks c) + 3000000000"

lemma wait_ok_update [simp]:
  "wait_ok w (c\<lparr>cc_script := x\<rparr>) = wait_ok w c" "wait_ok w (c\<lparr>cc_sent := y\<rparr>) = wait_ok w c"
  "wait_ok w (c\<lparr>cc_open := b\<rparr>) = wait_ok w c" "wait_ok w (c\<lparr>cc_dials := n\<rparr>) = wait_ok w c"
  by (simp_all add: wait_ok_def delay_ok_def)

lemma now_later: "steady w \<Longrightarrow> m \<le> n \<Longrightarrow> cw_now w m \<le> cw_now w n"
  by (simp add: steady_def monoD)

lemma back_off_wait:
  assumes "steady w" and "wait_ok w c"
  shows "wait_ok w (back_off w c)"
proof -
  have "uint (cc_delay_ms c) \<le> 3000" using assms(2) by (simp add: wait_ok_def delay_ok_def word_le_def)
  with assms back_off_delay [of c w] now_later [OF assms(1), of "cc_ticks c" "Suc (cc_ticks c)"] show ?thesis
    by (simp add: wait_ok_def back_off_def client_now_def)
qed

lemma client_disconnect_wait: "steady w \<Longrightarrow> wait_ok w c \<Longrightarrow> wait_ok w (client_disconnect w c)"
  by (simp add: client_disconnect_def back_off_wait)

lemma dial_wait:
  assumes "steady w" and "wait_ok w c" and "dial w c = (ok, c')"
  shows "wait_ok w c'"
proof -
  let ?c1 = "c\<lparr>cc_ticks := Suc (cc_ticks c)\<rparr>"
  have c1: "wait_ok w ?c1"
    using assms(2) now_later [OF assms(1), of "cc_ticks c" "Suc (cc_ticks c)"] by (simp add: wait_ok_def delay_ok_def)
  then have "wait_ok w (back_off w (?c1\<lparr>cc_dials := Suc (cc_dials c)\<rparr>))"
    using assms(1) by (intro back_off_wait) (simp_all only: wait_ok_update)
  with assms(3) c1 show ?thesis
    by (auto simp: dial_def client_now_def Let_def wait_ok_def delay_ok_def split: if_splits)
qed

lemma client_ensure_wait:
  assumes "steady w" and "wait_ok w c" and "client_ensure w c = Some (ok, c')"
  shows "wait_ok w c'"
proof -
  have "wait_ok w (client_disconnect w (c\<lparr>cc_script := sc\<rparr>))" for sc
    using assms(1,2) by (intro client_disconnect_wait) simp_all
  with assms(2,3) show ?thesis
    by (auto simp: client_ensure_def Let_def split: if_splits list.splits intro: dial_wait [OF assms(1)])
qed

lemma send_frame_wait: "send_frame m msg c = Some (sent, c') \<Longrightarrow> wait_ok w c \<Longrightarrow> wait_ok w c'"
  by (auto simp: send_frame_def write_all_bytes_def split: bind_splits if_splits)

lemma recv_frame_wait: "recv_frame c = Some (answer, c') \<Longrightarrow> wait_ok w c \<Longrightarrow> wait_ok w c'"
  by (auto simp: recv_frame_def split: bind_splits if_splits)

lemma exchange_tries_wait:
  assumes "steady w"
  shows "wait_ok w c \<Longrightarrow> exchange_tries n w m msg c = Some (answer, c') \<Longrightarrow> wait_ok w c'"
proof (induction n arbitrary: c)
  case 0
  then show ?case by simp
next
  case (Suc n)
  from Suc.prems(2) show ?case
  proof (cases rule: exchange_step)
    case unreachable
    then show ?thesis using client_ensure_wait [OF assms Suc.prems(1)] by blast
  next
    case (replied c1 c2)
    have "wait_ok w c1" by (rule client_ensure_wait [OF assms Suc.prems(1) replied(1)])
    then show ?thesis using send_frame_wait [OF replied(2)] recv_frame_wait [OF replied(3)] by blast
  next
    case (again c1 sent c2 c3)
    have "wait_ok w c1" by (rule client_ensure_wait [OF assms Suc.prems(1) again(1)])
    then have "wait_ok w c3" using send_frame_wait [OF again(2)] recv_frame_wait [of c2 "[]" c3] again(3) by blast
    then show ?thesis using Suc.IH [OF _ again(4)] client_disconnect_wait [OF assms] by blast
  qed
qed

text \<open>
  The dispatch client never stays away from the platform for long: with a clock that does not
  run backwards, whatever calls were made and however they ended, the delay before the next
  connection is between 50 milliseconds and 3 seconds, and the next call made 3 seconds or more
  after the present time dials again.
\<close>

theorem reconnect_delay_bounded:
  assumes "steady w" and "used_client w c"
  shows "50 \<le> cc_delay_ms c \<and> cc_delay_ms c \<le> 3000 \<and> cc_after c \<le> cw_now w (cc_ticks c) + 3000000000"
proof -
  from assms(2) have "wait_ok w c"
  proof induction
    case (connected c)
    have "wait_ok w fresh_client" using assms(1) by (simp add: wait_ok_def delay_ok_def fresh_client_def steady_def)
    with connected show ?case by (auto simp: connect_client_def dest: client_ensure_wait [OF assms(1)])
  next
    case (called c m msg answer c')
    then show ?case unfolding exchange_def by (blast intro: exchange_tries_wait [OF assms(1)])
  next
    case (asked c ok c')
    then show ?case by (auto simp: is_connected_def dest: client_ensure_wait [OF assms(1)])
  next
    case (dropped c)
    show ?case by (rule client_disconnect_wait [OF assms(1) dropped(2)])
  qed
  then show ?thesis by (simp add: wait_ok_def delay_ok_def)
qed

text \<open>
  C40.  A connection that the platform closed while it was idle costs the next call: it finds the
  socket closed, drops it, and gives up at once because the reconnection is 50 milliseconds away, so
  the second try of \<^verbatim>\<open>exchange\<close> is never made and nothing is sent.
\<close>

theorem stale_connection_fails:
  assumes "cc_open c" and "sk_peeks (cc_script c) = PeekClosed # ps" and "delay_ok c"
    and "cw_now w (Suc (cc_ticks c)) < cw_now w (cc_ticks c) + 50000000"
  shows "\<exists>c'. exchange w m msg c = Some ([], c') \<and> cc_sent c' = cc_sent c \<and> cc_dials c' = cc_dials c \<and> \<not> cc_open c'"
proof -
  have "50 \<le> uint (cc_delay_ms c)" using assms(3) by (simp add: delay_ok_def word_le_def)
  then have "cw_now w (Suc (cc_ticks c)) < cw_now w (cc_ticks c) + 1000000 * uint (cc_delay_ms c)"
    using assms(4) by linarith
  with assms(1,2) show ?thesis
    by (simp add: exchange_def numeral_2_eq_2 client_ensure_def client_disconnect_def back_off_def client_now_def dial_def
        del: exchange_tries.simps(2)) (simp add: client_ensure_def client_disconnect_def back_off_def client_now_def dial_def)
qed

lemma demo_steady: "steady (demo_world m)"
  by (simp add: steady_def demo_world_def mono_def)

lemma demo_used: "used_client (demo_world m) (demo_connected m)"
  by (rule used_client.connected) (simp add: connect_client_def demo_ensure)

theorem reconnect_delay_bounded_witness:
  "used_client (demo_world Abort) (client_disconnect (demo_world Abort) (demo_connected Abort)) \<and>
   cc_after (client_disconnect (demo_world Abort) (demo_connected Abort)) \<le> 2000000 + 3000000000"
proof -
  let ?c = "client_disconnect (demo_world Abort) (demo_connected Abort)"
  have u: "used_client (demo_world Abort) ?c" by (rule used_client.dropped [OF demo_used])
  have "cc_ticks ?c = 2"
    by (simp add: client_disconnect_def back_off_def client_now_def demo_connected_def fresh_client_def)
  then show ?thesis using reconnect_delay_bounded [OF demo_steady u] u by (simp add: demo_world_def)
qed

theorem stale_connection_fails_witness:
  "\<exists>c'. exchange (demo_world Abort) 3 demo_word (demo_connected Abort) = Some ([], c') \<and> cc_sent c' = [] \<and> cc_dials c' = 1"
  using stale_connection_fails [of "demo_connected Abort" "[]" "demo_world Abort" 3 demo_word]
  by (auto simp: demo_connected_def demo_world_def fresh_client_def delay_ok_def)

end
