(* ===== verification/Realtime_Bridge.thy ===== *)
theory Realtime_Bridge
  imports Lease_Protocol
begin

text \<open>
  The WebSocket sessions of \<^verbatim>\<open>GatewayHandler::bridge_realtime\<close>: how a session is opened (first event,
  dispatch, evidence, handshake), the relay of its two threads as a step relation over the shared
  counters, in which every interleaving of their steps is possible, and the settlement at the end.
  A step runs from one blocking call to the next, because the threads are coroutines of one core that
  switch only there.  What Photon's WebSockets deliver and return is an input of the steps.  The sends to the client and
  to the provider are kept as lists.
\<close>

section \<open>WebSocket endpoints\<close>

text \<open>What \<^verbatim>\<open>recv_frame\<close> gives: a frame (its length is the return value) or a negative value.\<close>

datatype ws_opcode = WsText | WsBinary | WsClose | WsOther

datatype ws_read = WsFrame ws_opcode string | WsFailed ws_opcode

datatype ws_close = NormalClosure | ProtocolError | PolicyViolation | InvalidFramePayloadData | InternalServerError

datatype ws_out = SendText string | SendBinary string | CloseWs ws_close string

text \<open>The session as the outside world has it: the first event, and what the HTTP client answers, the
  handshake as a function of the address, the headers that were inserted and the proxy.\<close>

record realtime_io =
  ri_first :: ws_read
  ri_http_client :: bool
  ri_connects :: "string \<Rightarrow> headers \<Rightarrow> string option \<Rightarrow> bool"
  ri_initial_send :: int

record session =
  se_dispatch :: DispatchResult
  se_request_id :: string
  se_model :: string
  se_start :: int
  se_first :: string
  se_first_opcode :: ws_opcode

definition ws_error :: "string \<Rightarrow> string \<Rightarrow> string" where
  \<open>ws_error code msg = ''{"type":"error","error":{"code":"'' @ code @ ''","message":"'' @ msg @ ''"}}''\<close>

section \<open>Opening a session\<close>

definition realtime_request :: "gateway_env \<Rightarrow> HttpRequest \<Rightarrow> ParsedRequest \<Rightarrow> string \<Rightarrow> string \<Rightarrow> int \<Rightarrow> string \<Rightarrow> DispatchRequest" where
  "realtime_request env req p first key_hash cached_version request_id =
     \<lparr>dq_api_key_hash = key_hash, dq_requested_model = parsed_model p,
      dq_session_hash = compute_session_hash env key_hash (parsed_user_id p) first (parsed_model p),
      dq_client_ip = hq_client_ip req, dq_request_id = request_id, dq_excluded_accounts = [],
      dq_cached_auth_version = cached_version, dq_endpoint = endpoint_code EndpointKind.Realtime,
      dq_metadata_user_id = parsed_user_id p, dq_stream = True, dq_operation = ''realtime_session'',
      dq_inbound_format = ''openai_responses'', dq_http_method = ''GET'', dq_request_path = hq_path req,
      dq_content_type = ''application/json'', dq_capability = ''realtime'', dq_idempotency_key = hq_idempotency_key req,
      dq_realtime_session = True, dq_force_platform = [], dq_request_fingerprint = [], dq_request_query = hq_query req,
      dq_request_body = first, dq_request_body_ref = [], dq_request_body_digest = [], dq_request_body_size = 0,
      dq_request_body_truncated = False\<rparr>"

definition known_auth_version :: "gateway_env \<Rightarrow> string \<Rightarrow> int gw" where
  "known_auth_version env key_hash =
     gw_bind (gw_get (\<lambda>s. cache_lookup (gs_cache s) key_hash)) (\<lambda>hit.
       case hit of
         Some snap \<Rightarrow> gw_return (version snap)
       | None \<Rightarrow> gw_bind (call_garnet env (auth_key key_hash)) (\<lambda>g.
           gw_return (if gr_found g then parse_auth_version (e_rj env) (gr_value g) else 0)))"

text \<open>The dispatch loop with its retry counter.\<close>

function realtime_dispatch :: "gateway_env \<Rightarrow> DispatchRequest \<Rightarrow> int \<Rightarrow> nat \<Rightarrow> DispatchResult gw" where
  "realtime_dispatch env rq deadline retries =
     gw_bind (call_dispatch env rq) (\<lambda>r.
       if dr_outcome r = Ok \<or> dr_outcome r = Reauth then gw_return r
       else if \<not> is_retryable_platform_dispatch r \<or> retries + 1 > 8 then gw_return r
       else gw_bind (now env) (\<lambda>t.
         if t \<ge> deadline then gw_return r
         else gw_then (sleep_us (usleep_arg (platform_dispatch_retry_delay_ms (int (retries + 1)))))
                (realtime_dispatch env rq deadline (retries + 1))))"
  by pat_completeness auto

termination
  by (relation "measure (\<lambda>(env, rq, deadline, retries). 8 - retries)") auto

declare realtime_dispatch.simps [simp del]

definition realtime_url :: "UpstreamTarget \<Rightarrow> string" where
  "realtime_url tg =
     (let url = photon_websocket_url (tgt_websocket_url tg)
      in if url = []
         then photon_websocket_url (tgt_base_url tg @ (if tgt_upstream_path tg = [] then ''/v1/responses'' else tgt_upstream_path tg))
         else url)"

definition realtime_headers :: "UpstreamTarget \<Rightarrow> headers" where
  "realtime_headers tg =
     tgt_auth_headers tg @ tgt_request_headers tg @
     (if tgt_websocket_protocol tg = [] then [] else [(''Sec-WebSocket-Protocol'', tgt_websocket_protocol tg)])"

definition realtime_proxy :: "UpstreamTarget \<Rightarrow> string option" where
  "realtime_proxy tg =
     (if tgt_proxy_url tg = [] then None
      else if tgt_proxy_username tg = [] then Some (tgt_proxy_url tg)
      else case find_sub ''://'' (tgt_proxy_url tg) of
             None \<Rightarrow> Some (tgt_proxy_url tg)
           | Some i \<Rightarrow> Some (take (i + 3) (tgt_proxy_url tg) @ tgt_proxy_username tg @ '':'' @ tgt_proxy_password tg @ ''@'' @
                         drop (i + 3) (tgt_proxy_url tg)))"

text \<open>The handshake is entered in the outbox and reported before it is made.\<close>

definition authorize_realtime :: "gateway_env \<Rightarrow> string \<Rightarrow> bool gw" where
  "authorize_realtime env lease =
     gw_then (store_evidence env lease ''forwarded'' ''realtime Provider handshake authorized'')
     (gw_bind (call_evidence env lease Forwarded ''realtime Provider handshake authorized'') (\<lambda>ack.
       gw_then (gw_when (acknowledged ack) (settle_stored_evidence env lease ''forwarded''))
         (gw_return (acknowledged ack))))"

definition give_back :: "gateway_env \<Rightarrow> string \<Rightarrow> string \<Rightarrow> LeaseAbortDisposition \<Rightarrow> ws_out list \<Rightarrow> (ws_out list \<times> session option) gw" where
  "give_back env lease reason disp outs =
     gw_bind (call_abort env lease reason disp 0) (\<lambda>_. gw_return (outs, None))"

definition connect_provider :: "gateway_env \<Rightarrow> realtime_io \<Rightarrow> session \<Rightarrow> (ws_out list \<times> session option) gw" where
  "connect_provider env io se =
     (let lease = dr_lease_token (se_dispatch se); tg = dr_upstream (se_dispatch se)
      in if \<not> validate_target_auth_headers (tgt_auth_headers tg)
         then give_back env lease ''invalid_upstream_auth_headers'' NoCharge
                [SendText (ws_error ''provider_protocol_error'' ''Provider authentication contract is invalid''),
                 CloseWs InternalServerError ''invalid upstream auth headers'']
         else if \<not> ri_http_client io
         then give_back env lease ''realtime_connect_failed'' NoCharge
                [CloseWs InternalServerError ''upstream client unavailable'']
         else gw_bind (authorize_realtime env lease) (\<lambda>ok.
           if \<not> ok
           then give_back env lease ''forward_evidence_unavailable'' NoCharge
                  [CloseWs InternalServerError ''dispatch evidence unavailable'']
           else if \<not> ri_connects io (realtime_url tg) (realtime_headers tg) (realtime_proxy tg)
           then give_back env lease ''realtime_connect_failed'' UnknownCharge
                  [SendText (ws_error ''provider_unavailable'' ''Realtime provider handshake failed''),
                   CloseWs InternalServerError ''upstream handshake failed'']
           else if ri_initial_send io \<le> 0
           then give_back env lease ''realtime_initial_send_failed'' UnknownCharge
                  [CloseWs InternalServerError ''upstream send failed'']
           else gw_return ([], Some se)))"

definition open_session :: "gateway_env \<Rightarrow> HttpRequest \<Rightarrow> realtime_io \<Rightarrow> (ws_out list \<times> session option) gw" where
  "open_session env req io =
     (case ri_first io of
        WsFrame op_code first \<Rightarrow>
          if first = [] \<or> (op_code \<noteq> WsText \<and> op_code \<noteq> WsBinary)
          then gw_return ([CloseWs ProtocolError ''first realtime event must be JSON''], None)
          else gw_bind (gw_lift (parse (e_rj env) first OpenAIResponses)) (\<lambda>p0.
            let p = (if parsed_model p0 = [] then p0\<lparr>parsed_model := parse_realtime_model (e_rj env) first\<rparr> else p0);
                raw_key = extract_api_key req; key_hash = hash_key (e_sha256 env) raw_key
            in if parsed_model p = []
               then gw_return ([SendText (ws_error ''invalid_request'' ''model is required''),
                                CloseWs InvalidFramePayloadData ''model is required''], None)
               else if raw_key = [] then gw_return ([CloseWs PolicyViolation ''missing API key''], None)
               else gw_bind (known_auth_version env key_hash) (\<lambda>cached_version.
                 gw_bind (now env) (\<lambda>t.
                 let request_id = (if hq_request_id req = [] then fresh_request_id env t else hq_request_id req)
                 in gw_bind (now env) (\<lambda>t2.
                    gw_bind (realtime_dispatch env (realtime_request env req p first key_hash cached_version request_id)
                        (t2 + kDispatchDeadline) 0) (\<lambda>r.
                      if dr_outcome r \<noteq> Ok \<and> dr_outcome r \<noteq> Reauth
                      then gw_return ([SendText (ws_error ''provider_unavailable'' ''No realtime provider is available''),
                                       CloseWs PolicyViolation ''provider unavailable''], None)
                      else connect_provider env io \<lparr>se_dispatch = r, se_request_id = request_id, se_model = parsed_model p,
                             se_start = t, se_first = first, se_first_opcode = op_code\<rparr>)))))
      | WsFailed _ \<Rightarrow> gw_return ([CloseWs ProtocolError ''first realtime event must be JSON''], None))"

section \<open>Relaying\<close>

record session_caps =
  cap_bytes :: int
  cap_frames :: int
  cap_seconds :: int

definition session_caps_from :: "(string \<Rightarrow> string option) \<Rightarrow> session_caps" where
  "session_caps_from getenv =
     \<lparr>cap_bytes = (case getenv ''SCALAPI_MAX_SESSION_BYTES'' of Some v \<Rightarrow> fst (strtol10 (cstr v)) | None \<Rightarrow> 512 * 1024 * 1024),
      cap_frames = (case getenv ''SCALAPI_MAX_SESSION_FRAMES'' of Some v \<Rightarrow> to_int32 (fst (strtol10 (cstr v))) | None \<Rightarrow> 65536),
      cap_seconds = (case getenv ''SCALAPI_MAX_SESSION_DURATION_SEC'' of Some v \<Rightarrow> to_int32 (fst (strtol10 (cstr v)))
                     | None \<Rightarrow> 1800)\<rparr>"

definition kMaxRealtimeFrame :: nat where "kMaxRealtimeFrame = 1 * 1024 * 1024"

text \<open>Where a thread is in its loop; \<open>Sending\<close> has a frame that passed the checks.\<close>

datatype relay_pc = AtHead | Receiving | Sending ws_opcode string | Leaving | Ended

record relay =
  rl_done :: bool
  rl_client_gone :: bool
  rl_frames :: int
  rl_bytes :: int
  rl_input :: int
  rl_output :: int
  rl_cache :: int
  rl_reasoning :: int
  rl_evidence :: bool
  rl_capped :: bool
  rl_up :: relay_pc
  rl_main :: relay_pc
  rl_to_client :: "ws_out list"
  rl_to_upstream :: "ws_out list"
  rl_halted :: "halt option"
  rl_gw :: gateway_state

definition ws_message :: "ws_opcode \<Rightarrow> string \<Rightarrow> ws_out" where
  "ws_message op_code data = (if op_code = WsBinary then SendBinary data else SendText data)"

definition relay_start :: "session \<Rightarrow> gateway_state \<Rightarrow> relay" where
  "relay_start se s = \<lparr>rl_done = False, rl_client_gone = False, rl_frames = 1, rl_bytes = int (length (se_first se)),
     rl_input = 0, rl_output = 0, rl_cache = 0, rl_reasoning = 0, rl_evidence = False, rl_capped = False,
     rl_up = AtHead, rl_main = AtHead, rl_to_client = [],
     rl_to_upstream = [ws_message (se_first_opcode se) (se_first se)], rl_halted = None, rl_gw = s\<rparr>"

text \<open>\<^verbatim>\<open>accumulate_realtime_usage\<close>: the counters only grow.\<close>

definition realtime_usage_object :: "json \<Rightarrow> json option" where
  "realtime_usage_object d =
     (case object_at d ''usage'' of
        Some u \<Rightarrow> Some u
      | None \<Rightarrow> (case object_at d ''response'' of Some r \<Rightarrow> object_at r ''usage'' | None \<Rightarrow> None))"

fun read_count :: "json \<Rightarrow> string list \<Rightarrow> int" where
  "read_count u [] = 0"
| "read_count u (k # ks) =
     (case member u k of
        None \<Rightarrow> read_count u ks
      | Some v \<Rightarrow> if is_int v then max 0 (get_integer v)
                  else if is_uint v then to_int32 (get_integer v) else read_count u ks)"

definition accumulate_realtime_usage :: "rapidjson \<Rightarrow> string \<Rightarrow> relay \<Rightarrow> relay" where
  "accumulate_realtime_usage rj frame p =
     (case parse_object rj frame of
        None \<Rightarrow> p
      | Some d \<Rightarrow>
          (case realtime_usage_object d of
             None \<Rightarrow> p
           | Some u \<Rightarrow> p\<lparr>rl_input := max (rl_input p) (read_count u [''input_tokens'', ''prompt_tokens'']),
                          rl_output := max (rl_output p) (read_count u [''output_tokens'', ''completion_tokens'']),
                          rl_cache := max (rl_cache p) (read_count u [''cache_read_input_tokens'', ''cached_tokens'']),
                          rl_reasoning := max (rl_reasoning p) (read_count u [''reasoning_tokens''])\<rparr>))"

definition check_session_caps :: "gateway_env \<Rightarrow> session_caps \<Rightarrow> session \<Rightarrow> int \<Rightarrow> relay \<Rightarrow> relay" where
  "check_session_caps env caps se new_bytes p =
     (let t = e_now env (gs_log (rl_gw p)); s = (rl_gw p)\<lparr>gs_log := ClockRead t # gs_log (rl_gw p)\<rparr>;
          bytes = to_int64 (rl_bytes p + new_bytes);
          p1 = p\<lparr>rl_gw := s, rl_bytes := bytes\<rparr>
      in if bytes > cap_bytes caps \<or> rl_frames p > cap_frames caps \<or> to_ms (t - se_start se) > cap_seconds caps * 1000
         then p1\<lparr>rl_capped := True, rl_done := True\<rparr> else p1)"

text \<open>A frame arrived in one of the loops: it is counted, and the session's limits are checked.\<close>

definition count_frame :: "gateway_env \<Rightarrow> session_caps \<Rightarrow> session \<Rightarrow> string \<Rightarrow> relay \<Rightarrow> relay" where
  "count_frame env caps se data p =
     check_session_caps env caps se (int (length data)) (p\<lparr>rl_frames := to_int32 (rl_frames p + 1)\<rparr>)"

subsection \<open>From the provider to the client\<close>

definition up_head :: "relay \<Rightarrow> relay" where
  "up_head p = p\<lparr>rl_up := (if rl_done p then Leaving else Receiving)\<rparr>"

definition up_received :: "gateway_env \<Rightarrow> session_caps \<Rightarrow> session \<Rightarrow> ws_read \<Rightarrow> relay \<Rightarrow> relay" where
  "up_received env caps se r p =
     (case r of
        WsFailed _ \<Rightarrow> p\<lparr>rl_up := Leaving\<rparr>
      | WsFrame op_code data \<Rightarrow>
          if data = [] \<or> op_code = WsClose then p\<lparr>rl_up := Leaving\<rparr>
          else let q = count_frame env caps se data p
               in if rl_done q then q\<lparr>rl_up := Leaving\<rparr>
                  else if op_code = WsBinary then q\<lparr>rl_up := Sending WsBinary data\<rparr>
                  else if op_code = WsText
                  then (accumulate_realtime_usage (e_rj env) data q)\<lparr>rl_up := Sending WsText data\<rparr>
                  else q\<lparr>rl_up := AtHead\<rparr>)"

definition note_realtime_output :: "gateway_env \<Rightarrow> string \<Rightarrow> unit gw" where
  "note_realtime_output env lease =
     gw_then (store_evidence env lease ''output_started'' ''first realtime frame written to client'')
     (gw_bind (call_evidence env lease OutputStarted ''first realtime frame written to client'') (\<lambda>ack.
       gw_when (acknowledged ack) (settle_stored_evidence env lease ''output_started'')))"

text \<open>The send to the client returned \<open>n\<close>.\<close>

definition up_sent :: "gateway_env \<Rightarrow> session \<Rightarrow> ws_opcode \<Rightarrow> string \<Rightarrow> int \<Rightarrow> relay \<Rightarrow> relay" where
  "up_sent env se op_code data n p =
     (let q = p\<lparr>rl_up := AtHead, rl_to_client := rl_to_client p @ [ws_message op_code data]\<rparr>
      in if n > 0 \<and> \<not> rl_evidence p
         then case note_realtime_output env (dr_lease_token (se_dispatch se)) (rl_gw p) of
                (Inl h, s) \<Rightarrow> q\<lparr>rl_evidence := True, rl_gw := s, rl_halted := Some h\<rparr>
              | (Inr _, s) \<Rightarrow> q\<lparr>rl_evidence := True, rl_gw := s\<rparr>
         else q)"

definition up_leave :: "relay \<Rightarrow> relay" where
  "up_leave p = p\<lparr>rl_up := Ended, rl_done := True, rl_to_client := rl_to_client p @ [CloseWs NormalClosure []]\<rparr>"

subsection \<open>From the client to the provider\<close>

definition main_head :: "relay \<Rightarrow> relay" where
  "main_head p = p\<lparr>rl_main := (if rl_done p then Leaving else Receiving)\<rparr>"

definition main_received :: "gateway_env \<Rightarrow> session_caps \<Rightarrow> session \<Rightarrow> ws_read \<Rightarrow> relay \<Rightarrow> relay" where
  "main_received env caps se r p =
     (case r of
        WsFailed _ \<Rightarrow> p\<lparr>rl_main := Leaving, rl_client_gone := True\<rparr>
      | WsFrame op_code data \<Rightarrow>
          if op_code = WsClose then p\<lparr>rl_main := Leaving, rl_client_gone := True\<rparr>
          else if data = [] then p\<lparr>rl_main := Leaving\<rparr>
          else let q = count_frame env caps se data p
               in if rl_done q then q\<lparr>rl_main := Leaving\<rparr>
                  else if op_code = WsBinary \<or> op_code = WsText then q\<lparr>rl_main := Sending op_code data\<rparr>
                  else q\<lparr>rl_main := AtHead\<rparr>)"

definition main_sent :: "ws_opcode \<Rightarrow> string \<Rightarrow> relay \<Rightarrow> relay" where
  "main_sent op_code data p = p\<lparr>rl_main := AtHead, rl_to_upstream := rl_to_upstream p @ [ws_message op_code data]\<rparr>"

definition main_leave :: "relay \<Rightarrow> relay" where
  "main_leave p = p\<lparr>rl_main := Ended, rl_done := True, rl_to_upstream := rl_to_upstream p @ [CloseWs NormalClosure []]\<rparr>"

subsection \<open>The two threads\<close>

definition frame_size_ok :: "ws_read \<Rightarrow> bool" where
  "frame_size_ok r = (case r of WsFrame _ data \<Rightarrow> length data \<le> kMaxRealtimeFrame | WsFailed _ \<Rightarrow> True)"

inductive relay_step :: "gateway_env \<Rightarrow> session_caps \<Rightarrow> session \<Rightarrow> relay \<Rightarrow> relay \<Rightarrow> bool" for env caps se where
  up_head: "rl_halted p = None \<Longrightarrow> rl_up p = AtHead \<Longrightarrow> relay_step env caps se p (up_head p)"
| up_received: "rl_halted p = None \<Longrightarrow> rl_up p = Receiving \<Longrightarrow> frame_size_ok r \<Longrightarrow>
    relay_step env caps se p (up_received env caps se r p)"
| up_sent: "rl_halted p = None \<Longrightarrow> rl_up p = Sending op_code data \<Longrightarrow>
    relay_step env caps se p (up_sent env se op_code data n p)"
| up_leave: "rl_halted p = None \<Longrightarrow> rl_up p = Leaving \<Longrightarrow> relay_step env caps se p (up_leave p)"
| main_head: "rl_halted p = None \<Longrightarrow> rl_main p = AtHead \<Longrightarrow> relay_step env caps se p (main_head p)"
| main_received: "rl_halted p = None \<Longrightarrow> rl_main p = Receiving \<Longrightarrow> frame_size_ok r \<Longrightarrow>
    relay_step env caps se p (main_received env caps se r p)"
| main_sent: "rl_halted p = None \<Longrightarrow> rl_main p = Sending op_code data \<Longrightarrow>
    relay_step env caps se p (main_sent op_code data p)"
| main_leave: "rl_halted p = None \<Longrightarrow> rl_main p = Leaving \<Longrightarrow> relay_step env caps se p (main_leave p)"

inductive relayed :: "gateway_env \<Rightarrow> session_caps \<Rightarrow> session \<Rightarrow> gateway_state \<Rightarrow> relay \<Rightarrow> bool" for env caps se s where
  opened: "relayed env caps se s (relay_start se s)"
| stepped: "relayed env caps se s p \<Longrightarrow> relay_step env caps se p q \<Longrightarrow> relayed env caps se s q"

section \<open>The end of a session\<close>

definition realtime_event :: "session \<Rightarrow> relay \<Rightarrow> int \<Rightarrow> UsageEvent" where
  "realtime_event se p duration =
     (let r = se_dispatch se; tg = dr_upstream r
      in new_event\<lparr>ue_lease_token := dr_lease_token r, ue_request_id := se_request_id se, ue_api_key_id := dr_api_key_id r,
          ue_user_id := tgt_user_id tg, ue_account_id := tgt_account_id tg, ue_group_id := tgt_group_id tg,
          ue_model := se_model se, ue_upstream_model := tgt_mapped_model tg, ue_input_tokens := rl_input p,
          ue_output_tokens := rl_output p, ue_cache_read_tokens := rl_cache p, ue_duration_ms := to_int32 duration,
          ue_stream := True, ue_client_disconnect := rl_client_gone p, ue_status_code := 101,
          ue_realtime_duration_ms := to_int32 duration, ue_realtime_frames := rl_frames p,
          ue_disconnect_reason := (if rl_capped p then ''session_cap_exceeded''
             else if rl_client_gone p then ''client_disconnect'' else ''normal''),
          ue_reasoning_tokens := rl_reasoning p, ue_upstream_endpoint := tgt_upstream_path tg,
          ue_pricing_version := ''v1''\<rparr>)"

definition record_realtime :: "gateway_env \<Rightarrow> UsageEvent \<Rightarrow> unit gw" where
  "record_realtime env ev = outbox_call env (\<lambda>ok t. record_usage ok t ev) (UsageStored ev)"

definition close_session :: "gateway_env \<Rightarrow> session \<Rightarrow> relay \<Rightarrow> unit gw" where
  "close_session env se p =
     gw_bind (now env) (\<lambda>t.
     gw_then (gw_when (rl_capped p) (gw_bind (call_abort env (dr_lease_token (se_dispatch se)) ''realtime_session_cap_exceeded'' Safe 0)
         (\<lambda>_. gw_return ())))
       (record_realtime env (realtime_event se p (to_ms (t - se_start se)))))"

text \<open>
  A whole run of \<^verbatim>\<open>bridge_realtime\<close>: refused before the relay starts, relayed to the end of both
  threads and closed, or stopped by an exception that nothing catches.
\<close>

inductive bridge :: "gateway_env \<Rightarrow> session_caps \<Rightarrow> HttpRequest \<Rightarrow> realtime_io \<Rightarrow> gateway_state \<Rightarrow> (halt + ws_out list) \<times> gateway_state \<Rightarrow> bool"
  for env caps req io where
  stopped: "open_session env req io s = (Inl h, s') \<Longrightarrow> bridge env caps req io s (Inl h, s')"
| refused: "open_session env req io s = (Inr (outs, None), s') \<Longrightarrow> bridge env caps req io s (Inr outs, s')"
| finished: "open_session env req io s = (Inr ([], Some se), s1) \<Longrightarrow> relayed env caps se s1 p \<Longrightarrow> rl_halted p = None \<Longrightarrow>
    rl_up p = Ended \<Longrightarrow> rl_main p = Ended \<Longrightarrow> close_session env se p (rl_gw p) = (Inr (), s') \<Longrightarrow>
    bridge env caps req io s (Inr (rl_to_client p), s')"
| crashed: "open_session env req io s = (Inr ([], Some se), s1) \<Longrightarrow> relayed env caps se s1 p \<Longrightarrow> rl_halted p = Some h \<Longrightarrow>
    bridge env caps req io s (Inl h, rl_gw p)"
| not_recorded: "open_session env req io s = (Inr ([], Some se), s1) \<Longrightarrow> relayed env caps se s1 p \<Longrightarrow> rl_halted p = None \<Longrightarrow>
    rl_up p = Ended \<Longrightarrow> rl_main p = Ended \<Longrightarrow> close_session env se p (rl_gw p) = (Inl h, s') \<Longrightarrow>
    bridge env caps req io s (Inl h, s')"

section \<open>Limits of a session\<close>

fun payload_size :: "ws_out \<Rightarrow> nat" where
  "payload_size (SendText d) = length d"
| "payload_size (SendBinary d) = length d"
| "payload_size (CloseWs _ _) = 0"

fun pending_size :: "relay_pc \<Rightarrow> nat" where
  "pending_size (Sending _ d) = length d"
| "pending_size _ = 0"

text \<open>Bytes relayed in both directions, the first event and the frames about to be sent included.\<close>

definition relayed_bytes :: "relay \<Rightarrow> int" where
  "relayed_bytes p = int (sum_list (map payload_size (rl_to_client p)) + sum_list (map payload_size (rl_to_upstream p)) +
     pending_size (rl_up p) + pending_size (rl_main p))"

definition waiting :: "relay \<Rightarrow> int" where
  "waiting p = (if rl_up p = Receiving then 1 else 0) + (if rl_main p = Receiving then 1 else 0)"

definition byte_limit :: "session_caps \<Rightarrow> session \<Rightarrow> int" where
  "byte_limit caps se = max (int (length (se_first se))) (cap_bytes caps)"

definition frame_limit :: "session_caps \<Rightarrow> int" where
  "frame_limit caps = max 1 (cap_frames caps)"

text \<open>Limits that leave room for the counters, and a first event that fitted into the buffer.\<close>

definition sane_caps :: "session_caps \<Rightarrow> session \<Rightarrow> bool" where
  "sane_caps caps se \<longleftrightarrow> cap_bytes caps \<le> 2 ^ 62 \<and> cap_frames caps \<le> 2 ^ 31 - 4 \<and> length (se_first se) \<le> kMaxRealtimeFrame"

definition count_ok :: "int \<Rightarrow> bool" where
  "count_ok v \<longleftrightarrow> 0 \<le> v \<and> in_int32 v"

definition counters_ok :: "relay \<Rightarrow> bool" where
  "counters_ok p \<longleftrightarrow> count_ok (rl_input p) \<and> count_ok (rl_output p) \<and> count_ok (rl_cache p) \<and> count_ok (rl_reasoning p)"

definition relay_inv :: "session_caps \<Rightarrow> session \<Rightarrow> relay \<Rightarrow> bool" where
  "relay_inv caps se p \<longleftrightarrow>
     relayed_bytes p \<le> byte_limit caps se \<and> relayed_bytes p \<le> rl_bytes p \<and>
     (\<not> rl_done p \<longrightarrow> rl_bytes p \<le> byte_limit caps se \<and> rl_frames p \<le> frame_limit caps) \<and>
     rl_bytes p + int kMaxRealtimeFrame * waiting p \<le> byte_limit caps se + 2 * int kMaxRealtimeFrame \<and>
     1 \<le> rl_frames p \<and> rl_frames p + waiting p \<le> frame_limit caps + 2 \<and> counters_ok p"

subsection \<open>Counting\<close>

definition same_threads :: "relay \<Rightarrow> relay \<Rightarrow> bool" where
  "same_threads p q \<longleftrightarrow> rl_up q = rl_up p \<and> rl_main q = rl_main p \<and> rl_to_client q = rl_to_client p \<and>
     rl_to_upstream q = rl_to_upstream p \<and> rl_halted q = rl_halted p \<and> rl_evidence q = rl_evidence p \<and>
     rl_client_gone q = rl_client_gone p"

lemma count_frame_threads: "same_threads p (count_frame env caps se data p)"
  by (simp add: same_threads_def count_frame_def check_session_caps_def Let_def)

lemma count_frame_counters: "counters_ok (count_frame env caps se data p) = counters_ok p"
  by (simp add: counters_ok_def count_frame_def check_session_caps_def Let_def)

lemma count_frame_values:
  "rl_bytes (count_frame env caps se data p) = to_int64 (rl_bytes p + int (length data))"
  "rl_frames (count_frame env caps se data p) = to_int32 (rl_frames p + 1)"
  by (simp_all add: count_frame_def check_session_caps_def Let_def)

lemma count_frame_within:
  "\<not> rl_done (count_frame env caps se data p) \<Longrightarrow>
     \<not> rl_done p \<and> to_int64 (rl_bytes p + int (length data)) \<le> cap_bytes caps \<and> to_int32 (rl_frames p + 1) \<le> cap_frames caps"
  by (auto simp: count_frame_def check_session_caps_def Let_def split: if_splits)

lemma counters_updates [simp]:
  "counters_ok (p\<lparr>rl_up := x\<rparr>) = counters_ok p" "counters_ok (p\<lparr>rl_main := x\<rparr>) = counters_ok p"
  "counters_ok (p\<lparr>rl_to_client := y\<rparr>) = counters_ok p" "counters_ok (p\<lparr>rl_to_upstream := y\<rparr>) = counters_ok p"
  "counters_ok (p\<lparr>rl_done := b\<rparr>) = counters_ok p" "counters_ok (p\<lparr>rl_client_gone := b\<rparr>) = counters_ok p"
  "counters_ok (p\<lparr>rl_evidence := b\<rparr>) = counters_ok p" "counters_ok (p\<lparr>rl_gw := s\<rparr>) = counters_ok p"
  "counters_ok (p\<lparr>rl_halted := h\<rparr>) = counters_ok p"
  by (simp_all add: counters_ok_def)

lemma read_count_int32: "in_int32 (read_count u ks)"
proof (induction ks)
  case (Cons k ks)
  have "in_int32 (max 0 (get_integer v))" if "is_int v" for v
    using that by (cases v) (auto simp: in_int32_def int_bounds)
  then show ?case using Cons by (auto simp: to_int32_range split: option.splits)
qed (simp add: in_int32_def int_bounds)

lemma max_count_ok: "count_ok a \<Longrightarrow> count_ok (max a (read_count u ks))"
  using read_count_int32 [of u ks] unfolding count_ok_def max_def by simp

lemma accumulate_cases:
  obtains "accumulate_realtime_usage rj frame p = p"
  | u where "accumulate_realtime_usage rj frame p =
      p\<lparr>rl_input := max (rl_input p) (read_count u [''input_tokens'', ''prompt_tokens'']),
        rl_output := max (rl_output p) (read_count u [''output_tokens'', ''completion_tokens'']),
        rl_cache := max (rl_cache p) (read_count u [''cache_read_input_tokens'', ''cached_tokens'']),
        rl_reasoning := max (rl_reasoning p) (read_count u [''reasoning_tokens''])\<rparr>"
proof (cases "parse_object rj frame")
  case None
  then show thesis using that(1) by (simp only: accumulate_realtime_usage_def option.case)
next
  case (Some d)
  then show thesis using that
    by (cases "realtime_usage_object d") (simp_all only: accumulate_realtime_usage_def option.case)
qed

lemma accumulate_counters:
  assumes "counters_ok p"
  shows "counters_ok (accumulate_realtime_usage rj frame p)"
proof (cases rule: accumulate_cases [of rj frame p])
  case 1
  with assms show ?thesis by simp
next
  case (2 u)
  show ?thesis using assms unfolding counters_ok_def 2 by (simp add: max_count_ok del: read_count.simps)
qed

lemma accumulate_threads: "same_threads p (accumulate_realtime_usage rj frame p)"
  by (rule accumulate_cases [of rj frame p]) (simp_all add: same_threads_def del: read_count.simps)

lemma accumulate_values:
  "rl_bytes (accumulate_realtime_usage rj frame p) = rl_bytes p \<and> rl_frames (accumulate_realtime_usage rj frame p) = rl_frames p \<and>
   rl_done (accumulate_realtime_usage rj frame p) = rl_done p"
  by (rule accumulate_cases [of rj frame p]) (simp_all del: read_count.simps)

subsection \<open>Every step keeps the limits\<close>

lemma relayed_bytes_nonneg: "0 \<le> relayed_bytes p"
  by (simp add: relayed_bytes_def)

lemma waiting_range: "0 \<le> waiting p \<and> waiting p \<le> 2"
  by (simp add: waiting_def)

lemma limits_range:
  assumes "sane_caps caps se"
  shows "0 \<le> byte_limit caps se" "byte_limit caps se \<le> 2 ^ 62" "1 \<le> frame_limit caps" "frame_limit caps \<le> 2 ^ 31 - 4"
    "cap_bytes caps \<le> byte_limit caps se" "cap_frames caps \<le> frame_limit caps"
  using assms by (auto simp: sane_caps_def byte_limit_def frame_limit_def kMaxRealtimeFrame_def)

lemma counted_inv:
  assumes inv: "relay_inv caps se p" and sane: "sane_caps caps se" and n: "n \<le> kMaxRealtimeFrame"
    and vals: "rl_bytes q = to_int64 (rl_bytes p + int n)" "rl_frames q = to_int32 (rl_frames p + 1)"
    and within: "\<not> rl_done q \<Longrightarrow> rl_bytes q \<le> cap_bytes caps \<and> rl_frames q \<le> cap_frames caps"
    and waits: "waiting q = waiting p - 1" "1 \<le> waiting p"
    and sent: "relayed_bytes q \<le> relayed_bytes p + (if rl_done q then 0 else int n)"
    and cnt: "counters_ok q"
  shows "relay_inv caps se q"
proof -
  let ?K = "int kMaxRealtimeFrame" and ?B = "byte_limit caps se" and ?F = "frame_limit caps"
  note lim = limits_range [OF sane] and r0 = relayed_bytes_nonneg [of p]
  from inv have p: "relayed_bytes p \<le> ?B" "relayed_bytes p \<le> rl_bytes p" "rl_bytes p + ?K * waiting p \<le> ?B + 2 * ?K"
      "1 \<le> rl_frames p" "rl_frames p + waiting p \<le> ?F + 2"
    by (simp_all add: relay_inv_def)
  have K: "?K = 1048576" by (simp add: kMaxRealtimeFrame_def)
  have nK: "int n \<le> ?K" "0 \<le> int n" using n by simp_all
  have prod: "?K * waiting p \<ge> ?K" using waits(2) K by simp
  have eq: "?K * waiting q = ?K * waiting p - ?K" unfolding waits(1) by (simp add: right_diff_distrib)
  have "in_int64 (rl_bytes p + int n)" using p(2,3) r0 nK prod lim(2) K by (simp add: int_bounds)
  then have b: "rl_bytes q = rl_bytes p + int n" using vals(1) by (simp add: to_int64_def int_bounds)
  have "in_int32 (rl_frames p + 1)" using p(4,5) waits(2) lim(4) by (simp add: int_bounds)
  then have f: "rl_frames q = rl_frames p + 1" using vals(2) by simp
  have "rl_bytes q + ?K * waiting q \<le> ?B + 2 * ?K" unfolding b eq using p(3) nK by simp
  moreover have "rl_frames q + waiting q \<le> ?F + 2" unfolding f waits(1) using p(5) by simp
  moreover have "relayed_bytes q \<le> rl_bytes q" unfolding b using sent p(2) nK by (auto split: if_splits)
  moreover have "\<not> rl_done q \<longrightarrow> rl_bytes q \<le> ?B \<and> rl_frames q \<le> ?F" using within lim(5,6) by auto
  moreover have "relayed_bytes q \<le> ?B" using calculation sent p(1) by (auto split: if_splits)
  ultimately show ?thesis using f p(4) cnt by (simp add: relay_inv_def)
qed

text \<open>A step that moves a thread without counting anything.\<close>

lemma moved_inv:
  assumes "relay_inv caps se p" and "rl_bytes q = rl_bytes p" and "rl_frames q = rl_frames p"
    and "\<not> rl_done q \<Longrightarrow> \<not> rl_done p" and "relayed_bytes q \<le> relayed_bytes p" and "counters_ok q = counters_ok p"
    and "waiting q \<le> waiting p \<or> \<not> rl_done p \<and> rl_done q = rl_done p" and "sane_caps caps se"
  shows "relay_inv caps se q"
proof -
  let ?K = "int kMaxRealtimeFrame"
  have "?K * waiting q \<le> ?K * waiting p" if "waiting q \<le> waiting p"
    using that by (simp add: mult_left_mono)
  moreover have "?K * waiting q \<le> 2 * ?K" using waiting_range [of q] by (simp add: kMaxRealtimeFrame_def)
  ultimately show ?thesis
    using assms waiting_range [of q] unfolding relay_inv_def by (auto simp: sane_caps_def)
qed

lemma up_received_inv:
  assumes "relay_inv caps se p" and "sane_caps caps se" and "rl_up p = Receiving" and "frame_size_ok r"
  shows "relay_inv caps se (up_received env caps se r p)"
proof (cases "\<exists>op_code data. r = WsFrame op_code data \<and> data \<noteq> [] \<and> op_code \<noteq> WsClose")
  case False
  then have "up_received env caps se r p = p\<lparr>rl_up := Leaving\<rparr>"
    by (cases r) (auto simp: up_received_def)
  then show ?thesis using assms by (auto intro!: moved_inv [OF assms(1)] simp: relayed_bytes_def waiting_def)
next
  case True
  then obtain op_code data where r: "r = WsFrame op_code data" "data \<noteq> []" "op_code \<noteq> WsClose" by blast
  let ?q = "count_frame env caps se data p"
  have n: "length data \<le> kMaxRealtimeFrame" using assms(4) r by (simp add: frame_size_ok_def)
  note t = count_frame_threads [of p env caps se data, unfolded same_threads_def]
  note v = count_frame_values [of env caps se data p] and w = count_frame_within [of env caps se data p]
  have cnt: "counters_ok ?q" using assms(1) by (simp add: relay_inv_def count_frame_counters)
  note counted = counted_inv [OF assms(1,2) n]
  have up: "up_received env caps se r p =
     (if rl_done ?q then ?q\<lparr>rl_up := Leaving\<rparr>
      else if op_code = WsBinary then ?q\<lparr>rl_up := Sending WsBinary data\<rparr>
      else if op_code = WsText then (accumulate_realtime_usage (e_rj env) data ?q)\<lparr>rl_up := Sending WsText data\<rparr>
      else ?q\<lparr>rl_up := AtHead\<rparr>)"
    unfolding r(1) up_received_def Let_def ws_read.case using r(2,3) by (simp only: simp_thms if_False if_True)
  have plain: "relay_inv caps se (?q\<lparr>rl_up := x\<rparr>)"
    if "x \<noteq> Receiving" "pending_size x \<le> (if rl_done ?q then 0 else length data)" for x
    by (rule counted) (use that t v w cnt assms(3) in \<open>auto simp: waiting_def relayed_bytes_def split: if_splits\<close>)
  show ?thesis
  proof (cases "\<not> rl_done ?q \<and> op_code = WsText")
    case False
    then show ?thesis unfolding up by (auto simp: plain)
  next
    case True
    note at = accumulate_threads [of ?q "e_rj env" data, unfolded same_threads_def]
      and av = accumulate_values [of "e_rj env" data ?q] and ac = accumulate_counters [OF cnt, of "e_rj env" data]
    have "relay_inv caps se ((accumulate_realtime_usage (e_rj env) data ?q)\<lparr>rl_up := Sending WsText data\<rparr>)"
      by (rule counted) (use True t v w at av ac assms(3) in \<open>simp_all add: waiting_def relayed_bytes_def\<close>)
    with True show ?thesis unfolding up by simp
  qed
qed

lemma main_received_inv:
  assumes "relay_inv caps se p" and "sane_caps caps se" and "rl_main p = Receiving" and "frame_size_ok r"
  shows "relay_inv caps se (main_received env caps se r p)"
proof (cases "\<exists>op_code data. r = WsFrame op_code data \<and> data \<noteq> [] \<and> op_code \<noteq> WsClose")
  case False
  then have "main_received env caps se r p = p\<lparr>rl_main := Leaving, rl_client_gone := True\<rparr> \<or>
      main_received env caps se r p = p\<lparr>rl_main := Leaving\<rparr>"
    by (cases r) (auto simp: main_received_def)
  then show ?thesis using assms by (auto intro!: moved_inv [OF assms(1)] simp: relayed_bytes_def waiting_def)
next
  case True
  then obtain op_code data where r: "r = WsFrame op_code data" "data \<noteq> []" "op_code \<noteq> WsClose" by blast
  let ?q = "count_frame env caps se data p"
  have n: "length data \<le> kMaxRealtimeFrame" using assms(4) r by (simp add: frame_size_ok_def)
  note t = count_frame_threads [of p env caps se data, unfolded same_threads_def]
  note v = count_frame_values [of env caps se data p] and w = count_frame_within [of env caps se data p]
  have cnt: "counters_ok ?q" using assms(1) by (simp add: relay_inv_def count_frame_counters)
  note counted = counted_inv [OF assms(1,2) n]
  have main: "main_received env caps se r p =
     (if rl_done ?q then ?q\<lparr>rl_main := Leaving\<rparr>
      else if op_code = WsBinary \<or> op_code = WsText then ?q\<lparr>rl_main := Sending op_code data\<rparr>
      else ?q\<lparr>rl_main := AtHead\<rparr>)"
    unfolding r(1) main_received_def Let_def ws_read.case using r(2,3) by (simp only: simp_thms if_False if_True)
  have plain: "relay_inv caps se (?q\<lparr>rl_main := x\<rparr>)"
    if "x \<noteq> Receiving" "pending_size x \<le> (if rl_done ?q then 0 else length data)" for x
    by (rule counted) (use that t v w cnt assms(3) in \<open>auto simp: waiting_def relayed_bytes_def split: if_splits\<close>)
  show ?thesis unfolding main by (simp add: plain)
qed

lemma message_size [simp]: "payload_size (ws_message op_code d) = length d"
  by (simp add: ws_message_def)

lemma up_sent_cases:
  obtains s b h where "up_sent env se op_code data n p =
    p\<lparr>rl_up := AtHead, rl_to_client := rl_to_client p @ [ws_message op_code data], rl_evidence := b, rl_gw := s, rl_halted := h\<rparr>"
proof -
  have "\<exists>s b h. up_sent env se op_code data n p =
    p\<lparr>rl_up := AtHead, rl_to_client := rl_to_client p @ [ws_message op_code data], rl_evidence := b, rl_gw := s, rl_halted := h\<rparr>"
  proof (cases "n > 0 \<and> \<not> rl_evidence p")
    case False
    then show ?thesis
      by (intro exI [of _ "rl_gw p"] exI [of _ "rl_evidence p"] exI [of _ "rl_halted p"]) (auto simp: up_sent_def Let_def)
  next
    case True
    obtain x s where "note_realtime_output env (dr_lease_token (se_dispatch se)) (rl_gw p) = (x, s)" by fastforce
    with True show ?thesis
      by (intro exI [of _ s] exI [of _ True] exI [of _ "case x of Inl h \<Rightarrow> Some h | Inr _ \<Rightarrow> rl_halted p"])
        (simp add: up_sent_def Let_def split: sum.splits)
  qed
  then show thesis using that by blast
qed

lemma relay_step_inv:
  assumes "relay_step env caps se p q" and "relay_inv caps se p" and "sane_caps caps se"
  shows "relay_inv caps se q"
  using assms(1)
proof cases
  case up_head
  then show ?thesis using assms(2,3)
    by (auto intro!: moved_inv [OF assms(2)] simp: up_head_def relayed_bytes_def waiting_def)
next
  case (up_received r)
  then show ?thesis using up_received_inv [OF assms(2,3)] by simp
next
  case (up_sent op_code data n)
  obtain s b h where e: "up_sent env se op_code data n p =
    p\<lparr>rl_up := AtHead, rl_to_client := rl_to_client p @ [ws_message op_code data], rl_evidence := b, rl_gw := s, rl_halted := h\<rparr>"
    by (rule up_sent_cases)
  show ?thesis unfolding up_sent(1) e
    by (rule moved_inv [OF assms(2)]) (use up_sent assms(3) in \<open>auto simp: relayed_bytes_def waiting_def\<close>)
next
  case up_leave
  then show ?thesis using assms(2,3)
    by (auto intro!: moved_inv [OF assms(2)] simp: up_leave_def relayed_bytes_def waiting_def)
next
  case main_head
  then show ?thesis using assms(2,3)
    by (auto intro!: moved_inv [OF assms(2)] simp: main_head_def relayed_bytes_def waiting_def)
next
  case (main_received r)
  then show ?thesis using main_received_inv [OF assms(2,3)] by simp
next
  case (main_sent op_code data)
  show ?thesis unfolding main_sent(1) main_sent_def
    by (rule moved_inv [OF assms(2)]) (use main_sent assms(3) in \<open>auto simp: relayed_bytes_def waiting_def\<close>)
next
  case main_leave
  then show ?thesis using assms(2,3)
    by (auto intro!: moved_inv [OF assms(2)] simp: main_leave_def relayed_bytes_def waiting_def)
qed

lemma relay_start_inv: "sane_caps caps se \<Longrightarrow> relay_inv caps se (relay_start se s)"
  by (auto simp: relay_inv_def relay_start_def relayed_bytes_def waiting_def byte_limit_def frame_limit_def counters_ok_def
      count_ok_def int_bounds kMaxRealtimeFrame_def)

lemma relayed_inv: "relayed env caps se s p \<Longrightarrow> sane_caps caps se \<Longrightarrow> relay_inv caps se p"
  by (induction rule: relayed.induct) (auto intro: relay_start_inv relay_step_inv)

text \<open>
  C36.  A realtime session keeps its limits in every interleaving of its two threads, whatever frames
  arrive and however the sends end: the bytes relayed in both directions together never exceed the
  larger of the session's byte limit and its first event, the session is never counted with more than
  two frames above its frame limit, and the token counters that are billed stay non-negative 32-bit
  numbers.
\<close>

theorem realtime_session_limited:
  assumes "relayed env caps se s p" and "sane_caps caps se"
  shows "int (sum_list (map payload_size (rl_to_client p)) + sum_list (map payload_size (rl_to_upstream p)))
       \<le> max (int (length (se_first se))) (cap_bytes caps) \<and>
     1 \<le> rl_frames p \<and> rl_frames p \<le> max 1 (cap_frames caps) + 2 \<and>
     list_all (\<lambda>v. 0 \<le> v \<and> in_int32 v) [rl_input p, rl_output p, rl_cache p, rl_reasoning p]"
  using relayed_inv [OF assms] waiting_range [of p]
  by (simp add: relay_inv_def relayed_bytes_def byte_limit_def frame_limit_def counters_ok_def count_ok_def)

section \<open>The lease of a session\<close>

lemma cleared_realtime_step [simp]:
  "lease_step (Cleared r) (Aborted (dr_lease_token r) reason disp code a) = Some (Over r False)"
  "lease_step (Cleared r) (EvidenceSent (dr_lease_token r) OutputStarted d a) = Some (Cleared r)"
  by (simp_all add: lease_step.simps own_lease_def)

lemma known_auth_version_phase: "in_phase Idle s \<Longrightarrow> wp (known_auth_version env kh) (\<lambda>_. in_phase Idle) (\<lambda>_ _. False) s"
  by (simp add: known_auth_version_def wp_simps Let_def split: option.splits)

lemma realtime_dispatch_phase:
  "in_phase Idle s \<Longrightarrow> wp (realtime_dispatch env rq deadline n) (\<lambda>r. in_phase (if granted r then Leased r else Idle)) (\<lambda>_ _. False) s"
proof (induction env rq deadline n arbitrary: s rule: realtime_dispatch.induct)
  case (1 env rq deadline n)
  show ?case
    by (subst realtime_dispatch.simps, simp add: wp_simps Let_def)
      (use 1 in \<open>auto simp: wp_simps Let_def granted_def is_retryable_platform_dispatch_def\<close>)
qed

definition session_phase :: "session \<Rightarrow> ws_out list \<times> session option \<Rightarrow> gateway_state \<Rightarrow> bool" where
  "session_phase se x s \<longleftrightarrow>
     (case snd x of None \<Rightarrow> in_phase (Over (se_dispatch se) False) s
      | Some se' \<Rightarrow> se' = se \<and> fst x = [] \<and> in_phase (Cleared (se_dispatch se)) s)"

definition in_protocol :: "halt \<Rightarrow> gateway_state \<Rightarrow> bool" where
  "in_protocol h s \<longleftrightarrow> phase s \<noteq> None"

lemma give_back_phase:
  "in_phase (Leased (se_dispatch se)) s \<or> in_phase (Cleared (se_dispatch se)) s \<Longrightarrow>
     wp (give_back env (dr_lease_token (se_dispatch se)) reason disp outs) (session_phase se) E s"
  by (auto simp: give_back_def wp_simps Let_def session_phase_def)

lemma authorize_realtime_phase:
  "in_phase (Leased r) s \<Longrightarrow>
     wp (authorize_realtime env (dr_lease_token r)) (\<lambda>ok. in_phase (if ok then Cleared r else Leased r)) in_protocol s"
  by (auto simp: authorize_realtime_def wp_simps Let_def in_protocol_def split: sum.splits)

lemma connect_provider_phase:
  assumes "in_phase (Leased (se_dispatch se)) s"
  shows "wp (connect_provider env io se) (session_phase se) in_protocol s"
proof -
  let ?r = "se_dispatch se"
  have "wp (authorize_realtime env (dr_lease_token ?r)) (\<lambda>ok. in_phase (if ok then Cleared ?r else Leased ?r)) in_protocol s"
    by (rule authorize_realtime_phase [OF assms])
  then show ?thesis
    unfolding connect_provider_def Let_def using assms
    by (auto intro!: give_back_phase wp_bind_rule [where E' = in_protocol] simp: wp_return session_phase_def split: if_splits)
qed

definition open_phase :: "ws_out list \<times> session option \<Rightarrow> gateway_state \<Rightarrow> bool" where
  "open_phase x s \<longleftrightarrow>
     (case snd x of None \<Rightarrow> in_phase Idle s \<or> (\<exists>r. in_phase (Over r False) s)
      | Some se \<Rightarrow> fst x = [] \<and> in_phase (Cleared (se_dispatch se)) s)"

lemma session_open_phase: "session_phase se x s \<Longrightarrow> open_phase x s"
  by (auto simp: session_phase_def open_phase_def split: option.splits)

lemma open_session_phase:
  assumes "in_phase Idle s"
  shows "wp (open_session env req io) open_phase in_protocol s"
proof (cases "ri_first io")
  case (WsFailed x)
  then show ?thesis using assms by (simp add: open_session_def wp_simps open_phase_def)
next
  case (WsFrame op_code first)
  have refusal: "wp (gw_return (outs, None)) open_phase in_protocol s'" if "in_phase Idle s'" for outs s'
    using that by (simp add: wp_return open_phase_def)
  have connect: "wp (connect_provider env io se) open_phase in_protocol s'" if "in_phase (Leased (se_dispatch se)) s'" for se s'
    by (rule wp_mono [OF connect_provider_phase [OF that] session_open_phase])
  have granting: "wp (gw_bind (realtime_dispatch env rq dl 0) (\<lambda>r. if dr_outcome r \<noteq> Ok \<and> dr_outcome r \<noteq> Reauth
       then gw_return (outs, None) else connect_provider env io (mk r))) open_phase in_protocol s'"
    if "in_phase Idle s'" "\<And>r. se_dispatch (mk r) = r" for rq dl outs mk s'
    by (rule wp_bind_rule [OF realtime_dispatch_phase [OF that(1)]])
      (auto simp: granted_def that(2) intro!: refusal connect split: if_splits)
  show ?thesis
    unfolding open_session_def WsFrame ws_read.case
    using assms
    by (auto simp: wp_lift wp_bind [of "gw_lift x" for x] in_protocol_def Let_def intro!: refusal wp_bind_rule [OF known_auth_version_phase]
        split: sum.splits)
      (auto simp: wp_bind [of "now env"] wp_simps Let_def intro!: granting [unfolded wp_bind])
qed

subsection \<open>Over the relay\<close>

text \<open>How often the start of the output was reported.\<close>

fun output_report :: "gateway_call \<Rightarrow> bool" where
  "output_report (EvidenceSent _ OutputStarted _ _) = True"
| "output_report _ = False"

definition output_reports :: "gateway_call list \<Rightarrow> nat" where
  "output_reports l = length (filter output_report l)"

lemma output_reports_Cons [simp]: "output_reports (c # l) = (if output_report c then Suc (output_reports l) else output_reports l)"
  by (simp add: output_reports_def)

definition lease_inv :: "session \<Rightarrow> gateway_state \<Rightarrow> relay \<Rightarrow> bool" where
  "lease_inv se s p \<longleftrightarrow> in_phase (Cleared (se_dispatch se)) (rl_gw p) \<and>
     output_reports (gs_log (rl_gw p)) \<le> output_reports (gs_log s) + (if rl_evidence p then 1 else 0)"

lemma note_realtime_output_phase:
  assumes "in_phase (Cleared r) s" and "output_reports (gs_log s) \<le> k"
  shows "wp (note_realtime_output env (dr_lease_token r))
     (\<lambda>_ s'. in_phase (Cleared r) s' \<and> output_reports (gs_log s') \<le> k + 1)
     (\<lambda>_ s'. in_phase (Cleared r) s' \<and> output_reports (gs_log s') \<le> k + 1) s"
  using assms by (auto simp: note_realtime_output_def wp_simps Let_def split: sum.splits)

lemma count_frame_lease: "lease_inv se s p \<Longrightarrow> lease_inv se s (count_frame env caps se' data p)"
  by (auto simp: lease_inv_def count_frame_def check_session_caps_def Let_def)

lemma accumulate_lease: "lease_inv se s p \<Longrightarrow> lease_inv se s (accumulate_realtime_usage rj frame p)"
  by (rule accumulate_cases [of rj frame p]) (simp_all add: lease_inv_def del: read_count.simps)

lemma lease_inv_updates [simp]:
  "lease_inv se s (p\<lparr>rl_up := x\<rparr>) = lease_inv se s p" "lease_inv se s (p\<lparr>rl_main := x\<rparr>) = lease_inv se s p"
  "lease_inv se s (p\<lparr>rl_to_client := y\<rparr>) = lease_inv se s p" "lease_inv se s (p\<lparr>rl_to_upstream := y\<rparr>) = lease_inv se s p"
  "lease_inv se s (p\<lparr>rl_done := b\<rparr>) = lease_inv se s p" "lease_inv se s (p\<lparr>rl_client_gone := b\<rparr>) = lease_inv se s p"
  by (simp_all add: lease_inv_def)

lemma up_received_lease: "lease_inv se s p \<Longrightarrow> lease_inv se s (up_received env caps se r p)"
  using count_frame_lease [of se s p env caps se] accumulate_lease [of se s _ "e_rj env"]
  by (simp add: up_received_def Let_def split: ws_read.split)

lemma main_received_lease: "lease_inv se s p \<Longrightarrow> lease_inv se s (main_received env caps se r p)"
  using count_frame_lease [of se s p env caps se] by (simp add: main_received_def Let_def split: ws_read.split)

lemma up_sent_lease:
  assumes "lease_inv se s p"
  shows "lease_inv se s (up_sent env se op_code data n p)"
proof (cases "n > 0 \<and> \<not> rl_evidence p")
  case False
  then have "up_sent env se op_code data n p = p\<lparr>rl_up := AtHead, rl_to_client := rl_to_client p @ [ws_message op_code data]\<rparr>"
    by (auto simp: up_sent_def Let_def)
  then show ?thesis using assms by simp
next
  case True
  obtain x s2 where x: "note_realtime_output env (dr_lease_token (se_dispatch se)) (rl_gw p) = (x, s2)" by fastforce
  have "in_phase (Cleared (se_dispatch se)) s2 \<and> output_reports (gs_log s2) \<le> output_reports (gs_log s) + 1"
    using note_realtime_output_phase [of "rl_gw p" "se_dispatch se" "output_reports (gs_log s)" env] assms True x
    by (auto simp: wp_def lease_inv_def split: sum.splits)
  then show ?thesis using True x by (cases x) (simp_all add: up_sent_def Let_def lease_inv_def)
qed

lemma relay_step_lease: "relay_step env caps se p q \<Longrightarrow> lease_inv se s p \<Longrightarrow> lease_inv se s q"
  by (induction rule: relay_step.induct)
    (simp_all add: up_head_def main_head_def up_leave_def main_leave_def main_sent_def up_received_lease main_received_lease up_sent_lease)

lemma relayed_lease:
  assumes "relayed env caps se s p" and "in_phase (Cleared (se_dispatch se)) s"
  shows "lease_inv se s p"
  using assms(1)
proof induction
  case opened
  show ?case using assms(2) by (simp add: lease_inv_def relay_start_def)
next
  case (stepped p q)
  then show ?case by (blast intro: relay_step_lease)
qed

lemma realtime_event_lease [simp]: "ue_lease_token (realtime_event se p d) = dr_lease_token (se_dispatch se)"
  by (simp add: realtime_event_def Let_def)

lemma close_session_phase:
  assumes "in_phase (Cleared (se_dispatch se)) s"
  shows "wp (close_session env se p) (\<lambda>_. in_phase (Over (se_dispatch se) False)) in_protocol s"
  using assms
  by (auto simp: close_session_def record_realtime_def wp_simps Let_def in_protocol_def holder_def split: sum.splits)


text \<open>
  A session that was cut by its limits is settled twice: the lease is aborted as safe, which is
  meant to settle it without a charge, and the usage of the session is then recorded for the same
  lease all the same.
\<close>

theorem capped_session_settled_twice:
  assumes "rl_capped p" and "close_session env se p s = (Inr (), s')"
  shows "\<exists>t a ev. gs_log s' = UsageStored ev # Aborted (dr_lease_token (se_dispatch se)) ''realtime_session_cap_exceeded'' Safe 0 a #
       ClockRead t # gs_log s \<and> ue_lease_token ev = dr_lease_token (se_dispatch se)"
proof -
  have "wp (close_session env se p) (\<lambda>_ s'. \<exists>t a ev. gs_log s' = UsageStored ev #
       Aborted (dr_lease_token (se_dispatch se)) ''realtime_session_cap_exceeded'' Safe 0 a # ClockRead t # gs_log s \<and>
       ue_lease_token ev = dr_lease_token (se_dispatch se)) (\<lambda>_ _. True) s"
    using assms(1)
    by (auto simp: close_session_def record_realtime_def wp_simps Let_def split: sum.splits)
  from wp_run [OF this assms(2)] show ?thesis .
qed

section \<open>A session\<close>

text \<open>A session whose limit is three bytes: the provider's first frame exceeds it.\<close>

definition rt_io :: realtime_io where
  "rt_io = \<lparr>ri_first = WsFrame WsText ''x'', ri_http_client = True, ri_connects = (\<lambda>_ _ _. True), ri_initial_send = 1\<rparr>"

definition rt_caps :: session_caps where
  "rt_caps = \<lparr>cap_bytes = 3, cap_frames = 10, cap_seconds = 60\<rparr>"

definition rt_session :: session where
  "rt_session = \<lparr>se_dispatch = ex_grant, se_request_id = ''id'', se_model = ''m'', se_start = 0, se_first = ''x'',
     se_first_opcode = WsText\<rparr>"

lemma rt_parse:
  "\<exists>p. parse (e_rj ok_env) ''x'' Format.OpenAIResponses = Inr p \<and> parsed_model p = ''m''"
  by (simp add: parse_def parse_ir_def responses_parse_request_def responses_parse_doc_def ok_env_def parse_object_def get_str_def string_at_def cstr_def
      res_bind_def Let_def)

lemma rt_dispatch:
  "\<not> list_ex is_abort (gs_log s) \<Longrightarrow>
     wp (realtime_dispatch ok_env rq deadline n) Q E s = Q ex_grant (s\<lparr>gs_log := Dispatched rq ex_grant # gs_log s\<rparr>)"
  by (subst realtime_dispatch.simps) (simp add: wp_simps Let_def)

lemma rt_opens:
  obtains s1 where "open_session ok_env ok_request rt_io ex_state = (Inr ([], Some rt_session), s1)"
    and "gs_collector s1 = memory_collector"
proof -
  obtain p where p: "parse (e_rj ok_env) ''x'' Format.OpenAIResponses = Inr p" "parsed_model p = ''m''"
    using rt_parse by blast
  have key: "extract_api_key ok_request = ''k''" by (simp add: extract_api_key_def ok_request_def ex_request_def starts_with_def)
  have ids: "hq_request_id ok_request = ''id''" by (simp add: ok_request_def ex_request_def)
  have auth: "validate_target_auth_headers (tgt_auth_headers ex_target)"
    by (simp add: ex_target_def new_target_def validate_target_auth_headers_def)
  have "wp (open_session ok_env ok_request rt_io) (\<lambda>x s1. x = ([], Some rt_session) \<and> gs_collector s1 = memory_collector)
      (\<lambda>_ _. False) ex_state"
    unfolding open_session_def rt_io_def realtime_io.select_convs ws_read.case
    by (simp add: wp_simps p key ids known_auth_version_def ex_state_def create_cache_def cache_lookup_def Let_def
        rt_dispatch connect_provider_def authorize_realtime_def rt_session_def auth
        record_evidence_def acknowledge_evidence_def memory_collector_def)
  note w = this [unfolded wp_def]
  obtain x s1 where o: "open_session ok_env ok_request rt_io ex_state = (x, s1)" by (cases "open_session ok_env ok_request rt_io ex_state")
  show thesis
  proof (cases x)
    case (Inl h)
    with w show thesis unfolding o prod.case by (simp only: sum.case)
  next
    case (Inr y)
    with w have "y = ([], Some rt_session) \<and> gs_collector s1 = memory_collector" unfolding o prod.case by (simp only: sum.case)
    with that o Inr show thesis by simp
  qed
qed

definition rt_cut :: "gateway_state \<Rightarrow> relay" where
  "rt_cut s = main_leave (main_head (up_leave (up_received ok_env rt_caps rt_session (WsFrame WsText ''abcd'')
     (up_head (relay_start rt_session s)))))"

lemma rt_steps:
  "relayed ok_env rt_caps rt_session s (rt_cut s) \<and> rl_halted (rt_cut s) = None \<and> rl_up (rt_cut s) = Ended \<and>
   rl_main (rt_cut s) = Ended \<and> rl_capped (rt_cut s) \<and> gs_collector (rl_gw (rt_cut s)) = gs_collector s"
proof -
  let ?p0 = "relay_start rt_session s"
  let ?p1 = "up_head ?p0"
  let ?p2 = "up_received ok_env rt_caps rt_session (WsFrame WsText ''abcd'') ?p1"
  have p1: "?p1 = ?p0\<lparr>rl_up := Receiving\<rparr>" by (simp add: up_head_def relay_start_def)
  have p2: "rl_up ?p2 = Leaving \<and> rl_main ?p2 = AtHead \<and> rl_done ?p2 \<and> rl_capped ?p2 \<and> rl_halted ?p2 = None \<and>
      gs_collector (rl_gw ?p2) = gs_collector s"
    unfolding p1 by (simp add: up_received_def count_frame_def check_session_caps_def Let_def relay_start_def rt_caps_def
        rt_session_def to_int64_def)
  have "relayed ok_env rt_caps rt_session s ?p1"
    by (rule relayed.stepped [OF relayed.opened relay_step.up_head]) (simp_all add: relay_start_def)
  then have "relayed ok_env rt_caps rt_session s ?p2"
    by (rule relayed.stepped [OF _ relay_step.up_received])
      (simp_all add: up_head_def relay_start_def frame_size_ok_def kMaxRealtimeFrame_def)
  then have "relayed ok_env rt_caps rt_session s (up_leave ?p2)"
    by (rule relayed.stepped [OF _ relay_step.up_leave]) (simp_all add: p2)
  then have "relayed ok_env rt_caps rt_session s (main_head (up_leave ?p2))"
    by (rule relayed.stepped [OF _ relay_step.main_head]) (simp_all add: p2 up_leave_def)
  then have "relayed ok_env rt_caps rt_session s (rt_cut s)"
    unfolding rt_cut_def by (rule relayed.stepped [OF _ relay_step.main_leave]) (simp_all add: p2 up_leave_def main_head_def)
  then show ?thesis using p2 by (simp add: rt_cut_def main_leave_def main_head_def up_leave_def)
qed

lemma rt_closes:
  assumes "gs_collector (rl_gw p) = memory_collector"
  shows "\<exists>s'. close_session ok_env rt_session p (rl_gw p) = (Inr (), s')"
proof -
  have "wp (close_session ok_env rt_session p) (\<lambda>_ _. True) (\<lambda>_ _. False) (rl_gw p)"
    using assms by (simp add: close_session_def record_realtime_def wp_simps Let_def record_usage_def memory_collector_def)
  then show ?thesis by (cases "close_session ok_env rt_session p (rl_gw p)") (auto simp: wp_def split: sum.splits)
qed

lemma rt_bridge:
  obtains outs s' where "bridge ok_env rt_caps ok_request rt_io ex_state (Inr outs, s')"
proof -
  obtain s1 where s1: "open_session ok_env ok_request rt_io ex_state = (Inr ([], Some rt_session), s1)" "gs_collector s1 = memory_collector"
    by (rule rt_opens)
  note r = rt_steps [of s1]
  obtain s' where "close_session ok_env rt_session (rt_cut s1) (rl_gw (rt_cut s1)) = (Inr (), s')"
    using rt_closes [of "rt_cut s1"] r s1(2) by auto
  then show thesis using that bridge.finished [OF s1(1)] r by blast
qed

theorem realtime_session_limited_witness:
  "\<exists>p :: relay. rl_capped p \<and> rl_bytes p = 5 \<and>
     int (sum_list (map payload_size (rl_to_client p)) + sum_list (map payload_size (rl_to_upstream p))) \<le> 3"
proof -
  have "sane_caps rt_caps rt_session" by (simp add: sane_caps_def rt_caps_def rt_session_def kMaxRealtimeFrame_def)
  moreover have "rl_bytes (rt_cut ex_state) = 5"
    by (simp add: rt_cut_def main_leave_def main_head_def up_leave_def up_received_def up_head_def count_frame_def
        check_session_caps_def Let_def relay_start_def rt_caps_def rt_session_def to_int64_def)
  ultimately show ?thesis
    using realtime_session_limited [of ok_env rt_caps rt_session ex_state "rt_cut ex_state"] rt_steps [of ex_state]
    by (intro exI [of _ "rt_cut ex_state"]) (simp add: rt_caps_def rt_session_def)
qed


theorem capped_session_settled_twice_witness:
  "\<exists>s' t a ev. close_session ok_env rt_session (rt_cut ex_state) (rl_gw (rt_cut ex_state)) = (Inr (), s') \<and>
     gs_log s' = UsageStored ev # Aborted ''lease'' ''realtime_session_cap_exceeded'' Safe 0 a # ClockRead t #
       gs_log (rl_gw (rt_cut ex_state)) \<and> ue_lease_token ev = ''lease''"
proof -
  have c: "gs_collector (rl_gw (rt_cut ex_state)) = memory_collector" using rt_steps [of ex_state] by (simp add: ex_state_def)
  obtain s' where run: "close_session ok_env rt_session (rt_cut ex_state) (rl_gw (rt_cut ex_state)) = (Inr (), s')"
    using rt_closes [OF c] by blast
  have l: "dr_lease_token (se_dispatch rt_session) = ''lease''" by (simp add: rt_session_def)
  have "rl_capped (rt_cut ex_state)" using rt_steps [of ex_state] by blast
  from capped_session_settled_twice [OF this run] run show ?thesis unfolding l by blast
qed

end
