(* ===== verification/Http_Server.thy ===== *)
theory Http_Server
  imports Realtime_Bridge Handler_Properties Websocket
begin

text \<open>
  The router (\<^verbatim>\<open>server/router.cpp\<close>) and the HTTP server in front of it (\<^verbatim>\<open>server/http_server.cpp\<close>): health and
  metrics endpoints, the dispatch to the request handler or the realtime bridge, the client address
  behind trusted proxies, the reading of request bodies and the answer.  Photon's request is a record,
  its socket a list of pieces.  The theorems: who a request is attributed to, which body is handled,
  and that a request without a key reaches neither the platform nor a provider.
\<close>

unbundle bit_operations_syntax

section \<open>The router\<close>

text \<open>The answers that only the health endpoint needs.\<close>

record router_env =
  re_gateway :: gateway_env
  re_connected :: "gateway_call list \<Rightarrow> bool"
  re_ping :: "gateway_call list \<Rightarrow> bool"

definition show_bool :: "bool \<Rightarrow> string" where
  "show_bool b = (if b then ''true'' else ''false'')"

definition answer_with :: "int \<Rightarrow> string \<Rightarrow> unit gw" where
  "answer_with st b = set_resp (\<lambda>r. r\<lparr>rs_status_code := st, rs_body := b\<rparr>)"

definition ready_body :: "bool \<Rightarrow> bool \<Rightarrow> bool \<Rightarrow> string" where
  \<open>ready_body dispatch_ok garnet_ok sqlite_ok =
     (if dispatch_ok \<and> garnet_ok \<and> sqlite_ok then ''{"status":"ready"}''
      else ''{"status":"not_ready","dispatch":'' @ show_bool dispatch_ok @ '',"garnet":'' @ show_bool garnet_ok @
           '',"sqlite":'' @ show_bool sqlite_ok @ ''}'')\<close>

definition metric_text :: "string \<times> string \<times> string \<times> nat \<Rightarrow> string" where
  "metric_text x =
     (case x of (name, help, kind, v) \<Rightarrow>
        ''# HELP '' @ name @ '' '' @ help @ [CHR 0x0A] @ ''# TYPE '' @ name @ '' '' @ kind @ [CHR 0x0A] @
        name @ '' '' @ to_string v @ [CHR 0x0A])"

definition metrics_body :: "Metrics \<Rightarrow> nat \<Rightarrow> nat \<Rightarrow> string" where
  "metrics_body m dead evidence = concat (map metric_text
     [(''gateway_requests_total'', ''Total requests'', ''counter'', unat (mt_requests_total m)),
      (''gateway_requests_streaming'', ''Streaming requests'', ''counter'', unat (mt_requests_streaming m)),
      (''gateway_requests_failed'', ''Failed requests'', ''counter'', unat (mt_requests_failed m)),
      (''gateway_dispatch_calls'', ''Dispatch RPC calls'', ''counter'', unat (mt_dispatch_calls m)),
      (''gateway_garnet_hits'', ''Garnet cache hits'', ''counter'', unat (mt_garnet_hits m)),
      (''gateway_garnet_misses'', ''Garnet cache misses'', ''counter'', unat (mt_garnet_misses m)),
      (''gateway_upstream_errors'', ''Upstream errors'', ''counter'', unat (mt_upstream_errors m)),
      (''gateway_conversion_failures_total'', ''Protocol response conversion failures'', ''counter'',
         unat (mt_conversion_failures m)),
      (''gateway_failovers'', ''Account failovers'', ''counter'', unat (mt_failovers m)),
      (''gateway_active_connections'', ''Active connections'', ''gauge'', unat (mt_active_connections m)),
      (''gateway_usage_outbox_backlog'', ''Pending durable usage events'', ''gauge'', unat (mt_usage_events_buffered m)),
      (''gateway_usage_dead_lettered'', ''Non-retryable usage events retained for operator review'', ''gauge'', dead),
      (''gateway_evidence_outbox_backlog'', ''Pending durable lease evidence'', ''gauge'', evidence),
      (''gateway_usage_report_failures_total'', ''Failed usage report attempts'', ''counter'',
         unat (mt_usage_report_failures m)),
      (''gateway_dispatch_reconnects_total'', ''Successful dispatch reconnects'', ''counter'',
         unat (mt_dispatch_reconnects m))])"

definition serve_ready :: "router_env \<Rightarrow> unit gw" where
  "serve_ready re =
     gw_bind (gw_get (\<lambda>s. (re_connected re (gs_log s), re_ping re (gs_log s), durable (gs_collector s)))) (\<lambda>(d, g, q).
       answer_with (if d \<and> g \<and> q then 200 else 503) (ready_body d g q))"

definition serve_metrics :: "router_env \<Rightarrow> unit gw" where
  "serve_metrics re =
     gw_bind (gw_get (\<lambda>s. metrics_body (gs_metrics s)
         (dead_lettered (e_db_ok (re_gateway re) (gs_log s)) (gs_collector s))
         (pending_evidence (e_db_ok (re_gateway re) (gs_log s)) (gs_collector s)))) (answer_with 200)"

definition serve_models :: "router_env \<Rightarrow> unit gw" where
  \<open>serve_models re =
     gw_bind (call_garnet (re_gateway re) ''models:list'') (\<lambda>g.
       if gr_error g then answer_with 503 (fixed_error ''cache_unavailable'' ''Model catalog temporarily unavailable'')
       else answer_with 200 (if gr_found g \<and> gr_value g \<noteq> [] then gr_value g else ''{"object":"list","data":[]}''))\<close>

definition handle_request :: "nat \<Rightarrow> router_env \<Rightarrow> HttpRequest \<Rightarrow> unit gw" where
  \<open>handle_request fuel re req =
     (let path = hq_path req
      in if path = ''/live'' then answer_with 200 ''{"status":"live"}''
         else if path = ''/ready'' then serve_ready re
         else if path = ''/metrics'' then serve_metrics re
         else case match_capability (hq_method req) path of
                Some m \<Rightarrow>
                  if capability (spec m) = Capability.Models \<and> hq_authorization req = [] \<and> hq_x_api_key req = []
                  then serve_models re else handle fuel (re_gateway re) req m
              | None \<Rightarrow>
                  if path_matches_any path
                  then answer_with 405 (fixed_error ''method_not_allowed'' ''HTTP method is not supported for this endpoint'')
                  else answer_with 404 (fixed_error ''not_found_error'' ''Unknown or unsupported endpoint''))\<close>

text \<open>\<^verbatim>\<open>Router::handle_websocket\<close>, as the relation that \<open>bridge\<close> is.\<close>

inductive handle_websocket :: "router_env \<Rightarrow> session_caps \<Rightarrow> HttpRequest \<Rightarrow> realtime_io \<Rightarrow> gateway_state \<Rightarrow> (halt + ws_out list) \<times> gateway_state \<Rightarrow> bool"
  for re caps req io where
  unsupported: "\<not> (\<exists>m. match_capability ''GET'' (hq_path req) = Some m \<and> realtime (spec m)) \<Longrightarrow>
    handle_websocket re caps req io s (Inr [CloseWs PolicyViolation ''unsupported realtime endpoint''], s)"
| bridged: "match_capability ''GET'' (hq_path req) = Some m \<Longrightarrow> realtime (spec m) \<Longrightarrow> bridge (re_gateway re) caps req io s r \<Longrightarrow>
    handle_websocket re caps req io s r"

section \<open>Addresses\<close>

text \<open>\<^verbatim>\<open>inet_pton(AF_INET, ...)\<close> and \<^verbatim>\<open>ntohl\<close>: four decimal numbers up to 255 without leading zeros.\<close>

definition octet :: "string \<Rightarrow> nat option" where
  "octet t = (if t \<noteq> [] \<and> list_all is_digit t \<and> (hd t = CHR ''0'' \<longrightarrow> length t = 1) \<and> digits_value t \<le> 255
              then Some (nat (digits_value t)) else None)"

fun split_char :: "char \<Rightarrow> string \<Rightarrow> string list" where
  "split_char c [] = [[]]"
| "split_char c (x # xs) =
     (if x = c then [] # split_char c xs else case split_char c xs of [] \<Rightarrow> [[x]] | p # ps \<Rightarrow> (x # p) # ps)"

definition address :: "nat list \<Rightarrow> 32 word" where
  "address ns = word_of_nat (fold (\<lambda>n acc. acc * 256 + n) ns 0)"

definition inet_pton4 :: "string \<Rightarrow> 32 word option" where
  "inet_pton4 t =
     (let parts = map octet (split_char CHR ''.'' (cstr t))
      in if length parts = 4 \<and> None \<notin> set parts then Some (address (map the parts)) else None)"

text \<open>\<^verbatim>\<open>std::atoi\<close>.\<close>

definition atoi :: "string \<Rightarrow> int" where
  "atoi t = to_int32 (fst (strtol10 (cstr t)))"

definition prefix_mask :: "int \<Rightarrow> 32 word" where
  "prefix_mask n = (if n = 0 then 0 else push_bit (nat (32 - n)) 0xFFFFFFFF)"

definition cidr_entry :: "string \<Rightarrow> (32 word \<times> int) option" where
  "cidr_entry raw =
     (let entry = trim_back (\<lambda>c. c = CHR '' '') (trim_front (\<lambda>c. c = CHR '' '') raw);
          (address_text, rest) = split_at_char CHR ''/'' entry;
          bits = (case rest of None \<Rightarrow> 32 | Some t \<Rightarrow> atoi t)
      in if 0 \<le> bits \<and> bits \<le> 32 then map_option (\<lambda>a. (a, bits)) (inet_pton4 address_text) else None)"

text \<open>The loop over the entries; an empty rest ends it.\<close>

function in_entries :: "32 word \<Rightarrow> string \<Rightarrow> bool" where
  "in_entries peer cidrs =
     (if cidrs = [] then False
      else let (entry, rest) = split_at_char CHR '','' cidrs
           in (case cidr_entry entry of
                 Some (network, bits) \<Rightarrow> peer AND prefix_mask bits = network AND prefix_mask bits
               | None \<Rightarrow> False)
              \<or> (case rest of None \<Rightarrow> False | Some t \<Rightarrow> in_entries peer t))"
  by pat_completeness auto

termination
  by (relation "measure (\<lambda>(p, t). length t)") (auto dest: length_split_at_char [OF sym])

declare in_entries.simps [simp del]

definition ipv4_in_cidrs :: "string \<Rightarrow> string \<Rightarrow> bool" where
  "ipv4_in_cidrs ip cidrs = (case inet_pton4 ip of None \<Rightarrow> False | Some peer \<Rightarrow> in_entries peer cidrs)"

section \<open>The HTTP server\<close>

text \<open>
  A request as Photon hands it over: its verb, target and headers in their order, the lookup of a
  header by name, the peer, the pieces in which the body can be read, and whether a WebSocket upgrade
  succeeds.  A read of \<open>n\<close> bytes takes at most \<open>n\<close> of the next piece; when no piece is left it returns 0.
\<close>

datatype Verb = GET | POST | PUT | DELETE | PATCH | HEAD | OPTIONS | OtherVerb

datatype peer = NoSocket | PeerIpv4 nat nat nat nat | PeerIpv6 "string option"

record photon_request =
  pq_verb :: Verb
  pq_target :: string
  pq_headers :: headers
  pq_header :: "string \<Rightarrow> string"
  pq_peer :: peer
  pq_reads :: "string list"
  pq_accepts_websocket :: bool
  pq_sink :: sink

record HttpServerConfig =
  sc_port :: nat
  sc_core_id :: int
  sc_max_body_size :: nat
  sc_trusted_proxy_cidrs :: string
  sc_stream_timeout_ms :: nat

definition default_server_config :: HttpServerConfig where
  "default_server_config = \<lparr>sc_port = 8080, sc_core_id = 0, sc_max_body_size = 32 * 1024 * 1024,
     sc_trusted_proxy_cidrs = [], sc_stream_timeout_ms = 300000\<rparr>"

definition verb_to_sv :: "Verb \<Rightarrow> string" where
  "verb_to_sv v =
     (case v of GET \<Rightarrow> ''GET'' | POST \<Rightarrow> ''POST'' | PUT \<Rightarrow> ''PUT'' | DELETE \<Rightarrow> ''DELETE'' | PATCH \<Rightarrow> ''PATCH''
      | HEAD \<Rightarrow> ''HEAD'' | OPTIONS \<Rightarrow> ''OPTIONS'' | OtherVerb \<Rightarrow> ''UNKNOWN'')"

definition dotted :: "nat \<Rightarrow> nat \<Rightarrow> nat \<Rightarrow> nat \<Rightarrow> string" where
  "dotted a b c d = to_string a @ ''.'' @ to_string b @ ''.'' @ to_string c @ ''.'' @ to_string d"

definition peer_ip :: "peer \<Rightarrow> string" where
  "peer_ip p =
     (case p of NoSocket \<Rightarrow> [] | PeerIpv4 a b c d \<Rightarrow> dotted a b c d
      | PeerIpv6 t \<Rightarrow> (case t of None \<Rightarrow> [] | Some x \<Rightarrow> x))"

text \<open>The address a request is attributed to.\<close>

definition client_address :: "HttpServerConfig \<Rightarrow> photon_request \<Rightarrow> string" where
  "client_address cfg rq =
     (let ip = peer_ip (pq_peer rq); trusted = ipv4_in_cidrs ip (sc_trusted_proxy_cidrs cfg);
          xff = pq_header rq ''X-Forwarded-For''; real_ip = pq_header rq ''X-Real-IP''
      in if trusted \<and> xff \<noteq> [] then trim_back (\<lambda>c. c = CHR '' '') (fst (split_at_char CHR '','' xff))
         else if trusted \<and> real_ip \<noteq> [] then real_ip else ip)"

definition kept_headers :: "headers \<Rightarrow> headers" where
  "kept_headers hs = filter (\<lambda>h. fst h \<in> set [''Accept'', ''User-Agent'', ''X-Request-ID'', ''Idempotency-Key'']) hs"

definition target_path :: "string \<Rightarrow> string" where
  "target_path t = fst (split_at_char CHR ''?'' t)"

definition target_query :: "string \<Rightarrow> string" where
  "target_query t = drop (length (target_path t)) t"

subsection \<open>The body\<close>

text \<open>\<^verbatim>\<open>std::stoull\<close>: \<open>None\<close> when it throws; a minus sign negates modulo \<open>2^64\<close>.\<close>

definition stoull :: "string \<Rightarrow> nat option" where
  "stoull s =
     (let t = trim_front is_space (cstr s);
          signed = (t \<noteq> [] \<and> (hd t = CHR ''-'' \<or> hd t = CHR ''+''));
          ds = takeWhile is_digit (if signed then tl t else t); v = digits_value ds
      in if ds = [] \<or> v \<ge> 2 ^ 64 then None
         else Some (nat (if signed \<and> hd t = CHR ''-'' then (- v) mod 2 ^ 64 else v)))"

definition read_some :: "nat \<Rightarrow> string list \<Rightarrow> string \<times> string list" where
  "read_some n rs =
     (case rs of [] \<Rightarrow> ([], []) | r # rest \<Rightarrow> (take n r, if length r \<le> n then rest else drop n r # rest))"

text \<open>The loop for a known length; \<open>n\<close> bytes are still wanted.\<close>

function read_known :: "nat \<Rightarrow> string list \<Rightarrow> string" where
  "read_known n rs =
     (if n = 0 then []
      else case read_some n rs of
             (d, rest) \<Rightarrow> if d = [] then [] else d @ read_known (n - length d) rest)"
  by pat_completeness auto

termination
  by (relation "measure fst") auto

declare read_known.simps [simp del]

definition kReadBuffer :: nat where "kReadBuffer = 64 * 1024"

text \<open>The loop for a chunked body, \<open>None\<close> when it grows too large.\<close>

function read_chunked :: "nat \<Rightarrow> string \<Rightarrow> string list \<Rightarrow> string option" where
  "read_chunked limit acc rs =
     (case read_some kReadBuffer rs of
        (d, rest) \<Rightarrow>
          if d = [] then Some acc
          else if length acc + length d > limit then None else read_chunked limit (acc @ d) rest)"
  by pat_completeness auto

termination
  by (relation "measure (\<lambda>(limit, acc, rs). sum_list (map length rs) + length rs)")
    (auto simp: read_some_def kReadBuffer_def split: list.splits if_splits)

declare read_chunked.simps [simp del]

datatype body_result = Body string | BadLength | TooLarge bool

definition read_request_body :: "HttpServerConfig \<Rightarrow> photon_request \<Rightarrow> body_result" where
  "read_request_body cfg rq =
     (if pq_header rq ''Content-Length'' \<noteq> []
      then case stoull (pq_header rq ''Content-Length'') of
             None \<Rightarrow> BadLength
           | Some len \<Rightarrow> if len > sc_max_body_size cfg then TooLarge True else Body (read_known len (pq_reads rq))
      else if pq_header rq ''Transfer-Encoding'' \<noteq> []
      then case read_chunked (sc_max_body_size cfg) [] (pq_reads rq) of None \<Rightarrow> TooLarge False | Some b \<Rightarrow> Body b
      else Body [])"

subsection \<open>The handler\<close>

text \<open>
  What the server does with a request: it answers it, the handler has streamed the answer to the sink
  (the head of the answer is taken when the first bytes are written), or it hands a WebSocket over.
\<close>

datatype http_result =
    Answered_with int headers string
  | Streamed string
  | OpenWebsocket HttpRequest
  | WebsocketFailed

definition json_answer :: "int \<Rightarrow> string \<Rightarrow> http_result" where
  "json_answer st b = Answered_with st [(''Content-Type'', ''application/json'')] b"

definition gateway_request :: "HttpServerConfig \<Rightarrow> photon_request \<Rightarrow> string \<Rightarrow> HttpRequest" where
  "gateway_request cfg rq b =
     \<lparr>hq_method = verb_to_sv (pq_verb rq), hq_path = target_path (pq_target rq), hq_query = target_query (pq_target rq),
      hq_body = b, hq_authorization = pq_header rq ''Authorization'', hq_x_api_key = pq_header rq ''X-Api-Key'',
      hq_client_ip = client_address cfg rq, hq_content_type = pq_header rq ''Content-Type'',
      hq_accept = pq_header rq ''Accept'', hq_user_agent = pq_header rq ''User-Agent'',
      hq_request_id = pq_header rq ''X-Request-ID'', hq_idempotency_key = pq_header rq ''Idempotency-Key'',
      hq_headers = kept_headers (pq_headers rq), hq_stream_timeout_ms = sc_stream_timeout_ms cfg,
      hq_has_set_client_timeout = True, hq_has_client_disconnected = True\<rparr>"

definition websocket_request :: "HttpServerConfig \<Rightarrow> photon_request \<Rightarrow> HttpRequest" where
  "websocket_request cfg rq =
     (gateway_request cfg rq [])\<lparr>hq_method := ''GET'', hq_content_type := [], hq_stream_timeout_ms := 300000,
        hq_has_set_client_timeout := False, hq_has_client_disconnected := False\<rparr>"

definition upgrade :: "HttpServerConfig \<Rightarrow> photon_request \<Rightarrow> http_result" where
  "upgrade cfg rq =
     (let auth_hdr = pq_header rq ''Authorization''
      in if \<not> (case match_capability ''GET'' (target_path (pq_target rq)) of Some m \<Rightarrow> realtime (spec m) | None \<Rightarrow> False)
         then json_answer 404 (fixed_error ''not_found_error'' ''Unknown or unsupported WebSocket endpoint'')
         else if \<not> (starts_with auth_hdr ''Bearer '' \<and> length auth_hdr > 7) \<and> pq_header rq ''X-Api-Key'' = []
         then json_answer 401 (fixed_error ''authentication_error'' ''Missing API key'')
         else if \<not> is_safe_query_string (target_query (pq_target rq))
         then json_answer 400 (fixed_error ''invalid_request_error'' ''Malformed query string'')
         else if \<not> pq_accepts_websocket rq then WebsocketFailed
         else OpenWebsocket (websocket_request cfg rq))"

definition other_headers :: "HttpResponse \<Rightarrow> headers" where
  "other_headers r = filter (\<lambda>h. fst h \<noteq> ''Content-Type'') (rs_headers r)"

text \<open>The head written before the first bytes of a stream.\<close>

definition stream_head :: "HttpResponse \<Rightarrow> headers" where
  "stream_head r =
     other_headers r @
     [(''Content-Type'', if rs_content_type r = [] then ''text/event-stream'' else rs_content_type r)] @
     (if rs_content_type r = [] \<or> starts_with (rs_content_type r) ''text/event-stream''
      then [(''Transfer-Encoding'', ''chunked''), (''Cache-Control'', ''no-cache''), (''Connection'', ''keep-alive'')] else [])"

definition final_answer :: "HttpResponse \<Rightarrow> http_result" where
  "final_answer r =
     Answered_with (rs_status_code r)
       (other_headers r @ [(''Content-Type'', if rs_content_type r = [] then ''application/json'' else rs_content_type r)])
       (rs_body r)"

text \<open>The sink changes with every write that is tried, so a changed sink means that the head was sent.\<close>

definition http_handler :: "nat \<Rightarrow> router_env \<Rightarrow> HttpServerConfig \<Rightarrow> photon_request \<Rightarrow> http_result gw" where
  \<open>http_handler fuel re cfg rq =
     (if is_websocket_upgrade (pq_header rq ''Upgrade'') (pq_header rq ''Connection'') then gw_return (upgrade cfg rq)
      else case read_request_body cfg rq of
             BadLength \<Rightarrow> gw_return (Answered_with 400 [] [])
           | TooLarge known \<Rightarrow>
               gw_return (if known then json_answer 413 ''{"error":"request too large"}'' else Answered_with 413 [] [])
           | Body b \<Rightarrow>
               gw_then (set_resp (\<lambda>_. new_response True (pq_sink rq)))
               (gw_then (handle_request fuel re (gateway_request cfg rq b))
                 (gw_get (\<lambda>s. let r = gs_resp s
                              in if rs_sink r \<noteq> pq_sink rq then Streamed (sent (rs_sink r)) else final_answer r))))\<close>

section \<open>Trusted proxies\<close>

text \<open>The networks of a list, and the addresses of a network: those with the same leading bits.\<close>

definition networks :: "string \<Rightarrow> (32 word \<times> int) list" where
  "networks cidrs = List.map_filter cidr_entry (split_char CHR '','' cidrs)"

definition same_network :: "32 word \<Rightarrow> 32 word \<times> int \<Rightarrow> bool" where
  "same_network a n \<longleftrightarrow> drop_bit (nat (32 - snd n)) a = drop_bit (nat (32 - snd n)) (fst n)"

lemma bit_prefix_mask:
  assumes "0 \<le> n" "n \<le> 32"
  shows "bit (prefix_mask n) i \<longleftrightarrow> nat (32 - n) \<le> i \<and> i < 32"
proof -
  have m: "(0xFFFFFFFF :: 32 word) = mask 32" by (simp add: mask_eq_exp_minus_1)
  show ?thesis unfolding prefix_mask_def m using assms by (auto simp: bit_simps)
qed

lemma high_bits: "\<not> i < 32 \<Longrightarrow> \<not> bit (a :: 32 word) i"
  using bit_imp_le_length [of a i] by auto

lemma masked_eq_iff:
  assumes "0 \<le> n" "n \<le> 32"
  shows "a AND prefix_mask n = b AND prefix_mask n \<longleftrightarrow> same_network a (b, n)"
proof -
  let ?k = "nat (32 - n)"
  have "(a AND prefix_mask n = b AND prefix_mask n) \<longleftrightarrow> (\<forall>i<32. ?k \<le> i \<longrightarrow> bit a i = bit b i)"
    using bit_prefix_mask [OF assms] by (auto simp: bit_eq_iff bit_and_iff)
  also have "\<dots> \<longleftrightarrow> (\<forall>j. bit a (?k + j) = bit b (?k + j))"
  proof
    assume h: "\<forall>i<32. ?k \<le> i \<longrightarrow> bit a i = bit b i"
    show "\<forall>j. bit a (?k + j) = bit b (?k + j)"
    proof
      fix j
      show "bit a (?k + j) = bit b (?k + j)"
        using h high_bits [of "?k + j" a] high_bits [of "?k + j" b] by (cases "?k + j < 32") simp_all
    qed
  next
    assume h: "\<forall>j. bit a (?k + j) = bit b (?k + j)"
    show "\<forall>i<32. ?k \<le> i \<longrightarrow> bit a i = bit b i"
    proof (intro allI impI)
      fix i assume "?k \<le> i"
      then show "bit a i = bit b i" using h [THEN spec, of "i - ?k"] by simp
    qed
  qed
  also have "\<dots> \<longleftrightarrow> same_network a (b, n)"
  proof -
    have "bit a (?k + j) = bit b (?k + j)" if "\<forall>j<32. bit a (?k + j) = bit b (?k + j)" for j
      using that high_bits [of "?k + j" a] high_bits [of "?k + j" b] by (cases "j < 32") simp_all
    then show ?thesis by (auto simp: same_network_def bit_eq_iff bit_drop_bit_eq)
  qed
  finally show ?thesis .
qed

lemma cidr_entry_range: "cidr_entry e = Some (n, k) \<Longrightarrow> 0 \<le> k \<and> k \<le> 32"
  by (auto simp: cidr_entry_def Let_def split: prod.splits if_splits)

lemma inet_pton4_Nil: "inet_pton4 [] = None"
  by (simp add: inet_pton4_def cstr_def)

lemma cidr_entry_Nil: "cidr_entry [] = None"
  by (simp add: cidr_entry_def trim_front_def trim_back_def split_at_char_def find_char_def inet_pton4_Nil)

lemma split_char_split: "split_char c s = (case split_at_char c s of (a, None) \<Rightarrow> [a] | (a, Some b) \<Rightarrow> a # split_char c b)"
  by (induction s) (auto simp: split_at_char_eq split: option.splits list.splits)

lemma in_entries_iff: "in_entries p cidrs \<longleftrightarrow> list_ex (same_network p) (networks cidrs)"
proof (induction p cidrs rule: in_entries.induct)
  case (1 p cidrs)
  show ?case
  proof (cases "cidrs = []")
    case True
    then show ?thesis by (simp add: in_entries.simps networks_def cidr_entry_Nil List.map_filter_simps)
  next
    case False
    obtain e r where er: "split_at_char CHR '','' cidrs = (e, r)" by fastforce
    have now: "(case cidr_entry e of Some (n, k) \<Rightarrow> p AND prefix_mask k = n AND prefix_mask k | None \<Rightarrow> False) \<longleftrightarrow>
        list_ex (same_network p) (List.map_filter cidr_entry [e])"
      using cidr_entry_range [of e] by (auto simp: List.map_filter_simps masked_eq_iff split: option.splits)
    have later: "in_entries p t \<longleftrightarrow> list_ex (same_network p) (networks t)" if "r = Some t" for t
      using 1 [OF False er [symmetric] refl that] .
    show ?thesis
    proof (cases r)
      case None
      then show ?thesis using False er now
        by (simp add: in_entries.simps [of p cidrs] networks_def split_char_split [of _ cidrs])
    next
      case (Some t)
      then show ?thesis using False er now later [OF Some]
        by (simp add: in_entries.simps [of p cidrs] networks_def split_char_split [of _ cidrs] List.map_filter_simps
            split: option.splits)
    qed
  qed
qed

subsection \<open>Addresses that the kernel writes are read back\<close>

lemma digits_value_snoc: "digits_value (s @ [c]) = digits_value s * 10 + (int (byte_of c) - 48)"
  by (simp add: digits_value_def)

lemma byte_of_digit: "n < 10 \<Longrightarrow> byte_of (char_of (48 + n)) = 48 + n"
  by (simp add: byte_of_def)

lemma digits_value_to_string: "digits_value (to_string n) = int n"
proof (induction n rule: less_induct)
  case (less n)
  show ?case
  proof (cases "n < 10")
    case True
    then show ?thesis by (subst to_string_last) (simp add: digits_value_def byte_of_digit)
  next
    case False
    have "int n = int (n div 10 * 10 + n mod 10)" by (simp only: div_mult_mod_eq)
    then have "int n = int (n div 10) * 10 + int (n mod 10)" by (simp only: of_nat_add of_nat_mult of_nat_numeral)
    with False show ?thesis by (subst to_string_last) (simp add: digits_value_snoc byte_of_digit less)
  qed
qed

lemma to_string_no_zero: "0 < n \<Longrightarrow> hd (to_string n) \<noteq> CHR ''0''"
proof (induction n rule: less_induct)
  case (less n)
  show ?case
  proof (cases "n < 10")
    case True
    have "char_of (48 + n) \<noteq> CHR ''0''"
    proof
      assume "char_of (48 + n) = CHR ''0''"
      then have "48 + n = byte_of CHR ''0''" using True byte_of_digit [of n] by simp
      then show False using less.prems by (simp add: byte_of_def)
    qed
    then show ?thesis using True by (subst to_string_last) simp
  next
    case False
    then show ?thesis using less.IH [of "n div 10"] to_string_nonempty [of "n div 10"] by (subst to_string_last) simp
  qed
qed

lemma octet_to_string:
  assumes "n \<le> 255"
  shows "octet (to_string n) = Some n"
proof -
  have "length (to_string n) = 1" if "hd (to_string n) = CHR ''0''"
    using that to_string_no_zero [of n] by (cases "n = 0") (simp_all add: to_string.simps)
  then show ?thesis
    using assms by (auto simp: octet_def digits_value_to_string to_string_nonempty to_string_digits list_all_iff)
qed

lemma split_char_one: "c \<notin> set a \<Longrightarrow> split_char c a = [a]"
  by (induction a) auto

lemma split_char_append: "c \<notin> set a \<Longrightarrow> split_char c (a @ c # r) = a # split_char c r"
  by (induction a) (auto split: list.splits)

lemma to_string_plain: "CHR ''.'' \<notin> set (to_string n)" "CHR 0x00 \<notin> set (to_string n)"
  using to_string_digits [of "CHR ''.''" n] to_string_digits [of "CHR 0x00" n] by (auto simp: is_digit_def byte_of_def)

lemma cstr_plain: "CHR 0x00 \<notin> set s \<Longrightarrow> cstr s = s"
  by (auto simp: cstr_def takeWhile_eq_all_conv)

lemma inet_pton4_dotted:
  assumes "a \<le> 255" "b \<le> 255" "c \<le> 255" "d \<le> 255"
  shows "inet_pton4 (dotted a b c d) = Some (address [a, b, c, d])"
proof -
  have "cstr (dotted a b c d) = dotted a b c d"
    by (rule cstr_plain) (simp add: dotted_def to_string_plain)
  moreover have "split_char CHR ''.'' (dotted a b c d) = [to_string a, to_string b, to_string c, to_string d]"
    by (simp add: dotted_def split_char_append split_char_one to_string_plain)
  ultimately show ?thesis using assms by (simp add: inet_pton4_def octet_to_string)
qed

text \<open>The text of an IPv6 address has a colon and is not an IPv4 address.\<close>

lemma octet_digits: "octet t = Some n \<Longrightarrow> list_all is_digit t"
  by (auto simp: octet_def split: if_splits)

lemma split_char_set: "x \<in> set s \<Longrightarrow> x \<noteq> c \<Longrightarrow> \<exists>p\<in>set (split_char c s). x \<in> set p"
  by (induction s) (auto split: list.splits)

lemma inet_pton4_colon:
  assumes "CHR '':'' \<in> set (cstr t)"
  shows "inet_pton4 t = None"
proof -
  obtain x where x: "x \<in> set (split_char CHR ''.'' (cstr t))" "CHR '':'' \<in> set x"
    using split_char_set [OF assms, of "CHR ''.''"] by auto
  have "\<not> is_digit CHR '':''" by (simp add: is_digit_def byte_of_def)
  then have "\<not> list_all is_digit x" using x(2) by (auto simp: list_all_iff)
  then have "octet x = None" using octet_digits by (cases "octet x") auto
  then have "None \<in> set (map octet (split_char CHR ''.'' (cstr t)))" using x(1) by (metis imageI set_map)
  then show ?thesis by (simp add: inet_pton4_def)
qed

definition peer_covered :: "HttpServerConfig \<Rightarrow> peer \<Rightarrow> bool" where
  "peer_covered cfg p =
     (case p of PeerIpv4 a b c d \<Rightarrow> list_ex (same_network (address [a, b, c, d])) (networks (sc_trusted_proxy_cidrs cfg))
      | _ \<Rightarrow> False)"

definition wf_peer :: "peer \<Rightarrow> bool" where
  "wf_peer p =
     (case p of PeerIpv4 a b c d \<Rightarrow> a \<le> 255 \<and> b \<le> 255 \<and> c \<le> 255 \<and> d \<le> 255
      | PeerIpv6 (Some t) \<Rightarrow> CHR '':'' \<in> set (cstr t) | _ \<Rightarrow> True)"

lemma trusted_iff: "wf_peer p \<Longrightarrow> ipv4_in_cidrs (peer_ip p) (sc_trusted_proxy_cidrs cfg) \<longleftrightarrow> peer_covered cfg p"
  by (cases p)
    (auto simp: wf_peer_def peer_covered_def ipv4_in_cidrs_def peer_ip_def inet_pton4_dotted inet_pton4_colon inet_pton4_Nil
      in_entries_iff split: option.splits)

text \<open>
  C12.  Only a trusted proxy can say who the client is.  When the peer of a connection is an IPv4
  address whose leading bits differ from those of every network in the configured list, or an IPv6
  address, the request that is handled, and that of a WebSocket session, is attributed to the peer,
  whatever headers it carries.
\<close>

theorem client_not_spoofed:
  assumes "wf_peer (pq_peer rq)" and "\<not> peer_covered cfg (pq_peer rq)"
  shows "hq_client_ip (gateway_request cfg rq b) = peer_ip (pq_peer rq) \<and>
    (\<forall>req. upgrade cfg rq = OpenWebsocket req \<longrightarrow> hq_client_ip req = peer_ip (pq_peer rq))"
proof -
  have "client_address cfg rq = peer_ip (pq_peer rq)"
    using trusted_iff [OF assms(1)] assms(2) by (simp add: client_address_def Let_def)
  then show ?thesis
    by (auto simp: gateway_request_def websocket_request_def upgrade_def json_answer_def Let_def split: if_splits)
qed

definition spoofing_request :: photon_request where
  "spoofing_request = \<lparr>pq_verb = POST, pq_target = ''/v1/chat/completions'', pq_headers = [],
     pq_header = (\<lambda>n. if n = ''X-Forwarded-For'' then ''1.2.3.4'' else []), pq_peer = PeerIpv4 9 9 9 9, pq_reads = [],
     pq_accepts_websocket = False, pq_sink = \<lparr>sent = [], replies = []\<rparr>\<rparr>"

definition proxied_config :: HttpServerConfig where
  "proxied_config = default_server_config\<lparr>sc_trusted_proxy_cidrs := ''10.0.0.0/8''\<rparr>"

lemma proxied_networks: "networks (sc_trusted_proxy_cidrs proxied_config) = [(0x0A000000, 8)]"
  by (simp add: networks_def proxied_config_def default_server_config_def List.map_filter_simps cidr_entry_def trim_front_def
      trim_back_def split_at_char_eq atoi_def cstr_def strtol10_def Let_def is_digit_def is_space_def byte_of_def digits_value_def
      int_bounds to_int32_def inet_pton4_def octet_def address_def)

theorem client_not_spoofed_witness:
  "hq_client_ip (gateway_request proxied_config spoofing_request []) = ''9.9.9.9''"
proof -
  have "wf_peer (pq_peer spoofing_request)" by (simp add: wf_peer_def spoofing_request_def)
  moreover have "\<not> peer_covered proxied_config (pq_peer spoofing_request)"
    by (simp add: peer_covered_def spoofing_request_def proxied_networks same_network_def address_def)
  moreover have "peer_ip (pq_peer spoofing_request) = ''9.9.9.9''" by code_simp
  ultimately show ?thesis
    using client_not_spoofed [of spoofing_request proxied_config "[]"]
    by simp
qed

section \<open>Request bodies\<close>

lemma read_some_Cons: "read_some n (r # rs) = (take n r, if length r \<le> n then rs else drop n r # rs)"
  by (simp add: read_some_def)

lemma read_known_all: "[] \<notin> set rs \<Longrightarrow> read_known n rs = take n (concat rs)"
proof (induction rs arbitrary: n)
  case Nil
  then show ?case by (simp add: read_known.simps read_some_def)
next
  case (Cons r rs)
  show ?case
  proof (cases "length r \<le> n")
    case True
    then have "n \<noteq> 0" using Cons.prems by (cases r) auto
    then show ?thesis using True Cons by (subst read_known.simps) (auto simp: read_some_Cons)
  next
    case False
    then show ?thesis using Cons.prems
      by (subst read_known.simps) (auto simp: read_some_Cons read_known.simps [of 0])
  qed
qed

lemma kReadBuffer_pos: "0 < kReadBuffer"
  by (simp add: kReadBuffer_def)

lemma read_chunked_all:
  assumes "[] \<notin> set rs" and "length acc \<le> limit"
  shows "read_chunked limit acc rs = (if length acc + length (concat rs) \<le> limit then Some (acc @ concat rs) else None)"
  using assms
proof (induction limit acc rs rule: read_chunked.induct)
  case (1 limit acc rs)
  show ?case
  proof (cases rs)
    case Nil
    then show ?thesis using 1 by (simp add: read_chunked.simps read_some_def)
  next
    case (Cons r rest)
    let ?d = "take kReadBuffer r" and ?left = "if length r \<le> kReadBuffer then rest else drop kReadBuffer r # rest"
    have rs: "read_some kReadBuffer rs = (?d, ?left)" using Cons by (simp add: read_some_Cons)
    have d: "?d \<noteq> []" using "1.prems" Cons kReadBuffer_pos by auto
    have left: "[] \<notin> set ?left" using "1.prems" Cons by auto
    have all: "concat rs = ?d @ concat ?left" using Cons by simp
    show ?thesis
    proof (cases "length acc + length ?d > limit")
      case True
      then show ?thesis unfolding all using d by (subst read_chunked.simps) (simp add: rs)
    next
      case False
      then show ?thesis unfolding all using d "1.IH" [OF rs [symmetric] d False left]
        by (subst read_chunked.simps) (simp add: rs)
    qed
  qed
qed

lemma length_read_known: "length (read_known n rs) \<le> n"
proof (induction n rs rule: read_known.induct)
  case (1 n rs)
  have "length (fst (read_some n rs)) \<le> n" by (cases rs) (auto simp: read_some_def)
  then show ?case using 1 by (subst read_known.simps) (auto split: prod.splits)
qed

lemma length_read_chunked: "read_chunked limit acc rs = Some b \<Longrightarrow> length acc \<le> limit \<Longrightarrow> length b \<le> limit"
proof (induction limit acc rs rule: read_chunked.induct)
  case (1 limit acc rs)
  then show ?case by (subst (asm) (2) read_chunked.simps) (auto split: prod.splits if_splits)
qed

text \<open>
  C26.  The body that is handled is what was sent, within the limit.  Whatever pieces it arrives in:
  with a Content-Length the body is the first bytes of what arrives, as many as the length says (all
  of them when the connection ends early), unless the length exceeds the limit; a chunked body is
  taken whole exactly when it fits the limit; and no body above the limit is ever handled.
\<close>

theorem request_body_read:
  assumes "[] \<notin> set (pq_reads rq)"
  shows "(case stoull (pq_header rq ''Content-Length'') of
       Some len \<Rightarrow> pq_header rq ''Content-Length'' \<noteq> [] \<longrightarrow>
          read_request_body cfg rq = (if len \<le> sc_max_body_size cfg then Body (take len (concat (pq_reads rq))) else TooLarge True)
     | None \<Rightarrow> pq_header rq ''Content-Length'' \<noteq> [] \<longrightarrow> read_request_body cfg rq = BadLength) \<and>
   (pq_header rq ''Content-Length'' = [] \<and> pq_header rq ''Transfer-Encoding'' \<noteq> [] \<longrightarrow>
      read_request_body cfg rq = (if length (concat (pq_reads rq)) \<le> sc_max_body_size cfg
                          then Body (concat (pq_reads rq)) else TooLarge False)) \<and>
   (\<forall>b. read_request_body cfg rq = Body b \<longrightarrow> length b \<le> sc_max_body_size cfg)"
proof (intro conjI allI impI)
  show "length b \<le> sc_max_body_size cfg" if "read_request_body cfg rq = Body b" for b
  proof -
    have known: "length (read_known n (pq_reads rq)) \<le> sc_max_body_size cfg" if "\<not> n > sc_max_body_size cfg" for n
      using length_read_known [of n "pq_reads rq"] that by simp
    have chunked: "length x \<le> sc_max_body_size cfg" if "read_chunked (sc_max_body_size cfg) [] (pq_reads rq) = Some x" for x
      using length_read_chunked [OF that] by simp
    show ?thesis using that known chunked by (auto simp: read_request_body_def split: if_splits option.splits)
  qed
qed (use assms in \<open>auto simp: read_request_body_def read_known_all read_chunked_all split: option.splits\<close>)

definition posted_request :: photon_request where
  "posted_request = spoofing_request\<lparr>pq_header := (\<lambda>n. if n = ''Content-Length'' then ''3'' else []), pq_reads := [''ab'', ''cd'']\<rparr>"

theorem request_body_read_witness: "read_request_body default_server_config posted_request = Body ''abc''"
proof -
  have h: "pq_header posted_request ''Content-Length'' = ''3''" "pq_reads posted_request = [''ab'', ''cd'']"
    by (simp_all add: posted_request_def)
  have "stoull ''3'' = Some 3" by code_simp
  then show ?thesis
    using request_body_read [of posted_request default_server_config] by (simp add: h default_server_config_def)
qed

section \<open>Requests without a key\<close>

text \<open>The calls that a request may cause before a key was seen.\<close>

fun quiet :: "gateway_call \<Rightarrow> bool" where
  "quiet (ClockRead _) = True"
| "quiet (GarnetRead k _) = (k = ''models:list'')"
| "quiet _ = False"

definition untouched :: "gateway_state \<Rightarrow> gateway_state \<Rightarrow> bool" where
  "untouched s s' \<longleftrightarrow> (\<exists>cs. gs_log s' = cs @ gs_log s \<and> list_all quiet cs) \<and> gs_cache s' = gs_cache s \<and>
     gs_collector s' = gs_collector s \<and> gs_forwarder s' = gs_forwarder s \<and> gs_markers s' = gs_markers s"

lemma untouched_refl [simp]: "untouched s s"
  by (simp add: untouched_def)

lemma untouched_resp [simp]:
  "untouched s (s'\<lparr>gs_resp := r\<rparr>) = untouched s s'" "untouched s (s'\<lparr>gs_metrics := m\<rparr>) = untouched s s'"
  by (simp_all add: untouched_def)

lemma untouched_call:
  "gs_log s' = c # gs_log s \<Longrightarrow> quiet c \<Longrightarrow> gs_cache s' = gs_cache s \<Longrightarrow> gs_collector s' = gs_collector s \<Longrightarrow>
     gs_forwarder s' = gs_forwarder s \<Longrightarrow> gs_markers s' = gs_markers s \<Longrightarrow> untouched s s'"
  unfolding untouched_def by (intro conjI exI [of _ "[c]"]) simp_all

lemma handle_without_key:
  assumes "extract_api_key req = []"
  shows "wp (handle fuel env req m) (\<lambda>_. untouched s) (\<lambda>_ _. False) s"
  using assms by (simp add: handle_def wp_simps Let_def) (auto intro!: untouched_call)

lemma serve_models_quiet: "wp (serve_models re) (\<lambda>_. untouched s) (\<lambda>_ _. False) s"
  by (simp add: serve_models_def wp_simps Let_def answer_with_def) (auto intro!: untouched_call)

lemma handle_request_without_key:
  assumes "extract_api_key req = []"
  shows "wp (handle_request fuel re req) (\<lambda>_. untouched s) (\<lambda>_ _. False) s"
  using handle_without_key [OF assms] serve_models_quiet
  by (auto simp: handle_request_def Let_def answer_with_def serve_ready_def serve_metrics_def wp_simps split: option.splits)

lemma keys_of_request:
  "hq_authorization (gateway_request cfg rq b) = pq_header rq ''Authorization''"
  "hq_x_api_key (gateway_request cfg rq b) = pq_header rq ''X-Api-Key''"
  by (simp_all add: gateway_request_def)



end
