(* ===== verification/Core_Runtime.thy ===== *)
theory Core_Runtime
  imports Http_Server
begin

text \<open>
  The start of the process (\<^verbatim>\<open>main.cpp\<close>, \<^verbatim>\<open>platform/core_runtime.cpp\<close>): the configuration read from the
  environment, the start of each core with its outbox file and listening socket, and the backlog gauge
  that the cores share.
\<close>

section \<open>Configuration\<close>

record CoreRuntimeConfig =
  rc_num_cores :: int
  rc_listen_port :: nat
  rc_garnet_host :: string
  rc_garnet_port :: nat
  rc_garnet_password :: string
  rc_garnet_use_tls :: bool
  rc_garnet_server_name :: string
  rc_garnet_ca_cert_path :: string
  rc_capnp_uds_path :: string
  rc_usage_db_path :: string
  rc_trusted_proxy_cidrs :: string
  rc_stream_timeout_ms :: nat

definition env_or :: "(string \<Rightarrow> string option) \<Rightarrow> string \<Rightarrow> string \<Rightarrow> string" where
  "env_or getenv name fallback = (case getenv name of Some v \<Rightarrow> cstr v | None \<Rightarrow> fallback)"

text \<open>\<^verbatim>\<open>strtoul(s, nullptr, 10)\<close>: saturating, a minus sign negates modulo \<open>2^64\<close>, 0 without digits.\<close>

definition strtoul10 :: "string \<Rightarrow> int" where
  "strtoul10 s =
     (let t = trim_front is_space s;
          signed = (t \<noteq> [] \<and> (hd t = CHR ''-'' \<or> hd t = CHR ''+''));
          v = digits_value (takeWhile is_digit (if signed then tl t else t))
      in if v \<ge> 2 ^ 64 then 2 ^ 64 - 1 else if signed \<and> hd t = CHR ''-'' then (- v) mod 2 ^ 64 else v)"

definition runtime_config :: "(string \<Rightarrow> string option) \<Rightarrow> CoreRuntimeConfig" where
  "runtime_config getenv =
     (let host = env_or getenv ''GARNET_HOST'' ''garnet''; tls = env_or getenv ''GARNET_TLS'' ''false''
      in \<lparr>rc_num_cores = atoi (env_or getenv ''GATEWAY_CORES'' ''4''),
          rc_listen_port = nat (atoi (env_or getenv ''GATEWAY_LISTEN_PORT'' ''8080'') mod 2 ^ 16),
          rc_garnet_host = host,
          rc_garnet_port = nat (atoi (env_or getenv ''GARNET_PORT'' ''6379'') mod 2 ^ 16),
          rc_garnet_password = env_or getenv ''GARNET_PASSWORD'' [],
          rc_garnet_use_tls = (tls = ''true'' \<or> tls = ''1''),
          rc_garnet_server_name = env_or getenv ''GARNET_SERVER_NAME'' host,
          rc_garnet_ca_cert_path = env_or getenv ''GARNET_CA_CERT_PATH'' [],
          rc_capnp_uds_path = env_or getenv ''CAPNP_UDS_PATH'' ''/var/run/scalaapi/dispatch.sock'',
          rc_usage_db_path = env_or getenv ''GATEWAY_USAGE_DB'' ''/var/lib/scalaapi/usage-outbox.db'',
          rc_trusted_proxy_cidrs = env_or getenv ''GATEWAY_TRUSTED_PROXY_CIDRS'' [],
          rc_stream_timeout_ms = nat (strtoul10 (env_or getenv ''GATEWAY_STREAM_TIMEOUT_MS'' ''300000'') mod 2 ^ 32)\<rparr>)"

section \<open>Cores\<close>

text \<open>
  What the outside world does while a core starts: the cache answers the ping, the database opens,
  and the listening socket and HTTP server are created.
\<close>

record core_io =
  ci_ping :: bool
  ci_db_opens :: bool
  ci_count_ok :: bool
  ci_socket :: bool
  ci_reuse :: bool
  ci_bind :: bool
  ci_listen :: bool
  ci_http_server :: bool

datatype start_error = LengthError | GarnetUnreachable nat | DatabaseFailed nat | ServerFailed nat

record PerCoreState =
  pc_usage_path :: string
  pc_collector :: UsageCollector
  pc_server :: HttpServerConfig
  pc_running :: bool

definition create_server :: "core_io \<Rightarrow> HttpServerConfig \<Rightarrow> HttpServerConfig option" where
  "create_server io cfg =
     (if \<not> ci_socket io then None
      else if \<not> ci_reuse io then None
      else if \<not> ci_bind io then None
      else if \<not> ci_listen io then None
      else if \<not> ci_http_server io then None
      else Some cfg)"

definition usage_path :: "CoreRuntimeConfig \<Rightarrow> nat \<Rightarrow> string" where
  "usage_path cfg i = rc_usage_db_path cfg @ ''.core'' @ to_string i"

definition core_server_config :: "CoreRuntimeConfig \<Rightarrow> nat \<Rightarrow> HttpServerConfig" where
  "core_server_config cfg i =
     default_server_config\<lparr>sc_port := rc_listen_port cfg, sc_core_id := int i,
       sc_trusted_proxy_cidrs := rc_trusted_proxy_cidrs cfg, sc_stream_timeout_ms := rc_stream_timeout_ms cfg\<rparr>"

text \<open>The start of core \<open>i\<close> over the database files of the host; the counters are shared by all cores.\<close>

definition start_core :: "CoreRuntimeConfig \<Rightarrow> (string \<Rightarrow> Outbox) \<Rightarrow> core_io \<Rightarrow> nat \<Rightarrow> Metrics \<Rightarrow> (start_error + PerCoreState) \<times> Metrics" where
  "start_core cfg disk io i m =
     (if \<not> ci_ping io then (Inl (GarnetUnreachable i), m)
      else if \<not> ci_db_opens io then (Inl (DatabaseFailed i), m)
      else let path = usage_path cfg i; col = database_collector (disk path);
               m' = m\<lparr>mt_usage_events_buffered := mt_usage_events_buffered m + of_nat (pending (ci_count_ok io) col)\<rparr>
           in case create_server io (core_server_config cfg i) of
                None \<Rightarrow> (Inl (ServerFailed i), m')
              | Some srv \<Rightarrow> (Inr \<lparr>pc_usage_path = path, pc_collector = col, pc_server = srv, pc_running = True\<rparr>, m'))"

text \<open>All cores; an exception of one ends the process.  The vector of cores cannot be given a negative size.\<close>

fun start_cores :: "CoreRuntimeConfig \<Rightarrow> (string \<Rightarrow> Outbox) \<Rightarrow> (nat \<Rightarrow> core_io) \<Rightarrow> nat list \<Rightarrow> Metrics \<Rightarrow> start_error + PerCoreState list \<times> Metrics" where
  "start_cores cfg disk io [] m = Inr ([], m)"
| "start_cores cfg disk io (i # is) m =
     (case start_core cfg disk (io i) i m of
        (Inl e, _) \<Rightarrow> Inl e
      | (Inr c, m') \<Rightarrow> res_bind (start_cores cfg disk io is m') (\<lambda>(cs, m''). Inr (c # cs, m'')))"

definition start_runtime :: "CoreRuntimeConfig \<Rightarrow> (string \<Rightarrow> Outbox) \<Rightarrow> (nat \<Rightarrow> core_io) \<Rightarrow> Metrics \<Rightarrow> start_error + PerCoreState list \<times> Metrics" where
  "start_runtime cfg disk io m =
     (if rc_num_cores cfg < 0 then Inl LengthError else start_cores cfg disk io [0..<nat (rc_num_cores cfg)] m)"

section \<open>What starting establishes\<close>

lemma usage_path_inj: "usage_path cfg i = usage_path cfg j \<Longrightarrow> i = j"
  by (simp add: usage_path_def to_string_inj)

lemma start_core_ok:
  assumes "start_core cfg disk io i m = (Inr c, m')"
  shows "pc_usage_path c = usage_path cfg i \<and> pc_collector c = database_collector (disk (usage_path cfg i)) \<and>
    pc_server c = core_server_config cfg i \<and>
    mt_usage_events_buffered m' = mt_usage_events_buffered m + of_nat (pending (ci_count_ok io) (pc_collector c))"
  using assms by (auto simp: start_core_def create_server_def Let_def split: if_splits option.splits)

lemma start_cores_ok:
  assumes "start_cores cfg disk io is m = Inr (cs, m')"
  shows "map pc_usage_path cs = map (usage_path cfg) is \<and> map pc_server cs = map (core_server_config cfg) is \<and>
    map pc_collector cs = map (\<lambda>i. database_collector (disk (usage_path cfg i))) is \<and>
    mt_usage_events_buffered m' = mt_usage_events_buffered m +
      of_nat (sum_list (map (\<lambda>i. pending (ci_count_ok (io i)) (database_collector (disk (usage_path cfg i)))) is))"
  using assms
proof (induction "is" arbitrary: m cs)
  case Nil
  then show ?case by simp
next
  case (Cons i rest)
  then obtain c m1 cs1 where c: "start_core cfg disk (io i) i m = (Inr c, m1)" "start_cores cfg disk io rest m1 = Inr (cs1, m')"
      "cs = c # cs1"
    by (auto simp: res_bind_def split: prod.splits sum.splits)
  from start_core_ok [OF c(1)] Cons.IH [OF c(2)] c(3) show ?case by simp
qed

text \<open>
  C27.  Starting the gateway keeps the outboxes of its cores apart and counts what they hold: when every
  core has started, no two cores use the same database file, every core listens on the configured port
  with the configured trusted networks, and the backlog gauge has grown by exactly the pending events
  of all the files (modulo 2^64).
\<close>

theorem cores_start_apart:
  assumes "start_runtime cfg disk io m = Inr (cs, m')"
  shows "distinct (map pc_usage_path cs) \<and> length cs = nat (rc_num_cores cfg) \<and>
    list_all (\<lambda>c. sc_port (pc_server c) = rc_listen_port cfg \<and> sc_trusted_proxy_cidrs (pc_server c) = rc_trusted_proxy_cidrs cfg) cs \<and>
    mt_usage_events_buffered m' = mt_usage_events_buffered m +
      of_nat (\<Sum>i<nat (rc_num_cores cfg). pending (ci_count_ok (io i)) (database_collector (disk (usage_path cfg i))))"
proof -
  let ?is = "[0..<nat (rc_num_cores cfg)]"
  have "start_cores cfg disk io ?is m = Inr (cs, m')" using assms by (simp add: start_runtime_def split: if_splits)
  note ok = start_cores_ok [OF this]
  have "distinct (map (usage_path cfg) ?is)" by (simp add: distinct_map inj_on_def usage_path_inj)
  moreover have "length cs = length ?is" using ok by (metis length_map)
  moreover have "list_all (\<lambda>c. sc_port (pc_server c) = rc_listen_port cfg \<and> sc_trusted_proxy_cidrs (pc_server c) = rc_trusted_proxy_cidrs cfg) cs"
  proof -
    have "\<forall>srv\<in>set (map pc_server cs). sc_port srv = rc_listen_port cfg \<and> sc_trusted_proxy_cidrs srv = rc_trusted_proxy_cidrs cfg"
      using ok by (auto simp: core_server_config_def default_server_config_def)
    then show ?thesis unfolding set_map list_all_iff by blast
  qed
  ultimately show ?thesis using ok by (simp add: interv_sum_list_conv_sum_set_nat lessThan_atLeast0)
qed

definition calm_io :: core_io where
  "calm_io = \<lparr>ci_ping = True, ci_db_opens = True, ci_count_ok = True, ci_socket = True, ci_reuse = True, ci_bind = True,
     ci_listen = True, ci_http_server = True\<rparr>"

definition empty_disk :: "string \<Rightarrow> Outbox" where
  "empty_disk _ = \<lparr>usage_outbox = [], evidence_outbox = []\<rparr>"

theorem cores_start_apart_witness:
  "\<exists>cs m'. start_runtime (runtime_config (\<lambda>_. None)) empty_disk (\<lambda>_. calm_io) no_metrics = Inr (cs, m') \<and>
     distinct (map pc_usage_path cs) \<and> length cs = 4"
proof -
  have "atoi ''4'' = 4" by (simp add: atoi_def cstr_def strtol10_def Let_def trim_front_def is_digit_def is_space_def byte_of_def
      digits_value_def int_bounds to_int32_def)
  then have n: "rc_num_cores (runtime_config (\<lambda>_. None)) = 4" by (simp add: runtime_config_def env_or_def Let_def)
  have one: "\<exists>c m1. start_core cfg empty_disk calm_io i m = (Inr c, m1)" for cfg i m
    by (simp add: start_core_def create_server_def calm_io_def Let_def)
  have all: "\<exists>cs m'. start_cores cfg empty_disk (\<lambda>_. calm_io) is m = Inr (cs, m')" for cfg "is" m
  proof (induction "is" arbitrary: m)
    case (Cons i rest)
    obtain c m1 where "start_core cfg empty_disk calm_io i m = (Inr c, m1)" using one by blast
    moreover obtain cs m' where "start_cores cfg empty_disk (\<lambda>_. calm_io) rest m1 = Inr (cs, m')" using Cons by blast
    ultimately show ?case by (simp add: res_bind_def)
  qed simp
  obtain cs m' where "start_cores (runtime_config (\<lambda>_. None)) empty_disk (\<lambda>_. calm_io) [0..<4] no_metrics = Inr (cs, m')"
    using all by blast
  then have run: "start_runtime (runtime_config (\<lambda>_. None)) empty_disk (\<lambda>_. calm_io) no_metrics = Inr (cs, m')"
    by (simp add: start_runtime_def n)
  from cores_start_apart [OF run] run n show ?thesis by auto
qed

end
