(* ===== verification/Spec2Isabelle.thy ===== *)
theory Spec2Isabelle
  imports Failover Auth Websocket Dispatch_Types Capability_Registry Converter Validation Usage_Reporter Forwarder Handler_Accounting Handler_Defects Dispatch_Client Realtime_Bridge Core_Runtime
begin

text \<open>
  A verification library for the ScalaAPI gateway, a C++ server (sources under \<^verbatim>\<open>src/src\<close>) between
  the clients of language models and their providers.  A client sends a request in one of four wire
  formats.  The gateway authenticates it, asks a platform service for a lease on a provider account,
  converts the request to the format of that provider, forwards it, converts the answer back (in one
  piece or as a stream), submits it to a content policy, and settles the lease with a usage event.

  \<^bold>\<open>How the parts interact.\<close>  \<^verbatim>\<open>main\<close> reads the configuration and starts one thread per core
  (\<^verbatim>\<open>platform/core_runtime\<close>).  A core has an HTTP server, a router, a request handler, a cache of
  authentication answers, a client of the Garnet cache, two clients of the platform and a usage
  outbox with a reporter.  \<^verbatim>\<open>server/http_server\<close> reads a request and hands it to \<^verbatim>\<open>server/router\<close>,
  which calls \<^verbatim>\<open>GatewayHandler::handle\<close>, or \<^verbatim>\<open>bridge_realtime\<close> for a WebSocket.  The handler uses
  \<^verbatim>\<open>auth\<close>, \<^verbatim>\<open>dispatch\<close>, \<^verbatim>\<open>protocol\<close> and \<^verbatim>\<open>forwarder\<close>, and leaves usage events in the outbox of
  \<^verbatim>\<open>usage\<close>, from which the reporter takes them to the platform.

  \<^bold>\<open>Foundations.\<close>
  \<^item> \<open>Prelude\<close>: integer ranges, the operations of \<^verbatim>\<open>std::string\<close> and number parsing that the code uses,
    and the collections of lemmas that the components share.
  \<^item> \<open>Json\<close>: the values of RapidJSON and their accessors, whose failed assertions are the error
    \<open>AssertFailed\<close>.  Parser and writer are the parameter \<open>rapidjson\<close>, two functions.  Theorems that read
    back what was written assume that parsing the written text gives the value.
  \<^item> \<open>Dispatch_Types\<close>: the records of \<^verbatim>\<open>dispatch/capnp_dispatch_client.h\<close> and its decisions.

  \<^bold>\<open>Formats and conversion\<close> (\<^verbatim>\<open>protocol\<close>).
  \<^item> \<open>Chat_Ir\<close>, \<open>Format_Common\<close>, \<open>Openai_Format\<close>, \<open>Anthropic_Format\<close>, \<open>Gemini_Format\<close>, \<open>Responses_Format\<close>:
    the intermediate representation, and for every format the reading and writing of requests and
    stream events, one definition per C++ function.  The interface \<open>chat_codec\<close> (what is written is
    read back) is interpreted on all four.
  \<^item> \<open>Converter\<close>: \<^verbatim>\<open>convert_request\<close>, the conversion of responses, events and errors.  A conversion
    keeps the meaning of a request, the tool calls and the usage of a response and the class of an
    error.
  \<^item> \<open>Validation\<close>: the validators for embeddings, catalogs, token counts and media, and multipart fields.

  \<^bold>\<open>Forwarding\<close> (\<^verbatim>\<open>forwarder\<close>).
  \<^item> \<open>Failover\<close>: back-off delays and the choice after a failure; 32-bit arithmetic is kept.
  \<^item> \<open>Stream_Pipe\<close>: the pipe from provider to client as a fold over the rounds of its loop; no event
    passes without the policy, and the cuts between chunks do not matter.
  \<^item> \<open>Forwarder\<close>: the HTTP exchange with a provider, the headers it sends and the pool of clients.

  \<^bold>\<open>Accounting\<close> (\<^verbatim>\<open>usage\<close>).
  \<^item> \<open>Usage_Collector\<close>, \<open>Usage_Reporter\<close>: the two tables of the outbox with the SQL statements of the
    code as functions on lists of rows, and a pass of the reporter.  The interface \<open>outbox\<close> is
    interpreted on the table; an event stays pending until the platform gave a final answer, and an
    outbox whose events are answered drains.

  \<^bold>\<open>Authentication, cache and platform\<close> (\<^verbatim>\<open>auth\<close>, \<^verbatim>\<open>cache\<close>, \<^verbatim>\<open>dispatch\<close>, \<^verbatim>\<open>platform\<close>).
  \<^item> \<open>Auth\<close>: the fixed-size cache (interface \<open>lossy_cache\<close>: a hit is the latest insertion) and the
    invalidation by version.
  \<^item> \<open>Garnet_Client\<close>, \<open>Fault_Injection\<close>: the cache client and the crash points.
  \<^item> \<open>Dispatch_Client\<close>: frames over the socket (interface \<open>framing\<close>), reconnection, the two tries of a
    call and the eight calls; an answer that is missing, malformed or of another version grants
    nothing.

  \<^bold>\<open>The server\<close> (\<^verbatim>\<open>server\<close>).
  \<^item> \<open>Capability_Registry\<close>, \<open>Websocket\<close>: the route table with the checks of paths and queries, and frames,
    SHA-1 and Base64 of the WebSocket handshake.
  \<^item> \<open>Gateway_State\<close>, \<open>Handler_Requests\<close>, \<open>Gateway_Handler\<close>: the state of the handler, its functions
    without effects, and \<^verbatim>\<open>GatewayHandler::handle\<close>.  Its operations have the type \<open>gw\<close>: a state is mapped
    to a result, or a reason why the function did not return, and a state.  Every call to the outside
    is entered in a log; the answers are functions of the log (\<open>gateway_env\<close>).
  \<^item> \<open>Handler_Example\<close>, \<open>Lease_Protocol\<close>, \<open>Handler_Properties\<close>, \<open>Handler_Policy\<close>, \<open>Handler_Accounting\<close>,
    \<open>Handler_Defects\<close>: what every run of the handler does.  \<open>Lease_Protocol\<close> states the protocol of leases
    as an automaton over the log and proves that the handler refines it; the others show
    termination, fresh request identifiers, the gauge of connections, the content policy, the range of
    the counts, and two defects.
  \<^item> \<open>Realtime_Bridge\<close>: WebSocket sessions, the two relaying threads as an inductive step relation in
    which they interleave freely; limits and the lease protocol are kept.
  \<^item> \<open>Http_Server\<close>, \<open>Core_Runtime\<close>: router, HTTP server, configuration and start of the cores.

  This theory composes them: what an HTTP request, from the socket to its answer, leaves behind.

  \<^bold>\<open>Bounds.\<close>  The retry loop of the handler runs on fuel, because the C++ loop is bounded only by the
  clock; 35 attempts are enough on a steady clock (a theorem of \<open>Handler_Properties\<close>: ten seconds,
  with delays that grow).  All other loops are total functions: they consume a string, a list of pieces or a script of
  outcomes.  The pipe and a provider that has not answered yet give \<open>Waiting\<close>, and a script of the
  dispatch client that is too short gives \<open>None\<close>.  Counters are words of their width, and token counts
  are integers whose range is a theorem.

  \<^bold>\<open>Parameters.\<close>  RapidJSON's parser and writer, Cap'n Proto's encoders and decoders, SHA-256, the
  network, the clock, random numbers and the outcome of database statements are arguments of the
  definitions that use them.  Where a theorem relies on one of them, the law is a hypothesis of the
  theorem, and a witness gives a concrete function for it.

  \<^bold>\<open>Not modelled.\<close>  Log lines and \<^verbatim>\<open>platform/logging\<close>, which have no effect on the rest; the threads of
  the operating system, signals and the order of destruction at shutdown, for which the sources only
  call the library; socket timeouts of the HTTP server and the moment at which the head of a streamed
  answer is written; the interleaving of several requests on one core, since a run of the handler is
  one request over the shared state; tests and build files.
\<close>

section \<open>The server as a whole\<close>

text \<open>
  What a served request leaves behind: a log that keeps the lease protocol, with no lease outstanding
  except one whose request could not be converted.
\<close>

definition served :: "gateway_env \<Rightarrow> gateway_state \<Rightarrow> bool" where
  "served env s \<longleftrightarrow> (\<exists>p. phase s = Some p \<and>
     (outstanding p = None \<or> (\<exists>req m r. p = Leased r \<and> conversion_failed env req m r)))"

definition halted :: "halt \<Rightarrow> gateway_state \<Rightarrow> bool" where
  "halted h s \<longleftrightarrow> phase s \<noteq> None \<and> h \<noteq> TooManyAttempts"

lemma served_resp [simp]:
  "served env (s\<lparr>gs_resp := r\<rparr>) = served env s"
  by (simp add: served_def)

lemma idle_served: "in_phase Idle s \<Longrightarrow> served env s"
  by (simp add: served_def outstanding_def)

lemma ended_served: "ended env req m s \<Longrightarrow> served env s"
  by (fastforce simp: ended_def served_def outstanding_def)

lemma handle_served:
  assumes "in_phase Idle s" and "steady_clock env" and "35 \<le> fuel"
  shows "wp (handle fuel env req m) (\<lambda>_. served env) halted s"
  using handle_phase [OF assms(1), of fuel env req m] handle_time [OF assms(2,3), of req m s]
  by (auto simp: wp_def halted_def conforms_def intro: ended_served split: prod.splits sum.splits)

lemma serve_models_served: "in_phase Idle s \<Longrightarrow> wp (serve_models re) (\<lambda>_. served env) halted s"
  by (simp add: serve_models_def wp_simps Let_def answer_with_def served_def lease_step.simps outstanding_def)

lemma handle_request_served:
  assumes "in_phase Idle s" and "steady_clock (re_gateway re)" and "35 \<le> fuel"
  shows "wp (handle_request fuel re req) (\<lambda>_. served (re_gateway re)) halted s"
  using handle_served [OF assms] serve_models_served [OF assms(1)] idle_served [OF assms(1)]
  by (auto simp: handle_request_def Let_def answer_with_def serve_ready_def serve_metrics_def wp_simps split: option.splits)

lemma http_handler_served:
  assumes "in_phase Idle s" and "steady_clock (re_gateway re)" and "35 \<le> fuel"
  shows "wp (http_handler fuel re cfg rq) (\<lambda>_. served (re_gateway re)) halted s"
proof -
  have "in_phase Idle (s\<lparr>gs_resp := new_response True (pq_sink rq)\<rparr>)" using assms(1) by simp
  from handle_request_served [OF this assms(2,3)]
  have "wp (handle_request fuel re (gateway_request cfg rq b))
      (\<lambda>_. wp (gw_get (\<lambda>s. let r = gs_resp s in if rs_sink r \<noteq> pq_sink rq then Streamed (sent (rs_sink r)) else final_answer r))
        (\<lambda>_. served (re_gateway re)) halted)
      halted (s\<lparr>gs_resp := new_response True (pq_sink rq)\<rparr>)" for b
    by (rule wp_mono) (auto simp: wp_get)
  then show ?thesis using idle_served [OF assms(1)] unfolding http_handler_def
    by (auto simp: wp_return wp_then wp_set_resp split: body_result.splits)
qed


definition steady_router :: router_env where
  "steady_router = \<lparr>re_gateway = ex_env\<lparr>e_now := sleep_clock\<rparr>, re_connected = (\<lambda>_. True), re_ping = (\<lambda>_. True)\<rparr>"


end
